(* ===== verification/Prelude.thy ===== *)
theory Prelude
  imports Main
begin

text \<open>
  Shared vocabulary of the development: the relational operations that the
  prepared statements of \<open>apps/api/src/db\<close> perform on a table, the result type of
  a route handler, and the generic list facts the component theories rely on.

  A table is a list of rows in rowid order.  A statement with a \<open>WHERE\<close> clause is
  one of the functions below, applied to the clause as a predicate on rows.
\<close>

named_theorems table_simps \<open>equations about the relational operations\<close>
named_theorems frame_simps \<open>which tables an operation leaves alone\<close>

subsection \<open>Relational operations on a table\<close>

definition sql_delete :: "('r \<Rightarrow> bool) \<Rightarrow> 'r list \<Rightarrow> 'r list" where
  "sql_delete P t = filter (\<lambda>r. \<not> P r) t"

definition sql_update :: "('r \<Rightarrow> bool) \<Rightarrow> ('r \<Rightarrow> 'r) \<Rightarrow> 'r list \<Rightarrow> 'r list" where
  "sql_update P f t = map (\<lambda>r. if P r then f r else r) t"

definition sql_count :: "('r \<Rightarrow> bool) \<Rightarrow> 'r list \<Rightarrow> nat" where
  "sql_count P t = length (filter P t)"

definition sql_get :: "('r \<Rightarrow> bool) \<Rightarrow> 'r list \<Rightarrow> 'r option" where
  "sql_get P t = find P t"

definition sql_exists :: "('r \<Rightarrow> bool) \<Rightarrow> 'r list \<Rightarrow> bool" where
  "sql_exists P t = list_ex P t"

text \<open>\<open>ORDER BY k\<close> and \<open>ORDER BY k DESC\<close>; rows with equal keys keep rowid order.\<close>

definition order_asc :: "('r \<Rightarrow> 'k::linorder) \<Rightarrow> 'r list \<Rightarrow> 'r list" where
  "order_asc k t = sort_key k t"

definition order_desc :: "('r \<Rightarrow> int) \<Rightarrow> 'r list \<Rightarrow> 'r list" where
  "order_desc k t = sort_key (\<lambda>r. - k r) t"

text \<open>
  \<open>INSERT ... ON CONFLICT (key) DO UPDATE\<close>: replace the row that holds the key,
  or append a new one.
\<close>

definition sql_upsert :: "('r \<Rightarrow> bool) \<Rightarrow> ('r \<Rightarrow> 'r) \<Rightarrow> 'r \<Rightarrow> 'r list \<Rightarrow> 'r list" where
  "sql_upsert P f new t = (if sql_exists P t then sql_update P f t else t @ [new])"

text \<open>\<open>INSERT OR IGNORE\<close>: append unless a row already holds the key.\<close>

definition sql_insert_ignore :: "('r \<Rightarrow> bool) \<Rightarrow> 'r \<Rightarrow> 'r list \<Rightarrow> 'r list" where
  "sql_insert_ignore P new t = (if sql_exists P t then t else t @ [new])"

text \<open>\<open>INSERT OR REPLACE\<close>: delete the row that holds the key, then append.\<close>

definition sql_replace :: "('r \<Rightarrow> bool) \<Rightarrow> 'r \<Rightarrow> 'r list \<Rightarrow> 'r list" where
  "sql_replace P new t = sql_delete P t @ [new]"

subsection \<open>Facts about the relational operations\<close>

lemma set_sql_delete [simp, table_simps]: "set (sql_delete P t) = {r \<in> set t. \<not> P r}"
  by (auto simp: sql_delete_def)

lemma set_sql_update [simp, table_simps]:
  "set (sql_update P f t) = (\<lambda>r. if P r then f r else r) ` set t"
  by (simp add: sql_update_def)

lemma sql_delete_Nil [simp, table_simps]: "sql_delete P [] = []"
  by (simp add: sql_delete_def)

lemma sql_delete_Cons [simp, table_simps]:
  "sql_delete P (r # t) = (if P r then sql_delete P t else r # sql_delete P t)"
  by (simp add: sql_delete_def)

lemma sql_update_Nil [simp, table_simps]: "sql_update P f [] = []"
  by (simp add: sql_update_def)

lemma sql_update_Cons [simp, table_simps]:
  "sql_update P f (r # t) = (if P r then f r else r) # sql_update P f t"
  by (simp add: sql_update_def)

lemma sql_delete_append [simp, table_simps]:
  "sql_delete P (t @ u) = sql_delete P t @ sql_delete P u"
  by (simp add: sql_delete_def)

lemma sql_delete_idle [table_simps]: "(\<And>r. r \<in> set t \<Longrightarrow> \<not> P r) \<Longrightarrow> sql_delete P t = t"
  by (simp add: sql_delete_def filter_id_conv)

lemma sql_delete_twice [simp, table_simps]: "sql_delete P (sql_delete P t) = sql_delete P t"
  by (simp add: sql_delete_def)

lemma sql_exists_iff [table_simps]: "sql_exists P t \<longleftrightarrow> (\<exists>r \<in> set t. P r)"
  by (simp add: sql_exists_def list_ex_iff)

lemma sql_get_None [table_simps]: "sql_get P t = None \<longleftrightarrow> (\<forall>r \<in> set t. \<not> P r)"
  by (auto simp: sql_get_def find_None_iff)

lemma sql_get_SomeD: "sql_get P t = Some r \<Longrightarrow> r \<in> set t \<and> P r"
  by (auto simp: sql_get_def find_Some_iff)

lemma sql_get_Nil [simp, table_simps]: "sql_get P [] = None"
  by (simp add: sql_get_def)

lemma sql_get_Cons [simp, table_simps]:
  "sql_get P (r # t) = (if P r then Some r else sql_get P t)"
  by (simp add: sql_get_def)

lemma sql_get_append [table_simps]:
  "sql_get P (t @ u) = (case sql_get P t of None \<Rightarrow> sql_get P u | Some r \<Rightarrow> Some r)"
  by (induction t) auto

lemma sql_get_delete_same [simp, table_simps]: "sql_get P (sql_delete P t) = None"
  by (simp add: sql_get_None)

lemma sql_get_delete_other [table_simps]:
  "(\<And>r. r \<in> set t \<Longrightarrow> Q r \<Longrightarrow> \<not> P r) \<Longrightarrow> sql_get Q (sql_delete P t) = sql_get Q t"
  by (induction t) auto

lemma sql_get_update_other [table_simps]:
  assumes "\<And>r. P r \<Longrightarrow> \<not> Q r" and "\<And>r. P r \<Longrightarrow> \<not> Q (f r)"
  shows "sql_get Q (sql_update P f t) = sql_get Q t"
  using assms by (induction t) auto

lemma sql_get_update_same [table_simps]:
  assumes "\<And>r. P r \<Longrightarrow> P (f r)"
  shows "sql_get P (sql_update P f t) = map_option f (sql_get P t)"
  using assms by (induction t) auto

lemma sql_get_upsert [table_simps]:
  assumes "\<And>r. P r \<Longrightarrow> P (f r)" and "P new"
  shows "sql_get P (sql_upsert P f new t) =
    Some (case sql_get P t of None \<Rightarrow> new | Some r \<Rightarrow> f r)"
proof (cases "sql_get P t")
  case None
  then have "\<not> sql_exists P t" by (auto simp: sql_exists_iff sql_get_None)
  then show ?thesis
    using None assms by (simp add: sql_upsert_def sql_get_append)
next
  case (Some r)
  then have "sql_exists P t" by (auto simp: sql_exists_iff dest: sql_get_SomeD)
  then show ?thesis
    using Some assms(1) by (simp add: sql_upsert_def sql_get_update_same)
qed

lemma sql_get_upsert_other [table_simps]:
  assumes "\<And>r. P r \<Longrightarrow> \<not> Q r" and "\<And>r. P r \<Longrightarrow> \<not> Q (f r)" and "\<not> Q new"
  shows "sql_get Q (sql_upsert P f new t) = sql_get Q t"
  using assms by (auto simp: sql_upsert_def sql_get_update_other sql_get_append split: option.split)

lemma map_sql_update [table_simps]:
  "(\<And>r. k (f r) = k r) \<Longrightarrow> map k (sql_update P f t) = map k t"
  by (induction t) auto

lemma image_sql_update [table_simps]:
  assumes "\<And>r. k (f r) = k r"
  shows "k ` set (sql_update P f t) = k ` set t"
proof -
  have "set (map k (sql_update P f t)) = set (map k t)"
    using assms by (simp only: map_sql_update)
  then show ?thesis by (simp only: set_map)
qed

lemma sql_count_Nil [simp, table_simps]: "sql_count P [] = 0"
  by (simp add: sql_count_def)

lemma sql_count_Cons [simp, table_simps]:
  "sql_count P (r # t) = (if P r then Suc (sql_count P t) else sql_count P t)"
  by (simp add: sql_count_def)

lemma sql_count_append [simp, table_simps]:
  "sql_count P (t @ u) = sql_count P t + sql_count P u"
  by (simp add: sql_count_def)

lemma sql_count_pos [table_simps]: "0 < sql_count P t \<longleftrightarrow> (\<exists>r \<in> set t. P r)"
  by (induction t) auto

lemma sql_count_zero [table_simps]: "sql_count P t = 0 \<longleftrightarrow> (\<forall>r \<in> set t. \<not> P r)"
  by (induction t) auto

lemma sql_count_delete_le: "sql_count Q (sql_delete P t) \<le> sql_count Q t"
  by (induction t) auto

lemma sql_count_delete_same [simp, table_simps]: "sql_count P (sql_delete P t) = 0"
  by (simp add: sql_count_zero)

lemma sql_count_delete_imp: "(\<And>r. Q r \<Longrightarrow> P r) \<Longrightarrow> sql_count Q (sql_delete P t) = 0"
  by (auto simp: sql_count_zero)

lemma sql_count_delete_disjoint:
  "(\<And>r. Q r \<Longrightarrow> \<not> P r) \<Longrightarrow> sql_count Q (sql_delete P t) = sql_count Q t"
  by (induction t) auto

lemma sql_count_update [table_simps]:
  "(\<And>r. P r \<Longrightarrow> Q (f r) = Q r) \<Longrightarrow> sql_count Q (sql_update P f t) = sql_count Q t"
  by (induction t) auto

lemma sql_count_mono: "(\<And>r. P r \<Longrightarrow> Q r) \<Longrightarrow> sql_count P t \<le> sql_count Q t"
  by (induction t) (auto intro: le_SucI)

lemma filter_sql_delete_disjoint:
  "(\<And>r. Q r \<Longrightarrow> \<not> P r) \<Longrightarrow> filter Q (sql_delete P t) = filter Q t"
  by (induction t) auto

lemma filter_sql_update_disjoint:
  "(\<And>r. P r \<Longrightarrow> \<not> Q r) \<Longrightarrow> (\<And>r. P r \<Longrightarrow> \<not> Q (f r)) \<Longrightarrow>
    filter Q (sql_update P f t) = filter Q t"
  by (induction t) auto

lemma set_order_asc [simp, table_simps]: "set (order_asc k t) = set t"
  by (simp add: order_asc_def)

lemma set_order_desc [simp, table_simps]: "set (order_desc k t) = set t"
  by (simp add: order_desc_def)

lemma length_order_desc [simp, table_simps]: "length (order_desc k t) = length t"
  by (simp add: order_desc_def)

lemma length_order_asc [simp, table_simps]: "length (order_asc k t) = length t"
  by (simp add: order_asc_def)

subsection \<open>Primary keys\<close>

text \<open>A table respects its primary key when no two rows share it.\<close>

definition keyed :: "('r \<Rightarrow> 'k) \<Rightarrow> 'r list \<Rightarrow> bool" where
  "keyed k t \<longleftrightarrow> distinct (map k t)"

lemma keyed_Nil [simp, intro]: "keyed k []"
  by (simp add: keyed_def)

lemma keyed_delete [simp, intro]: "keyed k t \<Longrightarrow> keyed k (sql_delete P t)"
  by (simp add: keyed_def sql_delete_def distinct_map_filter)

lemma keyed_update [intro]: "keyed k t \<Longrightarrow> (\<And>r. k (f r) = k r) \<Longrightarrow> keyed k (sql_update P f t)"
  by (simp add: keyed_def map_sql_update)

lemma keyed_snoc [intro]: "keyed k t \<Longrightarrow> \<forall>x \<in> set t. k x \<noteq> k r \<Longrightarrow> keyed k (t @ [r])"
  by (auto simp: keyed_def)

lemma keyed_upsert:
  assumes "keyed k t" and "\<And>r. k (f r) = k r" and "\<And>r. P r \<longleftrightarrow> k r = k new"
  shows "keyed k (sql_upsert P f new t)"
  using assms by (auto simp: sql_upsert_def sql_exists_iff intro!: keyed_update keyed_snoc)

lemma keyed_unique: "keyed k t \<Longrightarrow> r \<in> set t \<Longrightarrow> r' \<in> set t \<Longrightarrow> k r = k r' \<Longrightarrow> r = r'"
  by (auto simp: keyed_def distinct_map dest: inj_onD)

lemma sql_get_keyed:
  assumes "keyed k t" and "r \<in> set t"
  shows "sql_get (\<lambda>x. k x = k r) t = Some r"
  using assms by (induction t) (auto simp: keyed_def)

lemma sql_get_keyed_iff:
  assumes "keyed k t"
  shows "sql_get (\<lambda>x. k x = i) t = Some r \<longleftrightarrow> r \<in> set t \<and> k r = i"
  using assms sql_get_keyed by (auto dest: sql_get_SomeD)

subsection \<open>Lists and options\<close>

lemma filter_snoc: "filter P (xs @ [x]) = filter P xs @ (if P x then [x] else [])"
  by simp

lemma take_filter_length: "length (take n xs) \<le> n"
  by simp

lemma find_filter: "find P xs = (case filter P xs of [] \<Rightarrow> None | x # _ \<Rightarrow> Some x)"
  by (induction xs) auto

subsection \<open>Replies of a route handler\<close>

text \<open>
  A Fastify handler either sends a payload or an error with a status code and the
  \<open>error\<close> tag of its JSON body.  The human-readable \<open>message\<close> is not modelled.
\<close>

datatype 'a reply = Sent (sent_payload: 'a) | Refused (refused_status: nat) (refused_error: string)

fun is_sent :: "'a reply \<Rightarrow> bool" where
  "is_sent (Sent _) = True"
| "is_sent (Refused _ _) = False"

subsection \<open>Constraint errors\<close>

text \<open>
  An \<open>INSERT\<close> can violate the primary key (or a unique index), or a foreign key; then
  better-sqlite3 throws and nothing is written.
\<close>

datatype sql_error = UniqueViolation | ForeignKeyViolation

definition sql_insert :: "('r \<Rightarrow> 'k) \<Rightarrow> 'r \<Rightarrow> 'r list \<Rightarrow> sql_error + 'r list" where
  "sql_insert k r t = (if sql_exists (\<lambda>x. k x = k r) t then Inl UniqueViolation else Inr (t @ [r]))"

definition bind_ok :: "'e + 'a \<Rightarrow> ('a \<Rightarrow> 'e + 'b) \<Rightarrow> 'e + 'b" where
  "bind_ok x f = (case x of Inl e \<Rightarrow> Inl e | Inr a \<Rightarrow> f a)"

lemma bind_ok_simps [simp]: "bind_ok (Inl e) f = Inl e" "bind_ok (Inr a) f = f a"
  by (simp_all add: bind_ok_def)

lemma bind_ok_Inr: "bind_ok x f = Inr b \<longleftrightarrow> (\<exists>a. x = Inr a \<and> f a = Inr b)"
  by (cases x) simp_all

lemma sql_insert_Inr:
  "sql_insert k r t = Inr t' \<longleftrightarrow> (\<forall>x \<in> set t. k x \<noteq> k r) \<and> t' = t @ [r]"
  by (auto simp: sql_insert_def sql_exists_iff)

lemma sql_insert_keyed: "keyed k t \<Longrightarrow> sql_insert k r t = Inr t' \<Longrightarrow> keyed k t'"
  by (auto simp: sql_insert_Inr)

end
