(* ===== verification/JsText.thy ===== *)
theory JsText
  imports Prelude
begin

text \<open>
  The string functions of JavaScript and of Node's \<open>path.posix\<close> that the code uses.
  A JavaScript string is a list of code units; the development works on the code
  units below 256, so \<open>String.trim\<close> and \<open>String.toLowerCase\<close> are written out for
  Latin-1.  SQLite's \<open>lower()\<close> folds ASCII only and is a different function.
\<close>

subsection \<open>Characters\<close>

definition code_unit :: "char \<Rightarrow> nat" where
  "code_unit c = of_char c"

definition is_digit :: "char \<Rightarrow> bool" where
  "is_digit c \<longleftrightarrow> 48 \<le> code_unit c \<and> code_unit c \<le> 57"

definition digit_value :: "char \<Rightarrow> nat" where
  "digit_value c = code_unit c - 48"

definition is_alnum :: "char \<Rightarrow> bool" where
  "is_alnum c \<longleftrightarrow> is_digit c \<or> (65 \<le> code_unit c \<and> code_unit c \<le> 90) \<or> (97 \<le> code_unit c \<and> code_unit c \<le> 122)"

definition is_hex :: "char \<Rightarrow> bool" where
  "is_hex c \<longleftrightarrow> is_digit c \<or> (65 \<le> code_unit c \<and> code_unit c \<le> 70) \<or> (97 \<le> code_unit c \<and> code_unit c \<le> 102)"

definition js_space :: "char \<Rightarrow> bool" where
  "js_space c \<longleftrightarrow> code_unit c \<in> {9, 10, 11, 12, 13, 32, 160}"

definition lower_char :: "char \<Rightarrow> char" where
  "lower_char c = (let n = code_unit c in
     if (65 \<le> n \<and> n \<le> 90) \<or> (192 \<le> n \<and> n \<le> 222 \<and> n \<noteq> 215) then char_of (n + 32) else c)"

definition ascii_lower_char :: "char \<Rightarrow> char" where
  "ascii_lower_char c = (let n = code_unit c in if 65 \<le> n \<and> n \<le> 90 then char_of (n + 32) else c)"

definition ascii_upper_char :: "char \<Rightarrow> char" where
  "ascii_upper_char c = (let n = code_unit c in if 97 \<le> n \<and> n \<le> 122 then char_of (n - 32) else c)"

subsection \<open>Strings\<close>

definition js_trim :: "string \<Rightarrow> string" where
  "js_trim s = rev (dropWhile js_space (rev (dropWhile js_space s)))"

definition js_lower :: "string \<Rightarrow> string" where
  "js_lower s = map lower_char s"

definition sqlite_lower :: "string \<Rightarrow> string" where
  "sqlite_lower s = map ascii_lower_char s"

definition ascii_upper :: "string \<Rightarrow> string" where
  "ascii_upper s = map ascii_upper_char s"

definition starts_with :: "string \<Rightarrow> string \<Rightarrow> bool" where
  "starts_with s p \<longleftrightarrow> take (length p) s = p"

definition ends_with :: "string \<Rightarrow> string \<Rightarrow> bool" where
  "ends_with s p \<longleftrightarrow> starts_with (rev s) (rev p)"

fun contains :: "string \<Rightarrow> string \<Rightarrow> bool" where
  "contains [] p \<longleftrightarrow> p = []"
| "contains (c # cs) p \<longleftrightarrow> starts_with (c # cs) p \<or> contains cs p"

text \<open>\<open>s.split(d)\<close> for a one-character separator: the empty string gives one empty piece.\<close>

fun split_on :: "char \<Rightarrow> string \<Rightarrow> string list" where
  "split_on d [] = [[]]"
| "split_on d (c # cs) =
     (if c = d then [] # split_on d cs
      else (case split_on d cs of [] \<Rightarrow> [[c]] | w # ws \<Rightarrow> (c # w) # ws))"

fun join :: "string \<Rightarrow> string list \<Rightarrow> string" where
  "join sep [] = []"
| "join sep [w] = w"
| "join sep (w # v # ws) = w @ sep @ join sep (v # ws)"

text \<open>\<open>Number(s)\<close> on a string of decimal digits (the only use in the modelled code).\<close>

definition decimal :: "string \<Rightarrow> nat" where
  "decimal s = fold (\<lambda>c n. 10 * n + digit_value c) s 0"

text \<open>The piece of a string before the first occurrence of a character: \<open>s.split(d)[0]\<close>.\<close>

definition before :: "char \<Rightarrow> string \<Rightarrow> string" where
  "before d s = takeWhile (\<lambda>c. c \<noteq> d) s"

text \<open>
  \<open>encodeURIComponent\<close>: unreserved characters stay, every other one becomes the
  percent-encoded bytes of its UTF-8 form (one byte below 128, two below 256).
\<close>

definition hex_upper :: "nat \<Rightarrow> char" where
  "hex_upper n = ''0123456789ABCDEF'' ! (n mod 16)"

definition percent_byte :: "nat \<Rightarrow> string" where
  "percent_byte n = [CHR ''%'', hex_upper (n div 16), hex_upper n]"

definition utf8_bytes :: "char \<Rightarrow> nat list" where
  "utf8_bytes c = (let n = code_unit c in
     if n < 128 then [n] else [192 + n div 64, 128 + n mod 64])"

definition encode_uri_char :: "char \<Rightarrow> string" where
  "encode_uri_char c =
     (if is_alnum c \<or> c \<in> set ''-_.!~*'' \<or> code_unit c \<in> {39, 40, 41} then [c]
      else concat (map percent_byte (utf8_bytes c)))"

definition encode_uri_component :: "string \<Rightarrow> string" where
  "encode_uri_component s = concat (map encode_uri_char s)"

lemma starts_with_iff: "starts_with s p \<longleftrightarrow> (\<exists>r. s = p @ r)"
  by (metis append_eq_conv_conj append_take_drop_id starts_with_def)

lemma starts_with_self [simp]: "starts_with s s"
  by (simp add: starts_with_def)

lemma starts_with_append [simp]: "starts_with (p @ r) p"
  by (simp add: starts_with_def)

lemma starts_with_trans: "starts_with s p \<Longrightarrow> starts_with p q \<Longrightarrow> starts_with s q"
  by (auto simp: starts_with_iff)

lemma starts_with_same_append [simp]: "starts_with (p @ s) (p @ q) \<longleftrightarrow> starts_with s q"
  by (simp add: starts_with_def)

lemma split_on_not_Nil [simp]: "split_on d s \<noteq> []"
  by (induction s) (auto split: list.splits)

lemma split_on_no_sep: "w \<in> set (split_on d s) \<Longrightarrow> d \<notin> set w"
proof (induction s arbitrary: w)
  case Nil
  then show ?case by simp
next
  case (Cons c cs)
  then show ?case
    by (cases "split_on d cs") (auto split: if_splits)
qed

lemma split_on_plain: "d \<notin> set w \<Longrightarrow> split_on d w = [w]"
  by (induction w) auto

lemma split_on_append: "split_on d (w @ d # s) = (split_on d w) @ split_on d s"
  by (induction w) (auto split: list.splits)

lemma split_on_join:
  "ws \<noteq> [] \<Longrightarrow> (\<And>w. w \<in> set ws \<Longrightarrow> d \<notin> set w) \<Longrightarrow> split_on d (join [d] ws) = ws"
proof (induction ws)
  case (Cons w ws)
  then show ?case
    by (cases ws) (simp_all add: split_on_append split_on_plain)
qed simp

lemma join_split_on: "join [d] (split_on d s) = s"
proof (induction s)
  case (Cons c cs)
  obtain w ws where s: "split_on d cs = w # ws" by (cases "split_on d cs") auto
  with Cons have "join [d] (w # ws) = cs" by simp
  then show ?case using s by (cases ws) auto
qed simp

lemma join_Cons: "ws \<noteq> [] \<Longrightarrow> join sep (w # ws) = w @ sep @ join sep ws"
  by (cases ws) auto

lemma join_append:
  assumes "us \<noteq> []" and "ws \<noteq> []"
  shows "join sep (us @ ws) = join sep us @ sep @ join sep ws"
  using assms(1)
proof (induction us)
  case (Cons u us)
  then show ?case using assms(2) by (cases us) (simp_all add: join_Cons)
qed simp

lemma code_unit_less [simp]: "code_unit c < 256"
  by (simp add: code_unit_def)

lemma code_unit_char_of [simp]: "n < 256 \<Longrightarrow> code_unit (char_of n) = n"
  by (simp add: code_unit_def)

lemma char_of_code_unit [simp]: "char_of (code_unit c) = c"
  by (simp add: code_unit_def)

lemma lower_char_idem [simp]: "lower_char (lower_char c) = lower_char c"
  by (auto simp: lower_char_def Let_def)

lemma js_lower_idem [simp]: "js_lower (js_lower s) = js_lower s"
  by (simp add: js_lower_def)

lemma js_lower_length [simp]: "length (js_lower s) = length s"
  by (simp add: js_lower_def)

lemma lower_char_space [simp]: "js_space (lower_char c) \<longleftrightarrow> js_space c"
  by (auto simp: lower_char_def js_space_def Let_def)

lemma js_trim_Nil [simp]: "js_trim [] = []"
  by (simp add: js_trim_def)

lemma dropWhile_map_pred: "(\<And>x. P (f x) = P x) \<Longrightarrow> dropWhile P (map f xs) = map f (dropWhile P xs)"
  by (induction xs) auto

lemma js_trim_lower: "js_trim (js_lower s) = js_lower (js_trim s)"
  by (simp add: js_trim_def js_lower_def dropWhile_map_pred rev_map)

lemma hd_dropWhile_not: "dropWhile P xs = y # ys \<Longrightarrow> \<not> P y"
  by (induction xs) (auto split: if_splits)

lemma dropWhile_rev_dropWhile:
  "dropWhile P (rev (dropWhile P (rev (dropWhile P s)))) = rev (dropWhile P (rev (dropWhile P s)))"
proof -
  let ?m = "dropWhile P s"
  have eq: "?m = rev (dropWhile P (rev ?m)) @ rev (takeWhile P (rev ?m))"
    by (metis rev_append rev_rev_ident takeWhile_dropWhile_id)
  show ?thesis
  proof (cases "rev (dropWhile P (rev ?m))")
    case (Cons y ys)
    with eq have "?m = y # (ys @ rev (takeWhile P (rev ?m)))" by simp
    then have "\<not> P y" by (rule hd_dropWhile_not)
    with Cons show ?thesis by simp
  next
    case Nil
    show ?thesis unfolding Nil by simp
  qed
qed

lemma js_trim_idem [simp]: "js_trim (js_trim s) = js_trim s"
  by (simp add: js_trim_def dropWhile_rev_dropWhile)

lemma js_trim_no_space: "(\<forall>c \<in> set s. \<not> js_space c) \<Longrightarrow> js_trim s = s"
  by (simp add: js_trim_def) (metis dropWhile_eq_self_iff hd_in_set hd_rev last_in_set rev_rev_ident set_rev)

subsection \<open>POSIX paths\<close>

text \<open>
  Node's \<open>normalizeString\<close> walks the segments between slashes: empty and dot
  segments vanish, a dot-dot segment removes the one before it and, where that is
  not possible, is kept for a relative path and dropped for an absolute one.  The
  accumulator holds the segments so far, last one first.
\<close>

fun norm_segments :: "bool \<Rightarrow> string list \<Rightarrow> string list \<Rightarrow> string list" where
  "norm_segments up acc [] = rev acc"
| "norm_segments up acc (s # ss) =
     (if s = '''' \<or> s = ''.'' then norm_segments up acc ss
      else if s = ''..'' then
        (case acc of
           [] \<Rightarrow> norm_segments up (if up then [''..''] else []) ss
         | a # as \<Rightarrow> if a = ''..'' then norm_segments up (''..'' # acc) ss
                    else norm_segments up as ss)
      else norm_segments up (s # acc) ss)"

definition is_absolute :: "string \<Rightarrow> bool" where
  "is_absolute p \<longleftrightarrow> starts_with p ''/''"

definition posix_normalize :: "string \<Rightarrow> string" where
  "posix_normalize p =
     (if p = '''' then ''.'' else
      let absolute = is_absolute p;
          trailing = ends_with p ''/'';
          body = join ''/'' (norm_segments (\<not> absolute) [] (split_on (CHR ''/'') p))
      in if body = '''' then (if absolute then ''/'' else if trailing then ''./'' else ''.'')
         else (if absolute then ''/'' else '''') @ body @ (if trailing then ''/'' else ''''))"

text \<open>
  \<open>path.resolve(root, p1, ..., pn)\<close> with an absolute first argument: an absolute
  piece starts over, an empty piece is skipped, and the result is normalised
  without a trailing slash.
\<close>

definition path_resolve :: "string \<Rightarrow> string list \<Rightarrow> string" where
  "path_resolve root ps =
     (let full = fold (\<lambda>p acc. if p = '''' then acc else if is_absolute p then p else acc @ ''/'' @ p) ps root
      in ''/'' @ join ''/'' (norm_segments False [] (split_on (CHR ''/'') full)))"

definition plain_segment :: "string \<Rightarrow> bool" where
  "plain_segment s \<longleftrightarrow> s \<noteq> '''' \<and> s \<noteq> ''.'' \<and> s \<noteq> ''..'' \<and> CHR ''/'' \<notin> set s"

lemma norm_segments_plain_acc:
  assumes "\<And>a. a \<in> set acc \<Longrightarrow> plain_segment a" and "\<And>s. s \<in> set ss \<Longrightarrow> CHR ''/'' \<notin> set s"
  shows "s \<in> set (norm_segments False acc ss) \<Longrightarrow> plain_segment s"
  using assms
proof (induction "False" acc ss arbitrary: s rule: norm_segments.induct)
  case (1 acc)
  then show ?case by simp
next
  case (2 acc t ts)
  show ?case
  proof (cases "t = '''' \<or> t = ''.''")
    case True
    with 2 show ?thesis by simp
  next
    case nt: False
    show ?thesis
    proof (cases "t = ''..''")
      case True
      show ?thesis
      proof (cases acc)
        case Nil
        with 2 nt True show ?thesis by simp
      next
        case (Cons a as)
        with 2 have "plain_segment a" by simp
        then have "a \<noteq> ''..''" by (simp add: plain_segment_def)
        with 2 nt True Cons show ?thesis by simp
      qed
    next
      case False
      with nt 2 show ?thesis by (auto simp: plain_segment_def)
    qed
  qed
qed

lemma norm_segments_plain:
  "s \<in> set (norm_segments False [] (split_on (CHR ''/'') p)) \<Longrightarrow> plain_segment s"
  by (rule norm_segments_plain_acc [of "[]" "split_on (CHR ''/'') p"]) (auto dest: split_on_no_sep)

lemma norm_segments_id:
  "(\<And>s. s \<in> set ss \<Longrightarrow> plain_segment s) \<Longrightarrow> norm_segments up acc ss = rev acc @ ss"
  by (induction ss arbitrary: acc) (auto simp: plain_segment_def)

lemma norm_segments_append:
  "norm_segments up acc (ss @ ts) = norm_segments up (rev (norm_segments up acc ss)) ts"
proof (induction up acc ss rule: norm_segments.induct)
  case (1 up acc)
  then show ?case by simp
next
  case (2 up acc s ss)
  then show ?case by (cases acc) auto
qed

subsection \<open>Numbers as text\<close>

text \<open>\<open>String(n)\<close> for a non-negative integer, \<open>padStart\<close>, and \<open>toUpperCase\<close> on Latin-1.\<close>

fun js_nat :: "nat \<Rightarrow> string" where
  "js_nat n = (if n < 10 then [char_of (48 + n)] else js_nat (n div 10) @ [char_of (48 + n mod 10)])"

declare js_nat.simps [simp del]

definition pad_start :: "nat \<Rightarrow> char \<Rightarrow> string \<Rightarrow> string" where
  "pad_start k c s = replicate (k - length s) c @ s"

definition js_upper :: "string \<Rightarrow> string" where
  "js_upper s = concat (map (\<lambda>c. let n = code_unit c in
     if n = 223 then ''SS''
     else if (97 \<le> n \<and> n \<le> 122) \<or> (224 \<le> n \<and> n \<le> 254 \<and> n \<noteq> 247) then [char_of (n - 32)]
     else [c]) s)"

lemma is_digit_char_of [simp]: "(n::nat) < 10 \<Longrightarrow> is_digit (char_of (48 + n))"
  by (simp add: is_digit_def)

lemma digit_value_char_of [simp]: "(n::nat) < 10 \<Longrightarrow> digit_value (char_of (48 + n)) = n"
  by (simp add: digit_value_def)

lemma js_nat_digits: "list_all is_digit (js_nat n)"
  by (induction n rule: js_nat.induct) (subst js_nat.simps, simp)

lemma js_nat_not_Nil [simp]: "js_nat n \<noteq> []"
  by (subst js_nat.simps) simp

lemma decimal_snoc [simp]: "decimal (s @ [c]) = 10 * decimal s + digit_value c"
  by (simp add: decimal_def)

lemma decimal_js_nat [simp]: "decimal (js_nat n) = n"
proof (induction n rule: js_nat.induct)
  case (1 n)
  show ?case
  proof (cases "n < 10")
    case True
    then show ?thesis by (subst js_nat.simps) (simp add: decimal_def)
  next
    case False
    with 1 have "decimal (js_nat (n div 10)) = n div 10" by simp
    with False show ?thesis by (subst js_nat.simps) simp
  qed
qed

lemma js_nat_inj: "js_nat m = js_nat n \<Longrightarrow> m = n"
  by (metis decimal_js_nat)

lemma length_js_nat: "n < 10 ^ Suc k \<Longrightarrow> length (js_nat n) \<le> Suc k"
proof (induction k arbitrary: n)
  case 0
  then show ?case by (subst js_nat.simps) simp
next
  case (Suc k)
  show ?case
  proof (cases "n < 10")
    case True
    then show ?thesis by (subst js_nat.simps) simp
  next
    case False
    have "n div 10 < 10 ^ Suc k" using Suc.prems by (simp add: less_mult_imp_div_less)
    then have "length (js_nat (n div 10)) \<le> Suc k" by (rule Suc.IH)
    with False show ?thesis by (subst js_nat.simps) simp
  qed
qed

lemma length_pad_start: "length s \<le> k \<Longrightarrow> length (pad_start k c s) = k"
  by (simp add: pad_start_def)

lemma decimal_zeros: "decimal (replicate k (CHR ''0'') @ s) = decimal s"
  by (induction k) (simp_all add: decimal_def digit_value_def code_unit_def)

lemma js_upper_Nil [simp]: "js_upper [] = []"
  by (simp add: js_upper_def)

lemma js_upper_append [simp]: "js_upper (s @ t) = js_upper s @ js_upper t"
  by (simp add: js_upper_def)

lemma js_upper_id: "\<forall>c \<in> set s. code_unit c < 97 \<Longrightarrow> js_upper s = s"
  by (induction s) (auto simp: js_upper_def Let_def)

end
