(* ===== verification/Schema.thy ===== *)
theory Schema
  imports JsText "HOL-Library.Word"
begin

text \<open>
  The rows of the SQLite database (\<open>apps/api/src/db/index.ts\<close>, table \<open>MIGRATIONS\<close>)
  and the whole database as one record of tables.  Columns keep the names of the
  \<open>...Row\<close> interfaces, with the table's prefix.  A column that holds an ISO
  timestamp is the time itself in milliseconds: \<open>toISOString\<close> and \<open>Date.parse\<close> are
  inverse to each other and the fixed-width format sorts like the time.  A 0/1
  column is a \<open>bool\<close>, a nullable column an \<open>option\<close>, a text column a \<open>string\<close> even
  where the code only ever stores a few words in it, because the readers
  (\<open>normLevel\<close>, \<open>toUser\<close>) are what decides about any other word.
\<close>

type_synonym millis = int

type_synonym bytes = "8 word list"

subsection \<open>Accounts\<close>

datatype user_role = Admin | User

datatype auth_method = Password | Passkey | Oidc | Totp | RecoveryCode | Autologin

datatype pending_action = PendPassword | PendPasskey

record user_row =
  usr_id :: string
  usr_username :: string
  usr_display_name :: string
  usr_email :: "string option"
  usr_role :: string
  usr_source :: string
  usr_password_hash :: "string option"
  usr_avatar_color :: string
  usr_avatar_path :: "string option"
  usr_created_at :: millis
  usr_last_login_at :: "millis option"
  usr_disabled :: bool
  usr_password_pwned :: bool
  usr_must_change_password :: bool
  usr_apps_restricted :: bool

record session_row =
  ses_id :: string
  ses_user_id :: string
  ses_auth_methods :: "auth_method list"
  ses_user_agent :: "string option"
  ses_ip :: "string option"
  ses_created_at :: millis
  ses_expires_at :: millis

record credential_row =
  crd_id :: string
  crd_user_id :: string
  crd_public_key :: bytes
  crd_counter :: nat
  crd_transports :: "string list"
  crd_device_type :: string
  crd_backed_up :: bool
  crd_label :: string
  crd_created_at :: millis
  crd_last_used_at :: "millis option"

datatype challenge_kind = Registration | Authentication

record challenge_row =
  chl_id :: string
  chl_user_id :: "string option"
  chl_challenge :: string
  chl_kind :: challenge_kind
  chl_created_at :: millis

record oidc_state_row =
  ost_state :: string
  ost_code_verifier :: string
  ost_nonce :: string
  ost_created_at :: millis

record oidc_identity_row =
  oid_provider :: string
  oid_subject :: string
  oid_user_id :: string

record totp_row =
  ttp_user_id :: string
  ttp_secret :: string
  ttp_confirmed_at :: "millis option"
  ttp_created_at :: millis
  ttp_last_used_step :: "int option"

record recovery_row =
  rec_user_id :: string
  rec_code_hash :: string
  rec_used_at :: "millis option"

record ticket_row =
  tck_id :: string
  tck_user_id :: string
  tck_created_at :: millis
  tck_attempts :: nat

record attempt_row =
  att_username :: string
  att_failures :: nat
  att_first_fail_at :: "millis option"
  att_last_fail_at :: "millis option"
  att_locked_until :: "millis option"

record ip_attempt_row =
  ipa_address :: string
  ipa_failures :: nat
  ipa_first_fail_at :: "millis option"
  ipa_last_fail_at :: "millis option"

record ban_row =
  ban_address :: string
  ban_reason :: string
  ban_failures :: nat
  ban_banned_at :: millis
  ban_expires_at :: millis

subsection \<open>Shares, groups and folder rules\<close>

record share_row =
  shr_id :: string
  shr_name :: string
  shr_comment :: string
  shr_guest_access :: string
  shr_smb_enabled :: bool
  shr_nfs_enabled :: bool
  shr_browseable :: bool
  shr_volume :: string
  shr_recycle_enabled :: bool
  shr_time_machine :: bool
  shr_quota_bytes :: int
  shr_quota_project_id :: "nat option"
  shr_created_at :: millis

record share_perm_row =
  spm_share_id :: string
  spm_user_id :: string
  spm_level :: string

record share_group_perm_row =
  sgp_share_id :: string
  sgp_group_id :: string
  sgp_level :: string

record group_row =
  grp_id :: string
  grp_name :: string
  grp_description :: string
  grp_created_at :: millis

record member_row =
  mem_group_id :: string
  mem_user_id :: string

record acl_row =
  acl_id :: string
  acl_share_id :: string
  acl_path :: string
  acl_subject_type :: string
  acl_subject_id :: string
  acl_level :: string
  acl_created_at :: millis

record nfs_rule_row =
  nfs_id :: string
  nfs_share_id :: string
  nfs_network :: string
  nfs_level :: string
  nfs_root_squash :: bool
  nfs_created_at :: millis

subsection \<open>Apps\<close>

datatype grant_type = GrantFile | GrantDir

datatype grant_mode = Read | ReadWrite

record grant_row =
  grn_id :: string
  grn_app_id :: string
  grn_user_id :: string
  grn_path :: string
  grn_type :: grant_type
  grn_mode :: grant_mode
  grn_created_at :: millis
  grn_last_used_at :: "millis option"

text \<open>
  The manifest of an installed app (\<open>packages/shared/src/types/apps.ts\<close>), without the
  fields that only the desktop draws (icon, window geometry, author, screenshots).
\<close>

datatype app_permission = PNotifications | PStorage | PUser | PFiles | PSystem | PFetch
  | PSchedule | PSharesRead | PSharesWrite

datatype setting_type = SText | SNumber | SBoolean | SSelect

datatype setting_scope = ScopeUser | ScopeAdmin

text \<open>\<open>app_settings.value\<close> holds a JSON-encoded scalar; \<open>JsonOther\<close> is a text that parses to no scalar.\<close>

datatype json_scalar = JsonString string | JsonNumber int | JsonBool bool | JsonOther

record setting_field =
  sf_key :: string
  sf_type :: setting_type
  sf_scope :: setting_scope
  sf_default :: "json_scalar option"
  sf_options :: "string list option"
  sf_min :: "int option"
  sf_max :: "int option"
  sf_secret :: bool

record app_manifest =
  am_id :: string
  am_name :: string
  am_kind :: string
  am_min_role :: user_role
  am_version :: "string option"
  am_entry :: "string option"
  am_permissions :: "app_permission list"
  am_signed :: bool
  am_fingerprint :: "string option"
  am_fetch_hosts :: "string list"
  am_settings :: "setting_field list"
  am_dev_url :: "string option"

record installed_app_row =
  app_id :: string
  app_version :: string
  app_manifest_json :: app_manifest
  app_enabled :: bool
  app_installed_at :: millis
  app_source_repo :: "string option"

record app_access_row =
  aac_user_id :: string
  aac_app_id :: string

record app_storage_row =
  ast_app_id :: string
  ast_user_id :: string
  ast_key :: string
  ast_value :: string

record app_setting_row =
  aps_app_id :: string
  aps_user_id :: string
  aps_key :: string
  aps_value :: json_scalar

record task_row =
  tsk_id :: string
  tsk_app_id :: string
  tsk_user_id :: string
  tsk_name :: string
  tsk_interval_sec :: int
  tsk_action :: string
  tsk_enabled :: bool
  tsk_next_run_at :: millis
  tsk_last_run_at :: "millis option"
  tsk_last_status :: "string option"
  tsk_last_error :: "string option"
  tsk_created_at :: millis

subsection \<open>Files and notifications\<close>

record trash_row =
  trs_id :: string
  trs_user_id :: string
  trs_virtual_path :: string
  trs_name :: string
  trs_is_dir :: bool
  trs_size_bytes :: int
  trs_deleted_at :: millis

record link_row =
  lnk_id :: string
  lnk_user_id :: string
  lnk_virtual_path :: string
  lnk_name :: string
  lnk_is_dir :: bool
  lnk_password_hash :: "string option"
  lnk_expires_at :: "millis option"
  lnk_created_at :: millis

record notification_row =
  ntf_id :: string
  ntf_user_id :: string
  ntf_level :: string
  ntf_title :: string
  ntf_body :: "string option"
  ntf_app_id :: "string option"
  ntf_dedupe_key :: "string option"
  ntf_created_at :: millis
  ntf_read_at :: "millis option"

record note_row =
  nte_id :: string
  nte_user_id :: string
  nte_title :: string
  nte_body :: string
  nte_created_at :: millis
  nte_updated_at :: millis

record pref_row =
  prf_user_id :: string
  prf_key :: string
  prf_value :: string

record package_row =
  pkg_id :: string
  pkg_version :: string
  pkg_status :: string
  pkg_installed_at :: millis

record audit_row =
  aud_id :: string
  aud_at :: millis
  aud_actor_id :: "string option"
  aud_actor_name :: string
  aud_actor_ip :: "string option"
  aud_action :: string
  aud_target :: "string option"
  aud_detail :: "string option"
  aud_outcome :: string
  aud_status :: nat

record client_row =
  cli_client_id :: string
  cli_secret_hash :: string
  cli_name :: string
  cli_redirect_uris :: "string list"
  cli_scopes :: string
  cli_created_at :: millis

datatype frequency = Daily | Weekly | Monthly

record system_task_row =
  stk_id :: string
  stk_name :: string
  stk_kind :: string
  stk_target :: string
  stk_frequency :: frequency
  stk_hour :: int
  stk_minute :: int
  stk_weekday :: int
  stk_day_of_month :: int
  stk_enabled :: bool
  stk_next_run_at :: millis
  stk_last_run_at :: "millis option"
  stk_last_status :: "string option"
  stk_last_output :: "string option"
  stk_created_at :: millis

record setting_row =
  set_key :: string
  set_value :: string

subsection \<open>The database\<close>

record db =
  db_settings :: "setting_row list"
  db_users :: "user_row list"
  db_sessions :: "session_row list"
  db_credentials :: "credential_row list"
  db_challenges :: "challenge_row list"
  db_oidc_states :: "oidc_state_row list"
  db_oidc_identities :: "oidc_identity_row list"
  db_totp :: "totp_row list"
  db_recovery :: "recovery_row list"
  db_tickets :: "ticket_row list"
  db_attempts :: "attempt_row list"
  db_ip_attempts :: "ip_attempt_row list"
  db_bans :: "ban_row list"
  db_shares :: "share_row list"
  db_share_perms :: "share_perm_row list"
  db_share_group_perms :: "share_group_perm_row list"
  db_groups :: "group_row list"
  db_members :: "member_row list"
  db_acls :: "acl_row list"
  db_nfs_rules :: "nfs_rule_row list"
  db_grants :: "grant_row list"
  db_app_access :: "app_access_row list"
  db_app_storage :: "app_storage_row list"
  db_app_settings :: "app_setting_row list"
  db_tasks :: "task_row list"
  db_trash :: "trash_row list"
  db_links :: "link_row list"
  db_notifications :: "notification_row list"
  db_notes :: "note_row list"
  db_installed_apps :: "installed_app_row list"
  db_prefs :: "pref_row list"
  db_packages :: "package_row list"
  db_audit :: "audit_row list"
  db_clients :: "client_row list"
  db_system_tasks :: "system_task_row list"

definition empty_db :: db where
  "empty_db = \<lparr>db_settings = [], db_users = [], db_sessions = [], db_credentials = [],
     db_challenges = [], db_oidc_states = [], db_oidc_identities = [], db_totp = [],
     db_recovery = [], db_tickets = [], db_attempts = [], db_ip_attempts = [], db_bans = [],
     db_shares = [], db_share_perms = [], db_share_group_perms = [], db_groups = [],
     db_members = [], db_acls = [], db_nfs_rules = [], db_grants = [], db_app_access = [],
     db_app_storage = [], db_app_settings = [], db_tasks = [], db_trash = [], db_links = [],
     db_notifications = [], db_notes = [], db_installed_apps = [], db_prefs = [],
     db_packages = [], db_audit = [], db_clients = [], db_system_tasks = []\<rparr>"

text \<open>
  The part of Node's \<open>crypto\<close> the code calls, as parameters of the model: SHA-256 in
  base64url and in hexadecimal, HMAC-SHA1 of key and message, scrypt (password and
  base64 salt to base64 hash, and the comparison \<open>verifyPassword\<close> makes from the five
  stored pieces), and AES-256-GCM under the key file: sealing from salt, nonce and
  text to tag and ciphertext, and opening in the current and in the old format.
\<close>

record crypto =
  cr_sha256_b64url :: "string \<Rightarrow> string"
  cr_sha256_hex :: "string \<Rightarrow> string"
  cr_hmac_sha1 :: "bytes \<Rightarrow> bytes \<Rightarrow> bytes"
  cr_scrypt_hash :: "string \<Rightarrow> string \<Rightarrow> string"
  cr_scrypt_matches :: "string \<Rightarrow> string list \<Rightarrow> bool"
  cr_gcm_seal :: "string \<Rightarrow> string \<Rightarrow> string \<Rightarrow> string \<times> string"
  cr_gcm_open :: "string \<Rightarrow> string \<Rightarrow> string \<Rightarrow> string \<Rightarrow> string option"
  cr_gcm_open_v1 :: "string \<Rightarrow> string \<Rightarrow> string \<Rightarrow> string option"

text \<open>The part of \<open>config.ts\<close> that the modelled code reads.\<close>

record config =
  cfg_session_ttl_ms :: int
  cfg_files_root :: string
  cfg_volumes_root :: string
  cfg_trash_dir :: string
  cfg_rp_name :: string
  cfg_auto_create_users :: bool

end
