(* ===== verification/Users.thy ===== *)
theory Users
  imports Schema
begin

text \<open>
  Accounts: \<open>apps/api/src/db/users.ts\<close>.  The functions keep their names; a function
  that writes takes the database and returns the new one.  \<open>createUser\<close> can violate
  the unique index on \<open>lower(username)\<close> or the primary key, in which case
  better-sqlite3 throws and nothing is written.
\<close>

subsection \<open>The API shape of a user\<close>

record user =
  u_id :: string
  u_username :: string
  u_display_name :: string
  u_email :: "string option"
  u_role :: user_role
  u_source :: string
  u_avatar_color :: string
  u_avatar_url :: "string option"
  u_created_at :: millis
  u_last_login_at :: "millis option"

definition role_text :: "user_role \<Rightarrow> string" where
  "role_text r = (case r of Admin \<Rightarrow> ''admin'' | User \<Rightarrow> ''user'')"

definition to_role :: "string \<Rightarrow> user_role" where
  "to_role s = (if s = ''admin'' then Admin else User)"

definition toUser :: "user_row \<Rightarrow> user" where
  "toUser row = \<lparr>u_id = usr_id row, u_username = usr_username row,
     u_display_name = usr_display_name row, u_email = usr_email row,
     u_role = to_role (usr_role row), u_source = usr_source row,
     u_avatar_color = usr_avatar_color row,
     u_avatar_url = (case usr_avatar_path row of
         None \<Rightarrow> None
       | Some p \<Rightarrow> if p = '''' then None
                  else Some (''/auth/avatars/'' @ usr_id row @ ''?v='' @ encode_uri_component p)),
     u_created_at = usr_created_at row, u_last_login_at = usr_last_login_at row\<rparr>"

definition AVATAR_COLORS :: "string list" where
  "AVATAR_COLORS = [''#ef4444'', ''#f97316'', ''#f59e0b'', ''#10b981'',
     ''#06b6d4'', ''#3b82f6'', ''#6366f1'', ''#a855f7'', ''#ec4899'']"

definition color_hash :: "string \<Rightarrow> 32 word" where
  "color_hash seed = fold (\<lambda>ch h. h * 31 + of_nat (code_unit ch)) seed 0"

definition pickColor :: "string \<Rightarrow> string" where
  "pickColor seed = AVATAR_COLORS ! (unat (color_hash seed) mod 9)"

subsection \<open>Reading\<close>

definition countUsers :: "db \<Rightarrow> nat" where
  "countUsers d = length (db_users d)"

definition userRow :: "db \<Rightarrow> string \<Rightarrow> user_row option" where
  "userRow d i = sql_get (\<lambda>r. usr_id r = i) (db_users d)"

text \<open>Writing a row whose \<open>user_id\<close> references \<open>users(id)\<close>.\<close>

definition with_user :: "db \<Rightarrow> string \<Rightarrow> 'a \<Rightarrow> sql_error + 'a" where
  "with_user d i x = (if userRow d i = None then Inl ForeignKeyViolation else Inr x)"

definition getUserById :: "db \<Rightarrow> string \<Rightarrow> user option" where
  "getUserById d i = map_option toUser (userRow d i)"

definition getUserRowByUsername :: "db \<Rightarrow> string \<Rightarrow> user_row option" where
  "getUserRowByUsername d name =
     sql_get (\<lambda>r. sqlite_lower (usr_username r) = sqlite_lower name) (db_users d)"

definition getUserByUsername :: "db \<Rightarrow> string \<Rightarrow> user option" where
  "getUserByUsername d name = map_option toUser (getUserRowByUsername d name)"

definition getPasswordHash :: "db \<Rightarrow> string \<Rightarrow> string option" where
  "getPasswordHash d i = Option.bind (userRow d i) usr_password_hash"

definition getAvatarFilename :: "db \<Rightarrow> string \<Rightarrow> string option" where
  "getAvatarFilename d i = Option.bind (userRow d i) usr_avatar_path"

definition mustChangePassword :: "db \<Rightarrow> string \<Rightarrow> bool" where
  "mustChangePassword d i = (case userRow d i of None \<Rightarrow> False | Some r \<Rightarrow> usr_must_change_password r)"

definition isUserDisabled :: "db \<Rightarrow> string \<Rightarrow> bool" where
  "isUserDisabled d i = (case userRow d i of None \<Rightarrow> False | Some r \<Rightarrow> usr_disabled r)"

definition countAdmins :: "db \<Rightarrow> string option \<Rightarrow> nat" where
  "countAdmins d excludeId =
     sql_count (\<lambda>r. usr_role r = ''admin'' \<and> \<not> usr_disabled r \<and>
                    usr_id r \<noteq> (case excludeId of None \<Rightarrow> '''' | Some i \<Rightarrow> i)) (db_users d)"

record admin_user_row =
  aur_user :: user
  aur_disabled :: bool
  aur_passkey_count :: nat
  aur_active_sessions :: nat
  aur_password_pwned :: bool
  aur_two_factor_enabled :: bool
  aur_must_change_password :: bool

definition listUsers :: "db \<Rightarrow> millis \<Rightarrow> admin_user_row list" where
  "listUsers d now = map (\<lambda>row.
     \<lparr>aur_user = toUser row, aur_disabled = usr_disabled row,
      aur_passkey_count = sql_count (\<lambda>c. crd_user_id c = usr_id row) (db_credentials d),
      aur_active_sessions =
        sql_count (\<lambda>s. ses_user_id s = usr_id row \<and> ses_expires_at s > now) (db_sessions d),
      aur_password_pwned = usr_password_pwned row,
      aur_two_factor_enabled =
        (sql_count (\<lambda>t. ttp_user_id t = usr_id row \<and> ttp_confirmed_at t \<noteq> None) (db_totp d) > 0),
      aur_must_change_password = usr_must_change_password row\<rparr>)
   (order_asc usr_created_at (db_users d))"

subsection \<open>Writing\<close>

record create_user_input =
  cui_username :: string
  cui_display_name :: string
  cui_email :: "string option"
  cui_role :: user_role
  cui_source :: "string option"
  cui_password_hash :: "string option"

definition new_user_row :: "string \<Rightarrow> millis \<Rightarrow> create_user_input \<Rightarrow> user_row" where
  "new_user_row i now inp =
     \<lparr>usr_id = i, usr_username = cui_username inp, usr_display_name = cui_display_name inp,
      usr_email = cui_email inp, usr_role = role_text (cui_role inp),
      usr_source = (case cui_source inp of None \<Rightarrow> ''local'' | Some s \<Rightarrow> s),
      usr_password_hash = cui_password_hash inp,
      usr_avatar_color = pickColor (cui_username inp), usr_avatar_path = None,
      usr_created_at = now, usr_last_login_at = None, usr_disabled = False,
      usr_password_pwned = False, usr_must_change_password = False,
      usr_apps_restricted = False\<rparr>"

definition createUser :: "string \<Rightarrow> millis \<Rightarrow> create_user_input \<Rightarrow> db \<Rightarrow> sql_error + (user \<times> db)" where
  "createUser i now inp d =
     (let row = new_user_row i now inp in
      if sql_exists (\<lambda>r. usr_id r = i) (db_users d) \<or>
         sql_exists (\<lambda>r. sqlite_lower (usr_username r) = sqlite_lower (cui_username inp)) (db_users d)
      then Inl UniqueViolation
      else Inr (toUser row, d\<lparr>db_users := db_users d @ [row]\<rparr>))"

definition update_users :: "string \<Rightarrow> (user_row \<Rightarrow> user_row) \<Rightarrow> db \<Rightarrow> db" where
  "update_users i f d = d\<lparr>db_users := sql_update (\<lambda>r. usr_id r = i) f (db_users d)\<rparr>"

definition setPasswordHash :: "string \<Rightarrow> string \<Rightarrow> db \<Rightarrow> db" where
  "setPasswordHash i h = update_users i (\<lambda>r. r\<lparr>usr_password_hash := Some h\<rparr>)"

definition setPasswordPwned :: "string \<Rightarrow> bool \<Rightarrow> db \<Rightarrow> db" where
  "setPasswordPwned i b = update_users i (\<lambda>r. r\<lparr>usr_password_pwned := b\<rparr>)"

definition setAvatarFilename :: "string \<Rightarrow> string option \<Rightarrow> db \<Rightarrow> db" where
  "setAvatarFilename i f = update_users i (\<lambda>r. r\<lparr>usr_avatar_path := f\<rparr>)"

definition setMustChangePassword :: "string \<Rightarrow> bool \<Rightarrow> db \<Rightarrow> db" where
  "setMustChangePassword i b = update_users i (\<lambda>r. r\<lparr>usr_must_change_password := b\<rparr>)"

definition markLogin :: "string \<Rightarrow> millis \<Rightarrow> db \<Rightarrow> db" where
  "markLogin i now = update_users i (\<lambda>r. r\<lparr>usr_last_login_at := Some now\<rparr>)"

record update_user_fields =
  uuf_display_name :: "string option"
  uuf_email :: "string option option"
  uuf_role :: "user_role option"
  uuf_disabled :: "bool option"

definition apply_user_fields :: "update_user_fields \<Rightarrow> user_row \<Rightarrow> user_row" where
  "apply_user_fields f r = r
     \<lparr>usr_display_name := (case uuf_display_name f of None \<Rightarrow> usr_display_name r | Some v \<Rightarrow> v),
      usr_email := (case uuf_email f of None \<Rightarrow> usr_email r | Some v \<Rightarrow> v),
      usr_role := (case uuf_role f of None \<Rightarrow> usr_role r | Some v \<Rightarrow> role_text v),
      usr_disabled := (case uuf_disabled f of None \<Rightarrow> usr_disabled r | Some v \<Rightarrow> v)\<rparr>"

definition updateUser :: "string \<Rightarrow> update_user_fields \<Rightarrow> db \<Rightarrow> db" where
  "updateUser i f d =
     (if uuf_display_name f = None \<and> uuf_email f = None \<and> uuf_role f = None \<and> uuf_disabled f = None
      then d else update_users i (apply_user_fields f) d)"

text \<open>
  \<open>ON DELETE CASCADE\<close> of every table whose \<open>user_id\<close> references \<open>users(id)\<close>
  (\<open>foreign_keys = ON\<close>).  \<open>webauthn_challenges\<close>, \<open>app_share_grants\<close> and
  \<open>app_settings\<close> have no such reference.
\<close>

definition cascade_user :: "string \<Rightarrow> db \<Rightarrow> db" where
  "cascade_user i d = d
     \<lparr>db_sessions := sql_delete (\<lambda>r. ses_user_id r = i) (db_sessions d),
      db_credentials := sql_delete (\<lambda>r. crd_user_id r = i) (db_credentials d),
      db_oidc_identities := sql_delete (\<lambda>r. oid_user_id r = i) (db_oidc_identities d),
      db_totp := sql_delete (\<lambda>r. ttp_user_id r = i) (db_totp d),
      db_recovery := sql_delete (\<lambda>r. rec_user_id r = i) (db_recovery d),
      db_tickets := sql_delete (\<lambda>r. tck_user_id r = i) (db_tickets d),
      db_share_perms := sql_delete (\<lambda>r. spm_user_id r = i) (db_share_perms d),
      db_members := sql_delete (\<lambda>r. mem_user_id r = i) (db_members d),
      db_app_access := sql_delete (\<lambda>r. aac_user_id r = i) (db_app_access d),
      db_app_storage := sql_delete (\<lambda>r. ast_user_id r = i) (db_app_storage d),
      db_tasks := sql_delete (\<lambda>r. tsk_user_id r = i) (db_tasks d),
      db_trash := sql_delete (\<lambda>r. trs_user_id r = i) (db_trash d),
      db_links := sql_delete (\<lambda>r. lnk_user_id r = i) (db_links d),
      db_notifications := sql_delete (\<lambda>r. ntf_user_id r = i) (db_notifications d),
      db_notes := sql_delete (\<lambda>r. nte_user_id r = i) (db_notes d),
      db_prefs := sql_delete (\<lambda>r. prf_user_id r = i) (db_prefs d)\<rparr>"

definition deleteUser :: "string \<Rightarrow> db \<Rightarrow> db" where
  "deleteUser i d =
     (let d1 = cascade_user i (d\<lparr>db_users := sql_delete (\<lambda>r. usr_id r = i) (db_users d)\<rparr>)
      in d1\<lparr>db_app_settings := sql_delete (\<lambda>r. aps_user_id r = i) (db_app_settings d1)\<rparr>)"

subsection \<open>Lemmas\<close>

text \<open>The well-formedness of the account table: both of its unique indexes.\<close>

definition users_ok :: "db \<Rightarrow> bool" where
  "users_ok d \<longleftrightarrow> keyed usr_id (db_users d) \<and>
     keyed (\<lambda>r. sqlite_lower (usr_username r)) (db_users d)"

definition user_ids :: "db \<Rightarrow> string set" where
  "user_ids d = usr_id ` set (db_users d)"

lemma to_role_text [simp]: "to_role (role_text r) = r"
  by (cases r) (simp_all add: to_role_def role_text_def)

lemma toUser_sel [simp]:
  "u_id (toUser r) = usr_id r" "u_username (toUser r) = usr_username r"
  "u_role (toUser r) = to_role (usr_role r)"
  by (simp_all add: toUser_def)

lemma userRow_SomeD: "userRow d i = Some r \<Longrightarrow> r \<in> set (db_users d) \<and> usr_id r = i"
  by (auto simp: userRow_def dest: sql_get_SomeD)

lemma userRow_None_iff: "userRow d i = None \<longleftrightarrow> i \<notin> user_ids d"
  by (auto simp: userRow_def sql_get_None user_ids_def)

lemma with_user_Inr: "with_user d i x = Inr y \<longleftrightarrow> i \<in> user_ids d \<and> y = x"
  using userRow_None_iff [of d i] by (auto simp: with_user_def)

lemma getUserById_SomeD: "getUserById d i = Some u \<Longrightarrow> i \<in> user_ids d \<and> u_id u = i"
  by (auto simp: getUserById_def user_ids_def dest: userRow_SomeD)

lemma getUserById_None_iff [simp]: "getUserById d i = None \<longleftrightarrow> i \<notin> user_ids d"
  by (simp add: getUserById_def userRow_None_iff)

lemma db_users_update_users [simp]:
  "db_users (update_users i f d) = sql_update (\<lambda>r. usr_id r = i) f (db_users d)"
  by (simp add: update_users_def)

lemma userRow_update_users:
  assumes "\<And>r. usr_id (f r) = usr_id r"
  shows "userRow (update_users i f d) j = (if j = i then map_option f (userRow d i) else userRow d j)"
  using assms by (auto simp: userRow_def sql_get_update_same intro!: sql_get_update_other)

lemma user_ids_update_users:
  "(\<And>r. usr_id (f r) = usr_id r) \<Longrightarrow> user_ids (update_users i f d) = user_ids d"
  unfolding user_ids_def db_users_update_users by (rule image_sql_update)

lemma users_ok_update_users:
  "users_ok d \<Longrightarrow> (\<And>r. usr_id (f r) = usr_id r) \<Longrightarrow> (\<And>r. usr_username (f r) = usr_username r) \<Longrightarrow>
    users_ok (update_users i f d)"
  by (auto simp: users_ok_def intro!: keyed_update)

lemmas user_setters =
  setPasswordHash_def setPasswordPwned_def setAvatarFilename_def setMustChangePassword_def markLogin_def

lemma apply_user_fields_sel [simp]:
  "usr_id (apply_user_fields f r) = usr_id r"
  "usr_username (apply_user_fields f r) = usr_username r"
  "usr_password_hash (apply_user_fields f r) = usr_password_hash r"
  "usr_must_change_password (apply_user_fields f r) = usr_must_change_password r"
  by (simp_all add: apply_user_fields_def)

lemma updateUser_users_ok: "users_ok d \<Longrightarrow> users_ok (updateUser i f d)"
  by (simp add: updateUser_def users_ok_update_users)

lemma new_user_row_sel [simp]:
  "usr_id (new_user_row i now inp) = i"
  "usr_username (new_user_row i now inp) = cui_username inp"
  "usr_role (new_user_row i now inp) = role_text (cui_role inp)"
  "usr_disabled (new_user_row i now inp) = False"
  "usr_must_change_password (new_user_row i now inp) = False"
  by (simp_all add: new_user_row_def)

lemma createUser_users_ok:
  "users_ok d \<Longrightarrow> createUser i now inp d = Inr (u, d') \<Longrightarrow> users_ok d'"
  by (auto simp: createUser_def users_ok_def Let_def sql_exists_iff
      split: if_splits intro!: keyed_snoc)

lemma createUser_Inr:
  "createUser i now inp d = Inr (u, d') \<Longrightarrow>
     db_users d' = db_users d @ [new_user_row i now inp] \<and> u = toUser (new_user_row i now inp) \<and>
     i \<notin> user_ids d"
  by (auto simp: createUser_def Let_def sql_exists_iff user_ids_def split: if_splits)

lemma deleteUser_users [simp]:
  "db_users (deleteUser i d) = sql_delete (\<lambda>r. usr_id r = i) (db_users d)"
  by (simp add: deleteUser_def cascade_user_def Let_def)

lemma user_ids_deleteUser [simp]: "user_ids (deleteUser i d) = user_ids d - {i}"
  by (auto simp: user_ids_def)

lemma deleteUser_users_ok: "users_ok d \<Longrightarrow> users_ok (deleteUser i d)"
  by (simp add: users_ok_def keyed_delete)

lemma pickColor_in_palette: "pickColor seed \<in> set AVATAR_COLORS"
proof -
  have "unat (color_hash seed) mod 9 < length AVATAR_COLORS"
    by (simp add: AVATAR_COLORS_def)
  then show ?thesis by (simp add: pickColor_def)
qed

text \<open>Deleting an account that is not a counted administrator keeps the count.\<close>

lemma countAdmins_deleteUser: "countAdmins (deleteUser i d) (Some i) = countAdmins d (Some i)"
  unfolding countAdmins_def by (simp, rule sql_count_delete_disjoint) auto

lemma countAdmins_pos_iff:
  "0 < countAdmins d e \<longleftrightarrow>
     (\<exists>r \<in> set (db_users d). usr_role r = ''admin'' \<and> \<not> usr_disabled r \<and>
        usr_id r \<noteq> (case e of None \<Rightarrow> '''' | Some i \<Rightarrow> i))"
  by (simp add: countAdmins_def sql_count_pos)

end
