(* ===== verification/Contracts.thy ===== *)
theory Contracts
  imports Prelude
begin

text \<open>
  The contracts several components of the API share, each a locale: its parameters
  are the operations a client calls, its assumptions the laws every provider keeps,
  and its lemmas what a client may conclude.  The component theories interpret them
  on their own definitions.
\<close>

named_theorems contract_simps \<open>laws of the interpreted contracts\<close>

subsection \<open>Rows that only their owner can remove\<close>

text \<open>
  Sessions, passkeys, app grants, notifications and notes are removed with
  \<open>DELETE ... WHERE id = ? AND user_id = ?\<close> and report whether a row changed.
\<close>

locale owned_rows =
  fixes rows :: "'s \<Rightarrow> 'r list"
    and ident :: "'r \<Rightarrow> string"
    and owner :: "'r \<Rightarrow> string"
    and remove :: "string \<Rightarrow> string \<Rightarrow> 's \<Rightarrow> bool \<times> 's"
  assumes remove_rows:
      "rows (snd (remove u i s)) = sql_delete (\<lambda>r. ident r = i \<and> owner r = u) (rows s)"
    and remove_reports:
      "fst (remove u i s) \<longleftrightarrow> (\<exists>r \<in> set (rows s). ident r = i \<and> owner r = u)"
begin

lemma foreign_kept:
  "filter (\<lambda>r. owner r \<noteq> u) (rows (snd (remove u i s))) = filter (\<lambda>r. owner r \<noteq> u) (rows s)"
  unfolding remove_rows by (rule filter_sql_delete_disjoint) auto

lemma refused_unchanged: "\<not> fst (remove u i s) \<Longrightarrow> rows (snd (remove u i s)) = rows s"
  by (auto simp: remove_rows remove_reports intro!: sql_delete_idle)

lemma removed_gone: "r \<in> set (rows (snd (remove u i s))) \<Longrightarrow> \<not> (ident r = i \<and> owner r = u)"
  by (auto simp: remove_rows)

lemma remove_again: "\<not> fst (remove u i (snd (remove u i s)))"
  by (auto simp: remove_reports remove_rows)

lemma never_grows: "set (rows (snd (remove u i s))) \<subseteq> set (rows s)"
  by (auto simp: remove_rows)

text \<open>Whatever identifiers one user tries, nobody else loses a row.\<close>

definition remove_all :: "string \<Rightarrow> string list \<Rightarrow> 's \<Rightarrow> 's" where
  "remove_all u is s = fold (\<lambda>i t. snd (remove u i t)) is s"

lemma guesses_harm_nobody_else:
  "filter (\<lambda>r. owner r \<noteq> u) (rows (remove_all u is s)) = filter (\<lambda>r. owner r \<noteq> u) (rows s)"
  by (induction "is" arbitrary: s) (simp_all add: remove_all_def foreign_kept)

end

subsection \<open>Artefacts that can be spent once\<close>

text \<open>
  WebAuthn challenges, OIDC login states and OIDC authorization codes: stored under
  an unguessable key, fetched and deleted in one step, useless after \<open>ttl\<close>
  milliseconds.  \<open>held\<close> is what the store has for a key, with the time it was put.
\<close>

locale single_use =
  fixes put :: "string \<Rightarrow> 'v \<Rightarrow> int \<Rightarrow> 's \<Rightarrow> 's"
    and spend :: "string \<Rightarrow> int \<Rightarrow> 's \<Rightarrow> 'v option \<times> 's"
    and held :: "'s \<Rightarrow> string \<Rightarrow> ('v \<times> int) option"
    and ttl :: int
  assumes held_put: "held s k = None \<Longrightarrow> held (put k v n s) = (held s)(k \<mapsto> (v, n))"
    and held_spend: "held (snd (spend k n s)) = (held s)(k := None)"
    and spend_result: "fst (spend k n s) =
      (case held s k of None \<Rightarrow> None | Some (v, c) \<Rightarrow> if n - c > ttl then None else Some v)"
begin

lemma spend_twice: "fst (spend k m (snd (spend k n s))) = None"
  by (simp add: spend_result held_spend)

lemma spend_fresh:
  "held s k = None \<Longrightarrow> m - n \<le> ttl \<Longrightarrow> fst (spend k m (put k v n s)) = Some v"
  by (simp add: spend_result held_put)

lemma spend_expired:
  "held s k = None \<Longrightarrow> m - n > ttl \<Longrightarrow> fst (spend k m (put k v n s)) = None"
  by (simp add: spend_result held_put)

lemma spend_other: "j \<noteq> k \<Longrightarrow> held (snd (spend k n s)) j = held s j"
  by (simp add: held_spend)

text \<open>Any sequence of attempts on the store succeeds at most once per key.\<close>

fun attempts :: "(string \<times> int) list \<Rightarrow> 's \<Rightarrow> (string \<times> 'v option) list" where
  "attempts [] s = []"
| "attempts ((k, n) # as) s = (k, fst (spend k n s)) # attempts as (snd (spend k n s))"

lemma attempts_of_missing:
  "held s k = None \<Longrightarrow> (k, r) \<in> set (attempts as s) \<Longrightarrow> r = None"
proof (induction as s rule: attempts.induct)
  case (2 k' n as s)
  then show ?case by (auto simp: spend_result held_spend split: if_splits)
qed simp

lemma at_most_one_success:
  "length (filter (\<lambda>(k', r). k' = k \<and> r \<noteq> None) (attempts as s)) \<le> 1"
proof (induction as s rule: attempts.induct)
  case (2 k' n as s)
  show ?case
  proof (cases "k' = k")
    case True
    have "held (snd (spend k n s)) k = None" by (simp add: held_spend)
    then have "filter (\<lambda>(k', r). k' = k \<and> r \<noteq> None) (attempts as (snd (spend k n s))) = []"
      using attempts_of_missing by (auto simp: filter_empty_conv)
    with True show ?thesis by simp
  next
    case False
    with 2 show ?thesis by simp
  qed
qed simp

end

subsection \<open>Counting failures per key\<close>

text \<open>
  Failed sign-ins are counted per account and per source address.  Both counters
  keep a time stamp that decides whether the next failure adds to the count or
  starts a new one: \<open>window\<close> milliseconds after the stamp the count is stale.
  \<open>usable\<close> says which keys are counted at all (a blank address is not).
\<close>

locale failure_counter =
  fixes count :: "'s \<Rightarrow> string \<Rightarrow> nat"
    and stamp :: "'s \<Rightarrow> string \<Rightarrow> int option"
    and bump :: "string \<Rightarrow> int \<Rightarrow> 's \<Rightarrow> 's"
    and clear :: "string \<Rightarrow> 's \<Rightarrow> 's"
    and usable :: "string \<Rightarrow> bool"
    and window :: int
  assumes bump_counts:
      "usable k \<Longrightarrow> stamp s k = Some c \<Longrightarrow> n - c \<le> window \<Longrightarrow> count (bump k n s) k = Suc (count s k)"
    and bump_restarts_missing: "usable k \<Longrightarrow> stamp s k = None \<Longrightarrow> count (bump k n s) k = 1"
    and bump_restarts_stale:
      "usable k \<Longrightarrow> stamp s k = Some c \<Longrightarrow> n - c > window \<Longrightarrow> count (bump k n s) k = 1"
    and stamp_fresh: "usable k \<Longrightarrow> stamp s k = None \<Longrightarrow> stamp (bump k n s) k = Some n"
    and stamp_moves:
      "usable k \<Longrightarrow> stamp s k = Some c \<Longrightarrow> c \<le> n \<Longrightarrow> 
        \<exists>c'. stamp (bump k n s) k = Some c' \<and> c \<le> c' \<and> c' \<le> n"
    and clear_count: "count (clear k s) k = 0"
    and clear_stamp: "stamp (clear k s) k = None"
begin

definition bump_all :: "string \<Rightarrow> int list \<Rightarrow> 's \<Rightarrow> 's" where
  "bump_all k ts s = fold (bump k) ts s"

lemma bump_all_simps:
  "bump_all k [] s = s" "bump_all k (t # ts) s = bump_all k ts (bump k t s)"
  by (simp_all add: bump_all_def)

lemma burst_continues:
  assumes u: "usable k" and "stamp s k = Some c" and "t0 \<le> c" and "c \<le> t0 + window"
    and "sorted (c # ts)" and "\<forall>t \<in> set ts. t \<le> t0 + window"
  shows "count (bump_all k ts s) k = count s k + length ts"
  using assms(2-)
proof (induction ts arbitrary: s c)
  case Nil
  then show ?case by (simp add: bump_all_simps)
next
  case (Cons t ts)
  have step: "count (bump k t s) k = Suc (count s k)"
    using Cons.prems bump_counts [OF u] by auto
  from Cons.prems have "c \<le> t" by simp
  with Cons.prems stamp_moves [OF u] obtain c'
    where c': "stamp (bump k t s) k = Some c'" "c \<le> c'" "c' \<le> t" by blast
  then have "count (bump_all k ts (bump k t s)) k = count (bump k t s) k + length ts"
    using Cons.prems by (intro Cons.IH [of "bump k t s" c']) auto
  with step show ?case by (simp add: bump_all_simps)
qed

text \<open>
  From a cleared counter, a burst of failures no longer than the window counts every
  one of them.
\<close>

lemma burst_counts_all:
  assumes u: "usable k" and "stamp s k = None" and "sorted (t # ts)" and "\<forall>u \<in> set ts. u \<le> t + window"
    and "0 \<le> window"
  shows "count (bump_all k (t # ts) s) k = Suc (length ts)"
proof -
  have "stamp (bump k t s) k = Some t" using assms(1,2) by (rule stamp_fresh)
  then have "count (bump_all k ts (bump k t s)) k = count (bump k t s) k + length ts"
    using assms(3-5) by (intro burst_continues [OF u, where c = t and ?t0.0 = t]) auto
  moreover have "count (bump k t s) k = 1" using assms(1,2) by (rule bump_restarts_missing)
  ultimately show ?thesis by (simp add: bump_all_simps)
qed

end

end
