(* ===== verification/Secrets.thy ===== *)
theory Secrets
  imports Users
begin

text \<open>
  Stored secrets: \<open>db/secrets.ts\<close> (token hashes and sealed values), \<open>auth/password.ts\<close>,
  the settings store \<open>db/settings.ts\<close> and the boot pass \<open>sealExistingSecrets\<close> of
  \<open>db/index.ts\<close>.  Random bytes are arguments: \<open>salt\<close> and \<open>iv\<close> are their base64url text.
\<close>

subsection \<open>Hashing\<close>

definition hashToken :: "crypto \<Rightarrow> string \<Rightarrow> string" where
  "hashToken cr token = ''h1:'' @ cr_sha256_b64url cr token"

definition isHashed :: "string \<Rightarrow> bool" where
  "isHashed stored = starts_with stored ''h1:''"

definition hashesEqual :: "string \<Rightarrow> string \<Rightarrow> bool" where
  "hashesEqual a b = (if length (concat (map utf8_bytes a)) \<noteq> length (concat (map utf8_bytes b)) then False
     else concat (map utf8_bytes a) = concat (map utf8_bytes b))"

subsection \<open>Encryption\<close>

definition PREFIX_V1 :: string where "PREFIX_V1 = ''enc1:''"
definition PREFIX :: string where "PREFIX = ''enc2:''"
definition SECRET_SETTINGS :: "string list" where "SECRET_SETTINGS = [''smtp'', ''ddns'']"

definition encryptSecret :: "crypto \<Rightarrow> string \<Rightarrow> string \<Rightarrow> string \<Rightarrow> string" where
  "encryptSecret cr salt iv plaintext =
     (if plaintext = '''' then ''''
      else (let (tg, ct) = cr_gcm_seal cr salt iv plaintext
            in join '':'' [PREFIX @ salt, iv, tg, ct]))"

definition openV1 :: "crypto \<Rightarrow> string \<Rightarrow> string option" where
  "openV1 cr stored =
     (case split_on (CHR '':'') (drop (length PREFIX_V1) stored) of
        iv # tg # ct # _ \<Rightarrow>
          if iv = '''' \<or> tg = '''' \<or> ct = '''' then None else cr_gcm_open_v1 cr iv tg ct
      | _ \<Rightarrow> None)"

definition decryptSecret :: "crypto \<Rightarrow> string \<Rightarrow> string option" where
  "decryptSecret cr stored =
     (if stored = '''' then Some ''''
      else if starts_with stored PREFIX_V1 then openV1 cr stored
      else if \<not> starts_with stored PREFIX then Some stored
      else
        (case split_on (CHR '':'') (drop (length PREFIX) stored) of
           salt # iv # tg # ct # _ \<Rightarrow>
             if salt = '''' \<or> iv = '''' \<or> tg = '''' \<or> ct = '''' then None
             else cr_gcm_open cr salt iv tg ct
         | _ \<Rightarrow> None))"

definition isEncrypted :: "string \<Rightarrow> bool" where
  "isEncrypted stored \<longleftrightarrow> starts_with stored PREFIX \<or> starts_with stored PREFIX_V1"

definition needsUpgrade :: "string \<Rightarrow> bool" where
  "needsUpgrade stored = starts_with stored PREFIX_V1"

subsection \<open>Passwords: \<open>auth/password.ts\<close>\<close>

definition hashPassword :: "crypto \<Rightarrow> string \<Rightarrow> string \<Rightarrow> string" where
  "hashPassword cr salt password =
     join ''$'' [''scrypt'', ''16384'', ''8'', ''1'', salt, cr_scrypt_hash cr password salt]"

definition verifyPassword :: "crypto \<Rightarrow> string \<Rightarrow> string \<Rightarrow> bool" where
  "verifyPassword cr password stored =
     (let parts = split_on (CHR ''$'') stored in
      if length parts \<noteq> 6 \<or> hd parts \<noteq> ''scrypt'' then False
      else cr_scrypt_matches cr password (tl parts))"

definition validatePasswordStrength :: "string \<Rightarrow> string option" where
  "validatePasswordStrength password =
     (if length password < 8 then Some ''Password must be at least 8 characters.''
      else if length password > 256 then Some ''Password is too long.''
      else None)"

subsection \<open>Settings: \<open>db/settings.ts\<close>\<close>

definition settingRow :: "db \<Rightarrow> string \<Rightarrow> setting_row option" where
  "settingRow d k = sql_get (\<lambda>r. set_key r = k) (db_settings d)"

definition getSetting :: "crypto \<Rightarrow> db \<Rightarrow> string \<Rightarrow> string option" where
  "getSetting cr d k =
     (case settingRow d k of
        None \<Rightarrow> None
      | Some row \<Rightarrow> if k \<notin> set SECRET_SETTINGS then Some (set_value row) else decryptSecret cr (set_value row))"

definition getSettingOr :: "crypto \<Rightarrow> db \<Rightarrow> string \<Rightarrow> string \<Rightarrow> string" where
  "getSettingOr cr d k fb = (case getSetting cr d k of None \<Rightarrow> fb | Some v \<Rightarrow> v)"

definition setSetting :: "crypto \<Rightarrow> string \<Rightarrow> string \<Rightarrow> string \<Rightarrow> string \<Rightarrow> db \<Rightarrow> db" where
  "setSetting cr salt iv k v d =
     (let stored = (if k \<in> set SECRET_SETTINGS then encryptSecret cr salt iv v else v)
      in d\<lparr>db_settings := sql_upsert (\<lambda>r. set_key r = k) (\<lambda>r. r\<lparr>set_value := stored\<rparr>)
            \<lparr>set_key = k, set_value = stored\<rparr> (db_settings d)\<rparr>)"

subsection \<open>The boot pass: \<open>sealExistingSecrets\<close>\<close>

text \<open>
  One row's value after the pass; \<open>rnd\<close> supplies the fresh salt and nonce.  The
  \<open>VACUUM\<close> that follows and the outer \<open>try\<close> are not modelled.
\<close>

definition sealValue :: "crypto \<Rightarrow> string \<times> string \<Rightarrow> string \<Rightarrow> string" where
  "sealValue cr rnd v =
     (if needsUpgrade v then
        (case decryptSecret cr v of None \<Rightarrow> v | Some plain \<Rightarrow> encryptSecret cr (fst rnd) (snd rnd) plain)
      else if isEncrypted v then v
      else encryptSecret cr (fst rnd) (snd rnd) v)"

definition sealExistingSecrets :: "crypto \<Rightarrow> (string \<Rightarrow> string \<times> string) \<Rightarrow> db \<Rightarrow> db" where
  "sealExistingSecrets cr rnd d = d
     \<lparr>db_totp := map (\<lambda>r. r\<lparr>ttp_secret := sealValue cr (rnd (ttp_user_id r)) (ttp_secret r)\<rparr>) (db_totp d),
      db_settings := map (\<lambda>r. if set_key r \<in> set SECRET_SETTINGS
          then r\<lparr>set_value := sealValue cr (rnd (set_key r)) (set_value r)\<rparr> else r) (db_settings d)\<rparr>"

subsection \<open>Lemmas\<close>

text \<open>
  What the code relies on: AES-GCM opens what it sealed, base64url has no colon, and
  neither tg nor ciphertext of a non-empty text is empty; scrypt accepts its own
  hash, and base64 has no dollar sign.
\<close>

definition base64_text :: "string \<Rightarrow> bool" where
  "base64_text s \<longleftrightarrow> s \<noteq> '''' \<and> list_all (\<lambda>c. is_alnum c \<or> c \<in> set ''-_+/='') s"

definition sound_gcm :: "crypto \<Rightarrow> bool" where
  "sound_gcm cr \<longleftrightarrow> (\<forall>salt iv p. p \<noteq> '''' \<longrightarrow>
     (case cr_gcm_seal cr salt iv p of (tg, ct) \<Rightarrow>
        base64_text tg \<and> base64_text ct \<and> cr_gcm_open cr salt iv tg ct = Some p))"

definition sound_scrypt :: "crypto \<Rightarrow> bool" where
  "sound_scrypt cr \<longleftrightarrow> (\<forall>p salt. base64_text (cr_scrypt_hash cr p salt) \<and>
     cr_scrypt_matches cr p [''16384'', ''8'', ''1'', salt, cr_scrypt_hash cr p salt])"

lemma base64_text_no:
  assumes "base64_text s"
  shows "CHR '':'' \<notin> set s" and "CHR ''$'' \<notin> set s" and "s \<noteq> ''''"
  using assms by (auto simp: base64_text_def list_all_iff is_alnum_def is_digit_def code_unit_def)

lemma encryptSecret_shape:
  assumes "sound_gcm cr" and "base64_text salt" and "base64_text iv" and "p \<noteq> ''''"
  obtains tg ct where "encryptSecret cr salt iv p = PREFIX @ join '':'' [salt, iv, tg, ct]"
    and "base64_text tg" and "base64_text ct" and "cr_gcm_open cr salt iv tg ct = Some p"
proof -
  obtain tg ct where s: "cr_gcm_seal cr salt iv p = (tg, ct)" by fastforce
  have "case cr_gcm_seal cr salt iv p of (tg, ct) \<Rightarrow>
      base64_text tg \<and> base64_text ct \<and> cr_gcm_open cr salt iv tg ct = Some p"
    by (rule assms(1) [unfolded sound_gcm_def, rule_format, OF assms(4)])
  then have "base64_text tg" "base64_text ct" "cr_gcm_open cr salt iv tg ct = Some p"
    unfolding s by simp_all
  moreover have "encryptSecret cr salt iv p = PREFIX @ join '':'' [salt, iv, tg, ct]"
    using s assms(4) by (simp add: encryptSecret_def)
  ultimately show thesis using that by blast
qed

lemma decrypt_encrypt:
  assumes "sound_gcm cr" and "base64_text salt" and "base64_text iv"
  shows "decryptSecret cr (encryptSecret cr salt iv p) = Some p"
proof (cases "p = ''''")
  case True
  then show ?thesis by (simp add: encryptSecret_def decryptSecret_def)
next
  case False
  then obtain tg ct where e: "encryptSecret cr salt iv p = PREFIX @ join '':'' [salt, iv, tg, ct]"
    and b: "base64_text tg" "base64_text ct" and o: "cr_gcm_open cr salt iv tg ct = Some p"
    using assms encryptSecret_shape by blast
  have "split_on (CHR '':'') (join '':'' [salt, iv, tg, ct]) = [salt, iv, tg, ct]"
    using assms b base64_text_no(1) by (intro split_on_join) auto
  moreover have "\<not> starts_with (PREFIX @ x) PREFIX_V1" for x
    by (simp add: PREFIX_def PREFIX_V1_def starts_with_def)
  moreover have "PREFIX \<noteq> ''''" by (simp add: PREFIX_def)
  ultimately show ?thesis
    using o b assms base64_text_no(3) unfolding e by (auto simp: decryptSecret_def)
qed

lemma encryptSecret_marked:
  "p \<noteq> '''' \<Longrightarrow> isEncrypted (encryptSecret cr salt iv p) \<and> \<not> needsUpgrade (encryptSecret cr salt iv p)"
  by (auto simp: encryptSecret_def isEncrypted_def needsUpgrade_def PREFIX_def PREFIX_V1_def
      starts_with_def split: prod.splits)

lemma decrypt_legacy: "\<not> isEncrypted v \<Longrightarrow> decryptSecret cr v = Some v"
  by (auto simp: decryptSecret_def isEncrypted_def)

text \<open>What a value reads as does not change when the boot pass seals it.\<close>

lemma sealValue_reads_same:
  assumes "sound_gcm cr" and "base64_text (fst rnd)" and "base64_text (snd rnd)"
  shows "decryptSecret cr (sealValue cr rnd v) = decryptSecret cr v"
  using assms
  by (auto simp: sealValue_def decrypt_encrypt decrypt_legacy split: option.split)

lemma sealValue_idem: "sealValue cr rnd' (sealValue cr rnd v) = sealValue cr rnd v"
proof -
  have fixed: "sealValue cr rnd' (encryptSecret cr a b p) = encryptSecret cr a b p" for a b p
  proof (cases "p = ''''")
    case True
    then show ?thesis
      by (simp add: encryptSecret_def sealValue_def needsUpgrade_def isEncrypted_def starts_with_def
          PREFIX_def PREFIX_V1_def)
  next
    case False
    from encryptSecret_marked [OF this, of cr a b] show ?thesis by (simp add: sealValue_def)
  qed
  show ?thesis
  proof (cases "isEncrypted v \<and> (needsUpgrade v \<longrightarrow> decryptSecret cr v = None)")
    case True
    then have "sealValue cr r v = v" for r by (auto simp: sealValue_def)
    then show ?thesis by simp
  next
    case False
    then have "\<exists>p. sealValue cr rnd v = encryptSecret cr (fst rnd) (snd rnd) p"
      by (auto simp: sealValue_def isEncrypted_def needsUpgrade_def)
    with fixed show ?thesis by auto
  qed
qed

lemma verify_hash:
  assumes "sound_scrypt cr" and "base64_text salt"
  shows "verifyPassword cr p (hashPassword cr salt p)"
proof -
  have "base64_text (cr_scrypt_hash cr p salt)" using assms(1) by (simp add: sound_scrypt_def)
  then have "split_on (CHR ''$'') (hashPassword cr salt p) =
      [''scrypt'', ''16384'', ''8'', ''1'', salt, cr_scrypt_hash cr p salt]"
    using assms(2) base64_text_no(2) unfolding hashPassword_def by (intro split_on_join) auto
  then show ?thesis using assms(1) by (simp add: verifyPassword_def sound_scrypt_def)
qed

lemma settingRow_setSetting:
  "settingRow (setSetting cr salt iv k v d) j =
     (if j = k then Some (\<lparr>set_key = k, set_value = (if k \<in> set SECRET_SETTINGS then encryptSecret cr salt iv v else v)\<rparr>)
      else settingRow d j)"
  by (auto simp: settingRow_def setSetting_def Let_def sql_get_upsert
      intro!: sql_get_upsert_other split: option.split dest: sql_get_SomeD)

lemma getSetting_setSetting:
  assumes "sound_gcm cr" and "base64_text salt" and "base64_text iv"
  shows "getSetting cr (setSetting cr salt iv k v d) j = (if j = k then Some v else getSetting cr d j)"
  using assms by (simp add: getSetting_def settingRow_setSetting decrypt_encrypt)

end
