(* ===== verification/Sessions.thy ===== *)
theory Sessions
  imports Users Contracts Secrets
begin

text \<open>
  Sessions: \<open>apps/api/src/db/sessions.ts\<close>.  The cookie carries a random token, the
  table only its hash.  \<open>token\<close> stands for the fresh random bytes, \<open>now\<close> for
  \<open>Date.now()\<close>, and \<open>cr\<close> for the crypto functions of Node.
\<close>

subsection \<open>Authentication methods as JSON\<close>

definition method_text :: "auth_method \<Rightarrow> string" where
  "method_text m = (case m of Password \<Rightarrow> ''password'' | Passkey \<Rightarrow> ''passkey'' | Oidc \<Rightarrow> ''oidc''
     | Totp \<Rightarrow> ''totp'' | RecoveryCode \<Rightarrow> ''recovery-code'' | Autologin \<Rightarrow> ''autologin'')"

definition quoted :: "string \<Rightarrow> string" where
  "quoted s = CHR 0x22 # s @ [CHR 0x22]"

definition methods_json :: "auth_method list \<Rightarrow> string" where
  "methods_json ms = ''['' @ join '','' (map (\<lambda>m. quoted (method_text m)) ms) @ '']''"

subsection \<open>Operations\<close>

record session_record =
  sr_id :: string
  sr_user_id :: string
  sr_auth_methods :: "auth_method list"
  sr_created_at :: millis
  sr_expires_at :: millis

record session_detail = session_record +
  sd_user_agent :: "string option"
  sd_ip :: "string option"

record session_meta =
  sm_user_agent :: "string option"
  sm_ip :: "string option"

definition toSessionRecord :: "session_row \<Rightarrow> session_record" where
  "toSessionRecord row = \<lparr>sr_id = ses_id row, sr_user_id = ses_user_id row,
     sr_auth_methods = ses_auth_methods row, sr_created_at = ses_created_at row,
     sr_expires_at = ses_expires_at row\<rparr>"

definition createSession ::
  "crypto \<Rightarrow> config \<Rightarrow> millis \<Rightarrow> string \<Rightarrow> string \<Rightarrow> auth_method list \<Rightarrow> session_meta \<Rightarrow> db \<Rightarrow>
     sql_error + (session_record \<times> db)" where
  "createSession cr cfg now token userId methods sm d =
     (let row = \<lparr>ses_id = hashToken cr token, ses_user_id = userId, ses_auth_methods = methods,
                 ses_user_agent = sm_user_agent sm, ses_ip = sm_ip sm,
                 ses_created_at = now, ses_expires_at = now + cfg_session_ttl_ms cfg\<rparr>
      in if sql_exists (\<lambda>r. ses_id r = ses_id row) (db_sessions d) then Inl UniqueViolation
         else if userRow d userId = None then Inl ForeignKeyViolation
         else Inr (toSessionRecord row, d\<lparr>db_sessions := db_sessions d @ [row]\<rparr>))"

definition deleteSession :: "string \<Rightarrow> db \<Rightarrow> db" where
  "deleteSession i d = d\<lparr>db_sessions := sql_delete (\<lambda>r. ses_id r = i) (db_sessions d)\<rparr>"

definition getValidSession :: "crypto \<Rightarrow> millis \<Rightarrow> string \<Rightarrow> db \<Rightarrow> session_record option \<times> db" where
  "getValidSession cr now token d =
     (let i = hashToken cr token in
      case sql_get (\<lambda>r. ses_id r = i) (db_sessions d) of
        None \<Rightarrow> (None, d)
      | Some row \<Rightarrow> if ses_expires_at row \<le> now then (None, deleteSession i d)
                    else (Some (toSessionRecord row), d))"

definition deleteAutologinSessions :: "db \<Rightarrow> nat \<times> db" where
  "deleteAutologinSessions d =
     (let P = (\<lambda>r. contains (methods_json (ses_auth_methods r)) (quoted ''autologin''))
      in (sql_count P (db_sessions d), d\<lparr>db_sessions := sql_delete P (db_sessions d)\<rparr>))"

definition deleteAllForUser :: "string \<Rightarrow> db \<Rightarrow> db" where
  "deleteAllForUser u d = d\<lparr>db_sessions := sql_delete (\<lambda>r. ses_user_id r = u) (db_sessions d)\<rparr>"

definition listForUser :: "string \<Rightarrow> millis \<Rightarrow> db \<Rightarrow> session_detail list" where
  "listForUser u now d = map (\<lambda>row.
       \<lparr>sr_id = ses_id row, sr_user_id = ses_user_id row, sr_auth_methods = ses_auth_methods row,
        sr_created_at = ses_created_at row, sr_expires_at = ses_expires_at row,
        sd_user_agent = ses_user_agent row, sd_ip = ses_ip row\<rparr>)
     (order_desc ses_created_at
       (filter (\<lambda>r. ses_user_id r = u \<and> ses_expires_at r > now) (db_sessions d)))"

definition deleteOwnedSession :: "string \<Rightarrow> string \<Rightarrow> db \<Rightarrow> bool \<times> db" where
  "deleteOwnedSession u i d =
     (let P = (\<lambda>r. ses_id r = i \<and> ses_user_id r = u)
      in (sql_count P (db_sessions d) > 0, d\<lparr>db_sessions := sql_delete P (db_sessions d)\<rparr>))"

definition deleteOtherSessionsForUser :: "string \<Rightarrow> string \<Rightarrow> db \<Rightarrow> nat \<times> db" where
  "deleteOtherSessionsForUser u keep d =
     (let P = (\<lambda>r. ses_user_id r = u \<and> ses_id r \<noteq> keep)
      in (sql_count P (db_sessions d), d\<lparr>db_sessions := sql_delete P (db_sessions d)\<rparr>))"

subsection \<open>Lemmas\<close>

interpretation own_sessions: owned_rows db_sessions ses_id ses_user_id deleteOwnedSession
  by unfold_locales (auto simp: deleteOwnedSession_def Let_def sql_count_pos)

definition sessions_ok :: "db \<Rightarrow> bool" where
  "sessions_ok d \<longleftrightarrow> keyed ses_id (db_sessions d) \<and>
     (\<forall>r \<in> set (db_sessions d). ses_user_id r \<in> user_ids d)"

lemma createSession_Inr:
  assumes "createSession cr cfg now token u ms sm d = Inr (s, d')"
  shows "sr_id s = hashToken cr token" "sr_user_id s = u" "sr_auth_methods s = ms"
    "sr_expires_at s = now + cfg_session_ttl_ms cfg" "u \<in> user_ids d"
    "db_users d' = db_users d"
    "sql_get (\<lambda>r. ses_id r = hashToken cr token) (db_sessions d) = None"
    "\<exists>row. db_sessions d' = db_sessions d @ [row] \<and> toSessionRecord row = s"
  using assms
  by (auto simp: createSession_def Let_def toSessionRecord_def sql_get_None sql_exists_iff
      userRow_None_iff split: if_splits)

lemma getValidSession_Some:
  assumes "getValidSession cr now token d = (Some s, d')"
  shows "d' = d \<and> (\<exists>row \<in> set (db_sessions d). ses_id row = hashToken cr token \<and>
     now < ses_expires_at row \<and> s = toSessionRecord row)"
  using assms by (auto simp: getValidSession_def Let_def split: option.splits if_splits dest: sql_get_SomeD)

lemma getValidSession_users [simp]: "db_users (snd (getValidSession cr now token d)) = db_users d"
  by (simp add: getValidSession_def Let_def deleteSession_def split: option.split)

text \<open>A stored identifier is never itself a cookie: it would have to hash to itself.\<close>

lemma session_roundtrip:
  assumes "createSession cr cfg now token u ms sm d = Inr (s, d')"
    and "later < now + cfg_session_ttl_ms cfg"
  shows "getValidSession cr later token d' = (Some s, d')"
proof -
  from createSession_Inr [OF assms(1)] obtain row where
    row: "db_sessions d' = db_sessions d @ [row]" "toSessionRecord row = s"
    and none: "sql_get (\<lambda>r. ses_id r = hashToken cr token) (db_sessions d) = None"
    and s: "sr_id s = hashToken cr token" "sr_expires_at s = now + cfg_session_ttl_ms cfg"
    by blast
  have "ses_id row = hashToken cr token" "ses_expires_at row = now + cfg_session_ttl_ms cfg"
    using row(2) s by (auto simp: toSessionRecord_def)
  with row none assms(2) show ?thesis
    by (simp add: getValidSession_def Let_def sql_get_append)
qed

lemma createSession_sessions_ok:
  "sessions_ok d \<Longrightarrow> createSession cr cfg now token u ms sm d = Inr (s, d') \<Longrightarrow> sessions_ok d'"
  by (auto simp: sessions_ok_def createSession_def Let_def sql_exists_iff user_ids_def userRow_None_iff
      split: if_splits intro!: keyed_snoc)

text \<open>
  The \<open>LIKE '%"autologin"%'\<close> test on the JSON text finds exactly the sessions whose
  method list holds \<open>autologin\<close>: a method name has no quote in it.
\<close>

lemma contains_append_right: "contains t p \<Longrightarrow> contains (s @ t) p"
proof (induction s)
  case (Cons c s)
  then show ?case by (cases "s @ t") auto
qed simp

lemma contains_starts: "starts_with t p \<Longrightarrow> contains t p"
  by (cases t) (auto simp: starts_with_def)

lemma contains_iff: "contains t p \<longleftrightarrow> (\<exists>a b. t = a @ p @ b)"
proof
  assume "contains t p"
  then show "\<exists>a b. t = a @ p @ b"
  proof (induction t p rule: contains.induct)
    case (2 c cs p)
    then consider "starts_with (c # cs) p" | "contains cs p" by auto
    then show ?case
    proof cases
      case 1
      then obtain r where "c # cs = p @ r" by (auto simp: starts_with_iff)
      then have "c # cs = [] @ p @ r" by simp
      then show ?thesis by blast
    next
      case 2
      with \<open>contains cs p \<Longrightarrow> \<exists>a b. cs = a @ p @ b\<close> obtain a b where "cs = a @ p @ b" by blast
      then have "c # cs = (c # a) @ p @ b" by simp
      then show ?thesis by blast
    qed
  qed auto
next
  assume "\<exists>a b. t = a @ p @ b"
  then obtain a b where t: "t = a @ p @ b" by blast
  have "contains (p @ b) p" by (rule contains_starts) simp
  then show "contains t p" unfolding t by (rule contains_append_right)
qed

lemma method_text_no_quote: "CHR 0x22 \<notin> set (method_text m)"
  by (cases m) (simp_all add: method_text_def)

lemma method_text_inj [simp]: "method_text m = method_text n \<longleftrightarrow> m = n"
  by (cases m; cases n) (simp_all add: method_text_def)

lemma split_quoted:
  "CHR 0x22 \<notin> set p \<Longrightarrow> CHR 0x22 \<notin> set w \<Longrightarrow>
    split_on (CHR 0x22) (p @ quoted w @ r) = p # w # split_on (CHR 0x22) r"
  using split_on_append [of "CHR 0x22" p "w @ CHR 0x22 # r"] split_on_append [of "CHR 0x22" w r]
  by (simp add: quoted_def split_on_plain)

lemma split_methods:
  assumes "ms \<noteq> []" and "CHR 0x22 \<notin> set p"
  shows "set (split_on (CHR 0x22) (p @ join '','' (map (\<lambda>m. quoted (method_text m)) ms) @ '']'')) \<subseteq>
    {p, '','', '']''} \<union> method_text ` set ms"
  using assms
proof (induction ms arbitrary: p)
  case (Cons m ms)
  show ?case
  proof (cases ms)
    case Nil
    then show ?thesis
      using Cons.prems split_quoted [of p "method_text m" "'']''"] by (auto simp: method_text_no_quote)
  next
    case (Cons k ks)
    let ?rest = "'','' @ join '','' (map (\<lambda>m. quoted (method_text m)) ms) @ '']''"
    have eq: "p @ join '','' (map (\<lambda>m. quoted (method_text m)) (m # ms)) @ '']''
        = p @ quoted (method_text m) @ ?rest"
      using Cons by simp
    have "set (split_on (CHR 0x22) ?rest) \<subseteq> {'','', '']''} \<union> method_text ` set ms"
      using Cons.IH [of "'',''"] Cons by auto
    then show ?thesis
      unfolding eq using Cons.prems by (subst split_quoted) (auto simp: method_text_no_quote)
  qed
qed simp

lemma quoted_in_split:
  "CHR 0x22 \<notin> set w \<Longrightarrow> contains t (quoted w) \<Longrightarrow> w \<in> set (split_on (CHR 0x22) t)"
  by (auto simp: contains_iff quoted_def split_on_append split_on_plain)

lemma methods_json_autologin:
  "contains (methods_json ms) (quoted ''autologin'') \<longleftrightarrow> Autologin \<in> set ms"
proof
  assume c: "contains (methods_json ms) (quoted ''autologin'')"
  then have w: "''autologin'' \<in> set (split_on (CHR 0x22) (methods_json ms))"
    by (intro quoted_in_split) simp_all
  show "Autologin \<in> set ms"
  proof (cases "ms = []")
    case True
    with w show ?thesis by (simp add: methods_json_def)
  next
    case False
    then have "''autologin'' \<in> method_text ` set ms"
      using w split_methods [OF False, of "''[''"] by (auto simp: methods_json_def)
    then obtain m where "m \<in> set ms" "method_text m = method_text Autologin"
      by (auto simp: method_text_def)
    then show ?thesis by simp
  qed
next
  assume "Autologin \<in> set ms"
  then obtain xs ys where ms: "ms = xs @ Autologin # ys" by (auto dest: split_list)
  let ?q = "\<lambda>m. quoted (method_text m)"
  have "\<exists>a b. join '','' (map ?q (xs @ Autologin # ys)) = a @ ?q Autologin @ b"
  proof (induction xs)
    case Nil
    show ?case by (cases ys) (auto intro: exI [of _ "[]"])
  next
    case (Cons x xs)
    then obtain a b where ab: "join '','' (map ?q (xs @ Autologin # ys)) = a @ ?q Autologin @ b" by blast
    have "join '','' (map ?q ((x # xs) @ Autologin # ys)) = (?q x @ '','' @ a) @ ?q Autologin @ b"
      using ab by (simp add: join_Cons)
    then show ?case by blast
  qed
  then obtain a b where "join '','' (map ?q ms) = a @ ?q Autologin @ b" unfolding ms by blast
  then have "methods_json ms = (''['' @ a) @ quoted ''autologin'' @ (b @ '']'')"
    by (simp add: methods_json_def) (simp add: method_text_def)
  then show "contains (methods_json ms) (quoted ''autologin'')"
    unfolding contains_iff by blast
qed

lemma deleteAutologinSessions_sessions:
  "db_sessions (snd (deleteAutologinSessions d)) =
     sql_delete (\<lambda>r. Autologin \<in> set (ses_auth_methods r)) (db_sessions d)"
  by (simp add: deleteAutologinSessions_def Let_def methods_json_autologin)

end
