(* ===== verification/Base32.thy ===== *)
theory Base32
  imports JsText "HOL-Library.Word"
begin

unbundle bit_operations_syntax

text \<open>
  \<open>base32Encode\<close> and \<open>base32Decode\<close> of \<open>auth/totp.ts\<close>.  JavaScript's bitwise operators
  work on 32-bit integers, so the accumulator \<open>value\<close> is a \<open>32 word\<close>; bits shifted out
  at the top are lost, as in the code.  The theorem is that decoding undoes encoding
  for every byte string.
\<close>

definition B32 :: string where "B32 = ''ABCDEFGHIJKLMNOPQRSTUVWXYZ234567''"

text \<open>The inner \<open>while (bits >= 5)\<close>: the characters it appends.\<close>

fun b32_drain :: "nat \<Rightarrow> 32 word \<Rightarrow> string" where
  "b32_drain bits val =
     (if bits \<ge> 5 then B32 ! unat (drop_bit (bits - 5) val AND 31) # b32_drain (bits - 5) val else [])"

declare b32_drain.simps [simp del]

fun b32_enc_loop :: "nat \<Rightarrow> 32 word \<Rightarrow> 8 word list \<Rightarrow> string" where
  "b32_enc_loop bits val [] = (if bits > 0 then [B32 ! unat (push_bit (5 - bits) val AND 31)] else [])"
| "b32_enc_loop bits val (b # buf) =
     (let val' = push_bit 8 val OR ucast b
      in b32_drain (bits + 8) val' @ b32_enc_loop ((bits + 8) mod 5) val' buf)"

definition base32Encode :: "8 word list \<Rightarrow> string" where
  "base32Encode buf = b32_enc_loop 0 0 buf"

text \<open>\<open>B32.indexOf(ch)\<close>, with \<open>None\<close> for \<open>-1\<close>.\<close>

fun index_of :: "char \<Rightarrow> string \<Rightarrow> nat option" where
  "index_of c [] = None"
| "index_of c (x # xs) = (if x = c then Some 0 else map_option Suc (index_of c xs))"

fun b32_dec_loop :: "nat \<Rightarrow> 32 word \<Rightarrow> string \<Rightarrow> 8 word list option" where
  "b32_dec_loop bits val [] = Some []"
| "b32_dec_loop bits val (ch # cs) =
     (case index_of ch B32 of
        None \<Rightarrow> None
      | Some idx \<Rightarrow>
          (let val' = push_bit 5 val OR of_nat idx
           in if bits + 5 \<ge> 8
              then map_option (Cons (ucast (drop_bit (bits + 5 - 8) val' AND 255))) (b32_dec_loop (bits + 5 - 8) val' cs)
              else b32_dec_loop (bits + 5) val' cs))"

definition b32_ignored :: "char \<Rightarrow> bool" where
  "b32_ignored c \<longleftrightarrow> js_space c \<or> c = CHR ''='' \<or> c = CHR ''-''"

definition base32Decode :: "string \<Rightarrow> 8 word list option" where
  "base32Decode input = b32_dec_loop 0 0 (filter (\<lambda>c. \<not> b32_ignored c) (js_upper input))"

subsection \<open>Bits, most significant first\<close>

definition wbits :: "nat \<Rightarrow> 'a::len word \<Rightarrow> bool list" where
  "wbits n w = map (\<lambda>i. bit w i) (rev [0..<n])"

lemma length_wbits [simp]: "length (wbits n w) = n"
  by (simp add: wbits_def)

lemma nth_wbits: "i < n \<Longrightarrow> wbits n w ! i = bit w (n - 1 - i)"
  by (simp add: wbits_def rev_nth)

lemma wbits_0 [simp]: "wbits 0 w = []"
  by (simp add: wbits_def)

lemma wbits_push8:
  fixes v :: "32 word" and b :: "8 word"
  assumes "n + 8 \<le> 32"
  shows "wbits (n + 8) (push_bit 8 v OR ucast b) = wbits n v @ wbits 8 b"
proof (rule nth_equalityI)
  fix i
  assume "i < length (wbits (n + 8) (push_bit 8 v OR ucast b))"
  then have i: "i < n + 8" by simp
  show "wbits (n + 8) (push_bit 8 v OR ucast b) ! i = (wbits n v @ wbits 8 b) ! i"
  proof (cases "i < n")
    case True
    then have "n + 7 - i \<ge> 8" "n + 7 - i - 8 = n - 1 - i" by auto
    with True assms show ?thesis
      by (simp add: nth_append nth_wbits bit_simps) (auto dest: bit_imp_le_length)
  next
    case False
    with i assms show ?thesis
      by (simp add: nth_append nth_wbits bit_simps) (auto simp: Suc_diff_Suc intro!: arg_cong [where f = "bit b"])
  qed
qed simp

lemma wbits_push5:
  fixes v :: "32 word"
  assumes "n + 5 \<le> 32" and "k < 32"
  shows "wbits (n + 5) (push_bit 5 v OR of_nat k) = wbits n v @ wbits 5 (of_nat k :: 32 word)"
proof (rule nth_equalityI)
  fix i
  assume "i < length (wbits (n + 5) (push_bit 5 v OR of_nat k))"
  then have i: "i < n + 5" by simp
  have small: "\<not> bit (of_nat k :: 32 word) j" if "5 \<le> j" for j
  proof -
    have "k < 2 ^ j" using assms(2) power_increasing [OF that, of "2::nat"] by simp
    then have "\<not> bit k j" by (simp add: bit_iff_odd)
    then show ?thesis by (simp add: bit_of_nat_iff)
  qed
  show "wbits (n + 5) (push_bit 5 v OR of_nat k) ! i = (wbits n v @ wbits 5 (of_nat k :: 32 word)) ! i"
  proof (cases "i < n")
    case True
    then have "4 + n - i \<ge> 5" "4 + n - i < 32" using assms by auto
    with True assms small [of "4 + n - i"] show ?thesis
      by (simp add: nth_append nth_wbits bit_or_iff bit_push_bit_iff)
  next
    case False
    then have "n + 4 - i = 4 - (i - n)" "\<not> 5 \<le> n + 4 - i" using i by auto
    with False i show ?thesis
      by (simp add: nth_append nth_wbits bit_or_iff bit_push_bit_iff)
  qed
qed simp

lemma wbits_split:
  fixes w :: "'a::len word"
  assumes "k \<le> n"
  shows "wbits n w = wbits k (drop_bit (n - k) w) @ wbits (n - k) w"
proof (rule nth_equalityI)
  fix i
  assume "i < length (wbits n w)"
  with assms show "wbits n w ! i = (wbits k (drop_bit (n - k) w) @ wbits (n - k) w) ! i"
    by (cases "i < k") (auto simp: nth_append nth_wbits bit_simps intro!: arg_cong [where f = "bit w"])
qed (use assms in simp)

lemma wbits_inj:
  fixes v w :: "'a::len word"
  assumes "wbits LENGTH('a) v = wbits LENGTH('a) w"
  shows "v = w"
proof (rule bit_word_eqI)
  fix n
  assume n: "n < LENGTH('a)"
  have "wbits LENGTH('a) v ! (LENGTH('a) - 1 - n) = wbits LENGTH('a) w ! (LENGTH('a) - 1 - n)"
    using assms by simp
  with n show "bit v n = bit w n" by (simp add: nth_wbits)
qed

lemma wbits_and_mask:
  fixes w :: "32 word"
  shows "wbits 5 (w AND 31) = wbits 5 w" and "wbits 8 (w AND 255) = wbits 8 w"
  by (simp_all add: wbits_def bit_simps upt_conv_Cons)

lemma wbits_ucast8: "wbits 8 (ucast (w :: 32 word) :: 8 word) = wbits 8 w"
  by (simp add: wbits_def bit_simps upt_conv_Cons)

lemma and31_less: "unat ((w :: 32 word) AND 31) < 32"
proof -
  have "w AND 31 \<le> 31" by (rule word_and_le1)
  then have "unat (w AND 31) \<le> unat (31 :: 32 word)" by (simp only: word_le_nat_alt)
  then show ?thesis by simp
qed

subsection \<open>Symbols\<close>

lemma index_of_B32: "k < 32 \<Longrightarrow> index_of (B32 ! k) B32 = Some k"
proof -
  have "list_all (\<lambda>k. index_of (B32 ! k) B32 = Some k) [0..<32]" by code_simp
  then show "k < 32 \<Longrightarrow> index_of (B32 ! k) B32 = Some k" by (simp add: list_all_iff)
qed

lemma B32_kept: "k < 32 \<Longrightarrow> \<not> b32_ignored (B32 ! k) \<and> code_unit (B32 ! k) < 97"
proof -
  have "list_all (\<lambda>k. \<not> b32_ignored (B32 ! k) \<and> code_unit (B32 ! k) < 97) [0..<32]" by code_simp
  then show "k < 32 \<Longrightarrow> \<not> b32_ignored (B32 ! k) \<and> code_unit (B32 ! k) < 97" by (simp add: list_all_iff)
qed

definition sym_bits :: "char \<Rightarrow> bool list" where
  "sym_bits c = (case index_of c B32 of None \<Rightarrow> [] | Some k \<Rightarrow> wbits 5 (of_nat k :: 32 word))"

definition symbols :: "string \<Rightarrow> bool" where
  "symbols s \<longleftrightarrow> (\<forall>c \<in> set s. \<exists>k < 32. c = B32 ! k)"

lemma sym_bits_B32: "k < 32 \<Longrightarrow> sym_bits (B32 ! k) = wbits 5 (of_nat k :: 32 word)"
  by (simp add: sym_bits_def index_of_B32)

lemma sym_bits_word: "sym_bits (B32 ! unat ((w :: 32 word) AND 31)) = wbits 5 w"
  by (simp add: sym_bits_B32 and31_less wbits_and_mask)

subsection \<open>The encoder\<close>

lemma b32_drain_bits:
  "concat (map sym_bits (b32_drain n v)) @ wbits (n mod 5) v = wbits n v \<and> symbols (b32_drain n v)"
proof (induction n v rule: b32_drain.induct)
  case (1 n v)
  show ?case
  proof (cases "5 \<le> n")
    case True
    then have IH: "concat (map sym_bits (b32_drain (n - 5) v)) @ wbits (n mod 5) v = wbits (n - 5) v"
        "symbols (b32_drain (n - 5) v)"
      using 1 by (simp_all add: le_mod_geq)
    have d: "b32_drain n v = B32 ! unat (drop_bit (n - 5) v AND 31) # b32_drain (n - 5) v"
      using True by (simp add: b32_drain.simps [of n])
    have "wbits n v = wbits 5 (drop_bit (n - 5) v) @ wbits (n - 5) v"
      using True by (rule wbits_split)
    with IH and31_less show ?thesis unfolding d by (auto simp: sym_bits_word symbols_def)
  next
    case False
    then show ?thesis by (simp add: b32_drain.simps [of n] symbols_def)
  qed
qed

lemma b32_enc_loop_bits:
  assumes "n < 5"
  shows "\<exists>z. length z < 5 \<and>
    concat (map sym_bits (b32_enc_loop n v bs)) = wbits n v @ concat (map (wbits 8) bs) @ z \<and>
    symbols (b32_enc_loop n v bs)"
  using assms
proof (induction bs arbitrary: n v)
  case Nil
  show ?case
  proof (cases "n = 0")
    case True
    then show ?thesis by (simp add: symbols_def)
  next
    case False
    let ?w = "push_bit (5 - n) v"
    have "wbits 5 ?w = wbits n (drop_bit (5 - n) ?w) @ wbits (5 - n) ?w"
      using Nil by (intro wbits_split) simp
    moreover have "wbits n (drop_bit (5 - n) ?w) = wbits n v"
      using Nil by (auto simp: wbits_def bit_simps dest: bit_imp_le_length)
    ultimately show ?thesis using False Nil and31_less
      by (auto simp: sym_bits_word symbols_def intro!: exI [of _ "wbits (5 - n) ?w"])
  qed
next
  case (Cons b bs)
  let ?v = "push_bit 8 v OR ucast b"
  have "(n + 8) mod 5 < 5" by simp
  from Cons.IH [OF this, of ?v] obtain z where z: "length z < 5"
    "concat (map sym_bits (b32_enc_loop ((n + 8) mod 5) ?v bs))
       = wbits ((n + 8) mod 5) ?v @ concat (map (wbits 8) bs) @ z"
    "symbols (b32_enc_loop ((n + 8) mod 5) ?v bs)" by blast
  have "wbits (n + 8) ?v = wbits n v @ wbits 8 b" using Cons.prems by (intro wbits_push8) simp
  with b32_drain_bits [of "n + 8" ?v] z show ?case
    by (auto simp: Let_def symbols_def intro!: exI [of _ z])
qed

subsection \<open>The decoder\<close>

lemma b32_dec_loop_bits:
  assumes "n < 8" and "symbols s"
  shows "\<exists>out z. b32_dec_loop n v s = Some out \<and> length z < 8 \<and>
    wbits n v @ concat (map sym_bits s) = concat (map (wbits 8) out) @ z"
  using assms
proof (induction s arbitrary: n v)
  case Nil
  then show ?case by auto
next
  case (Cons c s)
  then obtain k where k: "k < 32" "c = B32 ! k" by (auto simp: symbols_def)
  let ?v = "push_bit 5 v OR of_nat k :: 32 word"
  have c: "sym_bits c = wbits 5 (of_nat k :: 32 word)" "index_of c B32 = Some k"
    using k by (simp_all add: sym_bits_B32 index_of_B32)
  have s: "symbols s" using Cons.prems by (simp add: symbols_def)
  have push: "wbits (n + 5) ?v = wbits n v @ wbits 5 (of_nat k :: 32 word)"
    using Cons.prems k by (intro wbits_push5) simp_all
  show ?case
  proof (cases "n + 5 \<ge> 8")
    case True
    then have n: "n + 5 - 8 < 8" using Cons.prems by simp
    obtain out z where IH: "b32_dec_loop (n + 5 - 8) ?v s = Some out" "length z < 8"
      "wbits (n + 5 - 8) ?v @ concat (map sym_bits s) = concat (map (wbits 8) out) @ z"
      using Cons.IH [OF n s, of ?v] by blast
    let ?b = "ucast (drop_bit (n + 5 - 8) ?v AND 255) :: 8 word"
    have "wbits (n + 5) ?v = wbits 8 (drop_bit (n + 5 - 8) ?v) @ wbits (n + 5 - 8) ?v"
      using True by (rule wbits_split)
    then have eight: "wbits (n + 5) ?v = wbits 8 ?b @ wbits (n + 5 - 8) ?v"
      by (simp only: wbits_ucast8 wbits_and_mask)
    have "wbits n v @ concat (map sym_bits (c # s)) = wbits (n + 5) ?v @ concat (map sym_bits s)"
      unfolding push by (simp add: c)
    also have "\<dots> = wbits 8 ?b @ concat (map (wbits 8) out) @ z"
      unfolding eight append_assoc IH(3) ..
    finally have "wbits n v @ concat (map sym_bits (c # s)) = concat (map (wbits 8) (?b # out)) @ z"
      by simp
    moreover have "b32_dec_loop n v (c # s) = Some (?b # out)"
      using True c IH(1) by (simp add: Let_def)
    ultimately show ?thesis using IH(2) by blast
  next
    case False
    then have n: "n + 5 < 8" by simp
    with Cons.IH [OF this s, of ?v] push c show ?thesis by (auto simp: Let_def)
  qed
qed

lemma octets_unique:
  assumes "concat (map (wbits 8) xs) @ y = concat (map (wbits 8) xs') @ y'"
    and "length y < 8" and "length y' < 8"
  shows "xs = (xs' :: 8 word list)"
  using assms
proof (induction xs arbitrary: xs')
  case Nil
  then show ?case by (cases xs') (auto dest: arg_cong [where f = length])
next
  case (Cons x xs)
  show ?case
  proof (cases xs')
    case Nil
    with Cons.prems have "length (wbits 8 x @ concat (map (wbits 8) xs) @ y) = length y'" by simp
    with Cons.prems(3) show ?thesis by simp
  next
    case (Cons x' ys)
    with Cons.prems have eq: "wbits 8 x @ (concat (map (wbits 8) xs) @ y)
        = wbits 8 x' @ (concat (map (wbits 8) ys) @ y')" by simp
    then have "wbits 8 x = wbits 8 x'" "concat (map (wbits 8) xs) @ y = concat (map (wbits 8) ys) @ y'"
      by (simp_all add: append_eq_append_conv)
    moreover from this(1) have "x = x'" using wbits_inj [of x x'] by simp
    ultimately show ?thesis using Cons.IH [of ys] Cons.prems Cons by simp
  qed
qed

lemma symbols_kept:
  assumes "symbols s"
  shows "filter (\<lambda>c. \<not> b32_ignored c) (js_upper s) = s"
proof -
  have "js_upper s = s" using assms B32_kept by (intro js_upper_id) (auto simp: symbols_def)
  moreover have "filter (\<lambda>c. \<not> b32_ignored c) s = s"
    using assms B32_kept by (auto simp: symbols_def filter_id_conv)
  ultimately show ?thesis by simp
qed

lemma base32Encode_symbols: "symbols (base32Encode bs)"
  using b32_enc_loop_bits [of 0 0 bs] by (auto simp: base32Encode_def)

subsection \<open>Round trip\<close>

text \<open>
  Base32: every byte string survives \<open>base32Decode(base32Encode(buf))\<close>, with the
  32-bit accumulators of both loops as the code has them, whatever the length.
\<close>

theorem base32_roundtrip: "base32Decode (base32Encode buf) = Some buf"
proof -
  obtain z where z: "length z < 5"
    "concat (map sym_bits (base32Encode buf)) = concat (map (wbits 8) buf) @ z"
    using b32_enc_loop_bits [of 0 0 buf] by (auto simp: base32Encode_def)
  obtain out z' where d: "b32_dec_loop 0 0 (base32Encode buf) = Some out" "length z' < 8"
    "concat (map sym_bits (base32Encode buf)) = concat (map (wbits 8) out) @ z'"
    using b32_dec_loop_bits [of 0 "base32Encode buf" 0] base32Encode_symbols [of buf] by auto
  have "out = buf" using z d by (intro octets_unique [of out z' buf z]) simp_all
  with d(1) show ?thesis by (simp add: base32Decode_def symbols_kept [OF base32Encode_symbols])
qed

end
