(* ===== verification/Totp.thy ===== *)
theory Totp
  imports Base32 Secrets
begin

text \<open>
  Two-factor authentication: the TOTP algorithm and recovery codes of \<open>auth/totp.ts\<close>,
  and the enrolment, recovery-code and ticket tables of \<open>db/totp.ts\<close>.  HMAC-SHA1 is
  the parameter \<open>cr_hmac_sha1\<close>; random bytes, tickets and times are arguments.
\<close>

subsection \<open>Codes: \<open>auth/totp.ts\<close>\<close>

definition DIGITS :: nat where "DIGITS = 6"
definition STEP_SECONDS :: int where "STEP_SECONDS = 30"
definition TOTP_WINDOW :: int where "TOTP_WINDOW = 1"

definition generateSecret :: "bytes \<Rightarrow> string" where
  "generateSecret random20 = base32Encode random20"

definition be32 :: "32 word \<Rightarrow> bytes" where
  "be32 w = map (\<lambda>k. ucast (drop_bit k w) :: 8 word) [24, 16, 8, 0]"

text \<open>Indexing past the end of a buffer gives \<open>undefined\<close>, which the masks turn into 0.\<close>

definition byte_at :: "bytes \<Rightarrow> nat \<Rightarrow> 32 word" where
  "byte_at bs i = (if i < length bs then ucast (bs ! i) else 0)"

definition hotp_binary :: "bytes \<Rightarrow> 32 word" where
  "hotp_binary digest =
     (let offset = unat (byte_at digest (length digest - 1) AND 15)
      in push_bit 24 (byte_at digest offset AND 127) OR
         push_bit 16 (byte_at digest (offset + 1) AND 255) OR
         push_bit 8 (byte_at digest (offset + 2) AND 255) OR
         (byte_at digest (offset + 3) AND 255))"

definition hotp :: "crypto \<Rightarrow> bytes \<Rightarrow> nat \<Rightarrow> nat \<Rightarrow> string" where
  "hotp cr secret counter digits =
     (let buf = be32 (of_nat (counter div 4294967296)) @ be32 (of_nat counter);
          digest = cr_hmac_sha1 cr secret buf
      in pad_start digits (CHR ''0'') (js_nat (unat (hotp_binary digest) mod 10 ^ digits)))"

definition currentStep :: "millis \<Rightarrow> int" where
  "currentStep atMs = atMs div 30000"

definition verifyTotp :: "crypto \<Rightarrow> string \<Rightarrow> string \<Rightarrow> millis \<Rightarrow> int option" where
  "verifyTotp cr secretB32 code atMs =
     (let digits = filter is_digit code in
      if length digits \<noteq> DIGITS then None
      else case base32Decode secretB32 of
          None \<Rightarrow> None
        | Some secret \<Rightarrow>
            find (\<lambda>step. 0 \<le> step \<and> hotp cr secret (nat step) DIGITS = digits)
              (map (\<lambda>offset. currentStep atMs + offset) [- TOTP_WINDOW .. TOTP_WINDOW]))"

text \<open>\<open>URLSearchParams.toString\<close>: the form encoding, where a space is a plus sign.\<close>

definition form_encode :: "string \<Rightarrow> string" where
  "form_encode s = concat (map (\<lambda>c.
     if is_alnum c \<or> c \<in> set ''*-._'' then [c] else if c = CHR '' '' then ''+''
     else concat (map percent_byte (utf8_bytes c))) s)"

definition otpauthUri :: "string \<Rightarrow> string \<Rightarrow> string \<Rightarrow> string" where
  "otpauthUri issuer account secret =
     ''otpauth://totp/'' @ encode_uri_component issuer @ '':'' @ encode_uri_component account @ ''?'' @
     join ''&'' (map (\<lambda>(k, v). form_encode k @ ''='' @ form_encode v)
       [(''secret'', secret), (''issuer'', issuer), (''algorithm'', ''SHA1''),
        (''digits'', js_nat DIGITS), (''period'', js_nat (nat STEP_SECONDS))])"

subsection \<open>Recovery codes\<close>

definition RECOVERY_COUNT :: nat where "RECOVERY_COUNT = 10"

definition RECOVERY_ALPHABET :: string where
  "RECOVERY_ALPHABET = ''0123456789ABCDEFGHJKMNPQRSTVWXYZ''"

text \<open>\<open>random\<close> is what the ten calls of \<open>randomBytes(10)\<close> return.\<close>

definition recovery_code :: "bytes \<Rightarrow> string" where
  "recovery_code bs =
     (let s = map (\<lambda>b. RECOVERY_ALPHABET ! (unat b mod length RECOVERY_ALPHABET)) bs
      in take 5 s @ ''-'' @ drop 5 s)"

definition generateRecoveryCodes :: "bytes list \<Rightarrow> string list" where
  "generateRecoveryCodes random = map recovery_code (take RECOVERY_COUNT random)"

definition upper_or_digit :: "char \<Rightarrow> bool" where
  "upper_or_digit c \<longleftrightarrow> is_digit c \<or> (65 \<le> code_unit c \<and> code_unit c \<le> 90)"

definition normalizeRecoveryCode :: "string \<Rightarrow> string" where
  "normalizeRecoveryCode code = filter upper_or_digit (js_upper code)"

definition hashRecoveryCode :: "crypto \<Rightarrow> string \<Rightarrow> string" where
  "hashRecoveryCode cr code = cr_sha256_hex cr (normalizeRecoveryCode code)"

subsection \<open>Enrolment: \<open>db/totp.ts\<close>\<close>

record totp_record =
  tr_secret :: string
  tr_confirmed_at :: "millis option"
  tr_last_used_step :: "int option"

definition totpRow :: "db \<Rightarrow> string \<Rightarrow> totp_row option" where
  "totpRow d u = sql_get (\<lambda>r. ttp_user_id r = u) (db_totp d)"

definition getTotp :: "crypto \<Rightarrow> db \<Rightarrow> string \<Rightarrow> totp_record option" where
  "getTotp cr d u =
     (case totpRow d u of
        None \<Rightarrow> None
      | Some row \<Rightarrow>
          (case decryptSecret cr (ttp_secret row) of
             None \<Rightarrow> None
           | Some s \<Rightarrow> Some \<lparr>tr_secret = s, tr_confirmed_at = ttp_confirmed_at row,
                             tr_last_used_step = ttp_last_used_step row\<rparr>))"

definition totpEnabled :: "crypto \<Rightarrow> db \<Rightarrow> string \<Rightarrow> bool" where
  "totpEnabled cr d u = (case getTotp cr d u of None \<Rightarrow> False | Some r \<Rightarrow> tr_confirmed_at r \<noteq> None)"

definition startTotpEnrolment ::
  "crypto \<Rightarrow> string \<Rightarrow> string \<Rightarrow> millis \<Rightarrow> string \<Rightarrow> string \<Rightarrow> db \<Rightarrow> sql_error + db" where
  "startTotpEnrolment cr salt iv now u secret d =
     (let row = \<lparr>ttp_user_id = u, ttp_secret = encryptSecret cr salt iv secret,
                 ttp_confirmed_at = None, ttp_created_at = now, ttp_last_used_step = None\<rparr>
      in with_user d u (d\<lparr>db_totp := sql_upsert (\<lambda>r. ttp_user_id r = u) (\<lambda>_. row) row (db_totp d)\<rparr>))"

definition confirmTotp :: "string \<Rightarrow> int \<Rightarrow> millis \<Rightarrow> db \<Rightarrow> db" where
  "confirmTotp u step now d = d\<lparr>db_totp := sql_update (\<lambda>r. ttp_user_id r = u)
     (\<lambda>r. r\<lparr>ttp_confirmed_at := Some now, ttp_last_used_step := Some step\<rparr>) (db_totp d)\<rparr>"

definition noteTotpStep :: "string \<Rightarrow> int \<Rightarrow> db \<Rightarrow> db" where
  "noteTotpStep u step d = d\<lparr>db_totp := sql_update (\<lambda>r. ttp_user_id r = u)
     (\<lambda>r. r\<lparr>ttp_last_used_step := Some step\<rparr>) (db_totp d)\<rparr>"

definition disableTotp :: "string \<Rightarrow> db \<Rightarrow> db" where
  "disableTotp u d = d\<lparr>db_totp := sql_delete (\<lambda>r. ttp_user_id r = u) (db_totp d),
     db_recovery := sql_delete (\<lambda>r. rec_user_id r = u) (db_recovery d)\<rparr>"

subsection \<open>Stored recovery codes\<close>

definition recovery_key :: "recovery_row \<Rightarrow> string \<times> string" where
  "recovery_key r = (rec_user_id r, rec_code_hash r)"

definition new_recovery_row :: "crypto \<Rightarrow> string \<Rightarrow> string \<Rightarrow> recovery_row" where
  "new_recovery_row cr u code =
     \<lparr>rec_user_id = u, rec_code_hash = hashRecoveryCode cr code, rec_used_at = None\<rparr>"

definition replaceRecoveryCodes :: "crypto \<Rightarrow> string \<Rightarrow> string list \<Rightarrow> db \<Rightarrow> sql_error + db" where
  "replaceRecoveryCodes cr u codes d =
     (if codes \<noteq> [] \<and> userRow d u = None then Inl ForeignKeyViolation
      else Inr (d\<lparr>db_recovery :=
        fold (\<lambda>code t. sql_replace (\<lambda>r. recovery_key r = recovery_key (new_recovery_row cr u code))
                (new_recovery_row cr u code) t)
          codes (sql_delete (\<lambda>r. rec_user_id r = u) (db_recovery d))\<rparr>))"

definition countUnusedRecoveryCodes :: "string \<Rightarrow> db \<Rightarrow> nat" where
  "countUnusedRecoveryCodes u d = sql_count (\<lambda>r. rec_user_id r = u \<and> rec_used_at r = None) (db_recovery d)"

definition consumeRecoveryCode :: "crypto \<Rightarrow> string \<Rightarrow> string \<Rightarrow> millis \<Rightarrow> db \<Rightarrow> bool \<times> db" where
  "consumeRecoveryCode cr u code now d =
     (if length (normalizeRecoveryCode code) = 0 then (False, d)
      else (let P = (\<lambda>r. rec_user_id r = u \<and> rec_code_hash r = hashRecoveryCode cr code \<and> rec_used_at r = None)
            in (sql_count P (db_recovery d) = 1,
                d\<lparr>db_recovery := sql_update P (\<lambda>r. r\<lparr>rec_used_at := Some now\<rparr>) (db_recovery d)\<rparr>)))"

subsection \<open>Tickets\<close>

definition TICKET_TTL_MS :: millis where "TICKET_TTL_MS = 5 * 60 * 1000"
definition TICKET_MAX_ATTEMPTS :: nat where "TICKET_MAX_ATTEMPTS = 5"

definition ticketRow :: "crypto \<Rightarrow> db \<Rightarrow> string \<Rightarrow> ticket_row option" where
  "ticketRow cr d ticket = sql_get (\<lambda>r. tck_id r = hashToken cr ticket) (db_tickets d)"

definition createMfaTicket :: "crypto \<Rightarrow> string \<Rightarrow> string \<Rightarrow> millis \<Rightarrow> db \<Rightarrow> sql_error + db" where
  "createMfaTicket cr ticket u now d =
     bind_ok (sql_insert tck_id \<lparr>tck_id = hashToken cr ticket, tck_user_id = u, tck_created_at = now,
                                 tck_attempts = 0\<rparr> (db_tickets d))
       (\<lambda>t. with_user d u (d\<lparr>db_tickets := t\<rparr>))"

definition consumeMfaTicket :: "crypto \<Rightarrow> string \<Rightarrow> db \<Rightarrow> db" where
  "consumeMfaTicket cr ticket d =
     d\<lparr>db_tickets := sql_delete (\<lambda>r. tck_id r = hashToken cr ticket) (db_tickets d)\<rparr>"

definition peekMfaTicket :: "crypto \<Rightarrow> string \<Rightarrow> millis \<Rightarrow> db \<Rightarrow> string option \<times> db" where
  "peekMfaTicket cr ticket now d =
     (case ticketRow cr d ticket of
        None \<Rightarrow> (None, d)
      | Some row \<Rightarrow>
          if now - tck_created_at row > TICKET_TTL_MS \<or> tck_attempts row \<ge> TICKET_MAX_ATTEMPTS
          then (None, consumeMfaTicket cr ticket d)
          else (Some (tck_user_id row), d))"

definition failMfaTicket :: "crypto \<Rightarrow> string \<Rightarrow> db \<Rightarrow> db" where
  "failMfaTicket cr ticket d =
     (let i = hashToken cr ticket;
          t = sql_update (\<lambda>r. tck_id r = i) (\<lambda>r. r\<lparr>tck_attempts := tck_attempts r + 1\<rparr>) (db_tickets d)
      in d\<lparr>db_tickets := sql_delete (\<lambda>r. tck_id r = i \<and> tck_attempts r \<ge> TICKET_MAX_ATTEMPTS) t\<rparr>)"

definition clearMfaTickets :: "string \<Rightarrow> db \<Rightarrow> db" where
  "clearMfaTickets u d = d\<lparr>db_tickets := sql_delete (\<lambda>r. tck_user_id r = u) (db_tickets d)\<rparr>"

subsection \<open>Lemmas: codes\<close>

lemma hotp_shape:
  assumes "0 < digits"
  shows "length (hotp cr secret c digits) = digits \<and> list_all is_digit (hotp cr secret c digits)"
proof -
  obtain k where k: "digits = Suc k" using assms by (cases digits) auto
  let ?n = "unat (hotp_binary (cr_hmac_sha1 cr secret (be32 (of_nat (c div 4294967296)) @ be32 (of_nat c)))) mod 10 ^ digits"
  have h: "hotp cr secret c digits = pad_start digits (CHR ''0'') (js_nat ?n)"
    by (simp add: hotp_def Let_def)
  have "length (js_nat ?n) \<le> digits" unfolding k by (rule length_js_nat) simp
  then have "length (hotp cr secret c digits) = digits" unfolding h by (rule length_pad_start)
  moreover have "list_all is_digit (hotp cr secret c digits)"
    unfolding h pad_start_def list_all_append using js_nat_digits [of ?n]
    by (simp add: is_digit_def code_unit_def list_all_iff)
  ultimately show ?thesis ..
qed

lemma hotp_value:
  "decimal (hotp cr secret c digits) < 10 ^ digits"
  by (simp add: hotp_def pad_start_def decimal_zeros Let_def)

lemma filter_digits_hotp: "0 < k \<Longrightarrow> filter is_digit (hotp cr secret c k) = hotp cr secret c k"
  using hotp_shape [of k cr secret c] by (simp add: filter_id_conv list_all_iff)

lemma window_steps: "set (map (\<lambda>offset. s + offset) [- TOTP_WINDOW .. TOTP_WINDOW]) = {s - 1, s, s + 1}"
  by (auto simp: TOTP_WINDOW_def upto.simps)

lemma verifyTotp_Some:
  assumes "verifyTotp cr secretB32 code atMs = Some step"
  obtains secret where "base32Decode secretB32 = Some secret"
    and "step \<in> {currentStep atMs - 1, currentStep atMs, currentStep atMs + 1}" and "0 \<le> step"
    and "filter is_digit code = hotp cr secret (nat step) DIGITS"
proof -
  from assms obtain secret where s: "base32Decode secretB32 = Some secret"
    and f: "find (\<lambda>step. 0 \<le> step \<and> hotp cr secret (nat step) DIGITS = filter is_digit code)
              (map (\<lambda>offset. currentStep atMs + offset) [- TOTP_WINDOW .. TOTP_WINDOW]) = Some step"
    by (auto simp: verifyTotp_def Let_def split: if_splits option.splits)
  from f obtain i where i: "i < length (map (\<lambda>offset. currentStep atMs + offset) [- TOTP_WINDOW .. TOTP_WINDOW])"
    "step = map (\<lambda>offset. currentStep atMs + offset) [- TOTP_WINDOW .. TOTP_WINDOW] ! i"
    "0 \<le> step \<and> hotp cr secret (nat step) DIGITS = filter is_digit code"
    unfolding find_Some_iff by blast
  then have "step \<in> set (map (\<lambda>offset. currentStep atMs + offset) [- TOTP_WINDOW .. TOTP_WINDOW])"
    by (metis nth_mem)
  then show thesis using that s i(3) unfolding window_steps by simp
qed

lemma verifyTotp_accepts:
  assumes "base32Decode secretB32 = Some secret"
    and "step \<in> {currentStep atMs - 1, currentStep atMs, currentStep atMs + 1}" and "0 \<le> step"
    and "filter is_digit code = hotp cr secret (nat step) DIGITS"
  shows "verifyTotp cr secretB32 code atMs \<noteq> None"
proof -
  have len: "length (filter is_digit code) = DIGITS"
    using hotp_shape [of DIGITS] assms(4) by (simp add: DIGITS_def)
  have "step \<in> set (map (\<lambda>offset. currentStep atMs + offset) [- TOTP_WINDOW .. TOTP_WINDOW])"
    unfolding window_steps by (rule assms(2))
  then have "find (\<lambda>step. 0 \<le> step \<and> hotp cr secret (nat step) DIGITS = filter is_digit code)
      (map (\<lambda>offset. currentStep atMs + offset) [- TOTP_WINDOW .. TOTP_WINDOW]) \<noteq> None"
    using assms(3,4) by (auto simp del: set_map simp: find_None_iff)
  then show ?thesis using assms(1) len by (simp add: verifyTotp_def Let_def)
qed

subsection \<open>Lemmas: recovery codes\<close>

lemma alphabet_ok: "k < 32 \<Longrightarrow> upper_or_digit (RECOVERY_ALPHABET ! k) \<and> code_unit (RECOVERY_ALPHABET ! k) < 97"
proof -
  have "list_all (\<lambda>k. upper_or_digit (RECOVERY_ALPHABET ! k) \<and> code_unit (RECOVERY_ALPHABET ! k) < 97) [0..<32]"
    by code_simp
  then show "k < 32 \<Longrightarrow> upper_or_digit (RECOVERY_ALPHABET ! k) \<and> code_unit (RECOVERY_ALPHABET ! k) < 97"
    by (simp add: list_all_iff)
qed

lemma length_alphabet [simp]: "length RECOVERY_ALPHABET = 32"
  by (simp add: RECOVERY_ALPHABET_def)

text \<open>Normalising a generated code gives its characters without the dash.\<close>

lemma normalize_recovery_code:
  "normalizeRecoveryCode (recovery_code bs) = map (\<lambda>b. RECOVERY_ALPHABET ! (unat b mod 32)) bs"
proof -
  let ?s = "map (\<lambda>b. RECOVERY_ALPHABET ! (unat b mod 32)) bs"
  have ok: "c \<in> set ?s \<Longrightarrow> upper_or_digit c \<and> code_unit c < 97" for c
    using alphabet_ok by auto
  have up: "js_upper (take 5 ?s) = take 5 ?s" "js_upper (drop 5 ?s) = drop 5 ?s"
    using ok by (auto intro!: js_upper_id dest: in_set_takeD in_set_dropD)
  have dash: "js_upper ''-'' = ''-''" "\<not> upper_or_digit (CHR ''-'')" by code_simp+
  have "filter upper_or_digit (take 5 ?s) = take 5 ?s" "filter upper_or_digit (drop 5 ?s) = drop 5 ?s"
    using ok by (auto simp: filter_id_conv dest: in_set_takeD in_set_dropD)
  then show ?thesis
    by (simp only: normalizeRecoveryCode_def recovery_code_def Let_def length_alphabet js_upper_append up
        filter_append dash filter.simps if_False append_Nil append_take_drop_id)
qed

lemma consume_recovery_code_spent:
  assumes "keyed recovery_key (db_recovery d)"
  shows "fst (consumeRecoveryCode cr u code now d) \<Longrightarrow>
    countUnusedRecoveryCodes u (snd (consumeRecoveryCode cr u code now d)) + 1 = countUnusedRecoveryCodes u d"
proof -
  let ?P = "\<lambda>r. rec_user_id r = u \<and> rec_code_hash r = hashRecoveryCode cr code \<and> rec_used_at r = None"
  have "sql_count (\<lambda>r. rec_user_id r = u \<and> rec_used_at r = None) t =
     sql_count (\<lambda>r. rec_user_id r = u \<and> rec_used_at r = None) (sql_update ?P (\<lambda>r. r\<lparr>rec_used_at := Some now\<rparr>) t)
       + sql_count ?P t" for t
    by (induction t) auto
  from this [of "db_recovery d"] show "fst (consumeRecoveryCode cr u code now d) \<Longrightarrow>
    countUnusedRecoveryCodes u (snd (consumeRecoveryCode cr u code now d)) + 1 = countUnusedRecoveryCodes u d"
    by (auto simp: consumeRecoveryCode_def countUnusedRecoveryCodes_def Let_def split: if_splits)
qed

lemma consume_recovery_code_again:
  "\<not> fst (consumeRecoveryCode cr u code later (snd (consumeRecoveryCode cr u code now d)))"
proof -
  let ?P = "\<lambda>r. rec_user_id r = u \<and> rec_code_hash r = hashRecoveryCode cr code \<and> rec_used_at r = None"
  have "sql_count ?P (sql_update ?P (\<lambda>r. r\<lparr>rec_used_at := Some now\<rparr>) t) = 0" for t
    by (induction t) auto
  from this [of "db_recovery d"] show ?thesis by (simp add: consumeRecoveryCode_def Let_def)
qed

lemma sql_count_keyed_le_1:
  assumes "keyed k t" and "\<And>r. P r \<Longrightarrow> k r = i"
  shows "sql_count P t \<le> 1"
  using assms
proof (induction t)
  case (Cons r t)
  show ?case
  proof (cases "P r")
    case True
    then have "\<not> P x" if "x \<in> set t" for x
      using Cons.prems that by (auto simp: keyed_def image_iff)
    then have "sql_count P t = 0" by (simp add: sql_count_zero)
    then show ?thesis by simp
  next
    case False
    with Cons show ?thesis by (simp add: keyed_def)
  qed
qed simp

lemma consume_recovery_code_iff:
  assumes "keyed recovery_key (db_recovery d)" and "normalizeRecoveryCode code \<noteq> ''''"
  shows "fst (consumeRecoveryCode cr u code now d) \<longleftrightarrow>
    (\<exists>r \<in> set (db_recovery d). rec_user_id r = u \<and> rec_code_hash r = hashRecoveryCode cr code \<and> rec_used_at r = None)"
proof -
  let ?P = "\<lambda>r. rec_user_id r = u \<and> rec_code_hash r = hashRecoveryCode cr code \<and> rec_used_at r = None"
  have "sql_count ?P (db_recovery d) \<le> 1"
    using assms(1) by (rule sql_count_keyed_le_1 [where i = "(u, hashRecoveryCode cr code)"])
      (simp add: recovery_key_def)
  then have "sql_count ?P (db_recovery d) = 1 \<longleftrightarrow> 0 < sql_count ?P (db_recovery d)" by linarith
  then show ?thesis using assms(2) by (simp add: consumeRecoveryCode_def Let_def sql_count_pos)
qed

text \<open>The codes stored for a user after a replacement are exactly the new ones, unused.\<close>

lemma fold_replace_keyed:
  "keyed recovery_key t \<Longrightarrow>
    keyed recovery_key (fold (\<lambda>c t. sql_replace (\<lambda>r. recovery_key r = recovery_key (new_recovery_row cr u c))
        (new_recovery_row cr u c) t) cs t)"
proof (induction cs arbitrary: t)
  case (Cons c cs)
  have "keyed recovery_key (sql_replace (\<lambda>r. recovery_key r = recovery_key (new_recovery_row cr u c))
      (new_recovery_row cr u c) t)"
    unfolding sql_replace_def using Cons.prems by (intro keyed_snoc keyed_delete) simp_all
  then show ?case unfolding fold_Cons comp_apply by (rule Cons.IH)
qed simp

lemma new_recovery_row_key:
  "recovery_key (new_recovery_row cr u c) = (u, hashRecoveryCode cr c)"
  "recovery_key (new_recovery_row cr u c) = recovery_key (new_recovery_row cr u e) \<Longrightarrow>
    new_recovery_row cr u c = new_recovery_row cr u e"
  by (simp_all add: new_recovery_row_def recovery_key_def)

lemma fold_replace_set:
  "x \<in> set (fold (\<lambda>c t. sql_replace (\<lambda>r. recovery_key r = recovery_key (new_recovery_row cr u c))
        (new_recovery_row cr u c) t) cs t) \<longleftrightarrow>
   x \<in> new_recovery_row cr u ` set cs \<or>
     x \<in> set t \<and> recovery_key x \<notin> recovery_key ` new_recovery_row cr u ` set cs"
proof (induction cs arbitrary: t)
  case Nil
  then show ?case by simp
next
  case (Cons c cs)
  have step: "set (sql_replace (\<lambda>r. recovery_key r = recovery_key (new_recovery_row cr u c)) (new_recovery_row cr u c) t)
      = insert (new_recovery_row cr u c) {r \<in> set t. recovery_key r \<noteq> recovery_key (new_recovery_row cr u c)}"
    by (simp add: sql_replace_def)
  have same: "new_recovery_row cr u c \<in> new_recovery_row cr u ` set cs"
    if "recovery_key (new_recovery_row cr u c) \<in> recovery_key ` new_recovery_row cr u ` set cs"
  proof -
    from that obtain y where "recovery_key (new_recovery_row cr u c) = recovery_key (new_recovery_row cr u y)"
      and y: "y \<in> set cs" by blast
    have e: "new_recovery_row cr u c = new_recovery_row cr u y"
      by (rule new_recovery_row_key(2)) fact
    show ?thesis unfolding e using y by (rule imageI)
  qed
  have taut: "(x \<in> A \<or> (x = nc \<or> x \<in> T \<and> kx \<noteq> knc) \<and> kx \<notin> K) = ((x = nc \<or> x \<in> A) \<or> x \<in> T \<and> kx \<noteq> knc \<and> kx \<notin> K)"
    if "x = nc \<Longrightarrow> kx = knc" and "knc \<in> K \<Longrightarrow> nc \<in> A" for A nc T kx knc K
    using that by blast
  show ?case
    unfolding fold_Cons comp_apply Cons.IH step list.set(2) image_insert insert_iff mem_Collect_eq de_Morgan_disj
    by (rule taut) (erule arg_cong, erule same)
qed

lemma replaceRecoveryCodes_Inr:
  assumes "replaceRecoveryCodes cr u codes d = Inr d'" and "keyed recovery_key (db_recovery d)"
  shows "keyed recovery_key (db_recovery d')"
    and "{r \<in> set (db_recovery d'). rec_user_id r = u} = new_recovery_row cr u ` set codes"
    and "{r \<in> set (db_recovery d'). rec_user_id r \<noteq> u} = {r \<in> set (db_recovery d). rec_user_id r \<noteq> u}"
proof -
  let ?t = "sql_delete (\<lambda>r. rec_user_id r = u) (db_recovery d)"
  let ?f = "\<lambda>c t. sql_replace (\<lambda>r. recovery_key r = recovery_key (new_recovery_row cr u c)) (new_recovery_row cr u c) t"
  have d': "db_recovery d' = fold ?f codes ?t"
    using assms(1) by (auto simp: replaceRecoveryCodes_def split: if_splits)
  show "keyed recovery_key (db_recovery d')"
    unfolding d' using assms(2) by (intro fold_replace_keyed) simp
  have own: "rec_user_id (new_recovery_row cr u c) = u" for c by (simp add: new_recovery_row_def)
  show "{r \<in> set (db_recovery d'). rec_user_id r = u} = new_recovery_row cr u ` set codes"
    unfolding d' fold_replace_set using own by auto
  show "{r \<in> set (db_recovery d'). rec_user_id r \<noteq> u} = {r \<in> set (db_recovery d). rec_user_id r \<noteq> u}"
    unfolding d' fold_replace_set using own by (auto simp: recovery_key_def)
qed

subsection \<open>Lemmas: tickets\<close>

lemma ticketRow_fail:
  assumes "keyed tck_id (db_tickets d)"
  shows "ticketRow cr (failMfaTicket cr t d) t =
    (case ticketRow cr d t of
       None \<Rightarrow> None
     | Some r \<Rightarrow> if tck_attempts r + 1 \<ge> TICKET_MAX_ATTEMPTS then None
                 else Some (r\<lparr>tck_attempts := tck_attempts r + 1\<rparr>))"
  using assms unfolding ticketRow_def failMfaTicket_def Let_def
proof (induction "db_tickets d" arbitrary: d)
  case Nil
  then show ?case by simp
next
  case (Cons r ts)
  have IH: "sql_get (\<lambda>r. tck_id r = hashToken cr t)
      (sql_delete (\<lambda>r. tck_id r = hashToken cr t \<and> tck_attempts r \<ge> TICKET_MAX_ATTEMPTS)
        (sql_update (\<lambda>r. tck_id r = hashToken cr t) (\<lambda>r. r\<lparr>tck_attempts := tck_attempts r + 1\<rparr>) ts)) =
     (case sql_get (\<lambda>r. tck_id r = hashToken cr t) ts of
       None \<Rightarrow> None
     | Some r \<Rightarrow> if tck_attempts r + 1 \<ge> TICKET_MAX_ATTEMPTS then None
                 else Some (r\<lparr>tck_attempts := tck_attempts r + 1\<rparr>))"
    using Cons.hyps(1) [of "d\<lparr>db_tickets := ts\<rparr>"] Cons.hyps(2)[symmetric] Cons.prems by (simp add: keyed_def)
  have ts: "db_tickets d = r # ts" using Cons.hyps(2) by simp
  have "sql_get (\<lambda>x. tck_id x = tck_id r) ts = None"
    using Cons.prems ts by (simp add: keyed_def sql_get_None) (metis imageI)
  then show ?case using IH by (auto simp: ts)
qed

lemma failMfaTicket_keyed: "keyed tck_id (db_tickets d) \<Longrightarrow> keyed tck_id (db_tickets (failMfaTicket cr t d))"
  by (auto simp: failMfaTicket_def Let_def intro!: keyed_delete keyed_update)

lemma failMfaTicket_iter:
  assumes "keyed tck_id (db_tickets d)" and "ticketRow cr d t = Some r" and "tck_attempts r < TICKET_MAX_ATTEMPTS"
  shows "ticketRow cr ((failMfaTicket cr t ^^ n) d) t =
     (if tck_attempts r + n \<ge> TICKET_MAX_ATTEMPTS \<and> 0 < n then None
      else Some (r\<lparr>tck_attempts := tck_attempts r + n\<rparr>)) \<and>
     keyed tck_id (db_tickets ((failMfaTicket cr t ^^ n) d))"
proof (induction n)
  case 0
  then show ?case using assms by simp
next
  case (Suc n)
  then show ?case using assms(3) by (auto simp: ticketRow_fail failMfaTicket_keyed)
qed

lemma createMfaTicket_row:
  assumes "createMfaTicket cr ticket u now d = Inr d'"
  shows "ticketRow cr d' ticket = Some \<lparr>tck_id = hashToken cr ticket, tck_user_id = u, tck_created_at = now, tck_attempts = 0\<rparr>"
    and "keyed tck_id (db_tickets d) \<Longrightarrow> keyed tck_id (db_tickets d')"
  using assms
  by (auto simp: createMfaTicket_def bind_ok_Inr sql_insert_Inr with_user_Inr ticketRow_def sql_get_append
      sql_get_None intro!: keyed_snoc split: option.split)
    (auto dest!: sql_get_SomeD)

lemma consumeMfaTicket_row [simp]: "ticketRow cr (consumeMfaTicket cr t d) t = None"
  by (simp add: ticketRow_def consumeMfaTicket_def)

end
