(* ===== verification/Tokens.thy ===== *)
theory Tokens
  imports Users Contracts
begin

text \<open>
  Artefacts of a sign-in under way: WebAuthn challenges (\<open>db/challenges.ts\<close>), the OIDC
  login states and identity links (\<open>db/oidc.ts\<close>), and the passkey table
  (\<open>db/credentials.ts\<close>).  Challenges and states interpret \<open>single_use\<close>, passkeys
  interpret \<open>owned_rows\<close>.
\<close>

subsection \<open>\<open>db/challenges.ts\<close>\<close>

record stored_challenge =
  sc_challenge :: string
  sc_kind :: challenge_kind
  sc_user_id :: "string option"

definition CHALLENGE_TTL_MS :: millis where "CHALLENGE_TTL_MS = 5 * 60 * 1000"

definition putChallenge ::
  "string \<Rightarrow> string \<Rightarrow> challenge_kind \<Rightarrow> string option \<Rightarrow> millis \<Rightarrow> db \<Rightarrow> sql_error + (string \<times> db)" where
  "putChallenge i challenge kind userId now d =
     bind_ok (sql_insert chl_id \<lparr>chl_id = i, chl_user_id = userId, chl_challenge = challenge,
                                 chl_kind = kind, chl_created_at = now\<rparr> (db_challenges d))
       (\<lambda>t. Inr (i, d\<lparr>db_challenges := t\<rparr>))"

definition takeChallenge :: "string \<Rightarrow> millis \<Rightarrow> db \<Rightarrow> stored_challenge option \<times> db" where
  "takeChallenge i now d =
     (let row = sql_get (\<lambda>r. chl_id r = i) (db_challenges d);
          d1 = d\<lparr>db_challenges := sql_delete (\<lambda>r. chl_id r = i) (db_challenges d)\<rparr>
      in (case row of
            None \<Rightarrow> None
          | Some r \<Rightarrow> if now - chl_created_at r > CHALLENGE_TTL_MS then None
                      else Some \<lparr>sc_challenge = chl_challenge r, sc_kind = chl_kind r,
                                 sc_user_id = chl_user_id r\<rparr>, d1))"

subsection \<open>\<open>db/oidc.ts\<close>\<close>

record oidc_state =
  os_code_verifier :: string
  os_nonce :: string

definition OIDC_STATE_TTL_MS :: millis where "OIDC_STATE_TTL_MS = 10 * 60 * 1000"

definition putOidcState :: "string \<Rightarrow> string \<Rightarrow> string \<Rightarrow> millis \<Rightarrow> db \<Rightarrow> sql_error + db" where
  "putOidcState state codeVerifier nonce now d =
     bind_ok (sql_insert ost_state \<lparr>ost_state = state, ost_code_verifier = codeVerifier, ost_nonce = nonce,
                                    ost_created_at = now\<rparr> (db_oidc_states d))
       (\<lambda>t. Inr (d\<lparr>db_oidc_states := t\<rparr>))"

definition takeOidcState :: "string \<Rightarrow> millis \<Rightarrow> db \<Rightarrow> oidc_state option \<times> db" where
  "takeOidcState state now d =
     (let row = sql_get (\<lambda>r. ost_state r = state) (db_oidc_states d);
          d1 = d\<lparr>db_oidc_states := sql_delete (\<lambda>r. ost_state r = state) (db_oidc_states d)\<rparr>
      in (case row of
            None \<Rightarrow> None
          | Some r \<Rightarrow> if now - ost_created_at r > OIDC_STATE_TTL_MS then None
                      else Some \<lparr>os_code_verifier = ost_code_verifier r, os_nonce = ost_nonce r\<rparr>, d1))"

definition identity_key :: "oidc_identity_row \<Rightarrow> string \<times> string" where
  "identity_key r = (oid_provider r, oid_subject r)"

definition getUserIdByOidc :: "db \<Rightarrow> string \<Rightarrow> string \<Rightarrow> string option" where
  "getUserIdByOidc d provider subject =
     map_option oid_user_id (sql_get (\<lambda>r. identity_key r = (provider, subject)) (db_oidc_identities d))"

definition linkOidcIdentity :: "string \<Rightarrow> string \<Rightarrow> string \<Rightarrow> db \<Rightarrow> sql_error + db" where
  "linkOidcIdentity provider subject userId d =
     (if sql_exists (\<lambda>r. identity_key r = (provider, subject)) (db_oidc_identities d) then Inr d
      else with_user d userId (d\<lparr>db_oidc_identities := db_oidc_identities d @
        [\<lparr>oid_provider = provider, oid_subject = subject, oid_user_id = userId\<rparr>]\<rparr>))"

subsection \<open>\<open>db/credentials.ts\<close>\<close>

record credential_input =
  cin_id :: string
  cin_user_id :: string
  cin_public_key :: bytes
  cin_counter :: nat
  cin_transports :: "string list"
  cin_device_type :: string
  cin_backed_up :: bool
  cin_label :: string

definition getCredentialById :: "db \<Rightarrow> string \<Rightarrow> credential_row option" where
  "getCredentialById d i = sql_get (\<lambda>r. crd_id r = i) (db_credentials d)"

definition getCredentialsByUser :: "db \<Rightarrow> string \<Rightarrow> credential_row list" where
  "getCredentialsByUser d u = order_asc crd_created_at (filter (\<lambda>r. crd_user_id r = u) (db_credentials d))"

definition countCredentialsByUser :: "db \<Rightarrow> string \<Rightarrow> nat" where
  "countCredentialsByUser d u = sql_count (\<lambda>r. crd_user_id r = u) (db_credentials d)"

definition saveCredential :: "credential_input \<Rightarrow> millis \<Rightarrow> db \<Rightarrow> sql_error + db" where
  "saveCredential inp now d =
     bind_ok (sql_insert crd_id
       \<lparr>crd_id = cin_id inp, crd_user_id = cin_user_id inp, crd_public_key = cin_public_key inp,
        crd_counter = cin_counter inp, crd_transports = cin_transports inp,
        crd_device_type = cin_device_type inp, crd_backed_up = cin_backed_up inp,
        crd_label = cin_label inp, crd_created_at = now, crd_last_used_at = None\<rparr> (db_credentials d))
       (\<lambda>t. with_user d (cin_user_id inp) (d\<lparr>db_credentials := t\<rparr>))"

definition updateCredentialCounter :: "string \<Rightarrow> nat \<Rightarrow> millis \<Rightarrow> db \<Rightarrow> db" where
  "updateCredentialCounter i counter now d = d\<lparr>db_credentials := sql_update (\<lambda>r. crd_id r = i)
     (\<lambda>r. r\<lparr>crd_counter := counter, crd_last_used_at := Some now\<rparr>) (db_credentials d)\<rparr>"

definition deleteCredential :: "string \<Rightarrow> string \<Rightarrow> db \<Rightarrow> bool \<times> db" where
  "deleteCredential i userId d =
     (let P = (\<lambda>r. crd_id r = i \<and> crd_user_id r = userId)
      in (sql_count P (db_credentials d) > 0, d\<lparr>db_credentials := sql_delete P (db_credentials d)\<rparr>))"

record passkey_summary =
  pks_id :: string
  pks_label :: string
  pks_created_at :: millis
  pks_last_used_at :: "millis option"
  pks_device_type :: string
  pks_backed_up :: bool

definition toSummary :: "credential_row \<Rightarrow> passkey_summary" where
  "toSummary c = \<lparr>pks_id = crd_id c, pks_label = crd_label c, pks_created_at = crd_created_at c,
     pks_last_used_at = crd_last_used_at c,
     pks_device_type = (if crd_device_type c = ''multiDevice'' then ''synced passkey'' else ''device-bound''),
     pks_backed_up = crd_backed_up c\<rparr>"

subsection \<open>Lemmas\<close>

text \<open>What a store holds for a key, with the time it was put.\<close>

definition held_challenge :: "db \<Rightarrow> string \<Rightarrow> (stored_challenge \<times> millis) option" where
  "held_challenge d i = map_option (\<lambda>r. (\<lparr>sc_challenge = chl_challenge r, sc_kind = chl_kind r,
       sc_user_id = chl_user_id r\<rparr>, chl_created_at r)) (sql_get (\<lambda>r. chl_id r = i) (db_challenges d))"

definition held_state :: "db \<Rightarrow> string \<Rightarrow> (oidc_state \<times> millis) option" where
  "held_state d i = map_option (\<lambda>r. (\<lparr>os_code_verifier = ost_code_verifier r, os_nonce = ost_nonce r\<rparr>,
       ost_created_at r)) (sql_get (\<lambda>r. ost_state r = i) (db_oidc_states d))"

text \<open>The database after an insertion, unchanged when the insertion is refused.\<close>

definition kept :: "'s \<Rightarrow> sql_error + 's \<Rightarrow> 's" where
  "kept d x = (case x of Inl _ \<Rightarrow> d | Inr d' \<Rightarrow> d')"

lemma sql_get_snoc_other: "k r \<noteq> j \<Longrightarrow> sql_get (\<lambda>x. k x = j) (t @ [r]) = sql_get (\<lambda>x. k x = j) t"
  by (simp add: sql_get_append split: option.split)

lemma sql_get_delete_key: "x \<noteq> i \<Longrightarrow> sql_get (\<lambda>r. k r = x) (sql_delete (\<lambda>r. k r = i) t) = sql_get (\<lambda>r. k r = x) t"
  by (rule sql_get_delete_other) auto

interpretation challenges: single_use
  "\<lambda>i c n d. kept d (bind_ok (putChallenge i (sc_challenge c) (sc_kind c) (sc_user_id c) n d) (\<lambda>r. Inr (snd r)))"
  takeChallenge held_challenge CHALLENGE_TTL_MS
proof unfold_locales
  fix d :: db and i :: string and c :: stored_challenge and n :: int
  assume none: "held_challenge d i = None"
  then have "\<forall>x \<in> set (db_challenges d). chl_id x \<noteq> i" by (auto simp: held_challenge_def sql_get_None)
  then show "held_challenge (kept d (bind_ok (putChallenge i (sc_challenge c) (sc_kind c) (sc_user_id c) n d)
      (\<lambda>r. Inr (snd r)))) = (held_challenge d)(i \<mapsto> (c, n))"
    using none by (intro ext) (auto simp: putChallenge_def sql_insert_def sql_exists_iff kept_def held_challenge_def
      sql_get_append split: option.split)
next
  show "held_challenge (snd (takeChallenge i n d)) = (held_challenge d)(i := None)" for i n d
    by (rule ext) (simp add: takeChallenge_def Let_def held_challenge_def sql_get_delete_key)
next
  show "fst (takeChallenge i n d) =
    (case held_challenge d i of None \<Rightarrow> None | Some (v, c) \<Rightarrow> if CHALLENGE_TTL_MS < n - c then None else Some v)"
    for i n d
    by (simp add: takeChallenge_def Let_def held_challenge_def split: option.split)
qed

interpretation oidc_states: single_use
  "\<lambda>i c n d. kept d (putOidcState i (os_code_verifier c) (os_nonce c) n d)"
  takeOidcState held_state OIDC_STATE_TTL_MS
proof unfold_locales
  fix d :: db and i :: string and c :: oidc_state and n :: int
  assume none: "held_state d i = None"
  then have "\<forall>x \<in> set (db_oidc_states d). ost_state x \<noteq> i" by (auto simp: held_state_def sql_get_None)
  then show "held_state (kept d (putOidcState i (os_code_verifier c) (os_nonce c) n d)) =
      (held_state d)(i \<mapsto> (c, n))"
    using none by (intro ext) (auto simp: putOidcState_def sql_insert_def sql_exists_iff kept_def held_state_def
      sql_get_append split: option.split)
next
  show "held_state (snd (takeOidcState i n d)) = (held_state d)(i := None)" for i n d
    by (rule ext) (simp add: takeOidcState_def Let_def held_state_def sql_get_delete_key)
next
  show "fst (takeOidcState i n d) =
    (case held_state d i of None \<Rightarrow> None | Some (v, c) \<Rightarrow> if OIDC_STATE_TTL_MS < n - c then None else Some v)"
    for i n d
    by (simp add: takeOidcState_def Let_def held_state_def split: option.split)
qed

interpretation own_passkeys: owned_rows db_credentials crd_id crd_user_id "\<lambda>u i. deleteCredential i u"
  by unfold_locales (auto simp: deleteCredential_def Let_def sql_count_pos)

lemma saveCredential_Inr:
  "saveCredential inp now d = Inr d' \<Longrightarrow>
     cin_user_id inp \<in> user_ids d \<and> db_users d' = db_users d \<and>
     countCredentialsByUser d' u = countCredentialsByUser d u + (if u = cin_user_id inp then 1 else 0)"
  by (auto simp: saveCredential_def bind_ok_Inr sql_insert_Inr with_user_Inr countCredentialsByUser_def)

lemma linkOidcIdentity_lookup:
  assumes "linkOidcIdentity p s u d = Inr d'"
  shows "getUserIdByOidc d' p s = (case getUserIdByOidc d p s of None \<Rightarrow> Some u | Some v \<Rightarrow> Some v)"
proof (cases "sql_get (\<lambda>r. identity_key r = (p, s)) (db_oidc_identities d)")
  case None
  then have "\<not> sql_exists (\<lambda>r. identity_key r = (p, s)) (db_oidc_identities d)"
    by (auto simp: sql_exists_iff sql_get_None)
  with assms None show ?thesis
    by (auto simp: linkOidcIdentity_def getUserIdByOidc_def with_user_Inr sql_get_append identity_key_def)
next
  case (Some r)
  then have "sql_exists (\<lambda>r. identity_key r = (p, s)) (db_oidc_identities d)"
    by (auto simp: sql_exists_iff dest: sql_get_SomeD)
  with assms Some show ?thesis by (simp add: linkOidcIdentity_def getUserIdByOidc_def)
qed

end
