(* ===== verification/Cidr.thy ===== *)
theory Cidr
  imports JsText "HOL-Library.Word"
begin

unbundle bit_operations_syntax

text \<open>
  Network addresses as text: the CIDR test of \<open>db/ip-bans.ts\<close> that the auto-ban, the
  honeypot and automatic sign-in share, and the CIDR validator of
  \<open>system/firewall.ts\<close>.  IPv4 arithmetic is on \<open>32 word\<close>: JavaScript's \<open><<\<close>, \<open>&\<close>
  and \<open>>>> 0\<close> are arithmetic modulo \<open>2 ^ 32\<close>.
\<close>

subsection \<open>Pieces of addresses\<close>

definition digits_between :: "nat \<Rightarrow> nat \<Rightarrow> string \<Rightarrow> bool" where
  "digits_between lo hi s \<longleftrightarrow> lo \<le> length s \<and> length s \<le> hi \<and> list_all is_digit s"

text \<open>The regular expression \<open>/^\d{1,3}(\.\d{1,3}){3}$/\<close>.\<close>

definition dotted_quad :: "string \<Rightarrow> bool" where
  "dotted_quad s \<longleftrightarrow> (let os = split_on (CHR ''.'') s in length os = 4 \<and> list_all (digits_between 1 3) os)"

definition octet_word :: "string \<Rightarrow> 32 word" where
  "octet_word o8 = of_nat (decimal o8)"

definition ip_to_word :: "string \<Rightarrow> 32 word" where
  "ip_to_word s = fold (\<lambda>o8 acc. push_bit 8 acc + octet_word o8) (split_on (CHR ''.'') s) 0"

text \<open>
  \<open>Number(text)\<close>, with \<open>None\<close> for \<open>undefined\<close> as argument and for \<open>NaN\<close> as result:
  blank text is zero, otherwise an optionally signed run of decimal digits.  Literals
  with a fraction, an exponent or a radix prefix are read as \<open>NaN\<close> here; none of them
  passes \<open>isValidCidr\<close>.
\<close>

definition js_number :: "string option \<Rightarrow> int option" where
  "js_number t = (case t of None \<Rightarrow> None | Some s \<Rightarrow>
     (let u = js_trim s in
      if u = '''' then Some 0
      else if list_all is_digit u then Some (int (decimal u))
      else if starts_with u ''-'' \<and> tl u \<noteq> '''' \<and> list_all is_digit (tl u) then Some (- int (decimal (tl u)))
      else if starts_with u ''+'' \<and> tl u \<noteq> '''' \<and> list_all is_digit (tl u) then Some (int (decimal (tl u)))
      else None))"

text \<open>The piece before the first double colon: \<open>net.split("::")[0]\<close>.\<close>

fun before_double_colon :: "string \<Rightarrow> string" where
  "before_double_colon (a # b # s) =
     (if a = CHR '':'' \<and> b = CHR '':'' then [] else a # before_double_colon (b # s))"
| "before_double_colon s = s"

fun count_double_colon :: "string \<Rightarrow> nat" where
  "count_double_colon (a # b # s) =
     (if a = CHR '':'' \<and> b = CHR '':'' then Suc (count_double_colon s) else count_double_colon (b # s))"
| "count_double_colon s = 0"

subsection \<open>\<open>addressInCidr\<close>\<close>

definition prefix_mask :: "nat \<Rightarrow> 32 word" where
  "prefix_mask p = (if p = 32 then - 1 else push_bit (32 - p) (- 1))"

definition clamp_prefix :: "int option \<Rightarrow> nat" where
  "clamp_prefix bits = (case bits of Some b \<Rightarrow> nat (min 32 (max 0 b)) | None \<Rightarrow> 32)"

definition addressInCidr :: "string \<Rightarrow> string \<Rightarrow> bool" where
  "addressInCidr address cidr =
     (let parts = split_on (CHR ''/'') cidr;
          net = hd parts;
          bits = js_number (case tl parts of [] \<Rightarrow> None | b # _ \<Rightarrow> Some b)
      in if net = '''' then False
         else if dotted_quad address \<and> dotted_quad net then
           (let p = clamp_prefix bits in
            if p = 0 then True
            else ip_to_word address AND prefix_mask p = ip_to_word net AND prefix_mask p)
         else if CHR '':'' \<in> set address \<and> CHR '':'' \<in> set net then
           (let head = before_double_colon net in head = '''' \<or> starts_with address head)
         else False)"

subsection \<open>\<open>isValidCidr\<close>\<close>

definition valid_octet :: "string \<Rightarrow> bool" where
  "valid_octet o8 \<longleftrightarrow> decimal o8 \<le> 255 \<and> \<not> (length o8 > 1 \<and> starts_with o8 ''0'')"

definition isValidCidr :: "string \<Rightarrow> bool" where
  "isValidCidr value =
     (let parts = split_on (CHR ''/'') (js_trim value);
          addr = hd parts
      in if length parts > 2 \<or> addr = '''' then False
         else if dotted_quad addr then
           (if \<not> list_all valid_octet (split_on (CHR ''.'') addr) then False
            else case tl parts of [] \<Rightarrow> True
                 | prefix # _ \<Rightarrow> digits_between 1 2 prefix \<and> decimal prefix \<le> 32)
         else if \<not> list_all (\<lambda>c. is_hex c \<or> c = CHR '':'') addr \<or> count_double_colon addr > 1 then False
         else if CHR '':'' \<notin> set addr then False
         else case tl parts of [] \<Rightarrow> True
              | prefix # _ \<Rightarrow> digits_between 1 3 prefix \<and> decimal prefix \<le> 128)"

subsection \<open>\<open>isBannable\<close>\<close>

definition isBannable :: "string \<Rightarrow> string list \<Rightarrow> bool" where
  "isBannable address trustedNetworks =
     (let a = js_lower (js_trim address) in
      if a = '''' then False
      else if a = ''127.0.0.1'' \<or> a = ''::1'' \<or> starts_with a ''127.'' then False
      else if starts_with a ''::ffff:127.'' then False
      else \<not> list_ex (\<lambda>n. addressInCidr a n) trustedNetworks)"

subsection \<open>Lemmas\<close>

lemma prefix_mask_eq: "p \<le> 32 \<Longrightarrow> prefix_mask p = push_bit (32 - p) (- 1)"
  by (simp add: prefix_mask_def)

text \<open>Comparing under the mask is comparing the leading \<open>p\<close> bits.\<close>

lemma masked_eq_iff_leading:
  fixes a b :: "32 word"
  shows "a AND push_bit m (- 1) = b AND push_bit m (- 1) \<longleftrightarrow> drop_bit m a = drop_bit m b"
proof -
  have m: "bit (x AND push_bit m (- 1)) n \<longleftrightarrow> m \<le> n \<and> n < 32 \<and> bit x n" for x :: "32 word" and n
    by (auto simp: bit_simps dest: bit_imp_le_length)
  have d: "bit (drop_bit m x) n \<longleftrightarrow> bit x (m + n)" for x :: "32 word" and n
    by (simp add: bit_simps add.commute)
  show ?thesis
  proof
    assume eq: "a AND push_bit m (- 1) = b AND push_bit m (- 1)"
    show "drop_bit m a = drop_bit m b"
    proof (rule bit_eqI)
      fix n
      have "bit (a AND push_bit m (- 1)) (m + n) = bit (b AND push_bit m (- 1)) (m + n)"
        using eq by simp
      then show "bit (drop_bit m a) n = bit (drop_bit m b) n"
        unfolding m d by (auto dest: bit_imp_le_length)
    qed
  next
    assume eq: "drop_bit m a = drop_bit m b"
    show "a AND push_bit m (- 1) = b AND push_bit m (- 1)"
    proof (rule bit_eqI)
      fix n
      have "m \<le> n \<Longrightarrow> bit a n = bit b n"
        using arg_cong [OF eq, of "\<lambda>w. bit w (n - m)"] unfolding d by simp
      then show "bit (a AND push_bit m (- 1)) n = bit (b AND push_bit m (- 1)) n"
        unfolding m by auto
    qed
  qed
qed

lemma unat_drop_bit: "unat (drop_bit m (w :: 32 word)) = unat w div 2 ^ m"
proof -
  have "unat (drop_bit m w) = drop_bit m (unat w)" by (rule unat_drop_bit_eq)
  then show ?thesis by (simp only: drop_bit_eq_div)
qed

lemma masked_eq_iff_div:
  fixes a b :: "32 word"
  assumes "p \<le> 32"
  shows "a AND prefix_mask p = b AND prefix_mask p \<longleftrightarrow>
    unat a div 2 ^ (32 - p) = unat b div 2 ^ (32 - p)"
proof -
  have "a AND prefix_mask p = b AND prefix_mask p \<longleftrightarrow> drop_bit (32 - p) a = drop_bit (32 - p) b"
    unfolding prefix_mask_eq [OF assms] by (rule masked_eq_iff_leading)
  also have "\<dots> \<longleftrightarrow> unat (drop_bit (32 - p) a) = unat (drop_bit (32 - p) b)"
    by (rule word_unat_eq_iff)
  finally show ?thesis by (simp only: unat_drop_bit)
qed

lemma clamp_prefix_le [simp]: "clamp_prefix b \<le> 32"
  by (auto simp: clamp_prefix_def split: option.split)

lemma addressInCidr_v4:
  assumes "dotted_quad address" and "dotted_quad net" and "CHR ''/'' \<notin> set net"
    and "CHR ''/'' \<notin> set bits" and "p = clamp_prefix (js_number (Some bits))"
  shows "addressInCidr address (net @ ''/'' @ bits) \<longleftrightarrow>
    unat (ip_to_word address) div 2 ^ (32 - p) = unat (ip_to_word net) div 2 ^ (32 - p)"
proof -
  have parts: "split_on (CHR ''/'') (net @ ''/'' @ bits) = [net, bits]"
    using split_on_append [of "CHR ''/''" net bits] assms(3,4) by (simp add: split_on_plain)
  have ne: "net \<noteq> ''''" using assms(2) by (auto simp: dotted_quad_def Let_def)
  have p: "p \<le> 32" using assms(5) by simp
  show ?thesis
  proof (cases "p = 0")
    case True
    have small: "unat w div 2 ^ 32 = 0" for w :: "32 word"
    proof -
      have "unat w < 2 ^ LENGTH(32)" by (rule unsigned_less)
      then show ?thesis by simp
    qed
    show ?thesis using True ne assms(1,2,5) parts small
      by (simp add: addressInCidr_def Let_def)
  next
    case False
    then show ?thesis using ne assms(1,2,5) parts masked_eq_iff_div [OF p]
      by (simp add: addressInCidr_def Let_def)
  qed
qed

lemma isBannable_not_loopback:
  "isBannable a ns \<Longrightarrow> \<not> starts_with (js_lower (js_trim a)) ''127.'' \<and> js_lower (js_trim a) \<noteq> ''::1''"
  by (auto simp: isBannable_def Let_def split: if_splits)

lemma isBannable_not_trusted:
  "isBannable a ns \<Longrightarrow> n \<in> set ns \<Longrightarrow> \<not> addressInCidr (js_lower (js_trim a)) n"
  by (auto simp: isBannable_def Let_def list_ex_iff split: if_splits)

end
