(* ===== verification/Attempts.thy ===== *)
theory Attempts
  imports Users Contracts Cidr
begin

text \<open>
  Failed sign-ins: the per-account lockout of \<open>db/login-attempts.ts\<close>, the per-address
  counter and bans of \<open>db/ip-bans.ts\<close>, and \<open>noteFailedAttempt\<close> of
  \<open>system/auto-ban.ts\<close>.  Both counters interpret \<open>failure_counter\<close>.
\<close>

subsection \<open>Per account: \<open>db/login-attempts.ts\<close>\<close>

definition LOCK_THRESHOLD :: nat where "LOCK_THRESHOLD = 8"
definition LOCK_WINDOW_MS :: millis where "LOCK_WINDOW_MS = 15 * 60 * 1000"
definition BASE_LOCK_MS :: millis where "BASE_LOCK_MS = 60 * 1000"
definition MAX_LOCK_MS :: millis where "MAX_LOCK_MS = 15 * 60 * 1000"

definition attempt_key :: "string \<Rightarrow> string" where
  "attempt_key username = js_lower (js_trim username)"

definition attempt_row_of :: "db \<Rightarrow> string \<Rightarrow> attempt_row option" where
  "attempt_row_of d username = sql_get (\<lambda>r. att_username r = attempt_key username) (db_attempts d)"

text \<open>\<open>Math.ceil(ms / 1000)\<close>.\<close>

definition ceil_seconds :: "millis \<Rightarrow> int" where
  "ceil_seconds ms = (ms + 999) div 1000"

definition lockoutRemainingSeconds :: "string \<Rightarrow> millis \<Rightarrow> db \<Rightarrow> int" where
  "lockoutRemainingSeconds username now d =
     (case Option.bind (attempt_row_of d username) att_locked_until of
        None \<Rightarrow> 0
      | Some l \<Rightarrow> if l - now > 0 then ceil_seconds (l - now) else 0)"

definition lock_ms :: "nat \<Rightarrow> millis" where
  "lock_ms failures = min (BASE_LOCK_MS * 2 ^ (failures - LOCK_THRESHOLD)) MAX_LOCK_MS"

definition recordFailure :: "string \<Rightarrow> millis \<Rightarrow> db \<Rightarrow> int \<times> db" where
  "recordFailure username now d =
     (let name = attempt_key username;
          row = attempt_row_of d name;
          stale = (case Option.bind row att_last_fail_at of None \<Rightarrow> True | Some t \<Rightarrow> now - t > LOCK_WINDOW_MS);
          failures = (if stale then 1 else (case row of None \<Rightarrow> 0 | Some r \<Rightarrow> att_failures r) + 1);
          lockedUntil = (if failures \<ge> LOCK_THRESHOLD then Some (now + lock_ms failures) else None)
      in (case lockedUntil of None \<Rightarrow> 0 | Some l \<Rightarrow> ceil_seconds (l - now),
          d\<lparr>db_attempts := sql_upsert (\<lambda>r. att_username r = name)
               (\<lambda>r. r\<lparr>att_failures := failures,
                      att_first_fail_at := (if failures = 1 then Some now else att_first_fail_at r),
                      att_last_fail_at := Some now, att_locked_until := lockedUntil\<rparr>)
               \<lparr>att_username = name, att_failures = failures, att_first_fail_at = Some now,
                att_last_fail_at = Some now, att_locked_until = lockedUntil\<rparr>
               (db_attempts d)\<rparr>))"

definition recordSuccess :: "string \<Rightarrow> db \<Rightarrow> db" where
  "recordSuccess username d =
     d\<lparr>db_attempts := sql_delete (\<lambda>r. att_username r = attempt_key username) (db_attempts d)\<rparr>"

record account_lockout =
  alo_username :: string
  alo_failures :: nat
  alo_last_fail_at :: "millis option"
  alo_locked_until :: millis

definition listLockouts :: "millis \<Rightarrow> db \<Rightarrow> account_lockout list" where
  "listLockouts now d = map (\<lambda>r. \<lparr>alo_username = att_username r, alo_failures = att_failures r,
       alo_last_fail_at = att_last_fail_at r, alo_locked_until = the (att_locked_until r)\<rparr>)
     (order_desc (\<lambda>r. the (att_locked_until r))
       (filter (\<lambda>r. case att_locked_until r of None \<Rightarrow> False | Some l \<Rightarrow> l > now) (db_attempts d)))"

definition clearLockout :: "string \<Rightarrow> db \<Rightarrow> bool \<times> db" where
  "clearLockout username d =
     (sql_count (\<lambda>r. att_username r = attempt_key username) (db_attempts d) > 0, recordSuccess username d)"

subsection \<open>Per address: \<open>db/ip-bans.ts\<close>\<close>

definition BAN_THRESHOLD :: nat where "BAN_THRESHOLD = 20"
definition BAN_WINDOW_MS :: millis where "BAN_WINDOW_MS = 15 * 60 * 1000"
definition BAN_SECONDS :: int where "BAN_SECONDS = 60 * 60"

definition ip_row_of :: "db \<Rightarrow> string \<Rightarrow> ip_attempt_row option" where
  "ip_row_of d a = sql_get (\<lambda>r. ipa_address r = a) (db_ip_attempts d)"

definition recordIpFailure :: "string \<Rightarrow> millis \<Rightarrow> db \<Rightarrow> (nat \<times> bool) \<times> db" where
  "recordIpFailure address now d =
     (let a = attempt_key address in
      if a = '''' then ((0, False), d)
      else
        (let row = ip_row_of d a;
             stale = (case Option.bind row ipa_first_fail_at of None \<Rightarrow> True | Some t \<Rightarrow> now - t > BAN_WINDOW_MS);
             failures = (if stale then 1 else ipa_failures (the row) + 1);
             firstAt = (if stale then Some now else ipa_first_fail_at (the row))
         in ((failures, failures \<ge> BAN_THRESHOLD),
             d\<lparr>db_ip_attempts := sql_upsert (\<lambda>r. ipa_address r = a)
                  (\<lambda>r. r\<lparr>ipa_failures := failures, ipa_first_fail_at := firstAt, ipa_last_fail_at := Some now\<rparr>)
                  \<lparr>ipa_address = a, ipa_failures = failures, ipa_first_fail_at = firstAt,
                   ipa_last_fail_at = Some now\<rparr>
                  (db_ip_attempts d)\<rparr>)))"

definition clearIpFailures :: "string \<Rightarrow> db \<Rightarrow> db" where
  "clearIpFailures address d =
     d\<lparr>db_ip_attempts := sql_delete (\<lambda>r. ipa_address r = attempt_key address) (db_ip_attempts d)\<rparr>"

record ip_ban =
  ipb_address :: string
  ipb_reason :: string
  ipb_failures :: nat
  ipb_banned_at :: millis
  ipb_expires_at :: millis
  ipb_active :: bool

definition toBan :: "ban_row \<Rightarrow> ip_ban" where
  "toBan r = \<lparr>ipb_address = ban_address r, ipb_reason = ban_reason r, ipb_failures = ban_failures r,
     ipb_banned_at = ban_banned_at r, ipb_expires_at = ban_expires_at r, ipb_active = True\<rparr>"

definition recordBan :: "string \<Rightarrow> string \<Rightarrow> nat \<Rightarrow> int \<Rightarrow> millis \<Rightarrow> db \<Rightarrow> ip_ban \<times> db" where
  "recordBan address reason failures seconds now d =
     (let row = \<lparr>ban_address = attempt_key address, ban_reason = reason, ban_failures = failures,
                 ban_banned_at = now, ban_expires_at = now + seconds * 1000\<rparr>;
          d1 = d\<lparr>db_bans := sql_upsert (\<lambda>r. ban_address r = ban_address row) (\<lambda>_. row) row (db_bans d)\<rparr>
      in (toBan row, clearIpFailures address d1))"

definition listRecordedBans :: "millis \<Rightarrow> db \<Rightarrow> ip_ban list \<times> db" where
  "listRecordedBans now d =
     (let d1 = d\<lparr>db_bans := sql_delete (\<lambda>r. ban_expires_at r \<le> now) (db_bans d)\<rparr>
      in (map toBan (order_desc ban_banned_at (db_bans d1)), d1))"

definition removeBan :: "string \<Rightarrow> db \<Rightarrow> bool \<times> db" where
  "removeBan address d =
     (let P = (\<lambda>r. ban_address r = attempt_key address)
      in (sql_count P (db_bans d) > 0, d\<lparr>db_bans := sql_delete P (db_bans d)\<rparr>))"

subsection \<open>\<open>system/auto-ban.ts\<close>\<close>

text \<open>
  \<open>banAddress\<close> asks \<open>nftables\<close> to drop the address; \<open>'k\<close> is the state of the kernel
  set and the result says whether the command succeeded.  The row is recorded either
  way.  \<open>log\<close> calls and the outer \<open>try\<close> (a failing database) are not modelled.
\<close>

definition noteFailedAttempt ::
  "(string \<Rightarrow> int \<Rightarrow> 'k \<Rightarrow> bool \<times> 'k) \<Rightarrow> string list \<Rightarrow> string \<Rightarrow> string \<Rightarrow> millis \<Rightarrow> db \<times> 'k \<Rightarrow> db \<times> 'k" where
  "noteFailedAttempt banAddress trusted address reason now dk =
     (let (d, k) = dk in
      if \<not> isBannable address trusted then (d, k)
      else
        (let ((failures, shouldBan), d1) = recordIpFailure address now d in
         if \<not> shouldBan then (d1, k)
         else
           (let (applied, k1) = banAddress address BAN_SECONDS k;
                (ban, d2) = recordBan address reason failures BAN_SECONDS now d1
            in (d2, k1))))"

definition currentBans :: "(string \<times> int) list \<Rightarrow> millis \<Rightarrow> db \<Rightarrow> ip_ban list \<times> db" where
  "currentBans live now d =
     (let (recorded, d1) = listRecordedBans now d;
          bans = map (\<lambda>b. b\<lparr>ipb_active := ipb_address b \<in> fst ` set live\<rparr>) recorded;
          reason = ''Blocked at the firewall (no OpenNAS record - added by hand, or from before a restart).''
      in (fold (\<lambda>(address, secondsLeft) bs.
              if list_ex (\<lambda>b. ipb_address b = address) bs then bs
              else bs @ [\<lparr>ipb_address = address, ipb_reason = reason, ipb_failures = 0,
                          ipb_banned_at = now, ipb_expires_at = now + secondsLeft * 1000,
                          ipb_active = True\<rparr>])
            live bans, d1))"

definition liftBan :: "(string \<Rightarrow> 'k \<Rightarrow> 'k) \<Rightarrow> string \<Rightarrow> db \<times> 'k \<Rightarrow> db \<times> 'k" where
  "liftBan unbanAddress address dk =
     (let (d, k) = dk in (snd (removeBan address d), unbanAddress address k))"

subsection \<open>Lemmas\<close>

lemma attempt_key_idem [simp]: "attempt_key (attempt_key a) = attempt_key a"
  by (simp add: attempt_key_def js_trim_lower)

lemma ceil_seconds_bounds:
  "ms \<le> 1000 * ceil_seconds ms" "1000 * ceil_seconds ms < ms + 1000"
  by (simp_all add: ceil_seconds_def)

lemma ceil_seconds_mono: "a \<le> b \<Longrightarrow> ceil_seconds a \<le> ceil_seconds b"
  by (simp add: ceil_seconds_def zdiv_mono1)

lemma lock_ms_bounds: "60000 \<le> lock_ms n" "lock_ms n \<le> 900000"
proof -
  have "(1::int) \<le> 2 ^ (n - LOCK_THRESHOLD)" by simp
  then show "60000 \<le> lock_ms n" "lock_ms n \<le> 900000"
    by (simp_all add: lock_ms_def BASE_LOCK_MS_def MAX_LOCK_MS_def)
qed

lemma lock_ms_mono: "m \<le> n \<Longrightarrow> lock_ms m \<le> lock_ms n"
proof -
  assume "m \<le> n"
  then have "(2::int) ^ (m - LOCK_THRESHOLD) \<le> 2 ^ (n - LOCK_THRESHOLD)"
    by (intro power_increasing) simp_all
  then have "BASE_LOCK_MS * 2 ^ (m - LOCK_THRESHOLD) \<le> BASE_LOCK_MS * 2 ^ (n - LOCK_THRESHOLD)"
    by (intro mult_left_mono) (simp_all add: BASE_LOCK_MS_def)
  then show ?thesis unfolding lock_ms_def by (rule min.mono) simp
qed

definition failures_of :: "db \<Rightarrow> string \<Rightarrow> nat" where
  "failures_of d username = (case attempt_row_of d username of None \<Rightarrow> 0 | Some r \<Rightarrow> att_failures r)"

definition last_failure_of :: "db \<Rightarrow> string \<Rightarrow> millis option" where
  "last_failure_of d username = Option.bind (attempt_row_of d username) att_last_fail_at"

text \<open>The count a failure leaves behind, whatever was there.\<close>

definition next_failures :: "string \<Rightarrow> millis \<Rightarrow> db \<Rightarrow> nat" where
  "next_failures username now d =
     (case last_failure_of d username of
        None \<Rightarrow> 1
      | Some t \<Rightarrow> if now - t > LOCK_WINDOW_MS then 1 else failures_of d username + 1)"

lemma attempt_row_of_key [simp]: "attempt_row_of d (attempt_key u) = attempt_row_of d u"
  by (simp add: attempt_row_of_def)

lemma next_failures_code:
  "(if (case Option.bind (attempt_row_of d u) att_last_fail_at of None \<Rightarrow> True
        | Some t \<Rightarrow> now - t > LOCK_WINDOW_MS) then 1
    else (case attempt_row_of d u of None \<Rightarrow> 0 | Some r \<Rightarrow> att_failures r) + 1)
   = next_failures u now d"
  by (auto simp: next_failures_def last_failure_of_def failures_of_def split: option.splits)

lemma next_failures_key [simp]: "next_failures (attempt_key u) now d = next_failures u now d"
proof -
  have "failures_of d (attempt_key u) = failures_of d u" by (simp add: failures_of_def)
  then show ?thesis by (auto simp: next_failures_def last_failure_of_def split: option.split)
qed

definition lock_until :: "string \<Rightarrow> millis \<Rightarrow> db \<Rightarrow> millis option" where
  "lock_until u now d = (if next_failures u now d \<ge> LOCK_THRESHOLD
     then Some (now + lock_ms (next_failures u now d)) else None)"

lemma recordFailure_eq:
  "recordFailure u now d =
     (if next_failures u now d \<ge> LOCK_THRESHOLD then ceil_seconds (lock_ms (next_failures u now d)) else 0,
      d\<lparr>db_attempts := sql_upsert (\<lambda>r. att_username r = attempt_key u)
           (\<lambda>r. r\<lparr>att_failures := next_failures u now d,
                  att_first_fail_at := (if next_failures u now d = 1 then Some now else att_first_fail_at r),
                  att_last_fail_at := Some now, att_locked_until := lock_until u now d\<rparr>)
           \<lparr>att_username = attempt_key u, att_failures = next_failures u now d, att_first_fail_at = Some now,
            att_last_fail_at = Some now, att_locked_until = lock_until u now d\<rparr>
           (db_attempts d)\<rparr>)"
  unfolding recordFailure_def Let_def next_failures_code by (simp add: lock_until_def)

lemma recordFailure_row:
  "\<exists>r. attempt_row_of (snd (recordFailure u now d)) u = Some r \<and> att_failures r = next_failures u now d \<and>
     att_last_fail_at r = Some now \<and> att_locked_until r = lock_until u now d"
  by (simp add: recordFailure_eq attempt_row_of_def sql_get_upsert split: option.split)

lemma recordFailure_other:
  "attempt_key v \<noteq> attempt_key u \<Longrightarrow> attempt_row_of (snd (recordFailure u now d)) v = attempt_row_of d v"
  by (auto simp: recordFailure_eq attempt_row_of_def intro!: sql_get_upsert_other)

lemma recordFailure_counts:
  "failures_of (snd (recordFailure u now d)) u = next_failures u now d"
  "last_failure_of (snd (recordFailure u now d)) u = Some now"
  using recordFailure_row [of u now d] by (auto simp: failures_of_def last_failure_of_def)

lemma recordSuccess_row [simp]: "attempt_row_of (recordSuccess u d) u = None"
  by (simp add: recordSuccess_def attempt_row_of_def)

lemma recordSuccess_other:
  "attempt_key v \<noteq> attempt_key u \<Longrightarrow> attempt_row_of (recordSuccess u d) v = attempt_row_of d v"
  by (auto simp: recordSuccess_def attempt_row_of_def intro!: sql_get_delete_other)

interpretation lockout: failure_counter failures_of last_failure_of
  "\<lambda>u n d. snd (recordFailure u n d)" recordSuccess "\<lambda>_. True" LOCK_WINDOW_MS
  by unfold_locales
    (auto simp: recordFailure_counts next_failures_def failures_of_def [of "recordSuccess _ _"]
      last_failure_of_def [of "recordSuccess _ _"])

text \<open>The wait announced is the wait enforced, and nobody waits longer than the cap.\<close>

lemma lockout_after_failure:
  "lockoutRemainingSeconds u now (snd (recordFailure u now d)) = fst (recordFailure u now d)"
  using lock_ms_bounds(1) [of "next_failures u now d"] recordFailure_row [of u now d]
  by (auto simp: lockoutRemainingSeconds_def recordFailure_eq lock_until_def)

definition lockouts_bounded :: "millis \<Rightarrow> db \<Rightarrow> bool" where
  "lockouts_bounded now d \<longleftrightarrow>
     (\<forall>r \<in> set (db_attempts d). case att_locked_until r of None \<Rightarrow> True | Some l \<Rightarrow> l \<le> now + MAX_LOCK_MS)"

lemma lockouts_bounded_mono: "lockouts_bounded now d \<Longrightarrow> now \<le> later \<Longrightarrow> lockouts_bounded later d"
  by (auto simp: lockouts_bounded_def split: option.splits)

lemma recordFailure_bounded:
  "lockouts_bounded now d \<Longrightarrow> lockouts_bounded now (snd (recordFailure u now d))"
  using lock_ms_bounds(2)
  by (auto simp: lockouts_bounded_def recordFailure_eq sql_upsert_def MAX_LOCK_MS_def lock_until_def)

lemma recordSuccess_bounded: "lockouts_bounded now d \<Longrightarrow> lockouts_bounded now (recordSuccess u d)"
  by (auto simp: lockouts_bounded_def recordSuccess_def)

lemma lockouts_bounded_wait:
  assumes "lockouts_bounded now d"
  shows "lockoutRemainingSeconds u now d \<le> 900"
proof (cases "Option.bind (attempt_row_of d u) att_locked_until")
  case None
  then show ?thesis by (simp add: lockoutRemainingSeconds_def)
next
  case (Some l)
  then obtain r where "r \<in> set (db_attempts d)" "att_locked_until r = Some l"
    by (auto simp: attempt_row_of_def bind_eq_Some_conv dest: sql_get_SomeD)
  with assms have "l - now \<le> 900000" by (auto simp: lockouts_bounded_def MAX_LOCK_MS_def)
  from ceil_seconds_mono [OF this] have "ceil_seconds (l - now) \<le> 900" by (simp add: ceil_seconds_def)
  with Some show ?thesis by (simp add: lockoutRemainingSeconds_def)
qed

subsubsection \<open>Addresses\<close>

definition ip_failures_of :: "db \<Rightarrow> string \<Rightarrow> nat" where
  "ip_failures_of d a = (case ip_row_of d (attempt_key a) of None \<Rightarrow> 0 | Some r \<Rightarrow> ipa_failures r)"

definition ip_first_of :: "db \<Rightarrow> string \<Rightarrow> millis option" where
  "ip_first_of d a = Option.bind (ip_row_of d (attempt_key a)) ipa_first_fail_at"

definition ip_stale :: "string \<Rightarrow> millis \<Rightarrow> db \<Rightarrow> bool" where
  "ip_stale a now d = (case ip_first_of d a of None \<Rightarrow> True | Some t \<Rightarrow> now - t > BAN_WINDOW_MS)"

definition next_ip_failures :: "string \<Rightarrow> millis \<Rightarrow> db \<Rightarrow> nat" where
  "next_ip_failures a now d = (if ip_stale a now d then 1 else ip_failures_of d a + 1)"

lemma recordIpFailure_eq:
  assumes "attempt_key a \<noteq> ''''"
  shows "recordIpFailure a now d =
    ((next_ip_failures a now d, next_ip_failures a now d \<ge> BAN_THRESHOLD),
     d\<lparr>db_ip_attempts := sql_upsert (\<lambda>r. ipa_address r = attempt_key a)
        (\<lambda>r. r\<lparr>ipa_failures := next_ip_failures a now d,
               ipa_first_fail_at := (if ip_stale a now d then Some now else ip_first_of d a),
               ipa_last_fail_at := Some now\<rparr>)
        \<lparr>ipa_address = attempt_key a, ipa_failures = next_ip_failures a now d,
         ipa_first_fail_at = (if ip_stale a now d then Some now else ip_first_of d a),
         ipa_last_fail_at = Some now\<rparr> (db_ip_attempts d)\<rparr>)"
proof (cases "ip_row_of d (attempt_key a)")
  case None
  with assms show ?thesis
    by (simp add: recordIpFailure_def Let_def next_ip_failures_def ip_stale_def ip_first_of_def)
next
  case (Some r)
  with assms show ?thesis
    by (simp add: recordIpFailure_def Let_def next_ip_failures_def ip_stale_def ip_first_of_def
        ip_failures_of_def)
qed

lemma recordIpFailure_row:
  assumes "attempt_key a \<noteq> ''''"
  shows "ip_failures_of (snd (recordIpFailure a now d)) a = next_ip_failures a now d"
    and "ip_first_of (snd (recordIpFailure a now d)) a =
      (if ip_stale a now d then Some now else ip_first_of d a)"
  by (simp_all add: ip_failures_of_def ip_first_of_def ip_row_of_def recordIpFailure_eq [OF assms] sql_get_upsert
      split: option.split)

lemma clearIpFailures_row [simp]: "ip_row_of (clearIpFailures a d) (attempt_key a) = None"
  by (simp add: clearIpFailures_def ip_row_of_def)

interpretation ip_counter: failure_counter ip_failures_of ip_first_of
  "\<lambda>a n d. snd (recordIpFailure a n d)" clearIpFailures "\<lambda>a. attempt_key a \<noteq> ''''" BAN_WINDOW_MS
  by unfold_locales
    (auto simp: recordIpFailure_row next_ip_failures_def ip_stale_def
      ip_failures_of_def [of "clearIpFailures _ _"] ip_first_of_def [of "clearIpFailures _ _"])

lemma recordIpFailure_blank: "attempt_key a = '''' \<Longrightarrow> recordIpFailure a now d = ((0, False), d)"
  by (simp add: recordIpFailure_def Let_def)

lemma recordIpFailure_bans [simp]: "db_bans (snd (recordIpFailure a now d)) = db_bans d"
  by (simp add: recordIpFailure_def Let_def)

lemma isBannable_usable: "isBannable a ns \<Longrightarrow> attempt_key a \<noteq> ''''"
  by (auto simp: isBannable_def attempt_key_def Let_def)

text \<open>No recorded ban is on an address the given networks protect.\<close>

definition bans_spare :: "string list \<Rightarrow> db \<Rightarrow> bool" where
  "bans_spare trusted d \<longleftrightarrow> list_all (\<lambda>b. isBannable (ban_address b) trusted) (db_bans d)"

lemma isBannable_key: "isBannable (attempt_key a) ns = isBannable a ns"
  by (simp add: isBannable_def attempt_key_def js_trim_lower)

lemma list_all_sql_upsert:
  "list_all P t \<Longrightarrow> P new \<Longrightarrow> (\<And>r. P r \<Longrightarrow> P (f r)) \<Longrightarrow> list_all P (sql_upsert Q f new t)"
  by (auto simp: sql_upsert_def list_all_iff)

lemma recordBan_bans:
  "db_bans (snd (recordBan a reason n secs now d)) =
     sql_upsert (\<lambda>r. ban_address r = attempt_key a)
       (\<lambda>_. \<lparr>ban_address = attempt_key a, ban_reason = reason, ban_failures = n,
             ban_banned_at = now, ban_expires_at = now + secs * 1000\<rparr>)
       \<lparr>ban_address = attempt_key a, ban_reason = reason, ban_failures = n,
        ban_banned_at = now, ban_expires_at = now + secs * 1000\<rparr> (db_bans d)"
  by (simp add: recordBan_def Let_def clearIpFailures_def)

lemma noteFailedAttempt_cases:
  obtains (exempt) "\<not> isBannable a trusted" "noteFailedAttempt ban trusted a reason now (d, k) = (d, k)"
    | (counted) "isBannable a trusted" "next_ip_failures a now d < BAN_THRESHOLD"
        "noteFailedAttempt ban trusted a reason now (d, k) = (snd (recordIpFailure a now d), k)"
    | (banned) "isBannable a trusted" "next_ip_failures a now d \<ge> BAN_THRESHOLD"
        "noteFailedAttempt ban trusted a reason now (d, k) =
          (snd (recordBan a reason (next_ip_failures a now d) BAN_SECONDS now (snd (recordIpFailure a now d))),
           snd (ban a BAN_SECONDS k))"
proof (cases "isBannable a trusted")
  case True
  show thesis
  proof (cases "next_ip_failures a now d \<ge> BAN_THRESHOLD")
    case t: True
    have "noteFailedAttempt ban trusted a reason now (d, k) =
          (snd (recordBan a reason (next_ip_failures a now d) BAN_SECONDS now (snd (recordIpFailure a now d))),
           snd (ban a BAN_SECONDS k))"
      using True t isBannable_usable [OF True]
      by (simp add: noteFailedAttempt_def recordIpFailure_eq case_prod_beta)
    then show thesis using True t that(3) by simp
  next
    case False
    have "noteFailedAttempt ban trusted a reason now (d, k) = (snd (recordIpFailure a now d), k)"
      using True False isBannable_usable [OF True]
      by (simp add: noteFailedAttempt_def recordIpFailure_eq case_prod_beta)
    then show thesis using True False that(2) by simp
  qed
next
  case False
  then show thesis using that(1) by (simp add: noteFailedAttempt_def)
qed

lemma noteFailedAttempt_spares:
  assumes "bans_spare trusted d"
  shows "bans_spare trusted (fst (noteFailedAttempt ban trusted a reason now (d, k)))"
proof (cases rule: noteFailedAttempt_cases [of a trusted ban reason now d k])
  case banned
  have "list_all (\<lambda>b. isBannable (ban_address b) trusted)
     (db_bans (snd (recordBan a reason (next_ip_failures a now d) BAN_SECONDS now (snd (recordIpFailure a now d)))))"
    unfolding recordBan_bans recordIpFailure_bans
    using assms banned(1) by (intro list_all_sql_upsert) (simp_all add: bans_spare_def isBannable_key)
  with banned show ?thesis by (simp add: bans_spare_def)
qed (use assms in \<open>simp_all add: bans_spare_def\<close>)

end
