(* ===== verification/Json.thy ===== *)
theory Json
  imports JsText
begin

text \<open>
  \<open>JSON.stringify\<close> and \<open>JSON.parse\<close>, which the code uses to keep structured values in
  text columns.  Numbers are the integers (the code stores no others), an escape
  \<open>\u\<close> beyond Latin-1 is refused.  The parser recurses on a fuel of the input's length,
  one unit per character, and the round trip shows that this is always enough.
\<close>

datatype json = JNull | JBool bool | JNum int | JStr string | JArr "json list" | JObj "(string \<times> json) list"

subsection \<open>\<open>JSON.stringify\<close>\<close>

definition quote_char :: char where "quote_char = CHR 0x22"
definition backslash :: char where "backslash = CHR 0x5C"

definition hex_lower :: "nat \<Rightarrow> char" where
  "hex_lower n = ''0123456789abcdef'' ! (n mod 16)"

definition escape_char :: "char \<Rightarrow> string" where
  "escape_char c =
     (let n = code_unit c in
      if c = quote_char \<or> c = backslash then [backslash, c]
      else if n = 8 then [backslash, CHR ''b'']
      else if n = 9 then [backslash, CHR ''t'']
      else if n = 10 then [backslash, CHR ''n'']
      else if n = 12 then [backslash, CHR ''f'']
      else if n = 13 then [backslash, CHR ''r'']
      else if n < 32 then [backslash, CHR ''u'', CHR ''0'', CHR ''0'', hex_lower (n div 16), hex_lower n]
      else [c])"

definition json_string :: "string \<Rightarrow> string" where
  "json_string s = quote_char # concat (map escape_char s) @ [quote_char]"

fun stringify :: "json \<Rightarrow> string" where
  "stringify JNull = ''null''"
| "stringify (JBool b) = (if b then ''true'' else ''false'')"
| "stringify (JNum i) = (if i < 0 then CHR ''-'' # js_nat (nat (- i)) else js_nat (nat i))"
| "stringify (JStr s) = json_string s"
| "stringify (JArr js) = CHR ''['' # join '','' (map stringify js) @ '']''"
| "stringify (JObj ms) = CHR ''{'' # join '','' (map (\<lambda>(k, v). json_string k @ '':'' @ stringify v) ms) @ ''}''"

subsection \<open>\<open>JSON.parse\<close>\<close>

definition json_space :: "char \<Rightarrow> bool" where
  "json_space c \<longleftrightarrow> code_unit c \<in> {9, 10, 13, 32}"

definition skip_space :: "string \<Rightarrow> string" where
  "skip_space s = dropWhile json_space s"

definition hex_digit_value :: "char \<Rightarrow> nat" where
  "hex_digit_value c = (if is_digit c then digit_value c
     else if 97 \<le> code_unit c then code_unit c - 87 else code_unit c - 55)"

definition simple_escape :: "char \<Rightarrow> char option" where
  "simple_escape e =
     (if e = quote_char \<or> e = backslash \<or> e = CHR ''/'' then Some e
      else if e = CHR ''b'' then Some (char_of (8::nat))
      else if e = CHR ''t'' then Some (char_of (9::nat))
      else if e = CHR ''n'' then Some (char_of (10::nat))
      else if e = CHR ''f'' then Some (char_of (12::nat))
      else if e = CHR ''r'' then Some (char_of (13::nat))
      else None)"

fun p_string :: "string \<Rightarrow> (string \<times> string) option" where
  "p_string [] = None"
| "p_string (c # cs) =
     (if c = quote_char then Some ([], cs)
      else if c = backslash then
        (case cs of
           [] \<Rightarrow> None
         | e # r \<Rightarrow>
             (case simple_escape e of
                Some x \<Rightarrow> map_option (\<lambda>(s, t). (x # s, t)) (p_string r)
              | None \<Rightarrow>
                  if e = CHR ''u'' then
                    (case r of
                       h1 # h2 # h3 # h4 # r' \<Rightarrow>
                         if h1 = CHR ''0'' \<and> h2 = CHR ''0'' \<and> is_hex h3 \<and> is_hex h4
                         then map_option (\<lambda>(s, t). (char_of (16 * hex_digit_value h3 + hex_digit_value h4) # s, t)) (p_string r')
                         else None
                     | _ \<Rightarrow> None)
                  else None))
      else if code_unit c < 32 then None
      else map_option (\<lambda>(s, t). (c # s, t)) (p_string cs))"

definition ends_number :: "string \<Rightarrow> bool" where
  "ends_number r \<longleftrightarrow> r = [] \<or> \<not> is_digit (hd r) \<and> hd r \<notin> set ''.eE''"

definition p_number :: "string \<Rightarrow> (json \<times> string) option" where
  "p_number s =
     (let neg = starts_with s ''-'';
          r = (if neg then tl s else s);
          ds = takeWhile is_digit r;
          t = dropWhile is_digit r
      in if ds = '''' \<or> (length ds > 1 \<and> hd ds = CHR ''0'') \<or> \<not> ends_number t then None
         else Some (JNum (if neg then - int (decimal ds) else int (decimal ds)), t))"

definition p_literal :: "string \<Rightarrow> (json \<times> string) option" where
  "p_literal s =
     (if starts_with s ''null'' then Some (JNull, drop 4 s)
      else if starts_with s ''true'' then Some (JBool True, drop 4 s)
      else if starts_with s ''false'' then Some (JBool False, drop 5 s)
      else p_number s)"

fun p_value :: "nat \<Rightarrow> string \<Rightarrow> (json \<times> string) option"
  and p_elems :: "nat \<Rightarrow> string \<Rightarrow> (json list \<times> string) option"
  and p_members :: "nat \<Rightarrow> string \<Rightarrow> ((string \<times> json) list \<times> string) option" where
  "p_value 0 s = None"
| "p_value (Suc n) s =
     (case skip_space s of
        [] \<Rightarrow> None
      | c # cs \<Rightarrow>
          if c = quote_char then map_option (\<lambda>(t, r). (JStr t, r)) (p_string cs)
          else if c = CHR ''['' then
            (if starts_with (skip_space cs) '']'' then Some (JArr [], tl (skip_space cs))
             else map_option (\<lambda>(js, r). (JArr js, r)) (p_elems n cs))
          else if c = CHR ''{'' then
            (if starts_with (skip_space cs) ''}'' then Some (JObj [], tl (skip_space cs))
             else map_option (\<lambda>(ms, r). (JObj ms, r)) (p_members n cs))
          else p_literal (c # cs))"
| "p_elems 0 s = None"
| "p_elems (Suc n) s =
     (case p_value n s of
        None \<Rightarrow> None
      | Some (j, r) \<Rightarrow>
          (case skip_space r of
             [] \<Rightarrow> None
           | c # cs \<Rightarrow>
               if c = CHR '','' then map_option (\<lambda>(js, t). (j # js, t)) (p_elems n cs)
               else if c = CHR '']'' then Some ([j], cs) else None))"
| "p_members 0 s = None"
| "p_members (Suc n) s =
     (case skip_space s of
        [] \<Rightarrow> None
      | q # ks \<Rightarrow>
          if q \<noteq> quote_char then None else
          (case p_string ks of
             None \<Rightarrow> None
           | Some (k, r) \<Rightarrow>
               (case skip_space r of
                  [] \<Rightarrow> None
                | d # vs \<Rightarrow>
                    if d \<noteq> CHR '':'' then None else
                    (case p_value n vs of
                       None \<Rightarrow> None
                     | Some (v, r') \<Rightarrow>
                         (case skip_space r' of
                            [] \<Rightarrow> None
                          | c # cs \<Rightarrow>
                              if c = CHR '','' then map_option (\<lambda>(ms, t). ((k, v) # ms, t)) (p_members n cs)
                              else if c = CHR ''}'' then Some ([(k, v)], cs) else None)))))"

definition json_parse :: "string \<Rightarrow> json option" where
  "json_parse s =
     (case p_value (Suc (length s)) s of
        None \<Rightarrow> None
      | Some (j, r) \<Rightarrow> if skip_space r = [] then Some j else None)"

text \<open>\<open>obj.key\<close>: of two members with the same key the later one wins; \<open>None\<close> is \<open>undefined\<close>.\<close>

definition jget :: "json \<Rightarrow> string \<Rightarrow> json option" where
  "jget j k = (case j of JObj ms \<Rightarrow> map_of (rev ms) k | _ \<Rightarrow> None)"

subsection \<open>Round trip\<close>

lemma hex_lower_value: "n < 16 \<Longrightarrow> hex_digit_value (hex_lower n) = n \<and> is_hex (hex_lower n)"
proof -
  have "list_all (\<lambda>n. hex_digit_value (hex_lower n) = n \<and> is_hex (hex_lower n)) [0..<16]" by code_simp
  then show "n < 16 \<Longrightarrow> hex_digit_value (hex_lower n) = n \<and> is_hex (hex_lower n)" by (simp add: list_all_iff)
qed

lemma p_string_escape:
  assumes "p_string t = Some (s, r)"
  shows "p_string (escape_char c @ t) = Some (c # s, r)"
proof -
  have c: "char_of n = c" if "code_unit c = n" for n using that by auto
  have bq: "backslash \<noteq> quote_char" "quote_char \<noteq> backslash" "simple_escape (CHR ''u'') = None"
    "simple_escape quote_char = Some quote_char" "simple_escape backslash = Some backslash"
    "simple_escape (CHR ''b'') = Some (char_of (8::nat))" "simple_escape (CHR ''t'') = Some (char_of (9::nat))"
    "simple_escape (CHR ''n'') = Some (char_of (10::nat))" "simple_escape (CHR ''f'') = Some (char_of (12::nat))"
    "simple_escape (CHR ''r'') = Some (char_of (13::nat))"
    by code_simp+
  consider (same) "c = quote_char \<or> c = backslash"
    | (short) "c \<noteq> quote_char" "c \<noteq> backslash" "code_unit c \<in> {8, 9, 10, 12, 13}"
    | (unicode) "c \<noteq> quote_char" "c \<noteq> backslash" "code_unit c \<notin> {8, 9, 10, 12, 13}" "code_unit c < 32"
    | (plain) "c \<noteq> quote_char" "c \<noteq> backslash" "\<not> code_unit c < 32"
    by auto
  then show ?thesis
  proof cases
    case same
    then show ?thesis using assms bq by (auto simp: escape_char_def)
  next
    case short
    then show ?thesis using assms bq by (auto simp: escape_char_def intro: c)
  next
    case unicode
    have "code_unit c div 16 < 16" using unicode(4) by simp
    then have "hex_digit_value (hex_lower (code_unit c div 16)) = code_unit c div 16"
      "is_hex (hex_lower (code_unit c div 16))" using hex_lower_value by blast+
    moreover have "hex_lower (code_unit c) = hex_lower (code_unit c mod 16)" by (simp add: hex_lower_def)
    then have "hex_digit_value (hex_lower (code_unit c)) = code_unit c mod 16" "is_hex (hex_lower (code_unit c))"
      using hex_lower_value [of "code_unit c mod 16"] by simp_all
    ultimately show ?thesis using unicode assms bq by (simp add: escape_char_def Let_def)
  next
    case plain
    then show ?thesis using assms by (simp add: escape_char_def)
  qed
qed

lemma p_string_json: "p_string (concat (map escape_char s) @ quote_char # r) = Some (s, r)"
proof (induction s)
  case (Cons c s)
  from p_string_escape [OF this, of c] show ?case by simp
qed simp

lemma hd_js_nat: "is_digit (hd (js_nat n)) \<and> (hd (js_nat n) = CHR ''0'' \<longrightarrow> n = 0)"
proof (induction n rule: js_nat.induct)
  case (1 n)
  show ?case
  proof (cases "n < 10")
    case True
    have "48 + n = 48" if "char_of (48 + n) = CHR ''0''"
      using arg_cong [OF that, of code_unit] True by (simp add: code_unit_def)
    with True show ?thesis by (subst (1 2) js_nat.simps) auto
  next
    case False
    with 1 have IH: "is_digit (hd (js_nat (n div 10)))" "hd (js_nat (n div 10)) = CHR ''0'' \<longrightarrow> n div 10 = 0"
      by blast+
    have "js_nat n = js_nat (n div 10) @ [char_of (48 + n mod 10)]"
      using False by (subst js_nat.simps) simp
    then have "hd (js_nat n) = hd (js_nat (n div 10))" by simp
    with IH False show ?thesis by auto
  qed
qed

lemma js_nat_0: "js_nat 0 = ''0''"
  by code_simp

lemma p_number_js_nat:
  assumes "ends_number r"
  shows "p_number (js_nat n @ r) = Some (JNum (int n), r)"
    and "p_number (CHR ''-'' # js_nat n @ r) = Some (JNum (- int n), r)"
proof -
  have digits: "\<forall>c \<in> set (js_nat n). is_digit c" using js_nat_digits [of n] by (simp add: list_all_iff)
  have stop: "takeWhile is_digit r = []" "dropWhile is_digit r = r"
    using assms by (cases r; simp add: ends_number_def)+
  have tw: "takeWhile is_digit (js_nat n @ r) = js_nat n" "dropWhile is_digit (js_nat n @ r) = r"
    using digits stop by (simp_all add: takeWhile_append2 dropWhile_append2)
  have lead: "\<not> (length (js_nat n) > 1 \<and> hd (js_nat n) = CHR ''0'')"
    using hd_js_nat [of n] js_nat_0 by auto
  have "\<not> is_digit (CHR ''-'')" by code_simp
  then have "hd (js_nat n) \<noteq> CHR ''-''" using hd_js_nat [of n] by auto
  then have "\<not> starts_with (js_nat n @ r) ''-''"
    by (cases "js_nat n") (auto simp: starts_with_def)
  then show "p_number (js_nat n @ r) = Some (JNum (int n), r)"
    using tw lead assms by (auto simp: p_number_def Let_def)
  show "p_number (CHR ''-'' # js_nat n @ r) = Some (JNum (- int n), r)"
    using tw lead assms by (auto simp: p_number_def Let_def starts_with_def)
qed

lemma skip_space_id: "s = [] \<or> \<not> json_space (hd s) \<Longrightarrow> skip_space s = s"
  by (cases s) (auto simp: skip_space_def)

lemma not_space_chars:
  "\<not> json_space (CHR ''['')" "\<not> json_space (CHR ''{'')" "\<not> json_space quote_char" "\<not> json_space (CHR '','')"
  "\<not> json_space (CHR '']'')" "\<not> json_space (CHR ''}'')" "\<not> json_space (CHR '':'')" "\<not> json_space (CHR ''-'')"
  "\<not> json_space (CHR ''n'')" "\<not> json_space (CHR ''t'')" "\<not> json_space (CHR ''f'')"
  by code_simp+

lemma digit_not_special:
  assumes "is_digit c"
  shows "\<not> json_space c" "c \<noteq> quote_char" "c \<noteq> CHR ''[''" "c \<noteq> CHR ''{''" "c \<noteq> CHR ''n''" "c \<noteq> CHR ''t''"
    "c \<noteq> CHR ''f''" "c \<noteq> CHR '']''" "c \<noteq> CHR ''}''"
  using assms by (auto simp: is_digit_def json_space_def code_unit_def quote_char_def)

text \<open>The first character of a printed value is neither space nor a closing bracket.\<close>

lemma stringify_hd:
  "stringify j \<noteq> [] \<and> \<not> json_space (hd (stringify j)) \<and> hd (stringify j) \<noteq> CHR '']'' \<and> hd (stringify j) \<noteq> CHR ''}''"
proof (cases j)
  case (JNum i)
  then show ?thesis using hd_js_nat [of "nat i"] digit_not_special not_space_chars by auto
qed (auto simp: json_string_def not_space_chars, auto simp: quote_char_def)

definition after_value :: "string \<Rightarrow> bool" where
  "after_value r \<longleftrightarrow> ends_number r"

lemma after_value_chars: "after_value (CHR '','' # r)" "after_value (CHR '']'' # r)" "after_value (CHR ''}'' # r)"
  "after_value []"
  by (simp_all add: after_value_def ends_number_def is_digit_def code_unit_def)

lemma p_value_string: "p_value (Suc n) (json_string s @ r) = Some (JStr s, r)"
  using not_space_chars p_string_json [of s r]
  by (simp add: json_string_def skip_space_id)

lemma p_literal_number:
  assumes "is_digit c \<or> c = CHR ''-''"
  shows "p_literal (c # cs) = p_number (c # cs)"
  using assms by (auto simp: p_literal_def starts_with_def is_digit_def code_unit_def)

lemma p_value_scalar:
  assumes "\<not> json_space c" and "c \<noteq> quote_char" and "c \<noteq> CHR ''[''" and "c \<noteq> CHR ''{''"
  shows "p_value (Suc n) (c # cs) = p_literal (c # cs)"
  using assms by (simp add: skip_space_id)

lemma p_value_num:
  assumes "after_value r"
  shows "p_value (Suc n) (stringify (JNum i) @ r) = Some (JNum i, r)"
proof (cases "i < 0")
  case True
  have "quote_char \<noteq> CHR ''-''" by code_simp
  then have "p_value (Suc n) (CHR ''-'' # js_nat (nat (- i)) @ r) = p_literal (CHR ''-'' # js_nat (nat (- i)) @ r)"
    using not_space_chars by (intro p_value_scalar) simp_all
  also have "\<dots> = Some (JNum i, r)"
    using p_number_js_nat(2) [of r "nat (- i)"] assms True by (simp add: p_literal_number after_value_def)
  finally show ?thesis using True by simp
next
  case False
  obtain c cs where cs: "js_nat (nat i) = c # cs" by (cases "js_nat (nat i)") auto
  then have d: "is_digit c" using hd_js_nat [of "nat i"] by simp
  have "p_value (Suc n) (c # cs @ r) = p_literal (c # cs @ r)"
    using digit_not_special [OF d] by (intro p_value_scalar) simp_all
  also have "\<dots> = Some (JNum i, r)"
    using p_number_js_nat(1) [of r "nat i"] assms False cs d by (simp add: p_literal_number after_value_def)
  finally show ?thesis using False cs by simp
qed

text \<open>
  What the parser must do on a printed value: any fuel not below the printed length is
  enough, whatever follows.
\<close>

definition parses_back :: "json \<Rightarrow> bool" where
  "parses_back j \<longleftrightarrow> (\<forall>n r. length (stringify j) \<le> n \<longrightarrow> after_value r \<longrightarrow> p_value n (stringify j @ r) = Some (j, r))"

definition print_member :: "string \<times> json \<Rightarrow> string" where
  "print_member m = json_string (fst m) @ '':'' @ stringify (snd m)"

lemma p_elems_back:
  assumes "js \<noteq> []" and "\<forall>j \<in> set js. parses_back j" and "length (join '','' (map stringify js)) < n"
  shows "p_elems n (join '','' (map stringify js) @ CHR '']'' # r) = Some (js, r)"
  using assms
proof (induction js arbitrary: n)
  case (Cons j js)
  obtain m where n: "n = Suc m" using Cons.prems(3) by (cases n) auto
  show ?case
  proof (cases "js = []")
    case True
    then have "p_value m (stringify j @ CHR '']'' # r) = Some (j, CHR '']'' # r)"
      using Cons.prems n after_value_chars by (simp add: parses_back_def)
    then show ?thesis using True n not_space_chars by (simp add: skip_space_id)
  next
    case False
    let ?rest = "join '','' (map stringify js) @ CHR '']'' # r"
    have printed: "join '','' (map stringify (j # js)) @ CHR '']'' # r = stringify j @ CHR '','' # ?rest"
      using False by (simp add: join_Cons)
    have "p_value m (stringify j @ CHR '','' # ?rest) = Some (j, CHR '','' # ?rest)"
      using Cons.prems n False after_value_chars by (simp add: parses_back_def join_Cons)
    moreover have "p_elems m ?rest = Some (js, r)"
      using Cons.prems n False by (intro Cons.IH) (simp_all add: join_Cons)
    ultimately show ?thesis unfolding printed n using not_space_chars by (simp add: skip_space_id)
  qed
qed simp

lemma p_members_back:
  assumes "ms \<noteq> []" and "\<forall>m \<in> set ms. parses_back (snd m)" and "length (join '','' (map print_member ms)) < n"
  shows "p_members n (join '','' (map print_member ms) @ CHR ''}'' # r) = Some (ms, r)"
  using assms
proof (induction ms arbitrary: n)
  case (Cons m ms)
  obtain n' where n: "n = Suc n'" using Cons.prems(3) by (cases n) auto
  obtain k v where m: "m = (k, v)" by (cases m)
  let ?tail = "if ms = [] then CHR ''}'' # r else CHR '','' # join '','' (map print_member ms) @ CHR ''}'' # r"
  have printed: "join '','' (map print_member (m # ms)) @ CHR ''}'' # r =
      quote_char # concat (map escape_char k) @ quote_char # CHR '':'' # stringify v @ ?tail"
    by (simp add: join_Cons print_member_def m json_string_def)
  have len: "length (stringify v) \<le> n'"
    using Cons.prems(3) n by (cases "ms = []") (simp_all add: join_Cons print_member_def m)
  have v: "p_value n' (stringify v @ ?tail) = Some (v, ?tail)"
    using Cons.prems(2) len m after_value_chars by (simp add: parses_back_def)
  have key: "p_string (concat (map escape_char k) @ quote_char # CHR '':'' # stringify v @ ?tail) =
      Some (k, CHR '':'' # stringify v @ ?tail)" by (rule p_string_json)
  have sp: "skip_space (quote_char # x) = quote_char # x" "skip_space (CHR '':'' # x) = CHR '':'' # x"
    "skip_space (CHR '','' # x) = CHR '','' # x" "skip_space (CHR ''}'' # x) = CHR ''}'' # x" for x
    using not_space_chars by (simp_all add: skip_space_id)
  show ?case
  proof (cases "ms = []")
    case True
    then show ?thesis unfolding printed n using key v by (simp add: sp m)
  next
    case False
    have "p_members n' (join '','' (map print_member ms) @ CHR ''}'' # r) = Some (ms, r)"
      using Cons.prems n False by (intro Cons.IH) (simp_all add: join_Cons)
    then show ?thesis unfolding printed n using False key v by (simp add: sp m)
  qed
qed simp

lemma hd_join: "js \<noteq> [] \<Longrightarrow> (\<And>x. x \<in> set js \<Longrightarrow> f x \<noteq> []) \<Longrightarrow> hd (join sep (map f js) @ r) = hd (f (hd js))"
  by (cases js; cases "tl js") (auto simp: join_Cons)

lemma all_parse_back: "parses_back j"
proof (induction j)
  case JNull
  show ?case unfolding parses_back_def
  proof (intro allI impI)
    fix n r assume "length (stringify JNull) \<le> n"
    then obtain m where "n = Suc m" by (cases n) auto
    moreover have "quote_char \<noteq> CHR ''n''" by code_simp
    ultimately show "p_value n (stringify JNull @ r) = Some (JNull, r)"
      using not_space_chars by (simp add: skip_space_id p_literal_def starts_with_def)
  qed
next
  case (JBool b)
  show ?case unfolding parses_back_def
  proof (intro allI impI)
    fix n r assume "length (stringify (JBool b)) \<le> n"
    then obtain m where "n = Suc m" by (cases n) (auto split: if_splits)
    moreover have "quote_char \<noteq> CHR ''t''" "quote_char \<noteq> CHR ''f''" by code_simp+
    ultimately show "p_value n (stringify (JBool b) @ r) = Some (JBool b, r)"
      using not_space_chars by (simp add: skip_space_id p_literal_def starts_with_def)
  qed
next
  case (JNum i)
  show ?case unfolding parses_back_def
  proof (intro allI impI)
    fix n r assume "length (stringify (JNum i)) \<le> n" and r: "after_value r"
    then obtain m where "n = Suc m" using stringify_hd [of "JNum i"] by (cases n) auto
    then show "p_value n (stringify (JNum i) @ r) = Some (JNum i, r)" using p_value_num [OF r] by simp
  qed
next
  case (JStr s)
  show ?case unfolding parses_back_def
  proof (intro allI impI)
    fix n r assume "length (stringify (JStr s)) \<le> n"
    then obtain m where "n = Suc m" by (cases n) (auto simp: json_string_def)
    then show "p_value n (stringify (JStr s) @ r) = Some (JStr s, r)" using p_value_string by simp
  qed
next
  case (JArr js)
  show ?case unfolding parses_back_def
  proof (intro allI impI)
    fix n r assume len: "length (stringify (JArr js)) \<le> n"
    then obtain m where n: "n = Suc m" by (cases n) auto
    have q: "quote_char \<noteq> CHR ''[''" by code_simp
    show "p_value n (stringify (JArr js) @ r) = Some (JArr js, r)"
    proof (cases "js = []")
      case True
      then show ?thesis using n q not_space_chars by (simp add: skip_space_id starts_with_def)
    next
      case False
      let ?body = "join '','' (map stringify js) @ CHR '']'' # r"
      have "p_elems m ?body = Some (js, r)" using False JArr len n by (intro p_elems_back) simp_all
      moreover have "hd ?body = hd (stringify (hd js))" using False stringify_hd by (intro hd_join) auto
      then have "\<not> json_space (hd ?body)" "hd ?body \<noteq> CHR '']''" using stringify_hd by simp_all
      then have "skip_space ?body = ?body" "\<not> starts_with ?body '']''"
        by (simp add: skip_space_id, cases ?body) (auto simp: starts_with_def)
      ultimately show ?thesis using n q not_space_chars by (simp add: skip_space_id)
    qed
  qed
next
  case (JObj ms)
  have IH: "\<forall>m \<in> set ms. parses_back (snd m)" using JObj by (metis prod_set_simps(2) singletonI surjective_pairing)
  have pm: "(\<lambda>(k, v). json_string k @ CHR '':'' # stringify v) = print_member"
    by (auto simp: print_member_def)
  show ?case unfolding parses_back_def
  proof (intro allI impI)
    fix n r assume len: "length (stringify (JObj ms)) \<le> n"
    then obtain m where n: "n = Suc m" by (cases n) auto
    have q: "quote_char \<noteq> CHR ''{''" "quote_char \<noteq> CHR ''}''" by code_simp+
    have printed: "stringify (JObj ms) @ r = CHR ''{'' # join '','' (map print_member ms) @ CHR ''}'' # r"
      by (simp add: pm)
    show "p_value n (stringify (JObj ms) @ r) = Some (JObj ms, r)"
    proof (cases "ms = []")
      case True
      then show ?thesis using n q not_space_chars by (simp add: skip_space_id starts_with_def)
    next
      case False
      let ?body = "join '','' (map print_member ms) @ CHR ''}'' # r"
      have "p_members m ?body = Some (ms, r)" using False IH len n by (intro p_members_back) (simp_all add: pm)
      moreover have "hd ?body = hd (print_member (hd ms))"
        using False by (intro hd_join) (auto simp: print_member_def)
      then have "hd ?body = quote_char" by (simp add: print_member_def json_string_def)
      then have "skip_space ?body = ?body" "\<not> starts_with ?body ''}''"
        using not_space_chars q by (simp_all add: skip_space_id, cases ?body) (auto simp: starts_with_def)
      ultimately show ?thesis unfolding printed using n q not_space_chars by (simp add: skip_space_id)
    qed
  qed
qed

text \<open>
  JSON: parsing a printed value gives the value back, for every nesting of arrays and
  objects, every string and every integer; the parser's fuel, the length of the input,
  never runs out on it.
\<close>

theorem json_roundtrip: "json_parse (stringify j) = Some j"
proof -
  have "p_value (Suc (length (stringify j))) (stringify j @ []) = Some (j, [])"
    by (rule all_parse_back [unfolded parses_back_def, rule_format]) (simp_all add: after_value_chars)
  then show ?thesis by (simp add: json_parse_def skip_space_def)
qed

end
