(* ===== verification/Samples.thy ===== *)
theory Samples
  imports Secrets
begin

text \<open>
  A concrete instance of the parameters, for the witnesses: a crypto record for which
  the laws the development assumes of Node's \<open>crypto\<close> hold (sealing is hexadecimal, the
  hashes are the identity), an account and a configuration.
\<close>

definition hex_pair :: "char \<Rightarrow> string" where
  "hex_pair c = [hex_upper (code_unit c div 16), hex_upper (code_unit c)]"

definition hex_value :: "char \<Rightarrow> nat" where
  "hex_value c = (if is_digit c then digit_value c else code_unit c - 55)"

fun unhex :: "string \<Rightarrow> string" where
  "unhex (a # b # s) = char_of (16 * hex_value a + hex_value b) # unhex s"
| "unhex s = []"

definition sample_crypto :: crypto where
  "sample_crypto = \<lparr>cr_sha256_b64url = (\<lambda>s. s), cr_sha256_hex = (\<lambda>s. s),
     cr_hmac_sha1 = (\<lambda>k m. [0, 0, 0, last (0 # m)] @ replicate 16 0), cr_scrypt_hash = (\<lambda>p s. CHR ''A'' # concat (map hex_pair p)),
     cr_scrypt_matches = (\<lambda>p ps. last ([] # ps) = CHR ''A'' # concat (map hex_pair p)),
     cr_gcm_seal = (\<lambda>s i p. (''A'', concat (map hex_pair p))),
     cr_gcm_open = (\<lambda>s i t c. Some (unhex c)), cr_gcm_open_v1 = (\<lambda>i t c. Some (unhex c))\<rparr>"

definition sample_user :: user_row where
  "sample_user = \<lparr>usr_id = ''u1'', usr_username = ''ann'', usr_display_name = ''Ann'', usr_email = None,
     usr_role = ''user'', usr_source = ''local'', usr_password_hash = Some ''scrypt$16384$8$1$A$A636F7272656374'',
     usr_avatar_color = ''#ef4444'', usr_avatar_path = None, usr_created_at = 0, usr_last_login_at = None,
     usr_disabled = False, usr_password_pwned = False, usr_must_change_password = False,
     usr_apps_restricted = False\<rparr>"

definition sample_admin :: user_row where
  "sample_admin = sample_user\<lparr>usr_id := ''a1'', usr_username := ''root'', usr_role := ''admin''\<rparr>"

definition sample_config :: config where
  "sample_config = \<lparr>cfg_session_ttl_ms = 86400000, cfg_files_root = ''/srv/files'',
     cfg_volumes_root = ''/srv/volumes'', cfg_trash_dir = ''/srv/trash'', cfg_rp_name = ''OpenNAS'',
     cfg_auto_create_users = True\<rparr>"

lemma hex_upper_value: "n < 16 \<Longrightarrow> hex_value (hex_upper n) = n \<and> (is_alnum (hex_upper n))"
proof -
  have "list_all (\<lambda>n. hex_value (hex_upper n) = n \<and> is_alnum (hex_upper n)) [0..<16]" by code_simp
  then show "n < 16 \<Longrightarrow> hex_value (hex_upper n) = n \<and> is_alnum (hex_upper n)" by (simp add: list_all_iff)
qed

lemma hex_upper_mod: "hex_upper n = hex_upper (n mod 16)"
  by (simp add: hex_upper_def)

lemma unhex_hex [simp]: "unhex (concat (map hex_pair p)) = p"
proof (induction p)
  case (Cons c p)
  have "code_unit c div 16 < 16" using code_unit_less [of c] by (simp add: less_mult_imp_div_less)
  then have "hex_value (hex_upper (code_unit c div 16)) = code_unit c div 16"
    using hex_upper_value by blast
  moreover have "hex_value (hex_upper (code_unit c)) = code_unit c mod 16"
    using hex_upper_value [of "code_unit c mod 16"] hex_upper_mod [of "code_unit c"] by simp
  ultimately have "char_of (16 * hex_value (hex_upper (code_unit c div 16)) + hex_value (hex_upper (code_unit c))) = c"
    by simp
  with Cons.IH show ?case by (simp add: hex_pair_def)
qed simp

lemma hex_upper_alnum: "is_alnum (hex_upper n)"
  using hex_upper_value [of "n mod 16"] hex_upper_mod [of n] by simp

lemma sample_sound_gcm: "sound_gcm sample_crypto"
proof -
  have "base64_text (concat (map hex_pair p))" if "p \<noteq> ''''" for p
    using that hex_upper_alnum by (cases p) (auto simp: base64_text_def list_all_iff hex_pair_def)
  moreover have "base64_text ''A''" by code_simp
  ultimately show ?thesis by (simp add: sound_gcm_def sample_crypto_def)
qed

lemma sample_sound_scrypt: "sound_scrypt sample_crypto"
  using hex_upper_alnum
  by (auto simp: sound_scrypt_def sample_crypto_def base64_text_def list_all_iff hex_pair_def)
    (simp_all add: is_alnum_def code_unit_def)

end
