(* ===== verification/AuthGate.thy ===== *)
theory AuthGate
  imports Sessions Totp Tokens Attempts Json Samples
begin

text \<open>
  Who a request is: the pending-action gate (\<open>auth/pending.ts\<close>), automatic sign-in
  (\<open>auth/autologin.ts\<close>) and the \<open>onRequest\<close> hook with the two route guards
  (\<open>auth/plugin.ts\<close>).  The signature of the cookie is checked by Fastify; the hook here
  starts from the unsigned value.
\<close>

subsection \<open>\<open>auth/pending.ts\<close>\<close>

definition requirePasskeyEnabled :: "crypto \<Rightarrow> db \<Rightarrow> bool" where
  "requirePasskeyEnabled cr d \<longleftrightarrow> getSettingOr cr d ''require_passkey'' ''false'' = ''true''"

definition pendingActions :: "crypto \<Rightarrow> db \<Rightarrow> user \<Rightarrow> pending_action list" where
  "pendingActions cr d u =
     (if mustChangePassword d (u_id u) then [PendPassword] else []) @
     (if requirePasskeyEnabled cr d \<and> countCredentialsByUser d (u_id u) = 0 then [PendPasskey] else [])"

text \<open>The six regular expressions of \<open>ALLOWED\<close>.\<close>

definition allowed_while_pending :: "string \<Rightarrow> bool" where
  "allowed_while_pending p \<longleftrightarrow>
     p = ''/auth/me'' \<or> p = ''/auth/bootstrap'' \<or> p = ''/auth/logout'' \<or> p = ''/auth/me/password'' \<or>
     starts_with p ''/auth/avatars/'' \<or> p = ''/auth/passkeys'' \<or> starts_with p ''/auth/passkeys/''"

definition gate_path :: "string \<Rightarrow> string" where
  "gate_path url = before (CHR ''?'') (if starts_with url ''/api'' then drop 4 url else url)"

text \<open>\<open>None\<close> when the request may go on, otherwise the refusal.\<close>

definition pendingGate :: "crypto \<Rightarrow> db \<Rightarrow> user option \<Rightarrow> string \<Rightarrow> (nat \<times> string \<times> pending_action list) option" where
  "pendingGate cr d auth url =
     (case auth of
        None \<Rightarrow> None
      | Some u \<Rightarrow>
          if allowed_while_pending (gate_path url) then None
          else if pendingActions cr d u = [] then None
          else Some (403, ''setup_required'', pendingActions cr d u))"

subsection \<open>\<open>auth/autologin.ts\<close>\<close>

record autologin_config =
  al_enabled :: bool
  al_user_id :: "string option"
  al_networks :: "string list"

definition autologin_default :: autologin_config where
  "autologin_default = \<lparr>al_enabled = False, al_user_id = None, al_networks = []\<rparr>"

text \<open>Reading the members of an arbitrary parsed value, as the code does; \<open>null\<close> makes it throw.\<close>

definition autologin_of_json :: "json \<Rightarrow> autologin_config" where
  "autologin_of_json j =
     (if j = JNull then autologin_default
      else \<lparr>al_enabled = (jget j ''enabled'' = Some (JBool True)),
            al_user_id = (case jget j ''userId'' of Some (JStr s) \<Rightarrow> if s = '''' then None else Some s | _ \<Rightarrow> None),
            al_networks = (case jget j ''networks'' of
                Some (JArr js) \<Rightarrow> List.map_filter (\<lambda>x. case x of JStr s \<Rightarrow> Some s | _ \<Rightarrow> None) js
              | _ \<Rightarrow> [])\<rparr>)"

definition autologinConfig :: "crypto \<Rightarrow> db \<Rightarrow> autologin_config" where
  "autologinConfig cr d =
     (case getSetting cr d ''autologin'' of
        None \<Rightarrow> autologin_default
      | Some raw \<Rightarrow>
          if raw = '''' then autologin_default
          else (case json_parse raw of None \<Rightarrow> autologin_default | Some j \<Rightarrow> autologin_of_json j))"

definition autologin_json :: "autologin_config \<Rightarrow> json" where
  "autologin_json c = JObj [(''enabled'', JBool (al_enabled c)),
     (''userId'', case al_user_id c of None \<Rightarrow> JNull | Some u \<Rightarrow> JStr u),
     (''networks'', JArr (map JStr (al_networks c)))]"

definition setAutologinConfig :: "crypto \<Rightarrow> autologin_config \<Rightarrow> db \<Rightarrow> db" where
  "setAutologinConfig cr c d = setSetting cr '''' '''' ''autologin'' (stringify (autologin_json c)) d"

definition addressMatches :: "string \<Rightarrow> string list \<Rightarrow> bool" where
  "addressMatches address networks = list_ex (\<lambda>cidr. addressInCidr address cidr) networks"

definition autologinUserFor :: "crypto \<Rightarrow> db \<Rightarrow> string \<Rightarrow> user option" where
  "autologinUserFor cr d ip =
     (let c = autologinConfig cr d in
      case al_user_id c of
        None \<Rightarrow> None
      | Some uid \<Rightarrow>
          if \<not> al_enabled c \<or> al_networks c = [] then None
          else if \<not> addressMatches ip (al_networks c) then None
          else
            (case getUserById d uid of
               None \<Rightarrow> None
             | Some u \<Rightarrow>
                 if u_role u = Admin then None
                 else if isUserDisabled d (u_id u) then None
                 else if mustChangePassword d (u_id u) then None
                 else Some u))"

subsection \<open>\<open>auth/plugin.ts\<close>\<close>

record auth_context =
  ax_user :: user
  ax_session :: session_record

definition onRequest :: "crypto \<Rightarrow> millis \<Rightarrow> string \<Rightarrow> string option \<Rightarrow> db \<Rightarrow> auth_context option \<times> db" where
  "onRequest cr now ip cookie d =
     (case cookie of
        None \<Rightarrow> (None, d)
      | Some token \<Rightarrow>
          if token = '''' then (None, d)
          else
            (case getValidSession cr now token d of
               (None, d1) \<Rightarrow> (None, d1)
             | (Some s, d1) \<Rightarrow>
                 (case getUserById d1 (sr_user_id s) of
                    None \<Rightarrow> (None, deleteSession (sr_id s) d1)
                  | Some u \<Rightarrow>
                      if Autologin \<in> set (sr_auth_methods s) \<and>
                         (\<not> al_enabled (autologinConfig cr d1) \<or>
                          \<not> addressMatches ip (al_networks (autologinConfig cr d1)))
                      then (None, deleteSession (sr_id s) d1)
                      else (Some \<lparr>ax_user = u, ax_session = s\<rparr>, d1))))"

definition requireAuth :: "auth_context option \<Rightarrow> (nat \<times> string) option" where
  "requireAuth auth = (if auth = None then Some (401, ''unauthorized'') else None)"

definition requireAdmin :: "auth_context option \<Rightarrow> (nat \<times> string) option" where
  "requireAdmin auth =
     (case auth of
        None \<Rightarrow> Some (401, ''unauthorized'')
      | Some a \<Rightarrow> if u_role (ax_user a) \<noteq> Admin then Some (403, ''forbidden'') else None)"

subsection \<open>Lemmas\<close>

lemma map_filter_JStr [simp]:
  "List.map_filter (\<lambda>x. case x of JStr s \<Rightarrow> Some s | _ \<Rightarrow> None) (map JStr ns) = ns"
  by (induction ns) (simp_all add: List.map_filter_simps)

lemma autologin_json_back:
  assumes "al_user_id c \<noteq> Some ''''"
  shows "autologin_of_json (autologin_json c) = c"
  using assms
  by (cases c) (auto simp: autologin_of_json_def autologin_json_def jget_def split: option.split)

lemma autologin_not_secret: "''autologin'' \<notin> set SECRET_SETTINGS"
  by (simp add: SECRET_SETTINGS_def)

lemma autologinConfig_set:
  assumes "al_user_id c \<noteq> Some ''''"
  shows "autologinConfig cr (setAutologinConfig cr c d) = c"
proof -
  have "getSetting cr (setAutologinConfig cr c d) ''autologin'' = Some (stringify (autologin_json c))"
    by (simp add: setAutologinConfig_def getSetting_def settingRow_setSetting autologin_not_secret)
  moreover have "stringify (autologin_json c) \<noteq> ''''" using stringify_hd by blast
  ultimately show ?thesis
    by (simp add: autologinConfig_def json_roundtrip autologin_json_back [OF assms])
qed

lemma onRequest_Some:
  assumes "onRequest cr now ip cookie d = (Some a, d')"
  obtains token row where "cookie = Some token" and "row \<in> set (db_sessions d)"
    and "ses_id row = hashToken cr token" and "now < ses_expires_at row"
    and "ax_session a = toSessionRecord row" and "getUserById d (ses_user_id row) = Some (ax_user a)"
    and "Autologin \<in> set (ses_auth_methods row) \<Longrightarrow>
      al_enabled (autologinConfig cr d) \<and> addressMatches ip (al_networks (autologinConfig cr d))"
    and "d' = d"
proof -
  obtain token where t: "cookie = Some token" "token \<noteq> ''''"
    using assms by (auto simp: onRequest_def split: option.splits if_splits)
  obtain v d1 where g: "getValidSession cr now token d = (v, d1)" by (cases "getValidSession cr now token d")
  obtain s where s: "v = Some s" using assms t g by (cases v) (simp_all add: onRequest_def)
  then have v: "getValidSession cr now token d = (Some s, d)"
    using g getValidSession_Some [of cr now token d s d1] by simp
  from getValidSession_Some [OF v] obtain row where
    row: "row \<in> set (db_sessions d)" "ses_id row = hashToken cr token" "now < ses_expires_at row"
      "s = toSessionRecord row" by blast
  have u: "sr_user_id s = ses_user_id row" "sr_auth_methods s = ses_auth_methods row"
    using row(4) by (simp_all add: toSessionRecord_def)
  let ?bad = "Autologin \<in> set (ses_auth_methods row) \<and>
    (\<not> al_enabled (autologinConfig cr d) \<or> \<not> addressMatches ip (al_networks (autologinConfig cr d)))"
  have run: "(case getUserById d (ses_user_id row) of
       None \<Rightarrow> (None, deleteSession (sr_id s) d)
     | Some x \<Rightarrow> if ?bad then (None, deleteSession (sr_id s) d)
                else (Some \<lparr>ax_user = x, ax_session = s\<rparr>, d)) = (Some a, d')"
    using assms t v by (simp add: onRequest_def u cong: option.case_cong)
  obtain x where x: "getUserById d (ses_user_id row) = Some x"
    using run by (cases "getUserById d (ses_user_id row)") (simp_all del: getUserById_None_iff)
  have "\<not> ?bad" "a = \<lparr>ax_user = x, ax_session = s\<rparr>" "d' = d"
    using run unfolding x by (simp_all split: if_splits)
  then show thesis using x row by (intro that [OF t(1) row(1-3)]) auto
qed

end
