(* ===== verification/AuthRoutes.thy ===== *)
theory AuthRoutes
  imports AuthGate
begin

text \<open>
  The handlers of \<open>auth/routes.ts\<close>.  A handler takes the request's data (already past
  the Zod schema where the schema only fixes types), the time, the fresh random values
  it draws and the database, and returns the reply with the new database.  A violated
  constraint makes better-sqlite3 throw: the reply is then status 500 and the earlier
  writes stay.  Log and audit calls are not modelled.
\<close>

record request =
  rq_ip :: string
  rq_user_agent :: "string option"

record session_info =
  si_user :: user
  si_auth_methods :: "auth_method list"
  si_expires_at :: millis
  si_pending :: "pending_action list"

text \<open>A started session: the payload, and the token the cookie gets.\<close>

record signed_in =
  sg_info :: session_info
  sg_cookie :: string

definition sessionInfo :: "crypto \<Rightarrow> db \<Rightarrow> user \<Rightarrow> auth_method list \<Rightarrow> millis \<Rightarrow> session_info" where
  "sessionInfo cr d u methods expiresAt =
     \<lparr>si_user = u, si_auth_methods = methods, si_expires_at = expiresAt, si_pending = pendingActions cr d u\<rparr>"

definition startSession ::
  "crypto \<Rightarrow> config \<Rightarrow> millis \<Rightarrow> string \<Rightarrow> request \<Rightarrow> user \<Rightarrow> auth_method list \<Rightarrow> db \<Rightarrow> signed_in reply \<times> db" where
  "startSession cr cfg now token rq u methods d =
     (case createSession cr cfg now token (u_id u) methods
             \<lparr>sm_user_agent = rq_user_agent rq, sm_ip = Some (rq_ip rq)\<rparr> d of
        Inl e \<Rightarrow> (Refused 500 ''internal'', d)
      | Inr (s, d1) \<Rightarrow>
          (let d2 = markLogin (u_id u) now d1
           in (Sent \<lparr>sg_info = sessionInfo cr d2 u methods (sr_expires_at s), sg_cookie = token\<rparr>, d2)))"

subsection \<open>First-run setup\<close>

definition username_char :: "char \<Rightarrow> bool" where
  "username_char c \<longleftrightarrow> is_alnum c \<or> c \<in> set ''_.-''"

definition trimmed_between :: "nat \<Rightarrow> nat \<Rightarrow> string \<Rightarrow> bool" where
  "trimmed_between lo hi s \<longleftrightarrow> lo \<le> length (js_trim s) \<and> length (js_trim s) \<le> hi"

record setup_body =
  sb_instance_name :: string
  sb_username :: string
  sb_display_name :: string
  sb_password :: string

definition setupSchema :: "setup_body \<Rightarrow> setup_body option" where
  "setupSchema b =
     (if trimmed_between 1 64 (sb_instance_name b) \<and> trimmed_between 2 32 (sb_username b) \<and>
         list_all username_char (js_trim (sb_username b)) \<and> trimmed_between 1 64 (sb_display_name b) \<and>
         8 \<le> length (sb_password b) \<and> length (sb_password b) \<le> 256
      then Some \<lparr>sb_instance_name = js_trim (sb_instance_name b), sb_username = js_trim (sb_username b),
                 sb_display_name = js_trim (sb_display_name b), sb_password = sb_password b\<rparr>
      else None)"

text \<open>
  The handler suspends twice (\<open>screenPassword\<close>, \<open>hashPassword\<close>) between its check that no
  account exists and its insertion, so it is two steps: other requests run in between.
\<close>

definition setupCheck :: "setup_body \<Rightarrow> db \<Rightarrow> setup_body reply" where
  "setupCheck b d =
     (if countUsers d > 0 then Refused 409 ''already_setup''
      else case setupSchema b of
          None \<Rightarrow> Refused 400 ''invalid''
        | Some p \<Rightarrow> if validatePasswordStrength (sb_password p) \<noteq> None then Refused 400 ''weak_password''
                    else Sent p)"

definition setupFinish ::
  "crypto \<Rightarrow> config \<Rightarrow> millis \<Rightarrow> string \<Rightarrow> string \<Rightarrow> string \<Rightarrow> bool \<Rightarrow> request \<Rightarrow> setup_body \<Rightarrow> db \<Rightarrow>
     signed_in reply \<times> db" where
  "setupFinish cr cfg now newId salt token pwned rq p d =
     (case createUser newId now \<lparr>cui_username = sb_username p, cui_display_name = sb_display_name p,
            cui_email = None, cui_role = Admin, cui_source = None,
            cui_password_hash = Some (hashPassword cr salt (sb_password p))\<rparr> d of
        Inl e \<Rightarrow> (Refused 500 ''internal'', d)
      | Inr (u, d1) \<Rightarrow>
          (let d2 = setPasswordPwned (u_id u) pwned d1;
               d3 = setSetting cr '''' '''' ''instance_name'' (sb_instance_name p) d2
           in startSession cr cfg now token rq u [Password] d3))"

definition postSetup ::
  "crypto \<Rightarrow> config \<Rightarrow> millis \<Rightarrow> string \<Rightarrow> string \<Rightarrow> string \<Rightarrow> bool \<Rightarrow> request \<Rightarrow> setup_body \<Rightarrow> db \<Rightarrow>
     signed_in reply \<times> db" where
  "postSetup cr cfg now newId salt token pwned rq b d =
     (case setupCheck b d of
        Refused s e \<Rightarrow> (Refused s e, d)
      | Sent p \<Rightarrow> setupFinish cr cfg now newId salt token pwned rq p d)"

subsection \<open>Sessions\<close>

datatype me_reply = NoSession | Current session_info | Automatic signed_in

definition getMe ::
  "crypto \<Rightarrow> config \<Rightarrow> millis \<Rightarrow> string \<Rightarrow> request \<Rightarrow> auth_context option \<Rightarrow> db \<Rightarrow> me_reply reply \<times> db" where
  "getMe cr cfg now token rq auth d =
     (case auth of
        None \<Rightarrow>
          (case autologinUserFor cr d (rq_ip rq) of
             None \<Rightarrow> (Sent NoSession, d)
           | Some u \<Rightarrow>
               (case startSession cr cfg now token rq u [Autologin] d of
                  (Sent s, d1) \<Rightarrow> (Sent (Automatic s), d1)
                | (Refused st e, d1) \<Rightarrow> (Refused st e, d1)))
      | Some a \<Rightarrow> (Sent (Current (sessionInfo cr d (ax_user a) (sr_auth_methods (ax_session a))
                          (sr_expires_at (ax_session a)))), d))"

definition logout :: "auth_context option \<Rightarrow> db \<Rightarrow> db" where
  "logout auth d = (case auth of None \<Rightarrow> d | Some a \<Rightarrow> deleteSession (sr_id (ax_session a)) d)"

definition describeDevice :: "string option \<Rightarrow> string" where
  "describeDevice ua =
     (if ua = None \<or> ua = Some '''' then ''Unknown device''
      else
        (let s = the ua;
             browser = (if contains s ''Edg/'' then Some ''Edge''
               else if contains s ''OPR/'' \<or> contains s ''Opera'' then Some ''Opera''
               else if contains s ''Firefox/'' then Some ''Firefox''
               else if contains s ''Chrome/'' then Some ''Chrome''
               else if contains s ''Safari/'' then Some ''Safari'' else None);
             os = (if contains s ''Android'' then Some ''Android''
               else if contains s ''iPhone'' \<or> contains s ''iPad'' \<or> contains s ''iPod'' then Some ''iOS''
               else if contains s ''Windows'' then Some ''Windows''
               else if contains s ''Mac OS X'' \<or> contains s ''Macintosh'' then Some ''macOS''
               else if contains s ''Linux'' then Some ''Linux'' else None)
         in (case (browser, os) of
               (Some b, Some o') \<Rightarrow> b @ '' on '' @ o'
             | (Some b, None) \<Rightarrow> b
             | (None, Some o') \<Rightarrow> o'
             | (None, None) \<Rightarrow> ''Unknown device'')))"

record session_summary =
  ss_id :: string
  ss_device :: string
  ss_ip :: "string option"
  ss_auth_methods :: "auth_method list"
  ss_current :: bool

definition getSessions :: "millis \<Rightarrow> auth_context \<Rightarrow> db \<Rightarrow> session_summary list" where
  "getSessions now a d = map (\<lambda>s. \<lparr>ss_id = sr_id s, ss_device = describeDevice (sd_user_agent s),
       ss_ip = sd_ip s, ss_auth_methods = sr_auth_methods s, ss_current = (sr_id s = sr_id (ax_session a))\<rparr>)
     (listForUser (u_id (ax_user a)) now d)"

definition revokeOthers :: "auth_context \<Rightarrow> db \<Rightarrow> nat \<times> db" where
  "revokeOthers a d = deleteOtherSessionsForUser (u_id (ax_user a)) (sr_id (ax_session a)) d"

text \<open>The flag says whether it was the current session, in which case the cookie is cleared.\<close>

definition revokeSession :: "auth_context \<Rightarrow> string \<Rightarrow> db \<Rightarrow> bool reply \<times> db" where
  "revokeSession a i d =
     (let isCurrent = (i = sr_id (ax_session a));
          (removed, d1) = deleteOwnedSession (u_id (ax_user a)) i d
      in if \<not> removed then (Refused 404 ''not_found'', d1) else (Sent isCurrent, d1))"

subsection \<open>Signing in with a password\<close>

definition DUMMY_HASH :: string where
  "DUMMY_HASH = ''scrypt$16384$8$1$AAAAAAAAAAAAAAAAAAAAAA==$AAAA''"

definition fail_reason :: "string \<Rightarrow> string" where
  "fail_reason username = ''repeated failed sign-ins (last tried '' @ quoted username @ '')''"

datatype login_reply = LoggedIn signed_in | MfaRequired string bool

definition loginPassword ::
  "crypto \<Rightarrow> config \<Rightarrow> (string \<Rightarrow> int \<Rightarrow> 'k \<Rightarrow> bool \<times> 'k) \<Rightarrow> string list \<Rightarrow> millis \<Rightarrow> string \<Rightarrow> string \<Rightarrow>
     request \<Rightarrow> string \<Rightarrow> string \<Rightarrow> db \<times> 'k \<Rightarrow> login_reply reply \<times> db \<times> 'k" where
  "loginPassword cr cfg banAddress trusted now token ticket rq usernameRaw password dk =
     (let (d, k) = dk;
          username = js_trim usernameRaw
      in if username = '''' \<or> password = '''' then (Refused 400 ''invalid'', d, k)
         else if lockoutRemainingSeconds username now d > 0 then (Refused 429 ''locked_out'', d, k)
         else
           (let row = getUserRowByUsername d username;
                stored = (case Option.bind row usr_password_hash of None \<Rightarrow> DUMMY_HASH | Some h \<Rightarrow> h);
                ok = verifyPassword cr password stored
            in case row of
                 None \<Rightarrow>
                   (Refused 401 ''bad_credentials'',
                    noteFailedAttempt banAddress trusted (rq_ip rq)
                      (fail_reason username) now
                      (snd (recordFailure username now d), k))
               | Some r \<Rightarrow>
                   if \<not> ok then
                     (Refused 401 ''bad_credentials'',
                      noteFailedAttempt banAddress trusted (rq_ip rq)
                        (fail_reason username) now
                        (snd (recordFailure username now d), k))
                   else if usr_disabled r then (Refused 403 ''disabled'', d, k)
                   else
                     (let d1 = clearIpFailures (rq_ip rq) (recordSuccess username d);
                          u = the (getUserById d1 (usr_id r))
                      in if totpEnabled cr d1 (u_id u) then
                           (case createMfaTicket cr ticket (u_id u) now d1 of
                              Inl e \<Rightarrow> (Refused 500 ''internal'', d1, k)
                            | Inr d2 \<Rightarrow> (Sent (MfaRequired ticket (countUnusedRecoveryCodes (u_id u) d2 > 0)), d2, k))
                         else
                           (case startSession cr cfg now token rq u [Password] d1 of
                              (Sent s, d2) \<Rightarrow> (Sent (LoggedIn s), d2, k)
                            | (Refused st e, d2) \<Rightarrow> (Refused st e, d2, k)))))"

subsection \<open>The second factor\<close>

definition loginTotp ::
  "crypto \<Rightarrow> config \<Rightarrow> millis \<Rightarrow> string \<Rightarrow> request \<Rightarrow> string \<Rightarrow> string \<Rightarrow> db \<Rightarrow> signed_in reply \<times> db" where
  "loginTotp cr cfg now token rq ticket code d =
     (if ticket = '''' \<or> code = '''' \<or> length code > 32 then (Refused 400 ''invalid'', d)
      else
        (case peekMfaTicket cr ticket now d of
           (None, d1) \<Rightarrow> (Refused 401 ''ticket'', d1)
         | (Some userId, d1) \<Rightarrow>
             (case (getUserById d1 userId, getTotp cr d1 userId) of
                (Some u, Some record') \<Rightarrow>
                  if tr_confirmed_at record' = None
                  then (Refused 401 ''no_totp'', consumeMfaTicket cr ticket d1)
                  else if isUserDisabled d1 userId
                  then (Refused 403 ''disabled'', consumeMfaTicket cr ticket d1)
                  else
                    (case verifyTotp cr (tr_secret record') code now of
                       Some step \<Rightarrow>
                         if tr_last_used_step record' \<noteq> None \<and> step \<le> the (tr_last_used_step record')
                         then (Refused 401 ''replayed'',
                               snd (recordFailure (u_username u) now (failMfaTicket cr ticket d1)))
                         else
                           startSession cr cfg now token rq u [Password, Totp]
                             (recordSuccess (u_username u)
                               (consumeMfaTicket cr ticket (noteTotpStep userId step d1)))
                     | None \<Rightarrow>
                         (let (spent, d2) = consumeRecoveryCode cr userId code now d1 in
                          if spent then
                            startSession cr cfg now token rq u [Password, RecoveryCode]
                              (recordSuccess (u_username u) (consumeMfaTicket cr ticket d2))
                          else (Refused 401 ''bad_code'',
                                snd (recordFailure (u_username u) now (failMfaTicket cr ticket d2)))))
              | _ \<Rightarrow> (Refused 401 ''no_totp'', consumeMfaTicket cr ticket d1))))"

subsection \<open>Profile pictures\<close>

definition AVATAR_TYPES :: "(string \<times> string) list" where
  "AVATAR_TYPES = [(''image/png'', ''png''), (''image/jpeg'', ''jpg''), (''image/webp'', ''webp''), (''image/gif'', ''gif'')]"

text \<open>
  \<open>upload\<close> is the MIME type with what became of the stream: \<open>None\<close> when writing failed,
  otherwise whether it was truncated.  The third result lists the files unlinked.
\<close>

definition postAvatar ::
  "string \<Rightarrow> auth_context \<Rightarrow> (string \<times> bool option) option \<Rightarrow> db \<Rightarrow> user option reply \<times> db \<times> string list" where
  "postAvatar fresh a upload d =
     (case upload of
        None \<Rightarrow> (Refused 400 ''no_file'', d, [])
      | Some (mime, written) \<Rightarrow>
          (case map_of AVATAR_TYPES mime of
             None \<Rightarrow> (Refused 400 ''bad_type'', d, [])
           | Some ext \<Rightarrow>
               (let userId = u_id (ax_user a);
                    filename = userId @ ''-'' @ fresh @ ''.'' @ ext
                in case written of
                     None \<Rightarrow> (Refused 500 ''write_failed'', d, [])
                   | Some True \<Rightarrow> (Refused 413 ''too_large'', d, [filename])
                   | Some False \<Rightarrow>
                       (let d1 = setAvatarFilename userId (Some filename) d
                        in (Sent (getUserById d1 userId), d1,
                            case getAvatarFilename d userId of
                              None \<Rightarrow> [] | Some p \<Rightarrow> if p = '''' then [] else [p])))))"

definition deleteAvatar :: "auth_context \<Rightarrow> db \<Rightarrow> user option \<times> db \<times> string list" where
  "deleteAvatar a d =
     (let userId = u_id (ax_user a);
          d1 = setAvatarFilename userId None d
      in (getUserById d1 userId, d1,
          case getAvatarFilename d userId of None \<Rightarrow> [] | Some p \<Rightarrow> if p = '''' then [] else [p]))"

subsection \<open>Passkeys\<close>

definition passkeyRegisterOptions ::
  "string \<Rightarrow> string \<Rightarrow> millis \<Rightarrow> auth_context \<Rightarrow> db \<Rightarrow> sql_error + (string \<times> db)" where
  "passkeyRegisterOptions i challenge now a d =
     putChallenge i challenge Registration (Some (u_id (ax_user a))) now d"

text \<open>
  \<open>verifyReg\<close> is the WebAuthn library: from the challenge it checks, the credential it
  found (its label and owner are filled in here), or \<open>None\<close> when it does not verify.
\<close>

definition passkeyRegisterVerify ::
  "(string \<Rightarrow> credential_input option) \<Rightarrow> millis \<Rightarrow> auth_context \<Rightarrow> string \<Rightarrow> string option \<Rightarrow> db \<Rightarrow>
     unit reply \<times> db" where
  "passkeyRegisterVerify verifyReg now a challengeId label d =
     (let (c, d1) = takeChallenge challengeId now d in
      case c of
        None \<Rightarrow> (Refused 400 ''challenge'', d1)
      | Some ch \<Rightarrow>
          if sc_kind ch \<noteq> Registration \<or> sc_user_id ch \<noteq> Some (u_id (ax_user a))
          then (Refused 400 ''challenge'', d1)
          else
            (case verifyReg (sc_challenge ch) of
               None \<Rightarrow> (Refused 400 ''verify'', d1)
             | Some cred \<Rightarrow>
                 (case saveCredential (cred\<lparr>cin_user_id := u_id (ax_user a),
                          cin_label := (case label of None \<Rightarrow> ''Passkey'' | Some l \<Rightarrow> l)\<rparr>) now d1 of
                    Inl e \<Rightarrow> (Refused 500 ''internal'', d1)
                  | Inr d2 \<Rightarrow> (Sent (), d2))))"

definition deletePasskey :: "auth_context \<Rightarrow> string \<Rightarrow> db \<Rightarrow> unit reply \<times> db" where
  "deletePasskey a i d =
     (let (ok, d1) = deleteCredential i (u_id (ax_user a)) d
      in if \<not> ok then (Refused 404 ''not_found'', d1) else (Sent (), d1))"

definition passkeyLoginOptions ::
  "string \<Rightarrow> string \<Rightarrow> millis \<Rightarrow> string option \<Rightarrow> db \<Rightarrow> sql_error + (string \<times> db)" where
  "passkeyLoginOptions i challenge now username d =
     (let u = (case username of None \<Rightarrow> None
               | Some n \<Rightarrow> if js_trim n = '''' then None else getUserByUsername d (js_trim n))
      in putChallenge i challenge Authentication (map_option u_id u) now d)"

text \<open>
  \<open>auth/passkeys.ts\<close>, \<open>verifyAuthentication\<close>: \<open>responseId\<close> names the credential and
  \<open>verifyAuth\<close> is the library, giving the new signature counter.
\<close>

definition verifyAuthentication ::
  "(credential_row \<Rightarrow> string \<Rightarrow> nat option) \<Rightarrow> millis \<Rightarrow> string \<Rightarrow> string \<Rightarrow> db \<Rightarrow> credential_row option \<times> db" where
  "verifyAuthentication verifyAuth now responseId challenge d =
     (case getCredentialById d responseId of
        None \<Rightarrow> (None, d)
      | Some cred \<Rightarrow>
          (case verifyAuth cred challenge of
             None \<Rightarrow> (None, d)
           | Some counter \<Rightarrow> (Some cred, updateCredentialCounter (crd_id cred) counter now d)))"

definition passkeyLoginVerify ::
  "crypto \<Rightarrow> config \<Rightarrow> (credential_row \<Rightarrow> string \<Rightarrow> nat option) \<Rightarrow> millis \<Rightarrow> string \<Rightarrow> request \<Rightarrow>
     string \<Rightarrow> string \<Rightarrow> db \<Rightarrow> signed_in reply \<times> db" where
  "passkeyLoginVerify cr cfg verifyAuth now token rq challengeId responseId d =
     (let (c, d1) = takeChallenge challengeId now d in
      case c of
        None \<Rightarrow> (Refused 400 ''challenge'', d1)
      | Some ch \<Rightarrow>
          if sc_kind ch \<noteq> Authentication then (Refused 400 ''challenge'', d1)
          else
            (let (found, d2) = verifyAuthentication verifyAuth now responseId (sc_challenge ch) d1 in
             case found of
               None \<Rightarrow> (Refused 401 ''verify'', d2)
             | Some cred \<Rightarrow>
                 (case getUserById d2 (crd_user_id cred) of
                    None \<Rightarrow> (Refused 401 ''no_user'', d2)
                  | Some u \<Rightarrow>
                      if isUserDisabled d2 (u_id u) then (Refused 403 ''disabled'', d2)
                      else startSession cr cfg now token rq u [Passkey] d2)))"

subsection \<open>Managing two-factor authentication\<close>

record totp_status =
  ts_enabled :: bool
  ts_confirmed_at :: "millis option"
  ts_recovery_left :: nat

definition getTotpStatus :: "crypto \<Rightarrow> auth_context \<Rightarrow> db \<Rightarrow> totp_status" where
  "getTotpStatus cr a d =
     (let r = getTotp cr d (u_id (ax_user a))
      in \<lparr>ts_enabled = (Option.bind r tr_confirmed_at \<noteq> None), ts_confirmed_at = Option.bind r tr_confirmed_at,
          ts_recovery_left = countUnusedRecoveryCodes (u_id (ax_user a)) d\<rparr>)"

text \<open>The reply is the secret and the URI of the QR code.\<close>

definition postTotpSetup ::
  "crypto \<Rightarrow> config \<Rightarrow> string \<Rightarrow> string \<Rightarrow> bytes \<Rightarrow> millis \<Rightarrow> auth_context \<Rightarrow> db \<Rightarrow> (string \<times> string) reply \<times> db" where
  "postTotpSetup cr cfg salt iv random20 now a d =
     (let u = ax_user a in
      if totpEnabled cr d (u_id u) then (Refused 409 ''already_enabled'', d)
      else
        (let secret = generateSecret random20 in
         case startTotpEnrolment cr salt iv now (u_id u) secret d of
           Inl e \<Rightarrow> (Refused 500 ''internal'', d)
         | Inr d1 \<Rightarrow>
             (Sent (secret, otpauthUri (getSettingOr cr d1 ''instance_name'' (cfg_rp_name cfg)) (u_username u) secret), d1)))"

definition postTotpEnable ::
  "crypto \<Rightarrow> bytes list \<Rightarrow> millis \<Rightarrow> auth_context \<Rightarrow> string \<Rightarrow> db \<Rightarrow> string list reply \<times> db" where
  "postTotpEnable cr random now a code d =
     (if code = '''' \<or> length code > 16 then (Refused 400 ''invalid'', d)
      else
        (case getTotp cr d (u_id (ax_user a)) of
           None \<Rightarrow> (Refused 400 ''no_setup'', d)
         | Some r \<Rightarrow>
             if tr_confirmed_at r \<noteq> None then (Refused 409 ''already_enabled'', d)
             else
               (case verifyTotp cr (tr_secret r) code now of
                  None \<Rightarrow> (Refused 400 ''bad_code'', d)
                | Some step \<Rightarrow>
                    (let codes = generateRecoveryCodes random;
                         d1 = confirmTotp (u_id (ax_user a)) step now d
                     in case replaceRecoveryCodes cr (u_id (ax_user a)) codes d1 of
                          Inl e \<Rightarrow> (Refused 500 ''internal'', d1)
                        | Inr d2 \<Rightarrow> (Sent codes, d2)))))"

definition confirmOwnPassword :: "crypto \<Rightarrow> db \<Rightarrow> string \<Rightarrow> string \<Rightarrow> bool" where
  "confirmOwnPassword cr d userId password =
     (case getPasswordHash d userId of
        None \<Rightarrow> False
      | Some h \<Rightarrow> if h = '''' then False else verifyPassword cr password h)"

definition postRecoveryCodes ::
  "crypto \<Rightarrow> bytes list \<Rightarrow> auth_context \<Rightarrow> string \<Rightarrow> db \<Rightarrow> string list reply \<times> db" where
  "postRecoveryCodes cr random a password d =
     (if \<not> totpEnabled cr d (u_id (ax_user a)) then (Refused 400 ''not_enabled'', d)
      else if password = '''' then (Refused 400 ''invalid'', d)
      else if \<not> confirmOwnPassword cr d (u_id (ax_user a)) password then (Refused 403 ''bad_password'', d)
      else
        (let codes = generateRecoveryCodes random in
         case replaceRecoveryCodes cr (u_id (ax_user a)) codes d of
           Inl e \<Rightarrow> (Refused 500 ''internal'', d)
         | Inr d1 \<Rightarrow> (Sent codes, d1)))"

definition postTotpDisable :: "crypto \<Rightarrow> auth_context \<Rightarrow> string \<Rightarrow> db \<Rightarrow> unit reply \<times> db" where
  "postTotpDisable cr a password d =
     (if password = '''' then (Refused 400 ''invalid'', d)
      else if \<not> confirmOwnPassword cr d (u_id (ax_user a)) password then (Refused 403 ''bad_password'', d)
      else (Sent (), clearMfaTickets (u_id (ax_user a)) (disableTotp (u_id (ax_user a)) d)))"

subsection \<open>Changing the password\<close>

text \<open>\<open>screen\<close> is the breach check (\<open>auth/hibp.ts\<close>): whether the password is known, and whether that blocks it.\<close>

definition changePassword ::
  "crypto \<Rightarrow> (string \<Rightarrow> bool \<times> bool) \<Rightarrow> string \<Rightarrow> auth_context \<Rightarrow> string option \<Rightarrow> string \<Rightarrow> db \<Rightarrow>
     (nat \<times> session_info) reply \<times> db" where
  "changePassword cr screen salt a current newPassword d =
     (if length newPassword < 8 \<or> length newPassword > 256 \<or> current = Some ''''
      then (Refused 400 ''weak_password'', d)
      else
        (let u = ax_user a;
             existing = getPasswordHash d (u_id u);
             has = (existing \<noteq> None \<and> existing \<noteq> Some '''')
         in if has \<and> current = None then (Refused 400 ''current_required'', d)
            else if has \<and> \<not> verifyPassword cr (the current) (the existing) then (Refused 403 ''bad_password'', d)
            else if has \<and> the current = newPassword then (Refused 400 ''same_password'', d)
            else if validatePasswordStrength newPassword \<noteq> None then (Refused 400 ''weak_password'', d)
            else if snd (screen newPassword) then (Refused 400 ''breached_password'', d)
            else
              (let d1 = setPasswordHash (u_id u) (hashPassword cr salt newPassword) d;
                   d2 = setPasswordPwned (u_id u) (fst (screen newPassword)) d1;
                   d3 = setMustChangePassword (u_id u) False d2;
                   (revoked, d4) = deleteOtherSessionsForUser (u_id u) (sr_id (ax_session a)) d3
               in (Sent (revoked, sessionInfo cr d4 u (sr_auth_methods (ax_session a)) (sr_expires_at (ax_session a))), d4))))"

subsection \<open>Single sign-on\<close>

fun try_suffix :: "db \<Rightarrow> string \<Rightarrow> nat list \<Rightarrow> string option" where
  "try_suffix d base [] = None"
| "try_suffix d base (i # is) =
     (let candidate = base @ js_nat i
      in if getUserByUsername d candidate = None then Some candidate else try_suffix d base is)"

definition uniqueUsername :: "db \<Rightarrow> millis \<Rightarrow> string \<Rightarrow> string" where
  "uniqueUsername d now base =
     (let kept = take 28 (filter username_char base);
          clean = (if kept = '''' then ''user'' else kept)
      in if getUserByUsername d clean = None then clean
         else (case try_suffix d clean [2..<1000] of
                 Some c \<Rightarrow> c
               | None \<Rightarrow> clean @ ''-'' @ js_nat (nat now)))"

record oidc_claims =
  oc_subject :: string
  oc_username :: string
  oc_display_name :: string
  oc_email :: "string option"

text \<open>
  \<open>completeLogin\<close> of \<open>auth/oidc.ts\<close>: the state is spent first; \<open>exchange\<close> is the
  identity provider's answer for that verifier and nonce.  Every thrown error ends in
  the same redirect, the first result.
\<close>

definition completeLogin ::
  "(oidc_state \<Rightarrow> oidc_claims option) \<Rightarrow> millis \<Rightarrow> string option \<Rightarrow> db \<Rightarrow> oidc_claims option \<times> db" where
  "completeLogin exchange now state d =
     (case state of
        None \<Rightarrow> (None, d)
      | Some s \<Rightarrow> if s = '''' then (None, d)
                  else (let (stored, d1) = takeOidcState s now d
                        in (Option.bind stored exchange, d1)))"

datatype sso_reply = SsoError string | SsoSignedIn signed_in

definition OIDC_PROVIDER :: string where "OIDC_PROVIDER = ''sso''"

definition oidcFinish ::
  "crypto \<Rightarrow> config \<Rightarrow> millis \<Rightarrow> string \<Rightarrow> request \<Rightarrow> string \<Rightarrow> db \<Rightarrow> sso_reply \<times> db" where
  "oidcFinish cr cfg now token rq userId d =
     (if isUserDisabled d userId then (SsoError ''disabled'', d)
      else case getUserById d userId of
          None \<Rightarrow> (SsoError ''failed'', d)
        | Some u \<Rightarrow>
            (case startSession cr cfg now token rq u [Oidc] d of
               (Sent s, d1) \<Rightarrow> (SsoSignedIn s, d1)
             | (Refused st e, d1) \<Rightarrow> (SsoError ''failed'', d1)))"

definition oidcCallback ::
  "crypto \<Rightarrow> config \<Rightarrow> (oidc_state \<Rightarrow> oidc_claims option) \<Rightarrow> millis \<Rightarrow> string \<Rightarrow> string \<Rightarrow> request \<Rightarrow>
     string option \<Rightarrow> db \<Rightarrow> sso_reply \<times> db" where
  "oidcCallback cr cfg exchange now newId token rq state d =
     (let (found, d1) = completeLogin exchange now state d in
      case found of
        None \<Rightarrow> (SsoError ''failed'', d1)
      | Some c \<Rightarrow>
          (case getUserIdByOidc d1 OIDC_PROVIDER (oc_subject c) of
             Some userId \<Rightarrow> oidcFinish cr cfg now token rq userId d1
           | None \<Rightarrow>
               if \<not> cfg_auto_create_users cfg then (SsoError ''not_provisioned'', d1)
               else
                 (case createUser newId now
                     \<lparr>cui_username = uniqueUsername d1 now (oc_username c), cui_display_name = oc_display_name c,
                      cui_email = oc_email c, cui_role = (if countUsers d1 = 0 then Admin else User),
                      cui_source = Some OIDC_PROVIDER, cui_password_hash = None\<rparr> d1 of
                    Inl e \<Rightarrow> (SsoError ''failed'', d1)
                  | Inr (u, d2) \<Rightarrow>
                      (case linkOidcIdentity OIDC_PROVIDER (oc_subject c) (u_id u) d2 of
                         Inl e \<Rightarrow> (SsoError ''failed'', d2)
                       | Inr d3 \<Rightarrow> oidcFinish cr cfg now token rq (u_id u) d3))))"

end
