(* ===== verification/AuthProps.thy ===== *)
theory AuthProps
  imports AuthRoutes
begin

text \<open>
  What the sign-in flows guarantee: sessions start only after the right proofs, the
  second factor cannot be skipped or replayed, failures are counted the same whether
  or not the account exists, a password change ends every other session.
\<close>

subsection \<open>Starting a session\<close>

lemma startSession_Sent:
  assumes "startSession cr cfg now token rq u ms d = (Sent s, d')"
  obtains row where "d' = markLogin (u_id u) now (d\<lparr>db_sessions := db_sessions d @ [row]\<rparr>)"
    and "ses_id row = hashToken cr token" and "ses_user_id row = u_id u" and "ses_auth_methods row = ms"
    and "ses_expires_at row = now + cfg_session_ttl_ms cfg" and "sg_cookie s = token"
    and "sql_get (\<lambda>r. ses_id r = hashToken cr token) (db_sessions d) = None"
    and "si_user (sg_info s) = u" and "u_id u \<in> user_ids d"
proof -
  let ?row = "\<lparr>ses_id = hashToken cr token, ses_user_id = u_id u, ses_auth_methods = ms,
     ses_user_agent = rq_user_agent rq, ses_ip = Some (rq_ip rq), ses_created_at = now,
     ses_expires_at = now + cfg_session_ttl_ms cfg\<rparr>"
  have "\<not> sql_exists (\<lambda>r. ses_id r = hashToken cr token) (db_sessions d)" "userRow d (u_id u) \<noteq> None"
    using assms by (auto simp: startSession_def createSession_def Let_def split: if_splits)
  then have ok: "sql_get (\<lambda>r. ses_id r = hashToken cr token) (db_sessions d) = None" "u_id u \<in> user_ids d"
    by (auto simp: sql_exists_iff sql_get_None userRow_None_iff)
  show thesis
    by (rule that [of ?row])
      (use assms ok in \<open>auto simp: startSession_def createSession_def Let_def sessionInfo_def split: if_splits\<close>)
qed

lemma startSession_Refused:
  "startSession cr cfg now token rq u ms d = (Refused st e, d') \<Longrightarrow> d' = d"
  by (auto simp: startSession_def Let_def split: sum.splits)

lemma markLogin_tables [simp]:
  "db_sessions (markLogin i now d) = db_sessions d" "db_credentials (markLogin i now d) = db_credentials d"
  "db_settings (markLogin i now d) = db_settings d" "db_totp (markLogin i now d) = db_totp d"
  "db_tickets (markLogin i now d) = db_tickets d" "db_recovery (markLogin i now d) = db_recovery d"
  "db_attempts (markLogin i now d) = db_attempts d" "db_ip_attempts (markLogin i now d) = db_ip_attempts d"
  "db_challenges (markLogin i now d) = db_challenges d"
  by (simp_all add: markLogin_def update_users_def)

lemma markLogin_user:
  "userRow (markLogin i now d) j = (if j = i then map_option (\<lambda>r. r\<lparr>usr_last_login_at := Some now\<rparr>) (userRow d i) else userRow d j)"
  unfolding markLogin_def by (rule userRow_update_users) simp

lemma markLogin_ids [simp]: "user_ids (markLogin i now d) = user_ids d"
  unfolding markLogin_def by (rule user_ids_update_users) simp

text \<open>The cookie of a new session signs its user in, from anywhere, until the session expires.\<close>

lemma session_usable:
  assumes "startSession cr cfg now token rq u ms d = (Sent s, d')"
    and "Autologin \<notin> set ms" and "token \<noteq> ''''" and "later < now + cfg_session_ttl_ms cfg"
  shows "\<exists>a. onRequest cr later ip (Some (sg_cookie s)) d' = (Some a, d') \<and> u_id (ax_user a) = u_id u \<and>
    sr_auth_methods (ax_session a) = ms"
proof -
  from assms(1) obtain row where row: "d' = markLogin (u_id u) now (d\<lparr>db_sessions := db_sessions d @ [row]\<rparr>)"
    "ses_id row = hashToken cr token" "ses_user_id row = u_id u" "ses_auth_methods row = ms"
    "ses_expires_at row = now + cfg_session_ttl_ms cfg" "sg_cookie s = token"
    "sql_get (\<lambda>r. ses_id r = hashToken cr token) (db_sessions d) = None" "u_id u \<in> user_ids d"
    by (rule startSession_Sent)
  have "db_sessions d' = db_sessions d @ [row]" using row(1) by simp
  then have v: "getValidSession cr later token d' = (Some (toSessionRecord row), d')"
    using row assms(4) by (simp add: getValidSession_def Let_def sql_get_append)
  have "user_ids d' = user_ids d" unfolding row(1) by (simp add: user_ids_def [of "_\<lparr>db_sessions := _\<rparr>"]) (simp add: user_ids_def)
  then have "u_id u \<in> user_ids d'" using row(8) by simp
  then obtain x where x: "getUserById d' (u_id u) = Some x"
    using getUserById_None_iff [of d' "u_id u"] by (cases "getUserById d' (u_id u)") auto
  then have "u_id x = u_id u" by (auto dest: getUserById_SomeD)
  with v x row assms(2,3) show ?thesis
    by (simp add: onRequest_def toSessionRecord_def)
qed

subsection \<open>Failed password sign-ins\<close>

definition bad_password :: "crypto \<Rightarrow> db \<Rightarrow> string \<Rightarrow> string \<Rightarrow> bool" where
  "bad_password cr d username password \<longleftrightarrow>
     (case getUserRowByUsername d (js_trim username) of
        None \<Rightarrow> True
      | Some r \<Rightarrow> \<not> verifyPassword cr password (case usr_password_hash r of None \<Rightarrow> DUMMY_HASH | Some h \<Rightarrow> h))"

lemma loginPassword_bad:
  assumes "bad_password cr d username password" and "js_trim username \<noteq> ''''" and "password \<noteq> ''''"
    and "lockoutRemainingSeconds (js_trim username) now d \<le> 0"
  shows "loginPassword cr cfg ban trusted now token ticket rq username password (d, k) =
    (Refused 401 ''bad_credentials'',
     noteFailedAttempt ban trusted (rq_ip rq)
       (fail_reason (js_trim username)) now
       (snd (recordFailure (js_trim username) now d), k))"
proof (cases "getUserRowByUsername d (js_trim username)")
  case None
  then show ?thesis using assms by (simp add: loginPassword_def Let_def)
next
  case (Some r)
  then show ?thesis using assms
    by (cases "usr_password_hash r") (simp_all add: loginPassword_def bad_password_def Let_def)
qed

lemma lockout_refuses:
  assumes "0 < lockoutRemainingSeconds (js_trim username) now d" and "js_trim username \<noteq> ''''" and "password \<noteq> ''''"
  shows "loginPassword cr cfg ban trusted now token ticket rq username password (d, k) = (Refused 429 ''locked_out'', d, k)"
  using assms by (simp add: loginPassword_def)

subsection \<open>What a failure writes\<close>

lemma recordFailure_frame:
  "snd (recordFailure u now d) = d\<lparr>db_attempts := db_attempts (snd (recordFailure u now d))\<rparr>"
  by (simp add: recordFailure_eq)

lemma noteFailedAttempt_frame:
  "fst (noteFailedAttempt ban tr a reason now (d, k)) =
     d\<lparr>db_ip_attempts := db_ip_attempts (fst (noteFailedAttempt ban tr a reason now (d, k))),
       db_bans := db_bans (fst (noteFailedAttempt ban tr a reason now (d, k)))\<rparr>"
  by (cases rule: noteFailedAttempt_cases [of a tr ban reason now d k])
    (simp_all add: recordIpFailure_def recordBan_def clearIpFailures_def Let_def)

lemma recordFailure_cong:
  assumes "db_attempts d = db_attempts e"
  shows "db_attempts (snd (recordFailure u now d)) = db_attempts (snd (recordFailure u now e))"
  using assms by (simp add: recordFailure_def attempt_row_of_def Let_def)

lemma noteFailedAttempt_cong:
  assumes "db_ip_attempts d = db_ip_attempts e" and "db_bans d = db_bans e"
  shows "snd (noteFailedAttempt ban tr a reason now (d, k)) = snd (noteFailedAttempt ban tr a reason now (e, k))"
    and "db_ip_attempts (fst (noteFailedAttempt ban tr a reason now (d, k))) =
      db_ip_attempts (fst (noteFailedAttempt ban tr a reason now (e, k)))"
    and "db_bans (fst (noteFailedAttempt ban tr a reason now (d, k))) =
      db_bans (fst (noteFailedAttempt ban tr a reason now (e, k)))"
proof -
  have r: "fst (recordIpFailure a now d) = fst (recordIpFailure a now e)"
    "db_ip_attempts (snd (recordIpFailure a now d)) = db_ip_attempts (snd (recordIpFailure a now e))"
    using assms by (simp_all add: recordIpFailure_def ip_row_of_def Let_def)
  show "snd (noteFailedAttempt ban tr a reason now (d, k)) = snd (noteFailedAttempt ban tr a reason now (e, k))"
    "db_ip_attempts (fst (noteFailedAttempt ban tr a reason now (d, k))) =
      db_ip_attempts (fst (noteFailedAttempt ban tr a reason now (e, k)))"
    "db_bans (fst (noteFailedAttempt ban tr a reason now (d, k))) =
      db_bans (fst (noteFailedAttempt ban tr a reason now (e, k)))"
    using r assms
    by (simp_all add: noteFailedAttempt_def case_prod_beta recordBan_def clearIpFailures_def Let_def)
qed

text \<open>
  C10. A failed password sign-in tells nothing about the account: on any two databases
  that agree on the failure tables, whatever their accounts (one may not know the user
  at all), the reply, the failure tables and the firewall end up the same, and no other
  table changes.
\<close>

theorem failed_login_uniform:
  assumes "bad_password cr d username password" and "bad_password cr e username password"
    and "db_attempts d = db_attempts e" and "db_ip_attempts d = db_ip_attempts e" and "db_bans d = db_bans e"
    and "loginPassword cr cfg ban trusted now token ticket rq username password (d, k) = (r, d', k1)"
    and "loginPassword cr cfg ban trusted now token ticket rq username password (e, k) = (r', e', k2)"
  shows "r = r' \<and> k1 = k2 \<and> db_attempts d' = db_attempts e' \<and> db_ip_attempts d' = db_ip_attempts e' \<and>
    db_bans d' = db_bans e' \<and>
    d' = d\<lparr>db_attempts := db_attempts d', db_ip_attempts := db_ip_attempts d', db_bans := db_bans d'\<rparr> \<and>
    \<not> is_sent r"
proof (cases "js_trim username = '''' \<or> password = ''''")
  case True
  then show ?thesis using assms by (auto simp: loginPassword_def)
next
  case ne: False
  have lock: "lockoutRemainingSeconds (js_trim username) now d = lockoutRemainingSeconds (js_trim username) now e"
    using assms(3) by (simp add: lockoutRemainingSeconds_def attempt_row_of_def)
  show ?thesis
  proof (cases "lockoutRemainingSeconds (js_trim username) now d > 0")
    case True
    then show ?thesis using ne lock assms by (auto simp: lockout_refuses)
  next
    case False
    let ?d = "snd (recordFailure (js_trim username) now d)"
    let ?e = "snd (recordFailure (js_trim username) now e)"
    let ?N = "\<lambda>x. noteFailedAttempt ban trusted (rq_ip rq) (fail_reason (js_trim username)) now (x, k)"
    have "loginPassword cr cfg ban trusted now token ticket rq username password (d, k)
        = (Refused 401 ''bad_credentials'', ?N ?d)"
      using ne False by (intro loginPassword_bad [OF assms(1)]) simp_all
    moreover have "loginPassword cr cfg ban trusted now token ticket rq username password (e, k)
        = (Refused 401 ''bad_credentials'', ?N ?e)"
      using ne False lock by (intro loginPassword_bad [OF assms(2)]) simp_all
    ultimately have r: "r = Refused 401 ''bad_credentials''" "r' = Refused 401 ''bad_credentials''"
      and d': "d' = fst (?N ?d)" "k1 = snd (?N ?d)" "e' = fst (?N ?e)" "k2 = snd (?N ?e)"
      using assms(6,7) by (simp_all add: prod_eq_iff)
    have att: "db_attempts ?d = db_attempts ?e" by (rule recordFailure_cong [OF assms(3)])
    have ip: "db_ip_attempts ?d = db_ip_attempts ?e" "db_bans ?d = db_bans ?e"
      using assms(4,5) by (subst (1 2) recordFailure_frame, simp)+
    have tables: "db_attempts (fst (?N x)) = db_attempts x" for x
      by (subst noteFailedAttempt_frame) simp
    have "d' = d\<lparr>db_attempts := db_attempts d', db_ip_attempts := db_ip_attempts d', db_bans := db_bans d'\<rparr>"
    proof -
      have "d' = ?d\<lparr>db_ip_attempts := db_ip_attempts d', db_bans := db_bans d'\<rparr>"
        unfolding d'(1) by (rule noteFailedAttempt_frame)
      moreover have "db_attempts d' = db_attempts ?d" unfolding d'(1) by (rule tables)
      moreover have "?d = d\<lparr>db_attempts := db_attempts ?d\<rparr>" by (rule recordFailure_frame)
      ultimately show ?thesis
        by (metis (no_types, lifting) db.surjective db.update_convs(11) db.update_convs(12) db.update_convs(13))
    qed
    then show ?thesis
      using r(1,2) att tables [of ?d] tables [of ?e]
        noteFailedAttempt_cong [OF ip, of ban trusted "rq_ip rq" "fail_reason (js_trim username)" now k]
      unfolding d' by simp
  qed
qed

definition sample_request :: request where
  "sample_request = \<lparr>rq_ip = ''192.0.2.7'', rq_user_agent = None\<rparr>"

definition sample_db :: db where
  "sample_db = empty_db\<lparr>db_users := [sample_user, sample_admin]\<rparr>"

text \<open>A firewall whose state is the list of addresses it drops.\<close>

definition sample_ban :: "string \<Rightarrow> int \<Rightarrow> string list \<Rightarrow> bool \<times> string list" where
  "sample_ban a secs k = (True, a # k)"

theorem failed_login_uniform_witness:
  "fst (loginPassword sample_crypto sample_config sample_ban [] 0 ''t'' ''m'' sample_request ''ann'' ''wrong'' (sample_db, []))
   = fst (loginPassword sample_crypto sample_config sample_ban [] 0 ''t'' ''m'' sample_request ''ann'' ''wrong'' (empty_db, []))"
proof -
  obtain r d' k1 where 1: "loginPassword sample_crypto sample_config sample_ban [] 0 ''t'' ''m'' sample_request
      ''ann'' ''wrong'' (sample_db, []) = (r, d', k1)" by (metis prod.exhaust)
  obtain r' e' k2 where 2: "loginPassword sample_crypto sample_config sample_ban [] 0 ''t'' ''m'' sample_request
      ''ann'' ''wrong'' (empty_db, []) = (r', e', k2)" by (metis prod.exhaust)
  have b: "bad_password sample_crypto sample_db ''ann'' ''wrong''" "bad_password sample_crypto empty_db ''ann'' ''wrong''"
    by code_simp+
  have t: "db_attempts sample_db = db_attempts empty_db" "db_ip_attempts sample_db = db_ip_attempts empty_db"
    "db_bans sample_db = db_bans empty_db"
    by (simp_all add: sample_db_def)
  from failed_login_uniform [OF b t 1 2] show ?thesis unfolding 1 2 by simp
qed

subsection \<open>Successful password sign-ins\<close>

definition stored_hash :: "user_row \<Rightarrow> string" where
  "stored_hash r = (case usr_password_hash r of None \<Rightarrow> DUMMY_HASH | Some h \<Rightarrow> h)"

definition cleared :: "string \<Rightarrow> string \<Rightarrow> db \<Rightarrow> db" where
  "cleared ip username d = clearIpFailures ip (recordSuccess username d)"

lemma cleared_tables [simp]:
  "db_users (cleared ip u d) = db_users d" "db_sessions (cleared ip u d) = db_sessions d"
  "db_totp (cleared ip u d) = db_totp d" "db_tickets (cleared ip u d) = db_tickets d"
  "db_recovery (cleared ip u d) = db_recovery d" "userRow (cleared ip u d) i = userRow d i"
  "getUserById (cleared ip u d) i = getUserById d i" "totpEnabled cr (cleared ip u d) i = totpEnabled cr d i"
  "user_ids (cleared ip u d) = user_ids d"
  by (simp_all add: cleared_def clearIpFailures_def recordSuccess_def userRow_def getUserById_def
      totpEnabled_def getTotp_def totpRow_def user_ids_def)

lemma loginPassword_not_bad:
  assumes "\<not> bad_password cr d username password" and "js_trim username \<noteq> ''''" and "password \<noteq> ''''"
    and "lockoutRemainingSeconds (js_trim username) now d \<le> 0"
    and "getUserRowByUsername d (js_trim username) = Some r"
  shows "loginPassword cr cfg ban trusted now token ticket rq username password (d, k) =
    (if usr_disabled r then (Refused 403 ''disabled'', d, k)
     else
       (let d1 = cleared (rq_ip rq) (js_trim username) d;
            u = the (getUserById d (usr_id r))
        in if totpEnabled cr d (u_id u) then
             (case createMfaTicket cr ticket (u_id u) now d1 of
                Inl e \<Rightarrow> (Refused 500 ''internal'', d1, k)
              | Inr d2 \<Rightarrow> (Sent (MfaRequired ticket (countUnusedRecoveryCodes (u_id u) d2 > 0)), d2, k))
           else
             (case startSession cr cfg now token rq u [Password] d1 of
                (Sent s, d2) \<Rightarrow> (Sent (LoggedIn s), d2, k)
              | (Refused st e, d2) \<Rightarrow> (Refused st e, d2, k))))"
proof -
  have c: "clearIpFailures (rq_ip rq) (recordSuccess (js_trim username) d) = cleared (rq_ip rq) (js_trim username) d"
    by (simp add: cleared_def)
  show ?thesis
    using assms unfolding loginPassword_def bad_password_def Let_def case_prod_conv c cleared_tables
    by (cases "usr_password_hash r") simp_all
qed

lemma getUserRowByUsername_SomeD:
  "getUserRowByUsername d n = Some r \<Longrightarrow> r \<in> set (db_users d) \<and> sqlite_lower (usr_username r) = sqlite_lower n"
  by (auto simp: getUserRowByUsername_def dest: sql_get_SomeD)

lemma getUserById_keyed:
  "users_ok d \<Longrightarrow> r \<in> set (db_users d) \<Longrightarrow> getUserById d (usr_id r) = Some (toUser r)"
  using sql_get_keyed [of usr_id "db_users d" r] by (simp add: getUserById_def userRow_def users_ok_def)

lemma password_login_cases:
  assumes "users_ok d" and "token \<noteq> ''''"
    and "loginPassword cr cfg ban trusted now token ticket rq username password (d, k) = (Sent x, d', k')"
  obtains r where "r \<in> set (db_users d)" and "sqlite_lower (usr_username r) = sqlite_lower (js_trim username)"
    and "\<not> usr_disabled r" and "lockoutRemainingSeconds (js_trim username) now d \<le> 0"
    and "verifyPassword cr password (stored_hash r)"
    and "\<And>s. x = LoggedIn s \<Longrightarrow> \<not> totpEnabled cr d (usr_id r) \<and> (\<forall>later < now + cfg_session_ttl_ms cfg.
      \<exists>a. onRequest cr later (rq_ip rq) (Some (sg_cookie s)) d' = (Some a, d') \<and> u_id (ax_user a) = usr_id r)"
    and "\<And>t b. x = MfaRequired t b \<Longrightarrow>
      totpEnabled cr d (usr_id r) \<and> db_sessions d' = db_sessions d \<and> db_users d' = db_users d"
proof -
  have ne: "js_trim username \<noteq> ''''" "password \<noteq> ''''"
    using assms(3) by (auto simp: loginPassword_def)
  have unlocked: "lockoutRemainingSeconds (js_trim username) now d \<le> 0"
    using lockout_refuses [OF _ ne, of now d cr cfg ban trusted token ticket rq k] assms(3) by fastforce
  have good: "\<not> bad_password cr d username password"
    using loginPassword_bad [OF _ ne unlocked, of cr cfg ban trusted token ticket rq k] assms(3) by fastforce
  then obtain r where r: "getUserRowByUsername d (js_trim username) = Some r"
    and v: "verifyPassword cr password (stored_hash r)"
    by (auto simp: bad_password_def stored_hash_def split: option.splits)
  have rs: "r \<in> set (db_users d)" "sqlite_lower (usr_username r) = sqlite_lower (js_trim username)"
    using getUserRowByUsername_SomeD [OF r] by auto
  have u: "the (getUserById d (usr_id r)) = toUser r" using getUserById_keyed [OF assms(1) rs(1)] by simp
  let ?d1 = "cleared (rq_ip rq) (js_trim username) d"
  note run = assms(3) [unfolded loginPassword_not_bad [OF good ne unlocked r] u Let_def toUser_sel]
  have dis: "\<not> usr_disabled r" using run by (cases "usr_disabled r") simp_all
  show thesis
  proof (rule that [OF rs dis unlocked v])
    fix s
    assume x: "x = LoggedIn s"
    have noT: "\<not> totpEnabled cr d (usr_id r)"
      using run x dis by (auto split: sum.splits)
    have "startSession cr cfg now token rq (toUser r) [Password] ?d1 = (Sent s, d')"
      using run x dis noT by (auto split: prod.splits reply.splits)
    from session_usable [OF this _ assms(2)] noT
    show "\<not> totpEnabled cr d (usr_id r) \<and> (\<forall>later < now + cfg_session_ttl_ms cfg.
      \<exists>a. onRequest cr later (rq_ip rq) (Some (sg_cookie s)) d' = (Some a, d') \<and> u_id (ax_user a) = usr_id r)"
      by fastforce
  next
    fix t b
    assume x: "x = MfaRequired t b"
    have T: "totpEnabled cr d (usr_id r)"
      using run x dis by (auto split: prod.splits reply.splits if_splits)
    then have "createMfaTicket cr ticket (usr_id r) now ?d1 = Inr d'"
      using run x dis by (auto split: sum.splits)
    then show "totpEnabled cr d (usr_id r) \<and> db_sessions d' = db_sessions d \<and> db_users d' = db_users d"
      using T by (auto simp: createMfaTicket_def bind_ok_Inr with_user_Inr)
  qed
qed

text \<open>
  C1. A password sign-in that answers with anything but a refusal was let through by the
  lockout, names an existing account that is not disabled, and carried a password that
  verifies against the stored hash; a session comes of it only where the account has
  no two-factor enrolment, and its cookie then signs in that account and no other until
  it expires; where two-factor is on no session is written.
\<close>

theorem password_login_sound:
  assumes "users_ok d" and "token \<noteq> ''''"
    and "loginPassword cr cfg ban trusted now token ticket rq username password (d, k) = (Sent x, d', k')"
  shows "\<exists>r. r \<in> set (db_users d) \<and> sqlite_lower (usr_username r) = sqlite_lower (js_trim username) \<and>
    \<not> usr_disabled r \<and> lockoutRemainingSeconds (js_trim username) now d \<le> 0 \<and>
    verifyPassword cr password (stored_hash r) \<and>
    (case x of
       LoggedIn s \<Rightarrow> \<not> totpEnabled cr d (usr_id r) \<and>
         (\<forall>later. later < now + cfg_session_ttl_ms cfg \<longrightarrow>
           (\<exists>a. onRequest cr later (rq_ip rq) (Some (sg_cookie s)) d' = (Some a, d') \<and> u_id (ax_user a) = usr_id r))
     | MfaRequired t b \<Rightarrow> totpEnabled cr d (usr_id r) \<and> db_sessions d' = db_sessions d \<and> db_users d' = db_users d)"
proof -
  from assms obtain r where r: "r \<in> set (db_users d)" "sqlite_lower (usr_username r) = sqlite_lower (js_trim username)"
    "\<not> usr_disabled r" "lockoutRemainingSeconds (js_trim username) now d \<le> 0"
    "verifyPassword cr password (stored_hash r)"
    and s: "\<And>s. x = LoggedIn s \<Longrightarrow> \<not> totpEnabled cr d (usr_id r) \<and> (\<forall>later < now + cfg_session_ttl_ms cfg.
      \<exists>a. onRequest cr later (rq_ip rq) (Some (sg_cookie s)) d' = (Some a, d') \<and> u_id (ax_user a) = usr_id r)"
    and m: "\<And>t b. x = MfaRequired t b \<Longrightarrow>
      totpEnabled cr d (usr_id r) \<and> db_sessions d' = db_sessions d \<and> db_users d' = db_users d"
    by (rule password_login_cases) blast
  show ?thesis
  proof (intro exI [of _ r] conjI r)
    show "case x of
       LoggedIn s \<Rightarrow> \<not> totpEnabled cr d (usr_id r) \<and>
         (\<forall>later. later < now + cfg_session_ttl_ms cfg \<longrightarrow>
           (\<exists>a. onRequest cr later (rq_ip rq) (Some (sg_cookie s)) d' = (Some a, d') \<and> u_id (ax_user a) = usr_id r))
     | MfaRequired t b \<Rightarrow> totpEnabled cr d (usr_id r) \<and> db_sessions d' = db_sessions d \<and> db_users d' = db_users d"
    proof (cases x)
      case (LoggedIn s')
      with s show ?thesis by simp
    next
      case (MfaRequired t b)
      with m show ?thesis by simp
    qed
  qed
qed

lemma sample_users_ok: "users_ok sample_db"
  by (simp add: users_ok_def keyed_def sample_db_def sample_admin_def sample_user_def)
    (code_simp)

theorem password_login_sound_witness:
  "\<exists>r. r \<in> set (db_users sample_db) \<and> sqlite_lower (usr_username r) = ''ann'' \<and> \<not> usr_disabled r \<and>
     verifyPassword sample_crypto ''correct'' (stored_hash r)"
proof -
  obtain x d' k' where run: "loginPassword sample_crypto sample_config sample_ban [] 0 ''t'' ''m'' sample_request
      ''ann'' ''correct'' (sample_db, []) = (x, d', k')" by (metis prod.exhaust)
  have "is_sent (fst (loginPassword sample_crypto sample_config sample_ban [] 0 ''t'' ''m'' sample_request
      ''ann'' ''correct'' (sample_db, [])))" by code_simp
  with run obtain y where x: "x = Sent y" by (cases x) auto
  have n: "sqlite_lower (js_trim ''ann'') = ''ann''" by code_simp
  from password_login_sound [OF sample_users_ok _ run [unfolded x]] n show ?thesis by auto
qed

subsection \<open>The second factor\<close>

lemma startSession_tables [simp]:
  "db_totp (snd (startSession cr cfg now token rq u ms d)) = db_totp d"
  "db_tickets (snd (startSession cr cfg now token rq u ms d)) = db_tickets d"
  "db_recovery (snd (startSession cr cfg now token rq u ms d)) = db_recovery d"
  "db_attempts (snd (startSession cr cfg now token rq u ms d)) = db_attempts d"
  "user_ids (snd (startSession cr cfg now token rq u ms d)) = user_ids d"
proof -
  obtain r d' where s: "startSession cr cfg now token rq u ms d = (r, d')" by fastforce
  have "db_totp d' = db_totp d \<and> db_tickets d' = db_tickets d \<and> db_recovery d' = db_recovery d \<and>
    db_attempts d' = db_attempts d \<and> user_ids d' = user_ids d"
  proof (cases r)
    case (Sent x)
    from s [unfolded Sent] show ?thesis
      by (rule startSession_Sent) (simp add: user_ids_def [of "_\<lparr>db_sessions := _\<rparr>"], simp add: user_ids_def)
  next
    case (Refused st e)
    from startSession_Refused [OF s [unfolded Refused]] show ?thesis by simp
  qed
  then show "db_totp (snd (startSession cr cfg now token rq u ms d)) = db_totp d"
    "db_tickets (snd (startSession cr cfg now token rq u ms d)) = db_tickets d"
    "db_recovery (snd (startSession cr cfg now token rq u ms d)) = db_recovery d"
    "db_attempts (snd (startSession cr cfg now token rq u ms d)) = db_attempts d"
    "user_ids (snd (startSession cr cfg now token rq u ms d)) = user_ids d"
    by (simp_all add: s)
qed

lemma second_step_tables [simp]:
  "db_totp (snd (recordFailure n now d)) = db_totp d" "db_totp (failMfaTicket cr t d) = db_totp d"
  "db_totp (consumeMfaTicket cr t d) = db_totp d" "db_totp (recordSuccess n d) = db_totp d"
  "db_totp (snd (consumeRecoveryCode cr u c now d)) = db_totp d"
  "db_recovery (recordSuccess n d) = db_recovery d" "db_recovery (consumeMfaTicket cr t d) = db_recovery d"
  "db_recovery (noteTotpStep u st d) = db_recovery d"
  "db_tickets (recordSuccess n d) = db_tickets d" "db_tickets (noteTotpStep u st d) = db_tickets d"
  "db_tickets (snd (consumeRecoveryCode cr u c now d)) = db_tickets d"
  "db_tickets (snd (recordFailure n now d)) = db_tickets d"
  by (simp_all add: recordFailure_def failMfaTicket_def consumeMfaTicket_def recordSuccess_def
      consumeRecoveryCode_def noteTotpStep_def Let_def)

lemma peekMfaTicket_Some:
  "peekMfaTicket cr ticket now d = (Some u, d1) \<Longrightarrow>
     d1 = d \<and> (\<exists>row. ticketRow cr d ticket = Some row \<and> tck_user_id row = u \<and>
       now - tck_created_at row \<le> TICKET_TTL_MS \<and> tck_attempts row < TICKET_MAX_ATTEMPTS)"
  by (auto simp: peekMfaTicket_def split: option.splits if_splits)

lemma peekMfaTicket_None: "peekMfaTicket cr ticket now d = (None, d1) \<Longrightarrow> db_totp d1 = db_totp d"
  by (auto simp: peekMfaTicket_def split: option.splits if_splits)

text \<open>The last accepted time step of an account.\<close>

definition last_step :: "db \<Rightarrow> string \<Rightarrow> int option" where
  "last_step d u = Option.bind (totpRow d u) ttp_last_used_step"

lemma getTotp_Some_last: "getTotp cr d u = Some r \<Longrightarrow> last_step d u = tr_last_used_step r"
  by (auto simp: getTotp_def last_step_def split: option.splits)

lemma last_step_note:
  "getTotp cr d u = Some r \<Longrightarrow> last_step (noteTotpStep u st d) v = (if v = u then Some st else last_step d v)"
  by (auto simp: getTotp_def last_step_def totpRow_def noteTotpStep_def sql_get_update_same
      split: option.splits intro!: arg_cong [where f = "\<lambda>x. Option.bind x ttp_last_used_step"] sql_get_update_other)

lemma last_step_cong: "db_totp d = db_totp e \<Longrightarrow> last_step d u = last_step e u"
  by (simp add: last_step_def totpRow_def)

text \<open>The three outcomes of the second step, with what each does to the totp table.\<close>

lemma loginTotp_cases:
  assumes "loginTotp cr cfg now token rq ticket code d = (r, d')"
  obtains (refused) "\<not> is_sent r" "db_totp d' = db_totp d"
    | (totp) row u rec step where "ticketRow cr d ticket = Some row"
        "now - tck_created_at row \<le> TICKET_TTL_MS" "tck_attempts row < TICKET_MAX_ATTEMPTS"
        "getUserById d (tck_user_id row) = Some u" "getTotp cr d (tck_user_id row) = Some rec"
        "tr_confirmed_at rec \<noteq> None" "\<not> isUserDisabled d (tck_user_id row)"
        "verifyTotp cr (tr_secret rec) code now = Some step"
        "\<And>l. tr_last_used_step rec = Some l \<Longrightarrow> l < step"
        "(r, d') = startSession cr cfg now token rq u [Password, Totp]
          (recordSuccess (u_username u) (consumeMfaTicket cr ticket (noteTotpStep (tck_user_id row) step d)))"
    | (recovery) row u rec where "ticketRow cr d ticket = Some row"
        "now - tck_created_at row \<le> TICKET_TTL_MS" "tck_attempts row < TICKET_MAX_ATTEMPTS"
        "getUserById d (tck_user_id row) = Some u" "getTotp cr d (tck_user_id row) = Some rec"
        "tr_confirmed_at rec \<noteq> None" "\<not> isUserDisabled d (tck_user_id row)"
        "verifyTotp cr (tr_secret rec) code now = None"
        "fst (consumeRecoveryCode cr (tck_user_id row) code now d)"
        "(r, d') = startSession cr cfg now token rq u [Password, RecoveryCode]
          (recordSuccess (u_username u) (consumeMfaTicket cr ticket
            (snd (consumeRecoveryCode cr (tck_user_id row) code now d))))"
proof (cases "ticket = '''' \<or> code = '''' \<or> length code > 32")
  case True
  then show thesis using assms refused by (auto simp: loginTotp_def)
next
  case sch: False
  obtain p d1 where pk: "peekMfaTicket cr ticket now d = (p, d1)" by fastforce
  show thesis
  proof (cases p)
    case None
    then show thesis using assms sch pk peekMfaTicket_None refused by (auto simp: loginTotp_def)
  next
    case (Some userId)
    from peekMfaTicket_Some [OF pk [unfolded Some]] obtain row where d1: "d1 = d"
      and row: "ticketRow cr d ticket = Some row" "tck_user_id row = userId"
        "now - tck_created_at row \<le> TICKET_TTL_MS" "tck_attempts row < TICKET_MAX_ATTEMPTS" by blast
    note run = assms [unfolded loginTotp_def if_not_P [OF sch] pk Some d1, simplified]
    show thesis
    proof (cases "getUserById d userId")
      case None
      then show thesis using run refused by (auto simp del: getUserById_None_iff)
    next
      case u: (Some u)
      show thesis
      proof (cases "getTotp cr d userId")
        case None
        then show thesis using run u refused by auto
      next
        case t: (Some rec)
        show thesis
        proof (cases "tr_confirmed_at rec = None \<or> isUserDisabled d userId")
          case True
          then show thesis using run u t refused by (auto split: if_splits)
        next
          case ok: False
          show thesis
          proof (cases "verifyTotp cr (tr_secret rec) code now")
            case (Some step)
            show thesis
            proof (cases "tr_last_used_step rec \<noteq> None \<and> step \<le> the (tr_last_used_step rec)")
              case True
              then show thesis using run u t ok Some refused by auto
            next
              case False
              then show thesis using run u t ok Some row by (intro totp [of row u rec step]) auto
            qed
          next
            case None
            obtain b d2 where c: "consumeRecoveryCode cr userId code now d = (b, d2)" by fastforce
            show thesis
            proof (cases b)
              case True
              then show thesis using run u t ok None row c by (intro recovery [of row u rec]) auto
            next
              case False
              have "db_totp d2 = db_totp d"
                using second_step_tables(5) [of cr userId code now d] by (simp add: c)
              then show thesis using False run u t ok None c refused by auto
            qed
          qed
        qed
      qed
    qed
  qed
qed

text \<open>
  C2. The second factor: a session comes of it only for a ticket the password step issued
  less than five minutes before and that has fewer than five wrong codes against it, on
  an enabled account with a confirmed enrolment, and for either a code of the current
  time step or a neighbour that is later than every step accepted before, or an unused
  recovery code of that account, which is used afterwards; the ticket is gone.
\<close>

theorem second_factor_sound:
  assumes "loginTotp cr cfg now token rq ticket code d = (Sent s, d')"
  shows "\<exists>row rec. ticketRow cr d ticket = Some row \<and> now - tck_created_at row \<le> 300000 \<and>
    tck_attempts row < 5 \<and> getTotp cr d (tck_user_id row) = Some rec \<and> tr_confirmed_at rec \<noteq> None \<and>
    \<not> isUserDisabled d (tck_user_id row) \<and> u_id (si_user (sg_info s)) = tck_user_id row \<and>
    ticketRow cr d' ticket = None \<and>
    ((\<exists>step secret. base32Decode (tr_secret rec) = Some secret \<and>
        step \<in> {currentStep now - 1, currentStep now, currentStep now + 1} \<and>
        filter is_digit code = hotp cr secret (nat step) 6 \<and>
        (\<forall>l. last_step d (tck_user_id row) = Some l \<longrightarrow> l < step) \<and>
        last_step d' (tck_user_id row) = Some step) \<or>
     (fst (consumeRecoveryCode cr (tck_user_id row) code now d) \<and>
      (\<forall>later. \<not> fst (consumeRecoveryCode cr (tck_user_id row) code later d'))))"
  using assms
proof (cases rule: loginTotp_cases)
  case (totp row u rec step)
  from totp(10) [symmetric] have s: "u_id (si_user (sg_info s)) = tck_user_id row"
    by (rule startSession_Sent) (use getUserById_SomeD [OF totp(4)] in simp)
  have tables: "db_tickets d' = db_tickets (consumeMfaTicket cr ticket (noteTotpStep (tck_user_id row) step d))"
    "db_totp d' = db_totp (noteTotpStep (tck_user_id row) step d)"
    using arg_cong [OF totp(10), where f = "\<lambda>x. db_tickets (snd x)"]
      arg_cong [OF totp(10), where f = "\<lambda>x. db_totp (snd x)"] by simp_all
  have gone: "ticketRow cr d' ticket = None"
    using tables(1) consumeMfaTicket_row [of cr ticket "noteTotpStep (tck_user_id row) step d"]
    by (simp add: ticketRow_def)
  have last: "last_step d' (tck_user_id row) = Some step"
    using last_step_cong [OF tables(2)] last_step_note [OF totp(5)] by simp
  from totp(8) obtain secret where v: "base32Decode (tr_secret rec) = Some secret"
    "step \<in> {currentStep now - 1, currentStep now, currentStep now + 1}"
    "filter is_digit code = hotp cr secret (nat step) 6"
    by (rule verifyTotp_Some) (simp add: DIGITS_def)
  show ?thesis
    using totp s gone last v getTotp_Some_last [OF totp(5)]
    by (intro exI [of _ row] exI [of _ rec]) (auto simp: TICKET_TTL_MS_def TICKET_MAX_ATTEMPTS_def)
next
  case (recovery row u rec)
  let ?d2 = "snd (consumeRecoveryCode cr (tck_user_id row) code now d)"
  from recovery(10) [symmetric] have s: "u_id (si_user (sg_info s)) = tck_user_id row"
    by (rule startSession_Sent) (use getUserById_SomeD [OF recovery(4)] in simp)
  have tables: "db_tickets d' = db_tickets (consumeMfaTicket cr ticket ?d2)" "db_recovery d' = db_recovery ?d2"
    using arg_cong [OF recovery(10), where f = "\<lambda>x. db_tickets (snd x)"]
      arg_cong [OF recovery(10), where f = "\<lambda>x. db_recovery (snd x)"] by simp_all
  have gone: "ticketRow cr d' ticket = None"
    using tables(1) consumeMfaTicket_row [of cr ticket ?d2] by (simp add: ticketRow_def)
  have spent: "\<not> fst (consumeRecoveryCode cr (tck_user_id row) code later d')" for later
    using consume_recovery_code_again [of cr "tck_user_id row" code later now d] tables(2)
    by (simp add: consumeRecoveryCode_def Let_def split: if_splits)
  show ?thesis
    using recovery s gone spent
    by (intro exI [of _ row] exI [of _ rec]) (auto simp: TICKET_TTL_MS_def TICKET_MAX_ATTEMPTS_def)
qed simp

subsection \<open>Codes are not replayed\<close>

text \<open>A sequence of second-step requests, each with its time, token, client, ticket and code.\<close>

definition totp_requests ::
  "crypto \<Rightarrow> config \<Rightarrow> (millis \<times> string \<times> request \<times> string \<times> string) list \<Rightarrow> db \<Rightarrow> db" where
  "totp_requests cr cfg rs d =
     fold (\<lambda>(now, token, rq, ticket, code) e. snd (loginTotp cr cfg now token rq ticket code e)) rs d"

lemma loginTotp_last_mono:
  assumes "last_step d v = Some l"
  shows "\<exists>l'. last_step (snd (loginTotp cr cfg now token rq ticket code d)) v = Some l' \<and> l \<le> l'"
proof -
  obtain r d' where run: "loginTotp cr cfg now token rq ticket code d = (r, d')" by fastforce
  from run have "\<exists>l'. last_step d' v = Some l' \<and> l \<le> l'"
  proof (cases rule: loginTotp_cases)
    case refused
    then show ?thesis using assms last_step_cong [of d' d v] by simp
  next
    case (totp row u rec step)
    have "db_totp d' = db_totp (noteTotpStep (tck_user_id row) step d)"
      using arg_cong [OF totp(10), where f = "\<lambda>x. db_totp (snd x)"] by simp
    then have "last_step d' v = (if v = tck_user_id row then Some step else last_step d v)"
      using last_step_cong [of d'] last_step_note [OF totp(5)] by simp
    then show ?thesis
      using assms totp(9) [of l] getTotp_Some_last [OF totp(5)] by (cases "v = tck_user_id row") simp_all
  next
    case (recovery row u rec)
    have "db_totp d' = db_totp d"
      using arg_cong [OF recovery(10), where f = "\<lambda>x. db_totp (snd x)"] by simp
    then show ?thesis using assms last_step_cong [of d' d v] by simp
  qed
  with run show ?thesis by simp
qed

lemma totp_requests_last_mono:
  "last_step d v = Some l \<Longrightarrow> \<exists>l'. last_step (totp_requests cr cfg rs d) v = Some l' \<and> l \<le> l'"
proof (induction rs arbitrary: d l)
  case Nil
  then show ?case by (simp add: totp_requests_def)
next
  case (Cons q rs)
  obtain now token rq ticket code where q: "q = (now, token, rq, ticket, code)" by (cases q) auto
  obtain l1 where l1: "last_step (snd (loginTotp cr cfg now token rq ticket code d)) v = Some l1" "l \<le> l1"
    using loginTotp_last_mono [OF Cons.prems] by blast
  from Cons.IH [OF l1(1)] l1(2) show ?case by (auto simp: totp_requests_def q)
qed

lemma startSession_methods:
  "startSession cr cfg now token rq u ms d = (Sent s, d') \<Longrightarrow> si_auth_methods (sg_info s) = ms"
  by (auto simp: startSession_def sessionInfo_def Let_def split: sum.splits)

text \<open>A sign-in with a code records the step of that code, which is later than the recorded one.\<close>

lemma loginTotp_accepted:
  assumes "loginTotp cr cfg now token rq ticket code d = (Sent s, d')"
    and "si_auth_methods (sg_info s) = [Password, Totp]"
  obtains rec step secret where "getTotp cr d (u_id (si_user (sg_info s))) = Some rec"
    and "last_step d' (u_id (si_user (sg_info s))) = Some step"
    and "base32Decode (tr_secret rec) = Some secret" and "filter is_digit code = hotp cr secret (nat step) 6"
    and "\<And>l. last_step d (u_id (si_user (sg_info s))) = Some l \<Longrightarrow> l < step"
  using assms(1)
proof (cases rule: loginTotp_cases)
  case (totp row u rec step)
  from totp(10) [symmetric] have s: "u_id (si_user (sg_info s)) = tck_user_id row"
    by (rule startSession_Sent) (use getUserById_SomeD [OF totp(4)] in simp)
  have "db_totp d' = db_totp (noteTotpStep (tck_user_id row) step d)"
    using arg_cong [OF totp(10), where f = "\<lambda>x. db_totp (snd x)"] by simp
  then have last: "last_step d' (tck_user_id row) = Some step"
    using last_step_cong [of d'] last_step_note [OF totp(5)] by simp
  from totp(8) obtain secret where v: "base32Decode (tr_secret rec) = Some secret"
    "filter is_digit code = hotp cr secret (nat step) 6"
    by (rule verifyTotp_Some) (simp add: DIGITS_def)
  show thesis
    by (rule that [of rec step secret])
      (use totp(5,9) last v s getTotp_Some_last [OF totp(5)] in simp_all)
next
  case (recovery row u rec)
  from startSession_methods [OF recovery(10) [symmetric]] show thesis using assms(2) by simp
qed simp

text \<open>
  C9. No code is honoured twice: of two sign-ins of one account with a code, with any
  requests at the second step in between, by whomever, with whatever tickets and at
  whatever times, the later one was for a strictly later time step than the earlier one.
\<close>

theorem totp_no_replay:
  assumes "loginTotp cr cfg now token rq ticket code d = (Sent s, d1)"
    and "si_auth_methods (sg_info s) = [Password, Totp]"
    and "loginTotp cr cfg now' token' rq' ticket' code' (totp_requests cr cfg rs d1) = (Sent s', d2)"
    and "si_auth_methods (sg_info s') = [Password, Totp]"
    and "u_id (si_user (sg_info s)) = user" and "u_id (si_user (sg_info s')) = user"
  shows "\<exists>step step' secret secret'. last_step d1 user = Some step \<and> last_step d2 user = Some step' \<and> step < step' \<and>
    filter is_digit code = hotp cr secret (nat step) 6 \<and> filter is_digit code' = hotp cr secret' (nat step') 6"
proof -
  from assms(1,2) obtain step secret where 1: "last_step d1 user = Some step"
    "filter is_digit code = hotp cr secret (nat step) 6"
    by (rule loginTotp_accepted) (use assms(5) in simp)
  from totp_requests_last_mono [OF 1(1)] obtain l where
    l: "last_step (totp_requests cr cfg rs d1) user = Some l" "step \<le> l" by blast
  from assms(3,4) obtain step' secret' where 2: "last_step d2 user = Some step'"
    "filter is_digit code' = hotp cr secret' (nat step') 6" "l < step'"
    by (rule loginTotp_accepted) (use assms(6) l(1) in simp)
  with 1 l(2) show ?thesis by fastforce
qed

definition sample_totp_db :: db where
  "sample_totp_db = sample_db\<lparr>
     db_totp := [\<lparr>ttp_user_id = ''u1'', ttp_secret = encryptSecret sample_crypto ''salt'' ''iv'' ''GEZA'',
                  ttp_confirmed_at = Some 0, ttp_created_at = 0, ttp_last_used_step = Some 0\<rparr>],
     db_tickets := [\<lparr>tck_id = hashToken sample_crypto ''m1'', tck_user_id = ''u1'', tck_created_at = 300000, tck_attempts = 0\<rparr>,
                    \<lparr>tck_id = hashToken sample_crypto ''m2'', tck_user_id = ''u1'', tck_created_at = 300000, tck_attempts = 0\<rparr>]\<rparr>"

abbreviation sample_second :: "millis \<Rightarrow> string \<Rightarrow> string \<Rightarrow> string \<Rightarrow> db \<Rightarrow> signed_in reply \<times> db" where
  "sample_second now token ticket code \<equiv>
     loginTotp sample_crypto sample_config now token sample_request ticket code"

text \<open>The codes of three time steps under the sample hash, and two evaluated sign-ins.\<close>

lemma sample_code:
  "hotp sample_crypto k 10 6 = ''000010''" "hotp sample_crypto k 11 6 = ''000011''"
  "hotp sample_crypto k 9 6 = ''000009''" "hotp sample_crypto k 12 6 = ''000012''"
proof -
  have n: "pad_start 6 CHR ''0'' (js_nat 10) = ''000010''" "pad_start 6 CHR ''0'' (js_nat 11) = ''000011''"
    "pad_start 6 CHR ''0'' (js_nat 9) = ''000009''" "pad_start 6 CHR ''0'' (js_nat 12) = ''000012''" by code_simp+
  show "hotp sample_crypto k 10 6 = ''000010''" "hotp sample_crypto k 11 6 = ''000011''"
    "hotp sample_crypto k 9 6 = ''000009''" "hotp sample_crypto k 12 6 = ''000012''"
    by (simp_all add: hotp_def sample_crypto_def be32_def hotp_binary_def byte_at_def n)
qed

lemma sample_verify:
  "verifyTotp sample_crypto ''GEZA'' ''000010'' 300000 = Some 10"
  "verifyTotp sample_crypto ''GEZA'' ''000011'' 330000 = Some 11"
proof -
  have b: "base32Decode ''GEZA'' \<noteq> None" by code_simp
  have f: "filter is_digit ''000010'' = ''000010''" "filter is_digit ''000011'' = ''000011''" by code_simp+
  show "verifyTotp sample_crypto ''GEZA'' ''000010'' 300000 = Some 10"
    "verifyTotp sample_crypto ''GEZA'' ''000011'' 330000 = Some 11"
    unfolding verifyTotp_def f using b
    by (auto simp: Let_def DIGITS_def currentStep_def TOTP_WINDOW_def sample_code upto.simps)
qed

definition sample_after :: db where
  "sample_after = snd (startSession sample_crypto sample_config 300000 ''t1'' sample_request (toUser sample_user)
     [Password, Totp] (recordSuccess ''ann'' (consumeMfaTicket sample_crypto ''m1'' (noteTotpStep ''u1'' 10 sample_totp_db))))"

lemma is_sent_payload: "is_sent r \<Longrightarrow> r = Sent (sent_payload r)"
  by (cases r) simp_all

lemma sample_second_step:
  "\<exists>s. sample_second 300000 ''t1'' ''m1'' ''000010'' sample_totp_db = (Sent s, sample_after) \<and>
     si_auth_methods (sg_info s) = [Password, Totp] \<and> u_id (si_user (sg_info s)) = ''u1''"
  "\<exists>s d. sample_second 330000 ''t2'' ''m2'' ''000011'' sample_after = (Sent s, d) \<and>
     si_auth_methods (sg_info s) = [Password, Totp] \<and> u_id (si_user (sg_info s)) = ''u1''"
proof -
  let ?s1 = "startSession sample_crypto sample_config 300000 ''t1'' sample_request (toUser sample_user)
     [Password, Totp] (recordSuccess ''ann'' (consumeMfaTicket sample_crypto ''m1'' (noteTotpStep ''u1'' 10 sample_totp_db)))"
  let ?s2 = "startSession sample_crypto sample_config 330000 ''t2'' sample_request (the (getUserById sample_after ''u1''))
     [Password, Totp] (recordSuccess ''ann'' (consumeMfaTicket sample_crypto ''m2'' (noteTotpStep ''u1'' 11 sample_after)))"
  have t: "ticketRow sample_crypto sample_totp_db ''m1'' = Some \<lparr>tck_id = hashToken sample_crypto ''m1'',
      tck_user_id = ''u1'', tck_created_at = 300000, tck_attempts = 0\<rparr>"
    "ticketRow sample_crypto sample_after ''m2'' = Some \<lparr>tck_id = hashToken sample_crypto ''m2'',
      tck_user_id = ''u1'', tck_created_at = 300000, tck_attempts = 0\<rparr>"
    by code_simp+
  then have k: "peekMfaTicket sample_crypto ''m1'' 300000 sample_totp_db = (Some ''u1'', sample_totp_db)"
    "peekMfaTicket sample_crypto ''m2'' 330000 sample_after = (Some ''u1'', sample_after)"
    by (simp_all add: peekMfaTicket_def TICKET_TTL_MS_def TICKET_MAX_ATTEMPTS_def)
  have p: "getUserById sample_totp_db ''u1'' = Some (toUser sample_user)" "isUserDisabled sample_totp_db ''u1'' = False"
    "getTotp sample_crypto sample_totp_db ''u1'' =
       Some \<lparr>tr_secret = ''GEZA'', tr_confirmed_at = Some 0, tr_last_used_step = Some 0\<rparr>"
    "usr_username sample_user = ''ann''"
    by code_simp+
  have q: "getUserById sample_after ''u1'' = Some ((toUser sample_user)\<lparr>u_last_login_at := Some 300000\<rparr>)"
    "isUserDisabled sample_after ''u1'' = False"
    "getTotp sample_crypto sample_after ''u1'' =
       Some \<lparr>tr_secret = ''GEZA'', tr_confirmed_at = Some 0, tr_last_used_step = Some 10\<rparr>"
    by code_simp+
  have "sample_second 300000 ''t1'' ''m1'' ''000010'' sample_totp_db = ?s1"
    by (simp add: loginTotp_def k p sample_verify)
  moreover have "sample_second 330000 ''t2'' ''m2'' ''000011'' sample_after = ?s2"
    by (simp add: loginTotp_def k q p sample_verify)
  moreover have "is_sent (fst ?s1) \<and> si_auth_methods (sg_info (sent_payload (fst ?s1))) = [Password, Totp] \<and>
      u_id (si_user (sg_info (sent_payload (fst ?s1)))) = ''u1''"
    "is_sent (fst ?s2) \<and> si_auth_methods (sg_info (sent_payload (fst ?s2))) = [Password, Totp] \<and>
      u_id (si_user (sg_info (sent_payload (fst ?s2)))) = ''u1''"
    by code_simp+
  moreover have "?s1 = (fst ?s1, sample_after)" by (simp add: sample_after_def)
  ultimately show "\<exists>s. sample_second 300000 ''t1'' ''m1'' ''000010'' sample_totp_db = (Sent s, sample_after) \<and>
      si_auth_methods (sg_info s) = [Password, Totp] \<and> u_id (si_user (sg_info s)) = ''u1''"
    "\<exists>s d. sample_second 330000 ''t2'' ''m2'' ''000011'' sample_after = (Sent s, d) \<and>
      si_auth_methods (sg_info s) = [Password, Totp] \<and> u_id (si_user (sg_info s)) = ''u1''"
    by (metis is_sent_payload prod.collapse)+
qed

theorem second_factor_sound_witness:
  "\<exists>row. ticketRow sample_crypto sample_totp_db ''m1'' = Some row \<and> tck_user_id row = ''u1'' \<and>
     ticketRow sample_crypto sample_after ''m1'' = None"
proof -
  obtain s where "sample_second 300000 ''t1'' ''m1'' ''000010'' sample_totp_db = (Sent s, sample_after)"
    and "u_id (si_user (sg_info s)) = ''u1''" using sample_second_step(1) by blast
  with second_factor_sound [OF this(1)] show ?thesis by auto
qed

theorem totp_no_replay_witness:
  "\<exists>step step'. last_step sample_after ''u1'' = Some step \<and>
     last_step (snd (sample_second 330000 ''t2'' ''m2'' ''000011'' sample_after)) ''u1'' = Some step' \<and> step < step'"
proof -
  obtain s where 1: "sample_second 300000 ''t1'' ''m1'' ''000010'' sample_totp_db = (Sent s, sample_after)"
    "si_auth_methods (sg_info s) = [Password, Totp]" "u_id (si_user (sg_info s)) = ''u1''"
    using sample_second_step(1) by blast
  obtain s' d where 2: "sample_second 330000 ''t2'' ''m2'' ''000011'' sample_after = (Sent s', d)"
    "si_auth_methods (sg_info s') = [Password, Totp]" "u_id (si_user (sg_info s')) = ''u1''"
    using sample_second_step(2) by blast
  have e: "totp_requests sample_crypto sample_config [] sample_after = sample_after" by (simp add: totp_requests_def)
  have "sample_second 330000 ''t2'' ''m2'' ''000011'' (totp_requests sample_crypto sample_config [] sample_after) = (Sent s', d)"
    using 2(1) by (simp only: e)
  from totp_no_replay [OF 1(1,2) this 2(2) 1(3) 2(3)] 2(1) show ?thesis by auto
qed

end
