(* ===== verification/AccountProps.thy ===== *)
theory AccountProps
  imports AuthProps
begin

text \<open>
  Properties of the account tables as a whole: the lockout that a burst of failures
  brings about, the session table as an abstract map, single use of challenges, and the
  secrets at rest.
\<close>

subsection \<open>Lockout\<close>

definition fail_all :: "string \<Rightarrow> millis list \<Rightarrow> db \<Rightarrow> db" where
  "fail_all u ts d = fold (\<lambda>t d. snd (recordFailure u t d)) ts d"

lemma fail_all_snoc: "fail_all u (ts @ [t]) d = snd (recordFailure u t (fail_all u ts d))"
  by (simp add: fail_all_def)

lemma lockout_burst:
  assumes "attempt_row_of d u = None" and "sorted (t # ts)" and "\<forall>v \<in> set ts. v \<le> t + LOCK_WINDOW_MS" and "7 \<le> length ts"
    and "last ts \<le> now" and "now < last ts + BASE_LOCK_MS"
  shows "0 < lockoutRemainingSeconds u now (fail_all u (t # ts) d) \<and> lockoutRemainingSeconds u now (fail_all u (t # ts) d) \<le> 900"
proof -
  have "last_failure_of d u = None" using assms(1) by (simp add: last_failure_of_def)
  then have count: "failures_of (fail_all u (t # ts) d) u = Suc (length ts)"
    using lockout.burst_counts_all [where k = u and s = d and t = t and ts = ts] assms(2,3) by (simp add: fail_all_def lockout.bump_all_def LOCK_WINDOW_MS_def)
  have ts: "t # ts = (t # butlast ts) @ [last ts]" using assms(4) by (cases ts) simp_all
  let ?d = "fail_all u (t # butlast ts) d" and ?n = "next_failures u (last ts) (fail_all u (t # butlast ts) d)"
  have after: "fail_all u (t # ts) d = snd (recordFailure u (last ts) ?d)" by (subst ts) (simp only: fail_all_snoc)
  from recordFailure_row [of u "last ts" ?d] obtain r where r: "attempt_row_of (fail_all u (t # ts) d) u = Some r"
    "att_failures r = ?n" "att_locked_until r = lock_until u (last ts) ?d" unfolding after by blast
  then have "?n = Suc (length ts)" using count by (simp add: failures_of_def)
  then have until: "att_locked_until r = Some (last ts + lock_ms ?n)"
    using r(3) assms(4) by (simp add: lock_until_def LOCK_THRESHOLD_def)
  let ?left = "last ts + lock_ms ?n - now"
  have left: "0 < ?left" "?left \<le> 900000" using lock_ms_bounds [of ?n] assms(5,6) by (simp_all add: BASE_LOCK_MS_def)
  then show ?thesis
    using r(1) until ceil_seconds_mono [OF left(2)] ceil_seconds_mono [of 1 ?left]
    by (simp add: lockoutRemainingSeconds_def ceil_seconds_def)
qed

text \<open>
  C24. Eight failures within a quarter of an hour lock an account: for at least a minute
  after the last of them every sign-in is refused, with the right password too, and
  changes nothing; the wait that is announced is never more than fifteen minutes.
\<close>

theorem lockout_engages:
  assumes "attempt_row_of d u = None" and "sorted (t # ts)" and "\<forall>v \<in> set ts. v \<le> t + LOCK_WINDOW_MS" and "7 \<le> length ts"
    and "last ts \<le> now" and "now < last ts + BASE_LOCK_MS"
    and "js_trim u = u" and "u \<noteq> ''''" and "password \<noteq> ''''"
  shows "lockoutRemainingSeconds u now (fail_all u (t # ts) d) \<in> {1..900} \<and>
    loginPassword cr cfg banAddress trusted now token ticket rq u password (fail_all u (t # ts) d, k) =
      (Refused 429 ''locked_out'', fail_all u (t # ts) d, k)"
  using lockout_burst [OF assms(1-6)] assms(7-9) by (simp add: loginPassword_def Let_def)

theorem lockout_engages_witness:
  "lockoutRemainingSeconds ''ann'' 7050 (fail_all ''ann'' [0, 1000, 2000, 3000, 4000, 5000, 6000, 7000] sample_db) \<in> {1..900}"
proof -
  have "attempt_row_of sample_db ''ann'' = None" "js_trim ''ann'' = ''ann''" by code_simp+
  from lockout_engages [OF this(1), of 0 "[1000, 2000, 3000, 4000, 5000, 6000, 7000]" 7050 "''x''" sample_crypto sample_config
      sample_ban "[]" "''t''" "''m''" sample_request] this(2)
  show ?thesis by (simp add: LOCK_WINDOW_MS_def BASE_LOCK_MS_def)
qed

subsection \<open>The session table as a map\<close>

definition session_map :: "db \<Rightarrow> string \<rightharpoonup> session_record" where
  "session_map d = (\<lambda>i. map_option toSessionRecord (sql_get (\<lambda>r. ses_id r = i) (db_sessions d)))"

lemma session_map_drop:
  assumes "keyed ses_id (db_sessions d)" and "\<And>r. P r \<longleftrightarrow> Q (toSessionRecord r)"
  shows "session_map (d\<lparr>db_sessions := sql_delete P (db_sessions d)\<rparr>) =
    (\<lambda>i. case session_map d i of None \<Rightarrow> None | Some s \<Rightarrow> if Q s then None else Some s)"
proof
  fix i
  have "sql_get (\<lambda>r. ses_id r = i) (sql_delete P t) =
      (case sql_get (\<lambda>r. ses_id r = i) t of None \<Rightarrow> None | Some r \<Rightarrow> if P r then None else Some r)"
    if "keyed ses_id t" for t
    using that
  proof (induction t)
    case (Cons r t)
    have "ses_id r = i \<Longrightarrow> sql_get (\<lambda>r. ses_id r = i) (sql_delete P t) = None"
      using Cons.prems unfolding sql_get_None keyed_def by (simp add: image_iff) metis
    then show ?case using Cons by (auto simp: keyed_def)
  qed simp
  from this [OF assms(1)] show "session_map (d\<lparr>db_sessions := sql_delete P (db_sessions d)\<rparr>) i =
      (case session_map d i of None \<Rightarrow> None | Some s \<Rightarrow> if Q s then None else Some s)"
    using assms(2) by (auto simp: session_map_def split: option.splits)
qed



subsection \<open>Challenges and stored secrets\<close>

fun take_all :: "(string \<times> millis) list \<Rightarrow> db \<Rightarrow> (string \<times> stored_challenge option) list" where
  "take_all [] d = []"
| "take_all ((i, now) # as) d = (i, fst (takeChallenge i now d)) # take_all as (snd (takeChallenge i now d))"

lemma take_all_attempts: "take_all as d = challenges.attempts as d"
  by (induction as d rule: take_all.induct) simp_all

text \<open>
  A WebAuthn challenge is accepted at most once: of any sequence of attempts to take
  challenges, at any times, at most one gets the challenge with a given identifier.
\<close>

theorem challenge_accepted_once:
  shows "length (filter (\<lambda>(j, r). j = i \<and> r \<noteq> None) (take_all as d)) \<le> 1"
  unfolding take_all_attempts by (rule challenges.at_most_one_success)

text \<open>
  Settings survive the seal: a setting reads back as it was written, secret or not, with
  every other setting unchanged, and the pass that seals older secrets at boot changes
  what is stored but never what is read, and nothing on a second boot.
\<close>

theorem sealed_settings_read_back:
  assumes "sound_gcm cr" and "base64_text salt" and "base64_text iv" and "base64_text (fst rnd)" and "base64_text (snd rnd)"
  shows "getSetting cr (setSetting cr salt iv k v d) j = (if j = k then Some v else getSetting cr d j) \<and>
    decryptSecret cr (sealValue cr rnd w) = decryptSecret cr w \<and>
    sealValue cr rnd' (sealValue cr rnd w) = sealValue cr rnd w"
  using getSetting_setSetting [OF assms(1-3)] sealValue_reads_same [OF assms(1,4,5)] sealValue_idem by blast

theorem sealed_settings_read_back_witness:
  "getSetting sample_crypto (setSetting sample_crypto ''A'' ''A'' ''oidc_client_secret'' ''s3cret'' sample_db) ''oidc_client_secret'' = Some ''s3cret''"
proof -
  have "base64_text ''A''" by code_simp
  then show ?thesis
    using sealed_settings_read_back [OF sample_sound_gcm, of "''A''" "''A''" "(''A'', ''A'')"] by simp
qed

end
