(* ===== verification/OidcProvider.thy ===== *)
theory OidcProvider
  imports Tokens Samples "HOL-Library.AList"
begin

text \<open>
  OpenNAS as an identity provider: the in-memory store of codes and access tokens
  (\<open>oidc/store.ts\<close>), the registered clients (\<open>db/oidc-clients.ts\<close>) and the endpoints of
  \<open>oidc/provider.ts\<close>.  A JavaScript \<open>Map\<close> is an association list: \<open>set\<close> replaces in
  place or appends.  The HTML of the consent and error pages and the signing of the
  JWT are left out; its claims are the result.
\<close>

subsection \<open>\<open>oidc/store.ts\<close>\<close>

record auth_code_data =
  ac_user_id :: string
  ac_client_id :: string
  ac_redirect_uri :: string
  ac_scope :: string
  ac_nonce :: "string option"
  ac_code_challenge :: "string option"
  ac_auth_time :: int

record auth_code = auth_code_data +
  ac_exp :: millis

record access_token =
  at_user_id :: string
  at_client_id :: string
  at_scope :: string
  at_exp :: millis

record oidc_store =
  st_codes :: "(string \<times> auth_code) list"
  st_tokens :: "(string \<times> access_token) list"

definition issueCode :: "string \<Rightarrow> auth_code_data \<Rightarrow> millis \<Rightarrow> oidc_store \<Rightarrow> oidc_store" where
  "issueCode fresh c now st =
     st\<lparr>st_codes := AList.update fresh (auth_code_data.extend c (auth_code.fields (now + 60000))) (st_codes st)\<rparr>"

definition consumeCode :: "string \<Rightarrow> millis \<Rightarrow> oidc_store \<Rightarrow> auth_code option \<times> oidc_store" where
  "consumeCode k now st =
     (case map_of (st_codes st) k of
        None \<Rightarrow> (None, st)
      | Some c \<Rightarrow> (if ac_exp c > now then Some c else None,
                   st\<lparr>st_codes := AList.delete k (st_codes st)\<rparr>))"

definition issueAccessToken ::
  "string \<Rightarrow> string \<Rightarrow> string \<Rightarrow> string \<Rightarrow> int \<Rightarrow> millis \<Rightarrow> oidc_store \<Rightarrow> (string \<times> millis) \<times> oidc_store" where
  "issueAccessToken fresh userId clientId scope ttlSec now st =
     (let e = now + ttlSec * 1000
      in ((fresh, e), st\<lparr>st_tokens := AList.update fresh
            \<lparr>at_user_id = userId, at_client_id = clientId, at_scope = scope, at_exp = e\<rparr> (st_tokens st)\<rparr>))"

definition getAccessToken :: "string \<Rightarrow> millis \<Rightarrow> oidc_store \<Rightarrow> access_token option \<times> oidc_store" where
  "getAccessToken k now st =
     (case map_of (st_tokens st) k of
        None \<Rightarrow> (None, st)
      | Some t \<Rightarrow> if at_exp t \<le> now then (None, st\<lparr>st_tokens := AList.delete k (st_tokens st)\<rparr>)
                  else (Some t, st))"

definition pruneOidc :: "millis \<Rightarrow> oidc_store \<Rightarrow> oidc_store" where
  "pruneOidc now st = st\<lparr>st_codes := filter (\<lambda>(k, v). \<not> ac_exp v \<le> now) (st_codes st),
     st_tokens := filter (\<lambda>(k, v). \<not> at_exp v \<le> now) (st_tokens st)\<rparr>"

subsection \<open>\<open>db/oidc-clients.ts\<close>\<close>

text \<open>\<open>s.split(/\s+/)\<close>: leading or trailing white space gives an empty first or last piece.\<close>

function split_ws :: "string \<Rightarrow> string list" where
  "split_ws s =
     (case dropWhile (\<lambda>c. \<not> js_space c) s of
        [] \<Rightarrow> [s]
      | c # cs \<Rightarrow> takeWhile (\<lambda>c. \<not> js_space c) s # split_ws (dropWhile js_space cs))"
  by pat_completeness auto

termination
proof (relation "measure length")
  fix s c cs
  assume d: "dropWhile (\<lambda>c. \<not> js_space c) s = c # cs"
  have "length (dropWhile js_space cs) \<le> length cs" by (rule length_dropWhile_le)
  also have "\<dots> < length (dropWhile (\<lambda>c. \<not> js_space c) s)" by (simp add: d)
  also have "\<dots> \<le> length s" by (rule length_dropWhile_le)
  finally show "(dropWhile js_space cs, s) \<in> measure length" by simp
qed simp

record client_record =
  clr_client_id :: string
  clr_name :: string
  clr_redirect_uris :: "string list"
  clr_scopes :: "string list"
  clr_created_at :: millis

definition toClientRecord :: "client_row \<Rightarrow> client_record" where
  "toClientRecord r = \<lparr>clr_client_id = cli_client_id r, clr_name = cli_name r,
     clr_redirect_uris = cli_redirect_uris r,
     clr_scopes = filter (\<lambda>s. s \<noteq> '''') (split_ws (cli_scopes r)), clr_created_at = cli_created_at r\<rparr>"

definition clientRow :: "db \<Rightarrow> string \<Rightarrow> client_row option" where
  "clientRow d i = sql_get (\<lambda>r. cli_client_id r = i) (db_clients d)"

definition listClients :: "db \<Rightarrow> client_record list" where
  "listClients d = map toClientRecord (order_asc cli_created_at (db_clients d))"

definition getClient :: "db \<Rightarrow> string \<Rightarrow> client_record option" where
  "getClient d i = map_option toClientRecord (clientRow d i)"

text \<open>\<open>fresh\<close> is the hexadecimal text of twelve random bytes, \<open>secret\<close> of thirty-two in base64url.\<close>

definition createClient ::
  "crypto \<Rightarrow> string \<Rightarrow> string \<Rightarrow> string \<Rightarrow> string list \<Rightarrow> string list \<Rightarrow> millis \<Rightarrow> db \<Rightarrow>
     sql_error + ((client_record option \<times> string) \<times> db)" where
  "createClient cr fresh secret name redirectUris scopes now d =
     (let clientId = ''onc_'' @ fresh in
      bind_ok (sql_insert cli_client_id
          \<lparr>cli_client_id = clientId, cli_secret_hash = cr_sha256_hex cr secret, cli_name = name,
           cli_redirect_uris = redirectUris, cli_scopes = join '' '' scopes, cli_created_at = now\<rparr> (db_clients d))
        (\<lambda>t. let d1 = d\<lparr>db_clients := t\<rparr> in Inr ((getClient d1 clientId, secret), d1)))"

definition deleteClient :: "string \<Rightarrow> db \<Rightarrow> bool \<times> db" where
  "deleteClient i d = (sql_count (\<lambda>r. cli_client_id r = i) (db_clients d) > 0,
     d\<lparr>db_clients := sql_delete (\<lambda>r. cli_client_id r = i) (db_clients d)\<rparr>)"

definition verifyClientSecret :: "crypto \<Rightarrow> db \<Rightarrow> string \<Rightarrow> string \<Rightarrow> bool" where
  "verifyClientSecret cr d i secret =
     (case clientRow d i of None \<Rightarrow> False | Some r \<Rightarrow> cr_sha256_hex cr secret = cli_secret_hash r)"

subsection \<open>\<open>oidc/provider.ts\<close>\<close>

definition SUPPORTED_SCOPES :: "string list" where
  "SUPPORTED_SCOPES = [''openid'', ''profile'', ''email'']"

record claims =
  cm_sub :: string
  cm_name :: "(string \<times> string) option"
  cm_email :: "string option"

definition claimsFor :: "db \<Rightarrow> string \<Rightarrow> string \<Rightarrow> claims option" where
  "claimsFor d userId scope =
     (case getUserById d userId of
        None \<Rightarrow> None
      | Some u \<Rightarrow>
          (let scopes = split_ws scope
           in Some \<lparr>cm_sub = u_id u,
                cm_name = (if ''profile'' \<in> set scopes then Some (u_display_name u, u_username u) else None),
                cm_email = (if ''email'' \<in> set scopes \<and> u_email u \<noteq> None \<and> u_email u \<noteq> Some ''''
                            then u_email u else None)\<rparr>))"

definition validateClientRedirect :: "db \<Rightarrow> string option \<Rightarrow> string option \<Rightarrow> (client_record \<times> string) option" where
  "validateClientRedirect d clientId redirectUri =
     (case clientId of
        None \<Rightarrow> None
      | Some i \<Rightarrow> if i = '''' then None else
          (case getClient d i of
             None \<Rightarrow> None
           | Some c \<Rightarrow>
               (case redirectUri of
                  None \<Rightarrow> None
                | Some r \<Rightarrow> if r = '''' \<or> r \<notin> set (clr_redirect_uris c) then None else Some (c, r))))"

text \<open>What the browser is told: an error page, a redirect with query parameters, or the consent form.\<close>

datatype authorize_reply =
    ErrorPage
  | RedirectTo string "(string \<times> string) list"
  | LoginFirst
  | ConsentPage client_record "string list"

record authorize_query =
  aq_client_id :: "string option"
  aq_redirect_uri :: "string option"
  aq_response_type :: "string option"
  aq_scope :: "string option"
  aq_state :: "string option"
  aq_nonce :: "string option"
  aq_code_challenge :: "string option"
  aq_code_challenge_method :: "string option"

definition truthy :: "string option \<Rightarrow> bool" where
  "truthy s \<longleftrightarrow> s \<noteq> None \<and> s \<noteq> Some ''''"

definition with_state :: "string option \<Rightarrow> (string \<times> string) list \<Rightarrow> (string \<times> string) list" where
  "with_state s ps = (if truthy s then ps @ [(''state'', the s)] else ps)"

definition getAuthorize :: "db \<Rightarrow> string option \<Rightarrow> authorize_query \<Rightarrow> authorize_reply" where
  "getAuthorize d auth q =
     (case validateClientRedirect d (aq_client_id q) (aq_redirect_uri q) of
        None \<Rightarrow> ErrorPage
      | Some (client, uri) \<Rightarrow>
          if aq_response_type q \<noteq> Some ''code''
          then RedirectTo uri (with_state (aq_state q) [(''error'', ''unsupported_response_type'')])
          else
            (let scope = (case aq_scope q of None \<Rightarrow> '''' | Some s \<Rightarrow> s) in
             if ''openid'' \<notin> set (split_ws scope)
             then RedirectTo uri (with_state (aq_state q)
                    [(''error'', ''invalid_scope''), (''error_description'', ''openid scope required'')])
             else if truthy (aq_code_challenge q) \<and> aq_code_challenge_method q \<noteq> Some ''S256''
             then RedirectTo uri (with_state (aq_state q)
                    [(''error'', ''invalid_request''), (''error_description'', ''only S256 PKCE supported'')])
             else if auth = None then LoginFirst
             else ConsentPage client (filter (\<lambda>s. s \<in> set SUPPORTED_SCOPES) (split_ws scope))))"

record authorize_body =
  ab_client_id :: "string option"
  ab_redirect_uri :: "string option"
  ab_decision :: "string option"
  ab_scope :: "string option"
  ab_state :: "string option"
  ab_nonce :: "string option"
  ab_code_challenge :: "string option"

definition postAuthorize ::
  "string \<Rightarrow> millis \<Rightarrow> db \<Rightarrow> string option \<Rightarrow> authorize_body \<Rightarrow> oidc_store \<Rightarrow> authorize_reply \<times> oidc_store" where
  "postAuthorize fresh now d auth b st =
     (case validateClientRedirect d (ab_client_id b) (ab_redirect_uri b) of
        None \<Rightarrow> (ErrorPage, st)
      | Some (client, uri) \<Rightarrow>
          (case auth of
             None \<Rightarrow> (ErrorPage, st)
           | Some userId \<Rightarrow>
               (let ps = with_state (ab_state b) [] in
                if ab_decision b \<noteq> Some ''allow'' then (RedirectTo uri (ps @ [(''error'', ''access_denied'')]), st)
                else (RedirectTo uri (ps @ [(''code'', fresh)]),
                      issueCode fresh
                        \<lparr>ac_user_id = userId, ac_client_id = clr_client_id client, ac_redirect_uri = uri,
                         ac_scope = (case ab_scope b of None \<Rightarrow> ''openid'' | Some s \<Rightarrow> s),
                         ac_nonce = ab_nonce b, ac_code_challenge = ab_code_challenge b,
                         ac_auth_time = now div 1000\<rparr> now st))))"

text \<open>The body of a token request; \<open>tb_basic\<close> is the decoded text of a \<open>Basic\<close> authorization header.\<close>

record token_body =
  tb_grant_type :: "string option"
  tb_client_id :: "string option"
  tb_client_secret :: "string option"
  tb_code :: "string option"
  tb_redirect_uri :: "string option"
  tb_code_verifier :: "string option"
  tb_basic :: "string option"

record token_reply =
  tk_access_token :: string
  tk_claims :: claims
  tk_aud :: string
  tk_nonce :: "string option"
  tk_auth_time :: int
  tk_scope :: string

definition token_client :: "token_body \<Rightarrow> string option \<times> string option" where
  "token_client b =
     (case tb_basic b of
        None \<Rightarrow> (tb_client_id b, tb_client_secret b)
      | Some t \<Rightarrow>
          (let ps = split_on (CHR '':'') t;
               i = hd ps
           in (if i = '''' then tb_client_id b else Some i,
               case tl ps of [] \<Rightarrow> tb_client_secret b | s # _ \<Rightarrow> Some s)))"

text \<open>\<open>b.code ?? ""\<close>.\<close>

definition presented_code :: "token_body \<Rightarrow> string" where
  "presented_code b = (case tb_code b of None \<Rightarrow> '''' | Some k \<Rightarrow> k)"

text \<open>PKCE where the code has a challenge, the client secret otherwise; the error, if any.\<close>

definition client_auth_error ::
  "crypto \<Rightarrow> db \<Rightarrow> string \<Rightarrow> string option \<Rightarrow> token_body \<Rightarrow> auth_code \<Rightarrow> string option" where
  "client_auth_error cr d clientId clientSecret b c =
     (if truthy (ac_code_challenge c) then
        (if \<not> truthy (tb_code_verifier b) \<or>
            cr_sha256_b64url cr (the (tb_code_verifier b)) \<noteq> the (ac_code_challenge c)
         then Some ''invalid_grant'' else None)
      else
        (if \<not> truthy clientSecret \<or> \<not> verifyClientSecret cr d clientId (the clientSecret)
         then Some ''invalid_client'' else None))"

definition postToken ::
  "crypto \<Rightarrow> string \<Rightarrow> millis \<Rightarrow> db \<Rightarrow> token_body \<Rightarrow> oidc_store \<Rightarrow> token_reply reply \<times> oidc_store" where
  "postToken cr fresh now d b st =
     (if tb_grant_type b \<noteq> Some ''authorization_code'' then (Refused 400 ''unsupported_grant_type'', st)
      else
        (let (clientId, clientSecret) = token_client b in
         if \<not> truthy clientId \<or> getClient d (the clientId) = None then (Refused 400 ''invalid_client'', st)
         else
           (let (found, st1) = consumeCode (presented_code b) now st in
            case found of
              None \<Rightarrow> (Refused 400 ''invalid_grant'', st1)
            | Some c \<Rightarrow>
                if ac_client_id c \<noteq> the clientId then (Refused 400 ''invalid_grant'', st1)
                else if Some (ac_redirect_uri c) \<noteq> tb_redirect_uri b then (Refused 400 ''invalid_grant'', st1)
                else
                  (case client_auth_error cr d (the clientId) clientSecret b c of
                     Some e \<Rightarrow> (Refused 400 e, st1)
                   | None \<Rightarrow>
                  (case claimsFor d (ac_user_id c) (ac_scope c) of
                     None \<Rightarrow> (Refused 400 ''invalid_grant'', st1)
                   | Some cs \<Rightarrow>
                       (let (t, st2) = issueAccessToken fresh (ac_user_id c) (the clientId) (ac_scope c) 3600 now st1
                        in (Sent \<lparr>tk_access_token = fst t, tk_claims = cs, tk_aud = the clientId,
                                  tk_nonce = (if truthy (ac_nonce c) then ac_nonce c else None),
                                  tk_auth_time = ac_auth_time c, tk_scope = ac_scope c\<rparr>, st2)))))))"

definition userinfo :: "millis \<Rightarrow> db \<Rightarrow> string option \<Rightarrow> oidc_store \<Rightarrow> claims reply \<times> oidc_store" where
  "userinfo now d bearer st =
     (let (found, st1) = (if truthy bearer then getAccessToken (the bearer) now st else (None, st)) in
      case found of
        None \<Rightarrow> (Refused 401 ''invalid_token'', st1)
      | Some t \<Rightarrow>
          (case claimsFor d (at_user_id t) (at_scope t) of
             None \<Rightarrow> (Refused 404 ''not_found'', st1)
           | Some cs \<Rightarrow> (Sent cs, st1)))"

subsection \<open>Lemmas\<close>

definition held_code :: "oidc_store \<Rightarrow> string \<Rightarrow> (auth_code_data \<times> millis) option" where
  "held_code st k = map_option (\<lambda>c. (auth_code_data.truncate c, ac_exp c - 60000)) (map_of (st_codes st) k)"

interpretation codes: single_use issueCode
  "\<lambda>k n st. (map_option auth_code_data.truncate (fst (consumeCode k n st)), snd (consumeCode k n st))"
  held_code 59999
proof unfold_locales
  show "held_code (issueCode k c n st) = (held_code st)(k \<mapsto> (c, n))" for st k c n
    by (rule ext) (simp add: held_code_def issueCode_def update_conv' auth_code_data.defs auth_code.defs)
next
  show "held_code (snd (map_option auth_code_data.truncate (fst (consumeCode k n st)), snd (consumeCode k n st)))
      = (held_code st)(k := None)" for k n st
    by (rule ext) (auto simp: held_code_def consumeCode_def delete_conv' split: option.split)
next
  show "fst (map_option auth_code_data.truncate (fst (consumeCode k n st)), snd (consumeCode k n st)) =
    (case held_code st k of None \<Rightarrow> None | Some (v, c) \<Rightarrow> if 59999 < n - c then None else Some v)" for k n st
    by (auto simp: held_code_def consumeCode_def split: option.split)
qed

text \<open>Everything a token answer rests on.\<close>

definition proves_client :: "crypto \<Rightarrow> db \<Rightarrow> token_body \<Rightarrow> auth_code \<Rightarrow> bool" where
  "proves_client cr d b c \<longleftrightarrow>
     (if truthy (ac_code_challenge c)
      then truthy (tb_code_verifier b) \<and> cr_sha256_b64url cr (the (tb_code_verifier b)) = the (ac_code_challenge c)
      else truthy (snd (token_client b)) \<and>
           verifyClientSecret cr d (the (fst (token_client b))) (the (snd (token_client b))))"

lemma postToken_Sent:
  assumes "postToken cr fresh now d b st = (Sent r, st')"
  obtains c where "map_of (st_codes st) (presented_code b) = Some c" and "now < ac_exp c"
    and "fst (token_client b) = Some (ac_client_id c)" and "tb_redirect_uri b = Some (ac_redirect_uri c)"
    and "getClient d (ac_client_id c) \<noteq> None" and "proves_client cr d b c"
    and "claimsFor d (ac_user_id c) (ac_scope c) = Some (tk_claims r)"
    and "tk_aud r = ac_client_id c" and "tk_scope r = ac_scope c"
    and "st' = snd (issueAccessToken fresh (ac_user_id c) (ac_client_id c) (ac_scope c) 3600 now
           (snd (consumeCode (presented_code b) now st)))"
    and "tk_access_token r = fresh"
proof -
  obtain i s where t: "token_client b = (i, s)" by fastforce
  have g: "tb_grant_type b = Some ''authorization_code''"
    using assms by (simp add: postToken_def split: if_splits)
  have i: "truthy i" "getClient d (the i) \<noteq> None"
    using assms g by (simp_all add: postToken_def t split: if_splits)
  note unfolded = assms [unfolded postToken_def t Let_def case_prod_conv, simplified g i, simplified]
  obtain c where found: "fst (consumeCode (presented_code b) now st) = Some c"
    using unfolded by (cases "fst (consumeCode (presented_code b) now st)") (simp_all add: case_prod_beta i)
  then have m: "map_of (st_codes st) (presented_code b) = Some c" "now < ac_exp c"
    by (auto simp: consumeCode_def split: option.splits if_splits)
  have ids: "ac_client_id c = the i" "Some (ac_redirect_uri c) = tb_redirect_uri b"
    using unfolded by (simp_all add: case_prod_beta i found split: if_splits)
  have auth: "client_auth_error cr d (the i) s b c = None"
    using unfolded by (simp add: case_prod_beta i found ids split: if_splits option.splits)
  obtain cs where cs: "claimsFor d (ac_user_id c) (ac_scope c) = Some cs"
    using unfolded by (cases "claimsFor d (ac_user_id c) (ac_scope c)") (simp_all add: case_prod_beta i found ids auth)
  have r: "tk_claims r = cs" "tk_aud r = the i" "tk_scope r = ac_scope c" "tk_access_token r = fresh"
    and st': "st' = snd (issueAccessToken fresh (ac_user_id c) (the i) (ac_scope c) 3600 now
           (snd (consumeCode (presented_code b) now st)))"
    using unfolded by (auto simp: case_prod_beta i found ids auth cs issueAccessToken_def Let_def)
  from i ids have some: "i = Some (ac_client_id c)" by (auto simp: truthy_def)
  have pc: "proves_client cr d b c"
    using auth by (simp add: client_auth_error_def proves_client_def t some split: if_splits)
  have fst_t: "fst (token_client b) = Some (ac_client_id c)" by (simp add: t some)
  have uri: "tb_redirect_uri b = Some (ac_redirect_uri c)" by (rule ids(2) [symmetric])
  show thesis
    by (rule that [OF m fst_t uri _ pc]) (use i(2) cs r st' ids(1) in \<open>simp_all only: simp_thms not_False_eq_True\<close>)
qed

lemma postToken_codes:
  "postToken cr fresh now d b st = (r, st') \<Longrightarrow>
     st_codes st' = st_codes st \<or> st_codes st' = AList.delete (presented_code b) (st_codes st)"
  by (auto simp: postToken_def Let_def consumeCode_def issueAccessToken_def
      split: if_splits option.splits prod.splits)

lemma consumeCode_gone: "map_of (st_codes (snd (consumeCode k now st))) k = None"
  by (auto simp: consumeCode_def delete_conv' split: option.split)

lemma getAccessToken_issued:
  "later < now + ttl * 1000 \<Longrightarrow>
    fst (getAccessToken k later (snd (issueAccessToken k u c s ttl now st))) =
      Some \<lparr>at_user_id = u, at_client_id = c, at_scope = s, at_exp = now + ttl * 1000\<rparr>"
  by (simp add: getAccessToken_def issueAccessToken_def Let_def update_conv')

lemma claimsFor_sub: "claimsFor d u s = Some c \<Longrightarrow> cm_sub c = u \<and> u \<in> user_ids d"
  by (auto simp: claimsFor_def Let_def split: option.splits dest!: getUserById_SomeD)

subsection \<open>Properties\<close>

text \<open>
  C22. The token endpoint answers only for a live code that this very client was issued
  at this very redirect URI, to a caller who proves itself by PKCE where the code has a
  challenge and by the client secret otherwise; and the code is spent by the answer, so
  no later request with it is answered, whoever makes it.
\<close>

theorem token_endpoint_sound:
  assumes "postToken cr fresh now d b st = (Sent r, st')"
  shows "(\<exists>c. map_of (st_codes st) (presented_code b) = Some c \<and> now < ac_exp c \<and>
      fst (token_client b) = Some (ac_client_id c) \<and> tb_redirect_uri b = Some (ac_redirect_uri c) \<and>
      proves_client cr d b c \<and> claimsFor d (ac_user_id c) (ac_scope c) = Some (tk_claims r)) \<and>
    (\<forall>cr' fresh' now' d' b' r'. presented_code b' = presented_code b \<longrightarrow>
      fst (postToken cr' fresh' now' d' b' st') \<noteq> Sent r')"
proof -
  from assms obtain c where c: "map_of (st_codes st) (presented_code b) = Some c" "now < ac_exp c"
    "fst (token_client b) = Some (ac_client_id c)" "tb_redirect_uri b = Some (ac_redirect_uri c)"
    "proves_client cr d b c" "claimsFor d (ac_user_id c) (ac_scope c) = Some (tk_claims r)"
    and st': "st' = snd (issueAccessToken fresh (ac_user_id c) (ac_client_id c) (ac_scope c) 3600 now
           (snd (consumeCode (presented_code b) now st)))"
    using postToken_Sent by metis
  have "st_codes st' = st_codes (snd (consumeCode (presented_code b) now st))"
    unfolding st' by (simp add: issueAccessToken_def Let_def)
  then have gone: "map_of (st_codes st') (presented_code b) = None" by (simp add: consumeCode_gone)
  have "fst (postToken cr' fresh' now' d' b' st') \<noteq> Sent r'" if "presented_code b' = presented_code b"
    for cr' fresh' now' d' b' r'
  proof
    assume "fst (postToken cr' fresh' now' d' b' st') = Sent r'"
    then obtain st'' where "postToken cr' fresh' now' d' b' st' = (Sent r', st'')" by (metis prod.collapse)
    then show False by (rule postToken_Sent) (use gone that in simp)
  qed
  with c show ?thesis by blast
qed

definition sample_oidc_db :: db where
  "sample_oidc_db = empty_db\<lparr>db_users := [sample_user],
     db_clients := [\<lparr>cli_client_id = ''onc_1'', cli_secret_hash = ''s'', cli_name = ''Wiki'',
       cli_redirect_uris = [''https://w/cb''], cli_scopes = ''openid'', cli_created_at = 0\<rparr>]\<rparr>"

definition sample_token_body :: token_body where
  "sample_token_body = \<lparr>tb_grant_type = Some ''authorization_code'', tb_client_id = Some ''onc_1'',
     tb_client_secret = Some ''s'', tb_code = Some ''k'', tb_redirect_uri = Some ''https://w/cb'',
     tb_code_verifier = None, tb_basic = None\<rparr>"

definition sample_store :: oidc_store where
  "sample_store = issueCode ''k'' \<lparr>ac_user_id = ''u1'', ac_client_id = ''onc_1'',
     ac_redirect_uri = ''https://w/cb'', ac_scope = ''openid'', ac_nonce = None, ac_code_challenge = None,
     ac_auth_time = 0\<rparr> 0 \<lparr>st_codes = [], st_tokens = []\<rparr>"

lemma sample_token_answer:
  "\<exists>r st'. postToken sample_crypto ''t'' 1000 sample_oidc_db sample_token_body sample_store = (Sent r, st')"
proof -
  have "is_sent (fst (postToken sample_crypto ''t'' 1000 sample_oidc_db sample_token_body sample_store))"
    by code_simp
  then show ?thesis by (cases "postToken sample_crypto ''t'' 1000 sample_oidc_db sample_token_body sample_store")
    (auto elim: is_sent.elims)
qed

theorem token_endpoint_sound_witness:
  "\<forall>cr' fresh' now' d' r'. fst (postToken cr' fresh' now' d' sample_token_body
     (snd (postToken sample_crypto ''t'' 1000 sample_oidc_db sample_token_body sample_store))) \<noteq> Sent r'"
proof -
  obtain r st' where s: "postToken sample_crypto ''t'' 1000 sample_oidc_db sample_token_body sample_store = (Sent r, st')"
    using sample_token_answer by blast
  show ?thesis unfolding s using token_endpoint_sound [OF s] by simp
qed

end
