(* ===== verification/NfsRules.thy ===== *)
theory NfsRules
  imports Schema Contracts
begin

text \<open>
  Per-share NFS clients: \<open>apps/api/src/db/nfs-rules.ts\<close>.  Whatever
  \<open>isValidNfsClient\<close> accepts is written into \<open>/etc/exports\<close>.  \<open>(share_id, network)\<close> is
  unique and \<open>share_id\<close> references \<open>shares\<close>.
\<close>

record nfs_rule =
  nr_id :: string
  nr_network :: string
  nr_level :: string
  nr_root_squash :: bool

definition MAX_NFS_RULES :: nat where "MAX_NFS_RULES = 20"

text \<open>The characters of \<open>/[\s(),#"'\\]/\<close>.\<close>

definition exports_meta :: "char \<Rightarrow> bool" where
  "exports_meta c \<longleftrightarrow> js_space c \<or> code_unit c \<in> {40, 41, 44, 35, 34, 39, 92}"

definition short_number :: "nat \<Rightarrow> string \<Rightarrow> bool" where
  "short_number k s \<longleftrightarrow> 1 \<le> length s \<and> length s \<le> k \<and> list_all is_digit s"

text \<open>\<open>/^\d{1,3}(\.\d{1,3}){3}(\/\d{1,2})?$/\<close>\<close>

definition ipv4_like :: "string \<Rightarrow> bool" where
  "ipv4_like v = (case split_on (CHR ''/'') v of
       [a] \<Rightarrow> length (split_on (CHR ''.'') a) = 4 \<and> list_all (short_number 3) (split_on (CHR ''.'') a)
     | [a, b] \<Rightarrow> length (split_on (CHR ''.'') a) = 4 \<and> list_all (short_number 3) (split_on (CHR ''.'') a) \<and> short_number 2 b
     | _ \<Rightarrow> False)"

text \<open>\<open>/^[a-zA-Z0-9*?]([a-zA-Z0-9.*?-]*[a-zA-Z0-9*?])?$/\<close>\<close>

definition host_edge :: "char \<Rightarrow> bool" where
  "host_edge c \<longleftrightarrow> is_alnum c \<or> c = CHR ''*'' \<or> c = CHR ''?''"

definition host_like :: "string \<Rightarrow> bool" where
  "host_like v \<longleftrightarrow> v \<noteq> '''' \<and> host_edge (hd v) \<and> host_edge (last v) \<and>
     list_all (\<lambda>c. host_edge c \<or> c = CHR ''.'' \<or> c = CHR ''-'') v"

definition isValidNfsClient :: "string \<Rightarrow> bool" where
  "isValidNfsClient spec =
     (let v = js_trim spec in
      if v = '''' \<or> length v > 255 then False
      else if v = ''*'' then True
      else if list_ex exports_meta v then False
      else if ipv4_like v then
        (let parts = split_on (CHR ''/'') v in
         if list_ex (\<lambda>octet. decimal octet > 255) (split_on (CHR ''.'') (hd parts)) then False
         else (case tl parts of b # _ \<Rightarrow> decimal b \<le> 32 | [] \<Rightarrow> True))
      else host_like v)"

definition toRule :: "nfs_rule_row \<Rightarrow> nfs_rule" where
  "toRule r = \<lparr>nr_id = nfs_id r, nr_network = nfs_network r, nr_level = nfs_level r,
     nr_root_squash = nfs_root_squash r\<rparr>"

definition listNfsRules :: "db \<Rightarrow> string \<Rightarrow> nfs_rule list" where
  "listNfsRules d shareId =
     map toRule (order_asc nfs_created_at (filter (\<lambda>r. nfs_share_id r = shareId) (db_nfs_rules d)))"

text \<open>A \<open>Map\<close> keeps its keys in insertion order.\<close>

definition allNfsRules :: "db \<Rightarrow> (string \<times> nfs_rule list) list" where
  "allNfsRules d =
     fold (\<lambda>r out. if List.member (map fst out) (nfs_share_id r)
                     then map (\<lambda>(k, l). if k = nfs_share_id r then (k, l @ [toRule r]) else (k, l)) out
                     else out @ [(nfs_share_id r, [toRule r])])
       (order_asc nfs_created_at (db_nfs_rules d)) []"

record set_nfs_rule_input =
  sni_share_id :: string
  sni_network :: string
  sni_level :: string
  sni_root_squash :: bool

definition setNfsRule ::
  "string \<Rightarrow> millis \<Rightarrow> set_nfs_rule_input \<Rightarrow> db \<Rightarrow> sql_error + (nfs_rule option \<times> db)" where
  "setNfsRule i now inp d =
     (let network = js_trim (sni_network inp) in
      if \<not> isValidNfsClient network then Inr (None, d)
      else
        (case sql_get (\<lambda>r. nfs_share_id r = sni_share_id inp \<and> nfs_network r = network) (db_nfs_rules d) of
           Some existing \<Rightarrow>
             (let set_fields = (\<lambda>r. r\<lparr>nfs_level := sni_level inp, nfs_root_squash := sni_root_squash inp\<rparr>)
              in Inr (Some (toRule (set_fields existing)),
                   d\<lparr>db_nfs_rules := sql_update (\<lambda>r. nfs_id r = nfs_id existing) set_fields (db_nfs_rules d)\<rparr>))
         | None \<Rightarrow>
             if sql_count (\<lambda>r. nfs_share_id r = sni_share_id inp) (db_nfs_rules d) \<ge> MAX_NFS_RULES
             then Inr (None, d)
             else
               (let row = \<lparr>nfs_id = i, nfs_share_id = sni_share_id inp, nfs_network = network,
                           nfs_level = sni_level inp, nfs_root_squash = sni_root_squash inp, nfs_created_at = now\<rparr>
                in if \<not> sql_exists (\<lambda>r. shr_id r = sni_share_id inp) (db_shares d) then Inl ForeignKeyViolation
                   else bind_ok (sql_insert nfs_id row (db_nfs_rules d))
                     (\<lambda>t. Inr (Some (toRule row), d\<lparr>db_nfs_rules := t\<rparr>)))))"

definition deleteNfsRule :: "string \<Rightarrow> string \<Rightarrow> db \<Rightarrow> bool \<times> db" where
  "deleteNfsRule shareId i d =
     (sql_exists (\<lambda>r. nfs_id r = i \<and> nfs_share_id r = shareId) (db_nfs_rules d),
      d\<lparr>db_nfs_rules := sql_delete (\<lambda>r. nfs_id r = i \<and> nfs_share_id r = shareId) (db_nfs_rules d)\<rparr>)"

subsection \<open>Lemmas\<close>

interpretation nfs_rules: owned_rows db_nfs_rules nfs_id nfs_share_id deleteNfsRule
  by unfold_locales (auto simp: deleteNfsRule_def sql_exists_iff)

text \<open>What may stand in an exports line: no blank, parenthesis, comma, quote, backslash or comment starter.\<close>

definition exports_safe :: "string \<Rightarrow> bool" where
  "exports_safe v \<longleftrightarrow> v \<noteq> '''' \<and> length v \<le> 255 \<and> list_all (\<lambda>c. \<not> exports_meta c) v"

definition nfs_rules_ok :: "db \<Rightarrow> bool" where
  "nfs_rules_ok d \<longleftrightarrow> keyed nfs_id (db_nfs_rules d) \<and>
     keyed (\<lambda>r. (nfs_share_id r, nfs_network r)) (db_nfs_rules d) \<and>
     (\<forall>r \<in> set (db_nfs_rules d). exports_safe (nfs_network r)) \<and>
     (\<forall>s. sql_count (\<lambda>r. nfs_share_id r = s) (db_nfs_rules d) \<le> MAX_NFS_RULES)"

lemma isValidNfsClient_safe: "isValidNfsClient v \<Longrightarrow> exports_safe (js_trim v)"
proof (cases "js_trim v = ''*''")
  case True
  have "exports_safe ''*''" by code_simp
  then show ?thesis by (simp add: True)
next
  case False
  then show "isValidNfsClient v \<Longrightarrow> exports_safe (js_trim v)"
    by (auto simp: isValidNfsClient_def Let_def exports_safe_def list_all_iff list_ex_iff split: if_splits)
qed

lemma setNfsRule_ok:
  assumes ok: "nfs_rules_ok d" and run: "setNfsRule i now inp d = Inr (res, d')"
  shows "nfs_rules_ok d'"
proof (cases "isValidNfsClient (js_trim (sni_network inp))")
  case False
  then show ?thesis using assms by (simp add: setNfsRule_def)
next
  case v: True
  let ?n = "js_trim (sni_network inp)"
  show ?thesis
  proof (cases "sql_get (\<lambda>r. nfs_share_id r = sni_share_id inp \<and> nfs_network r = ?n) (db_nfs_rules d)")
    case (Some e)
    let ?t = "sql_update (\<lambda>r. nfs_id r = nfs_id e)
      (\<lambda>r. r\<lparr>nfs_level := sni_level inp, nfs_root_squash := sni_root_squash inp\<rparr>) (db_nfs_rules d)"
    have d': "d' = d\<lparr>db_nfs_rules := ?t\<rparr>" using run v Some by (simp add: setNfsRule_def Let_def)
    have "keyed nfs_id ?t" "keyed (\<lambda>r. (nfs_share_id r, nfs_network r)) ?t"
      using ok by (auto simp: nfs_rules_ok_def intro!: keyed_update)
    moreover have "sql_count (\<lambda>r. nfs_share_id r = s) ?t = sql_count (\<lambda>r. nfs_share_id r = s) (db_nfs_rules d)" for s
      by (rule sql_count_update) simp
    ultimately show ?thesis using ok by (auto simp: nfs_rules_ok_def d')
  next
    case None
    show ?thesis
    proof (cases "d' = d")
      case False
      let ?row = "\<lparr>nfs_id = i, nfs_share_id = sni_share_id inp, nfs_network = ?n, nfs_level = sni_level inp,
        nfs_root_squash = sni_root_squash inp, nfs_created_at = now\<rparr>"
      have room: "sql_count (\<lambda>r. nfs_share_id r = sni_share_id inp) (db_nfs_rules d) < MAX_NFS_RULES"
        and t: "sql_insert nfs_id ?row (db_nfs_rules d) = Inr (db_nfs_rules d')"
        using run v None False by (auto simp: setNfsRule_def Let_def bind_ok_Inr split: if_splits)
      have app: "db_nfs_rules d' = db_nfs_rules d @ [?row]" and new: "\<forall>x \<in> set (db_nfs_rules d). nfs_id x \<noteq> i"
        using t by (auto simp: sql_insert_Inr)
      have "keyed (\<lambda>r. (nfs_share_id r, nfs_network r)) (db_nfs_rules d')"
        unfolding app using ok None by (intro keyed_snoc) (auto simp: nfs_rules_ok_def sql_get_None)
      moreover have "keyed nfs_id (db_nfs_rules d')"
        unfolding app using ok new by (intro keyed_snoc) (auto simp: nfs_rules_ok_def)
      moreover have "exports_safe ?n" using isValidNfsClient_safe [OF v] by simp
      ultimately show ?thesis using ok room by (auto simp: nfs_rules_ok_def app)
    qed (use ok in simp)
  qed
qed

lemma deleteNfsRule_ok: "nfs_rules_ok d \<Longrightarrow> nfs_rules_ok (snd (deleteNfsRule s i d))"
  by (auto simp: nfs_rules_ok_def deleteNfsRule_def intro: order_trans [OF sql_count_delete_le])

text \<open>The administrator's steps on the table.\<close>

datatype nfs_step = SetRule string millis set_nfs_rule_input | DropRule string string

fun nfs_run :: "nfs_step \<Rightarrow> db \<Rightarrow> db" where
  "nfs_run (SetRule i now inp) d = (case setNfsRule i now inp d of Inl e \<Rightarrow> d | Inr (r, d') \<Rightarrow> d')"
| "nfs_run (DropRule s i) d = snd (deleteNfsRule s i d)"

lemma nfs_run_ok: "nfs_rules_ok d \<Longrightarrow> nfs_rules_ok (nfs_run a d)"
  by (cases a) (auto simp: deleteNfsRule_ok intro: setNfsRule_ok split: sum.splits prod.splits)

text \<open>
  Whatever rules an administrator sets or deletes, in any order and with any text,
  every stored NFS client is safe to write into an exports line (no blank, no
  parenthesis, comma, quote, backslash or comment sign), no share lists one network
  twice, and none has more than twenty rules.
\<close>

theorem nfs_rules_safe:
  assumes "db_nfs_rules d = []"
  shows "nfs_rules_ok (fold nfs_run steps d)"
proof -
  have "nfs_rules_ok d" using assms by (simp add: nfs_rules_ok_def)
  then show ?thesis by (induction steps arbitrary: d) (simp_all add: nfs_run_ok)
qed

theorem nfs_rules_safe_witness:
  "nfs_rules_ok (nfs_run (SetRule ''r1'' 0 \<lparr>sni_share_id = ''s'', sni_network = '' *.lan '', sni_level = ''ro'',
     sni_root_squash = True\<rparr>) empty_db)"
  using nfs_rules_safe [of empty_db "[SetRule ''r1'' 0 \<lparr>sni_share_id = ''s'', sni_network = '' *.lan '',
    sni_level = ''ro'', sni_root_squash = True\<rparr>]"] by (simp add: empty_db_def)

end
