(* ===== verification/UserGroups.thy ===== *)
theory UserGroups
  imports Users "HOL-Library.List_Lexorder" "HOL-Library.Char_ord"
begin

text \<open>
  Groups and their members: \<open>apps/api/src/db/groups.ts\<close>.  \<open>groups.name\<close> is unique, and
  a membership references both its group and its user; \<open>OR IGNORE\<close> skips a repeated
  membership but not a dangling one, which makes the statement throw and the
  transaction roll back.  Names sort by code unit, SQLite's default collation.
\<close>

record group =
  g_id :: string
  g_name :: string
  g_description :: string
  g_created_at :: millis
  g_member_count :: nat

record group_member =
  gm_user_id :: string
  gm_username :: string
  gm_display_name :: string
  gm_avatar_color :: string

definition toGroup :: "db \<Rightarrow> group_row \<Rightarrow> group" where
  "toGroup d row = \<lparr>g_id = grp_id row, g_name = grp_name row, g_description = grp_description row,
     g_created_at = grp_created_at row,
     g_member_count = sql_count (\<lambda>m. mem_group_id m = grp_id row) (db_members d)\<rparr>"

definition groupRow :: "db \<Rightarrow> string \<Rightarrow> group_row option" where
  "groupRow d i = sql_get (\<lambda>r. grp_id r = i) (db_groups d)"

definition listGroups :: "db \<Rightarrow> group list" where
  "listGroups d = map (toGroup d) (order_asc grp_name (db_groups d))"

definition getGroupById :: "db \<Rightarrow> string \<Rightarrow> group option" where
  "getGroupById d i = map_option (toGroup d) (groupRow d i)"

definition getGroupByName :: "db \<Rightarrow> string \<Rightarrow> group option" where
  "getGroupByName d name =
     map_option (toGroup d) (sql_get (\<lambda>r. sqlite_lower (grp_name r) = sqlite_lower name) (db_groups d))"

definition createGroup ::
  "string \<Rightarrow> millis \<Rightarrow> string \<Rightarrow> string \<Rightarrow> db \<Rightarrow> sql_error + (group \<times> db)" where
  "createGroup i now name description d =
     (let row = \<lparr>grp_id = i, grp_name = name, grp_description = description, grp_created_at = now\<rparr> in
      if sql_exists (\<lambda>r. grp_id r = i) (db_groups d) \<or> sql_exists (\<lambda>r. grp_name r = name) (db_groups d)
      then Inl UniqueViolation
      else (let d1 = d\<lparr>db_groups := db_groups d @ [row]\<rparr> in Inr (toGroup d1 row, d1)))"

definition updateGroup ::
  "string \<Rightarrow> string option \<Rightarrow> string option \<Rightarrow> db \<Rightarrow> sql_error + db" where
  "updateGroup i name description d =
     (let set_fields = (\<lambda>r. r\<lparr>grp_name := (case name of None \<Rightarrow> grp_name r | Some n \<Rightarrow> n),
                              grp_description := (case description of None \<Rightarrow> grp_description r | Some t \<Rightarrow> t)\<rparr>)
      in if name = None \<and> description = None then Inr d
         else if (case name of None \<Rightarrow> False
                  | Some n \<Rightarrow> groupRow d i \<noteq> None \<and> sql_exists (\<lambda>r. grp_name r = n \<and> grp_id r \<noteq> i) (db_groups d))
         then Inl UniqueViolation
         else Inr (d\<lparr>db_groups := sql_update (\<lambda>r. grp_id r = i) set_fields (db_groups d)\<rparr>))"

text \<open>Its own folder rules first, then the row with the cascade to members and share grants.\<close>

definition deleteGroup :: "string \<Rightarrow> db \<Rightarrow> db" where
  "deleteGroup i d = d
     \<lparr>db_acls := sql_delete (\<lambda>a. acl_subject_type a = ''group'' \<and> acl_subject_id a = i) (db_acls d),
      db_groups := sql_delete (\<lambda>r. grp_id r = i) (db_groups d),
      db_members := sql_delete (\<lambda>m. mem_group_id m = i) (db_members d),
      db_share_group_perms := sql_delete (\<lambda>p. sgp_group_id p = i) (db_share_group_perms d)\<rparr>"

subsection \<open>Membership\<close>

text \<open>\<open>group_members gm JOIN users u ON u.id = gm.user_id WHERE gm.group_id = ?\<close>\<close>

definition member_users :: "db \<Rightarrow> string \<Rightarrow> user_row list" where
  "member_users d groupId =
     List.map_filter (\<lambda>m. if mem_group_id m = groupId then userRow d (mem_user_id m) else None) (db_members d)"

definition listMembers :: "db \<Rightarrow> string \<Rightarrow> group_member list" where
  "listMembers d groupId =
     map (\<lambda>u. \<lparr>gm_user_id = usr_id u, gm_username = usr_username u, gm_display_name = usr_display_name u,
               gm_avatar_color = usr_avatar_color u\<rparr>)
       (order_asc usr_username (member_users d groupId))"

fun insert_members :: "db \<Rightarrow> string \<Rightarrow> string list \<Rightarrow> member_row list \<Rightarrow> sql_error + member_row list" where
  "insert_members d groupId [] t = Inr t"
| "insert_members d groupId (u # us) t =
     (if groupRow d groupId = None \<or> userRow d u = None then Inl ForeignKeyViolation
      else insert_members d groupId us
        (sql_insert_ignore (\<lambda>m. mem_group_id m = groupId \<and> mem_user_id m = u)
           \<lparr>mem_group_id = groupId, mem_user_id = u\<rparr> t))"

definition setMembers :: "string \<Rightarrow> string list \<Rightarrow> db \<Rightarrow> sql_error + db" where
  "setMembers groupId userIds d =
     bind_ok (insert_members d groupId userIds (sql_delete (\<lambda>m. mem_group_id m = groupId) (db_members d)))
       (\<lambda>t. Inr (d\<lparr>db_members := t\<rparr>))"

definition groupIdsForUser :: "db \<Rightarrow> string \<Rightarrow> string list" where
  "groupIdsForUser d u = map mem_group_id (filter (\<lambda>m. mem_user_id m = u) (db_members d))"

definition groupNamesForUser :: "db \<Rightarrow> string \<Rightarrow> string list" where
  "groupNamesForUser d u =
     map grp_name (order_asc grp_name
       (List.map_filter (\<lambda>m. if mem_user_id m = u then groupRow d (mem_group_id m) else None) (db_members d)))"

definition usernamesInGroup :: "db \<Rightarrow> string \<Rightarrow> string list" where
  "usernamesInGroup d groupId = map usr_username (order_asc usr_username (member_users d groupId))"

subsection \<open>Lemmas\<close>

text \<open>The group tables are well formed: both unique indexes, no dangling membership.\<close>

definition group_ids :: "db \<Rightarrow> string set" where
  "group_ids d = grp_id ` set (db_groups d)"

definition members_ok :: "db \<Rightarrow> bool" where
  "members_ok d \<longleftrightarrow> keyed (\<lambda>m. (mem_group_id m, mem_user_id m)) (db_members d) \<and>
     (\<forall>m \<in> set (db_members d). mem_group_id m \<in> group_ids d \<and> mem_user_id m \<in> user_ids d)"

definition groups_ok :: "db \<Rightarrow> bool" where
  "groups_ok d \<longleftrightarrow> keyed grp_id (db_groups d) \<and> keyed grp_name (db_groups d) \<and> members_ok d"

lemma groupRow_None_iff: "groupRow d i = None \<longleftrightarrow> i \<notin> group_ids d"
  by (auto simp: groupRow_def sql_get_None group_ids_def)

lemma groupRow_SomeD: "groupRow d i = Some r \<Longrightarrow> r \<in> set (db_groups d) \<and> grp_id r = i"
  by (auto simp: groupRow_def dest: sql_get_SomeD)

lemma member_row_eta [simp]: "\<lparr>mem_group_id = mem_group_id m, mem_user_id = mem_user_id m\<rparr> = m"
  by (cases m) simp

lemma set_groupIdsForUser:
  "g \<in> set (groupIdsForUser d u) \<longleftrightarrow> \<lparr>mem_group_id = g, mem_user_id = u\<rparr> \<in> set (db_members d)"
  by (force simp: groupIdsForUser_def)

lemma insert_members_Inr:
  assumes "insert_members d g us t = Inr t'"
  shows "set t' = set t \<union> (\<lambda>u. \<lparr>mem_group_id = g, mem_user_id = u\<rparr>) ` set us"
    and "us \<noteq> [] \<Longrightarrow> g \<in> group_ids d" and "set us \<subseteq> user_ids d"
    and "keyed (\<lambda>m. (mem_group_id m, mem_user_id m)) t \<Longrightarrow> keyed (\<lambda>m. (mem_group_id m, mem_user_id m)) t'"
proof -
  let ?row = "\<lambda>u. \<lparr>mem_group_id = g, mem_user_id = u\<rparr>"
  let ?key = "\<lambda>m. (mem_group_id m, mem_user_id m)"
  have ins: "set (sql_insert_ignore (\<lambda>m. mem_group_id m = g \<and> mem_user_id m = u) (?row u) t) = insert (?row u) (set t)" for u t
    by (auto simp: sql_insert_ignore_def sql_exists_iff)
  have key: "keyed ?key t \<Longrightarrow> keyed ?key (sql_insert_ignore (\<lambda>m. mem_group_id m = g \<and> mem_user_id m = u) (?row u) t)" for u t
    by (auto simp: sql_insert_ignore_def sql_exists_iff intro!: keyed_snoc)
  show "set t' = set t \<union> ?row ` set us" using assms
    by (induction us arbitrary: t) (auto simp: ins split: if_splits)
  show "us \<noteq> [] \<Longrightarrow> g \<in> group_ids d" using assms
    by (cases us) (auto simp: groupRow_None_iff split: if_splits)
  show "set us \<subseteq> user_ids d" using assms
    by (induction us arbitrary: t) (auto simp: userRow_None_iff split: if_splits)
  show "keyed ?key t \<Longrightarrow> keyed ?key t'" using assms
  proof (induction us arbitrary: t)
    case (Cons u us)
    from Cons.prems(2) have "insert_members d g us
      (sql_insert_ignore (\<lambda>m. mem_group_id m = g \<and> mem_user_id m = u) (?row u) t) = Inr t'"
      by (auto split: if_splits)
    from Cons.IH [OF key [OF Cons.prems(1)] this] show ?case .
  qed simp
qed

lemma setMembers_Inr:
  assumes "setMembers g us d = Inr d'"
  shows "d' = d\<lparr>db_members := db_members d'\<rparr>"
    and "set (db_members d') = {m \<in> set (db_members d). mem_group_id m \<noteq> g} \<union> (\<lambda>u. \<lparr>mem_group_id = g, mem_user_id = u\<rparr>) ` set us"
    and "groups_ok d \<Longrightarrow> groups_ok d'"
proof -
  from assms obtain t where t: "insert_members d g us (sql_delete (\<lambda>m. mem_group_id m = g) (db_members d)) = Inr t"
    and d': "d' = d\<lparr>db_members := t\<rparr>" by (auto simp: setMembers_def bind_ok_Inr)
  show "d' = d\<lparr>db_members := db_members d'\<rparr>" using d' by simp
  show s: "set (db_members d') = {m \<in> set (db_members d). mem_group_id m \<noteq> g} \<union> (\<lambda>u. \<lparr>mem_group_id = g, mem_user_id = u\<rparr>) ` set us"
    using insert_members_Inr(1) [OF t] d' by simp
  show "groups_ok d'" if "groups_ok d"
  proof -
    have g: "u \<in> set us \<Longrightarrow> g \<in> group_ids d" for u using insert_members_Inr(2) [OF t] by (cases us) auto
    have ids: "group_ids d' = group_ids d" "user_ids d' = user_ids d" "db_groups d' = db_groups d"
      by (simp_all add: d' group_ids_def user_ids_def)
    have "keyed (\<lambda>m. (mem_group_id m, mem_user_id m)) (db_members d')"
      using that insert_members_Inr(4) [OF t] d' by (simp add: groups_ok_def members_ok_def)
    then show ?thesis
      using that g insert_members_Inr(3) [OF t] unfolding groups_ok_def members_ok_def s ids by auto
  qed
qed

text \<open>After \<open>setMembers\<close> the group has exactly the listed users, and no other group changed.\<close>

lemma setMembers_groups:
  assumes "setMembers g us d = Inr d'"
  shows "g' \<in> set (groupIdsForUser d' u) \<longleftrightarrow> (if g' = g then u \<in> set us else g' \<in> set (groupIdsForUser d u))"
  unfolding set_groupIdsForUser setMembers_Inr(2) [OF assms] by auto

lemma deleteGroup_ok: "groups_ok d \<Longrightarrow> groups_ok (deleteGroup i d)"
  by (auto simp: groups_ok_def members_ok_def deleteGroup_def group_ids_def user_ids_def)

lemma deleteGroup_forgets:
  "i \<notin> set (groupIdsForUser (deleteGroup i d) u)"
  "p \<in> set (db_share_group_perms (deleteGroup i d)) \<Longrightarrow> sgp_group_id p \<noteq> i"
  "a \<in> set (db_acls (deleteGroup i d)) \<Longrightarrow> \<not> (acl_subject_type a = ''group'' \<and> acl_subject_id a = i)"
  by (auto simp: deleteGroup_def set_groupIdsForUser)

lemma createGroup_ok:
  "groups_ok d \<Longrightarrow> createGroup i now n t d = Inr (g, d') \<Longrightarrow> groups_ok d'"
  by (auto simp: groups_ok_def members_ok_def createGroup_def Let_def sql_exists_iff group_ids_def user_ids_def
      split: if_splits intro!: keyed_snoc)

lemma updateGroup_ok:
  assumes ok: "groups_ok d" and run: "updateGroup i n t d = Inr d'"
  shows "groups_ok d'"
proof (cases "n = None \<and> t = None")
  case True
  then show ?thesis using assms by (simp add: updateGroup_def)
next
  case False
  let ?f = "\<lambda>r. r\<lparr>grp_name := (case n of None \<Rightarrow> grp_name r | Some m \<Rightarrow> m),
      grp_description := (case t of None \<Rightarrow> grp_description r | Some x \<Rightarrow> x)\<rparr>"
  have d': "d' = d\<lparr>db_groups := sql_update (\<lambda>r. grp_id r = i) ?f (db_groups d)\<rparr>"
    using run False by (auto simp: updateGroup_def Let_def split: if_splits)
  have ids: "group_ids d' = group_ids d" "user_ids d' = user_ids d"
  proof -
    have "grp_id ` set (sql_update (\<lambda>r. grp_id r = i) ?f (db_groups d)) = grp_id ` set (db_groups d)"
      by (rule image_sql_update) simp
    then show "group_ids d' = group_ids d" unfolding d' group_ids_def by simp
  qed (simp add: d' user_ids_def)
  have 1: "keyed grp_id (db_groups d')" using ok unfolding d' groups_ok_def by (auto intro: keyed_update)
  have free: "\<forall>r \<in> set (db_groups d). grp_id r \<noteq> i \<longrightarrow> n \<noteq> Some (grp_name r)" if "i \<in> group_ids d"
    using run False that groupRow_None_iff [of d i]
    by (auto simp: updateGroup_def Let_def sql_exists_iff split: if_splits)
  have 2: "keyed grp_name (sql_update (\<lambda>r. grp_id r = i) ?f t')"
    if "keyed grp_name t'" "keyed grp_id t'" "set t' \<subseteq> set (db_groups d)" for t'
    using that
  proof (induction t')
    case (Cons r t')
    have IH: "keyed grp_name (sql_update (\<lambda>r. grp_id r = i) ?f t')" using Cons by (simp add: keyed_def)
    have "grp_name (if grp_id r = i then ?f r else r) \<notin> grp_name ` set (sql_update (\<lambda>r. grp_id r = i) ?f t')"
    proof
      assume "grp_name (if grp_id r = i then ?f r else r) \<in> grp_name ` set (sql_update (\<lambda>r. grp_id r = i) ?f t')"
      then obtain s where s: "s \<in> set t'"
        and eq: "grp_name (if grp_id r = i then ?f r else r) = grp_name (if grp_id s = i then ?f s else s)" by auto
      have "grp_id r \<notin> grp_id ` set t'" "grp_name r \<notin> grp_name ` set t'"
        using Cons.prems(1,2) by (simp_all add: keyed_def)
      then have ne: "grp_id s \<noteq> grp_id r" "grp_name s \<noteq> grp_name r" using s by (metis imageI)+
      have "r \<in> set (db_groups d)" "s \<in> set (db_groups d)" using Cons.prems(3) s by auto
      then have "grp_id r = i \<Longrightarrow> n \<noteq> Some (grp_name s)" "grp_id s = i \<Longrightarrow> n \<noteq> Some (grp_name r)"
        using free ne ne(1) [symmetric] unfolding group_ids_def by blast+
      then show False using eq ne by (cases n) (auto split: if_splits)
    qed
    then show ?case using IH by (simp add: keyed_def)
  qed simp
  have "keyed grp_name (db_groups d')" using ok 2 [of "db_groups d"] unfolding d' groups_ok_def by simp
  moreover have "db_members d' = db_members d" unfolding d' by simp
  ultimately show ?thesis using ok 1 ids by (simp add: groups_ok_def members_ok_def)
qed

end
