(* ===== verification/Shares.thy ===== *)
theory Shares
  imports UserGroups NfsRules Samples
begin

text \<open>
  Shared folders and their permissions: \<open>apps/api/src/db/shares.ts\<close>, and what a user may
  do at the root of a share.  \<open>shares.name\<close> is unique; grants reference their share and
  their user or group.
\<close>

subsection \<open>Access levels\<close>

datatype access_level = NoAccess | ReadOnly | ReadWriteAccess

text \<open>The order of the table \<open>rank\<close> in \<open>maxLevel\<close> (and of \<open>RANK\<close> in \<open>db/acls.ts\<close>).\<close>

definition level_rank :: "access_level \<Rightarrow> nat" where
  "level_rank l = (case l of NoAccess \<Rightarrow> 0 | ReadOnly \<Rightarrow> 1 | ReadWriteAccess \<Rightarrow> 2)"

instantiation access_level :: linorder
begin

definition less_eq_access_level :: "access_level \<Rightarrow> access_level \<Rightarrow> bool" where
  "less_eq_access_level a b \<longleftrightarrow> level_rank a \<le> level_rank b"

definition less_access_level :: "access_level \<Rightarrow> access_level \<Rightarrow> bool" where
  "less_access_level a b \<longleftrightarrow> level_rank a < level_rank b"

instance
  by standard (auto simp: less_eq_access_level_def less_access_level_def level_rank_def split: access_level.splits)

end

definition maxLevel :: "access_level \<Rightarrow> access_level \<Rightarrow> access_level" where
  "maxLevel a b = (if level_rank a \<ge> level_rank b then a else b)"

definition normLevel :: "string \<Rightarrow> access_level" where
  "normLevel v = (if v = ''ro'' then ReadOnly else if v = ''rw'' then ReadWriteAccess else NoAccess)"

text \<open>A level as the column stores it, and the column of a grant, which knows only two.\<close>

definition level_text :: "access_level \<Rightarrow> string" where
  "level_text l = (case l of NoAccess \<Rightarrow> ''none'' | ReadOnly \<Rightarrow> ''ro'' | ReadWriteAccess \<Rightarrow> ''rw'')"

definition grant_level :: "string \<Rightarrow> access_level" where
  "grant_level v = (if v = ''ro'' then ReadOnly else ReadWriteAccess)"

subsection \<open>Reading\<close>

record share_permission =
  sp_user_id :: string
  sp_username :: string
  sp_display_name :: string
  sp_level :: access_level

record share_group_permission =
  sg_group_id :: string
  sg_name :: string
  sg_level :: access_level

record share =
  sh_id :: string
  sh_name :: string
  sh_comment :: string
  sh_guest_access :: access_level
  sh_smb_enabled :: bool
  sh_nfs_enabled :: bool
  sh_browseable :: bool
  sh_volume :: "string option"
  sh_created_at :: millis
  sh_permissions :: "share_permission list"
  sh_group_permissions :: "share_group_permission list"
  sh_recycle_enabled :: bool
  sh_time_machine :: bool
  sh_nfs_rules :: "nfs_rule list"
  sh_quota_bytes :: int
  sh_quota_project_id :: "nat option"

definition shareRow :: "db \<Rightarrow> string \<Rightarrow> share_row option" where
  "shareRow d i = sql_get (\<lambda>r. shr_id r = i) (db_shares d)"

definition getPermissions :: "db \<Rightarrow> string \<Rightarrow> share_permission list" where
  "getPermissions d shareId =
     map (\<lambda>(p, u). \<lparr>sp_user_id = spm_user_id p, sp_username = usr_username u,
                    sp_display_name = usr_display_name u, sp_level = grant_level (spm_level p)\<rparr>)
       (order_asc (\<lambda>(p, u). usr_username u)
         (List.map_filter (\<lambda>p. if spm_share_id p = shareId then map_option (Pair p) (userRow d (spm_user_id p)) else None)
           (db_share_perms d)))"

definition getGroupPermissions :: "db \<Rightarrow> string \<Rightarrow> share_group_permission list" where
  "getGroupPermissions d shareId =
     map (\<lambda>(p, g). \<lparr>sg_group_id = sgp_group_id p, sg_name = grp_name g, sg_level = grant_level (sgp_level p)\<rparr>)
       (order_asc (\<lambda>(p, g). grp_name g)
         (List.map_filter (\<lambda>p. if sgp_share_id p = shareId then map_option (Pair p) (groupRow d (sgp_group_id p)) else None)
           (db_share_group_perms d)))"

definition toShare :: "db \<Rightarrow> share_row \<Rightarrow> share" where
  "toShare d row = \<lparr>sh_id = shr_id row, sh_name = shr_name row, sh_comment = shr_comment row,
     sh_guest_access = normLevel (shr_guest_access row), sh_smb_enabled = shr_smb_enabled row,
     sh_nfs_enabled = shr_nfs_enabled row, sh_browseable = shr_browseable row,
     sh_volume = (if shr_volume row = '''' then None else Some (shr_volume row)),
     sh_created_at = shr_created_at row, sh_permissions = getPermissions d (shr_id row),
     sh_group_permissions = getGroupPermissions d (shr_id row), sh_recycle_enabled = shr_recycle_enabled row,
     sh_time_machine = shr_time_machine row, sh_nfs_rules = listNfsRules d (shr_id row),
     sh_quota_bytes = shr_quota_bytes row, sh_quota_project_id = shr_quota_project_id row\<rparr>"

definition listShares :: "db \<Rightarrow> share list" where
  "listShares d = map (toShare d) (order_asc shr_name (db_shares d))"

definition getShareById :: "db \<Rightarrow> string \<Rightarrow> share option" where
  "getShareById d i = map_option (toShare d) (shareRow d i)"

definition getShareRowByName :: "db \<Rightarrow> string \<Rightarrow> share_row option" where
  "getShareRowByName d name = sql_get (\<lambda>r. shr_name r = name) (db_shares d)"

subsection \<open>Writing\<close>

record create_share_input =
  csi_name :: string
  csi_comment :: "string option"
  csi_guest_access :: "access_level option"
  csi_smb_enabled :: "bool option"
  csi_nfs_enabled :: "bool option"
  csi_browseable :: "bool option"
  csi_volume :: "string option"
  csi_recycle_enabled :: "bool option"
  csi_time_machine :: "bool option"

definition new_share_row :: "string \<Rightarrow> millis \<Rightarrow> create_share_input \<Rightarrow> share_row" where
  "new_share_row i now inp =
     \<lparr>shr_id = i, shr_name = csi_name inp,
      shr_comment = (case csi_comment inp of None \<Rightarrow> '''' | Some c \<Rightarrow> c),
      shr_guest_access = level_text (case csi_guest_access inp of None \<Rightarrow> NoAccess | Some l \<Rightarrow> l),
      shr_smb_enabled = (csi_smb_enabled inp \<noteq> Some False), shr_nfs_enabled = (csi_nfs_enabled inp = Some True),
      shr_browseable = (csi_browseable inp \<noteq> Some False),
      shr_volume = (case csi_volume inp of None \<Rightarrow> '''' | Some v \<Rightarrow> v),
      shr_recycle_enabled = (csi_recycle_enabled inp = Some True),
      shr_time_machine = (csi_time_machine inp = Some True),
      shr_quota_bytes = 0, shr_quota_project_id = None, shr_created_at = now\<rparr>"

definition createShare ::
  "string \<Rightarrow> millis \<Rightarrow> create_share_input \<Rightarrow> db \<Rightarrow> sql_error + (share \<times> db)" where
  "createShare i now inp d =
     (if sql_exists (\<lambda>r. shr_id r = i) (db_shares d) \<or> sql_exists (\<lambda>r. shr_name r = csi_name inp) (db_shares d)
      then Inl UniqueViolation
      else (let row = new_share_row i now inp; d1 = d\<lparr>db_shares := db_shares d @ [row]\<rparr>
            in Inr (toShare d1 row, d1)))"

record update_share_fields =
  usf_comment :: "string option"
  usf_guest_access :: "access_level option"
  usf_smb_enabled :: "bool option"
  usf_nfs_enabled :: "bool option"
  usf_browseable :: "bool option"
  usf_recycle_enabled :: "bool option"
  usf_time_machine :: "bool option"
  usf_quota_bytes :: "int option"

definition or_keep :: "'a option \<Rightarrow> 'a \<Rightarrow> 'a" where
  "or_keep f old = (case f of None \<Rightarrow> old | Some v \<Rightarrow> v)"

definition apply_share_fields :: "update_share_fields \<Rightarrow> share_row \<Rightarrow> share_row" where
  "apply_share_fields f r = r
     \<lparr>shr_comment := or_keep (usf_comment f) (shr_comment r),
      shr_guest_access := or_keep (map_option level_text (usf_guest_access f)) (shr_guest_access r),
      shr_smb_enabled := or_keep (usf_smb_enabled f) (shr_smb_enabled r),
      shr_nfs_enabled := or_keep (usf_nfs_enabled f) (shr_nfs_enabled r),
      shr_browseable := or_keep (usf_browseable f) (shr_browseable r),
      shr_recycle_enabled := or_keep (usf_recycle_enabled f) (shr_recycle_enabled r),
      shr_time_machine := or_keep (usf_time_machine f) (shr_time_machine r),
      shr_quota_bytes := or_keep (map_option (max 0) (usf_quota_bytes f)) (shr_quota_bytes r)\<rparr>"

text \<open>Updating with no field set runs no statement, which leaves the rows as they are.\<close>

definition updateShare :: "string \<Rightarrow> update_share_fields \<Rightarrow> db \<Rightarrow> db" where
  "updateShare i f d = d\<lparr>db_shares := sql_update (\<lambda>r. shr_id r = i) (apply_share_fields f) (db_shares d)\<rparr>"

fun insert_perms :: "db \<Rightarrow> string \<Rightarrow> (string \<times> string) list \<Rightarrow> share_perm_row list \<Rightarrow> sql_error + share_perm_row list" where
  "insert_perms d shareId [] t = Inr t"
| "insert_perms d shareId ((u, l) # ps) t =
     (if shareRow d shareId = None \<or> userRow d u = None then Inl ForeignKeyViolation
      else insert_perms d shareId ps
        (sql_replace (\<lambda>p. spm_share_id p = shareId \<and> spm_user_id p = u)
          \<lparr>spm_share_id = shareId, spm_user_id = u, spm_level = (if l = ''ro'' then ''ro'' else ''rw'')\<rparr> t))"

definition setPermissions :: "string \<Rightarrow> (string \<times> string) list \<Rightarrow> db \<Rightarrow> sql_error + db" where
  "setPermissions shareId perms d =
     bind_ok (insert_perms d shareId perms (sql_delete (\<lambda>p. spm_share_id p = shareId) (db_share_perms d)))
       (\<lambda>t. Inr (d\<lparr>db_share_perms := t\<rparr>))"

fun insert_group_perms ::
  "db \<Rightarrow> string \<Rightarrow> (string \<times> string) list \<Rightarrow> share_group_perm_row list \<Rightarrow> sql_error + share_group_perm_row list" where
  "insert_group_perms d shareId [] t = Inr t"
| "insert_group_perms d shareId ((g, l) # ps) t =
     (if shareRow d shareId = None \<or> groupRow d g = None then Inl ForeignKeyViolation
      else insert_group_perms d shareId ps
        (sql_replace (\<lambda>p. sgp_share_id p = shareId \<and> sgp_group_id p = g)
          \<lparr>sgp_share_id = shareId, sgp_group_id = g, sgp_level = (if l = ''ro'' then ''ro'' else ''rw'')\<rparr> t))"

definition setGroupPermissions :: "string \<Rightarrow> (string \<times> string) list \<Rightarrow> db \<Rightarrow> sql_error + db" where
  "setGroupPermissions shareId perms d =
     bind_ok (insert_group_perms d shareId perms (sql_delete (\<lambda>p. sgp_share_id p = shareId) (db_share_group_perms d)))
       (\<lambda>t. Inr (d\<lparr>db_share_group_perms := t\<rparr>))"

text \<open>\<open>MAX\<close> skips the rows without a project id; a stored 0 is falsy like a missing one.\<close>

definition max_project_id :: "db \<Rightarrow> nat" where
  "max_project_id d =
     (case List.map_filter shr_quota_project_id (db_shares d) of [] \<Rightarrow> 1000 | n # ns \<Rightarrow> fold max ns n)"

definition ensureQuotaProjectId :: "string \<Rightarrow> db \<Rightarrow> nat \<times> db" where
  "ensureQuotaProjectId shareId d =
     (case Option.bind (shareRow d shareId) shr_quota_project_id of
        Some (Suc n) \<Rightarrow> (Suc n, d)
      | _ \<Rightarrow>
          (let next' = max 1000 (max_project_id d) + 1
           in (next', d\<lparr>db_shares := sql_update (\<lambda>r. shr_id r = shareId)
                          (\<lambda>r. r\<lparr>shr_quota_project_id := Some next'\<rparr>) (db_shares d)\<rparr>)))"

text \<open>Grants, folder rules and NFS rules reference the share and go with it.\<close>

definition deleteShare :: "string \<Rightarrow> db \<Rightarrow> db" where
  "deleteShare i d = d
     \<lparr>db_shares := sql_delete (\<lambda>r. shr_id r = i) (db_shares d),
      db_share_perms := sql_delete (\<lambda>p. spm_share_id p = i) (db_share_perms d),
      db_share_group_perms := sql_delete (\<lambda>p. sgp_share_id p = i) (db_share_group_perms d),
      db_acls := sql_delete (\<lambda>a. acl_share_id a = i) (db_acls d),
      db_nfs_rules := sql_delete (\<lambda>r. nfs_share_id r = i) (db_nfs_rules d)\<rparr>"

subsection \<open>What a user may do at the root of a share\<close>

definition effectiveAccessForShareId :: "db \<Rightarrow> string \<Rightarrow> string \<Rightarrow> string \<Rightarrow> access_level" where
  "effectiveAccessForShareId d shareId guestAccess userId =
     (let perm = sql_get (\<lambda>p. spm_share_id p = shareId \<and> spm_user_id p = userId) (db_share_perms d);
          level = maxLevel (case perm of None \<Rightarrow> NoAccess | Some p \<Rightarrow> normLevel (spm_level p)) (normLevel guestAccess);
          groups = groupIdsForUser d userId
      in if groups = [] then level
         else fold (\<lambda>p l. maxLevel l (normLevel (sgp_level p)))
           (filter (\<lambda>p. sgp_share_id p = shareId \<and> List.member groups (sgp_group_id p)) (db_share_group_perms d)) level)"

definition effectiveAccess :: "db \<Rightarrow> string \<Rightarrow> string \<Rightarrow> access_level" where
  "effectiveAccess d shareName userId =
     (case getShareRowByName d shareName of
        None \<Rightarrow> NoAccess
      | Some row \<Rightarrow> effectiveAccessForShareId d (shr_id row) (shr_guest_access row) userId)"

text \<open>A \<open>Set\<close> in insertion order; names are unique.\<close>

definition visibleShareNames :: "db \<Rightarrow> string \<Rightarrow> string list" where
  "visibleShareNames d userId =
     map shr_name (filter (\<lambda>r. effectiveAccess d (shr_name r) userId \<noteq> NoAccess) (db_shares d))"

subsection \<open>Lemmas: levels\<close>

lemma level_rank_inj: "level_rank a = level_rank b \<longleftrightarrow> a = b"
  by (cases a; cases b) (simp_all add: level_rank_def)

lemma maxLevel_max: "maxLevel a b = max a b"
  using level_rank_inj [of a b]
  by (auto simp: maxLevel_def max_def less_eq_access_level_def)

lemma NoAccess_least [simp]: "NoAccess \<le> l"
  by (simp add: less_eq_access_level_def level_rank_def)

lemma le_NoAccess [simp]: "l \<le> NoAccess \<longleftrightarrow> l = NoAccess"
  by (cases l) (simp_all add: less_eq_access_level_def level_rank_def)

lemma le_ReadWrite [simp]: "l \<le> ReadWriteAccess"
  by (cases l) (simp_all add: less_eq_access_level_def level_rank_def)

lemma level_code [code, simp]:
  "ReadOnly \<le> NoAccess \<longleftrightarrow> False" "ReadOnly \<le> ReadOnly \<longleftrightarrow> True"
  "ReadWriteAccess \<le> l \<longleftrightarrow> l = ReadWriteAccess"
  by (cases l; simp add: less_eq_access_level_def level_rank_def)+

lemma normLevel_text [simp]: "normLevel (level_text l) = l"
  by (cases l) (simp_all add: normLevel_def level_text_def)

lemma fold_maxLevel: "fold (\<lambda>p l. maxLevel l (f p)) ps l = Max (insert l (f ` set ps))"
proof (induction ps arbitrary: l)
  case (Cons p ps)
  have "Max (insert (max l (f p)) (f ` set ps)) = Max (insert l (insert (f p) (f ` set ps)))"
    by (cases "ps = []") (simp_all add: max.assoc)
  with Cons show ?case by (simp add: maxLevel_max)
qed simp

text \<open>
  What a share grants, as a set: the guest level, the user's own entries and the
  entries of the groups the user is in.
\<close>

definition grants_on :: "db \<Rightarrow> string \<Rightarrow> string \<Rightarrow> access_level set" where
  "grants_on d shareId userId =
     {normLevel (spm_level p) | p. p \<in> set (db_share_perms d) \<and> spm_share_id p = shareId \<and> spm_user_id p = userId} \<union>
     {normLevel (sgp_level p) | p. p \<in> set (db_share_group_perms d) \<and> sgp_share_id p = shareId \<and>
        (\<exists>m \<in> set (db_members d). mem_group_id m = sgp_group_id p \<and> mem_user_id m = userId)}"

definition perms_ok :: "db \<Rightarrow> bool" where
  "perms_ok d \<longleftrightarrow> keyed (\<lambda>p. (spm_share_id p, spm_user_id p)) (db_share_perms d) \<and>
     keyed (\<lambda>p. (sgp_share_id p, sgp_group_id p)) (db_share_group_perms d)"

lemma own_grant:
  assumes "keyed (\<lambda>p. (spm_share_id p, spm_user_id p)) t"
  shows "{normLevel (spm_level p) | p. p \<in> set t \<and> spm_share_id p = s \<and> spm_user_id p = u} =
    (case sql_get (\<lambda>p. spm_share_id p = s \<and> spm_user_id p = u) t of None \<Rightarrow> {} | Some p \<Rightarrow> {normLevel (spm_level p)})"
proof (cases "sql_get (\<lambda>p. spm_share_id p = s \<and> spm_user_id p = u) t")
  case None
  then have "\<forall>p \<in> set t. \<not> (spm_share_id p = s \<and> spm_user_id p = u)" by (simp add: sql_get_None)
  then show ?thesis unfolding None by auto
next
  case (Some q)
  then have q: "q \<in> set t" "spm_share_id q = s" "spm_user_id q = u" by (auto dest: sql_get_SomeD)
  then have "p \<in> set t \<Longrightarrow> spm_share_id p = s \<Longrightarrow> spm_user_id p = u \<Longrightarrow> p = q" for p
    using keyed_unique [OF assms, of p q] by simp
  with q have "{normLevel (spm_level p) | p. p \<in> set t \<and> spm_share_id p = s \<and> spm_user_id p = u} = {normLevel (spm_level q)}"
    by blast
  then show ?thesis unfolding Some by simp
qed

lemma effectiveAccess_Max:
  assumes "perms_ok d"
  shows "effectiveAccessForShareId d shareId guest userId = Max (insert (normLevel guest) (grants_on d shareId userId))"
proof -
  let ?own = "sql_get (\<lambda>p. spm_share_id p = shareId \<and> spm_user_id p = userId) (db_share_perms d)"
  let ?lev = "case ?own of None \<Rightarrow> NoAccess | Some p \<Rightarrow> normLevel (spm_level p)"
  let ?gs = "filter (\<lambda>p. sgp_share_id p = shareId \<and> List.member (groupIdsForUser d userId) (sgp_group_id p)) (db_share_group_perms d)"
  let ?G = "(\<lambda>p. normLevel (sgp_level p)) ` set ?gs"
  let ?own_set = "case ?own of None \<Rightarrow> {} | Some p \<Rightarrow> {normLevel (spm_level p)}"
  have mem: "g \<in> set (groupIdsForUser d userId) \<longleftrightarrow>
      (\<exists>m \<in> set (db_members d). mem_group_id m = g \<and> mem_user_id m = userId)" for g
    by (auto simp: groupIdsForUser_def)
  have "{normLevel (sgp_level p) | p. p \<in> set (db_share_group_perms d) \<and> sgp_share_id p = shareId \<and>
      (\<exists>m \<in> set (db_members d). mem_group_id m = sgp_group_id p \<and> mem_user_id m = userId)} = ?G"
    unfolding mem [symmetric] by auto
  then have G: "grants_on d shareId userId = ?own_set \<union> ?G"
    using assms own_grant [of "db_share_perms d" shareId userId] by (simp add: grants_on_def perms_ok_def)
  have "groupIdsForUser d userId = [] \<Longrightarrow> ?gs = []" by simp
  then have "effectiveAccessForShareId d shareId guest userId = Max (insert (maxLevel ?lev (normLevel guest)) ?G)"
    by (simp only: effectiveAccessForShareId_def Let_def fold_maxLevel) (auto simp: fold_maxLevel)
  also have "\<dots> = Max (insert (normLevel guest) (?own_set \<union> ?G))"
    by (cases ?own; cases "?G = {}") (simp_all add: maxLevel_max max.commute max.assoc)
  finally show ?thesis by (simp only: G)
qed

text \<open>
  The level at a share's root is a pure grant: it is the highest of the guest level,
  the user's own entry and the entries of all groups the user belongs to, so adding a
  grant never lowers it and no entry can take another one back.
\<close>

theorem effective_access_max:
  assumes "perms_ok d"
  shows "effectiveAccessForShareId d shareId guest userId = Max (insert (normLevel guest) (grants_on d shareId userId))"
  by (rule effectiveAccess_Max [OF assms])

text \<open>A small installation: two shares, a group of one, and what they grant.\<close>

definition sample_share :: "string \<Rightarrow> string \<Rightarrow> share_row" where
  "sample_share i name = new_share_row i 0
     \<lparr>csi_name = name, csi_comment = None, csi_guest_access = None, csi_smb_enabled = None, csi_nfs_enabled = None,
      csi_browseable = None, csi_volume = None, csi_recycle_enabled = None, csi_time_machine = None\<rparr>"

definition sample_nas :: db where
  "sample_nas = empty_db\<lparr>db_users := [sample_user, sample_admin],
     db_groups := [\<lparr>grp_id = ''g1'', grp_name = ''staff'', grp_description = '''', grp_created_at = 0\<rparr>],
     db_members := [\<lparr>mem_group_id = ''g1'', mem_user_id = ''u1''\<rparr>],
     db_shares := [sample_share ''s1'' ''media'', sample_share ''s2'' ''vault''],
     db_share_perms := [\<lparr>spm_share_id = ''s1'', spm_user_id = ''u1'', spm_level = ''ro''\<rparr>],
     db_share_group_perms := [\<lparr>sgp_share_id = ''s1'', sgp_group_id = ''g1'', sgp_level = ''rw''\<rparr>]\<rparr>"

theorem effective_access_max_witness:
  "effectiveAccessForShareId sample_nas ''s1'' ''none'' ''u1'' = ReadWriteAccess \<and>
   Max (insert NoAccess (grants_on sample_nas ''s1'' ''u1'')) = ReadWriteAccess"
proof -
  have "perms_ok sample_nas" by (simp add: perms_ok_def sample_nas_def keyed_def)
  moreover have "effectiveAccessForShareId sample_nas ''s1'' ''none'' ''u1'' = ReadWriteAccess" by code_simp
  moreover have "normLevel ''none'' = NoAccess" by code_simp
  ultimately show ?thesis using effective_access_max [of sample_nas "''s1''" "''none''" "''u1''"] by simp
qed

subsection \<open>Lemmas: quota projects\<close>

text \<open>Project ids are above 1000, and no two shares have the same one.\<close>

definition project_ids :: "db \<Rightarrow> nat list" where
  "project_ids d = List.map_filter shr_quota_project_id (db_shares d)"

definition quota_ok :: "db \<Rightarrow> bool" where
  "quota_ok d \<longleftrightarrow> keyed shr_id (db_shares d) \<and> distinct (project_ids d) \<and> (\<forall>n \<in> set (project_ids d). 1000 < n)"

lemma fold_max_ge: "n \<le> fold max ns (n::nat)" "m \<in> set ns \<Longrightarrow> m \<le> fold max ns (n::nat)"
proof -
  have ge: "\<And>n::nat. n \<le> fold max ns n" for ns
  proof (induction ns)
    case (Cons a ns)
    have "n \<le> max a n" by simp
    also have "\<dots> \<le> fold max ns (max a n)" by (rule Cons.IH)
    finally show ?case by simp
  qed simp
  show "n \<le> fold max ns n" by (rule ge)
  show "m \<in> set ns \<Longrightarrow> m \<le> fold max ns (n::nat)"
    by (induction ns arbitrary: n) (auto intro: order_trans [OF _ ge])
qed

lemma max_project_id_ge: "n \<in> set (project_ids d) \<Longrightarrow> n \<le> max_project_id d"
  by (auto simp: max_project_id_def project_ids_def intro: fold_max_ge split: list.splits)

lemma set_project_ids: "n \<in> set (project_ids d) \<longleftrightarrow> (\<exists>r \<in> set (db_shares d). shr_quota_project_id r = Some n)"
  by (auto simp: project_ids_def map_filter_def image_iff)

lemma map_filter_assign:
  assumes "keyed shr_id t" and "distinct (List.map_filter shr_quota_project_id t)"
    and "m \<notin> set (List.map_filter shr_quota_project_id t)"
  shows "distinct (List.map_filter shr_quota_project_id
    (sql_update (\<lambda>r. shr_id r = i) (\<lambda>r. r\<lparr>shr_quota_project_id := Some m\<rparr>) t))"
proof -
  let ?u = "\<lambda>t. List.map_filter shr_quota_project_id
    (sql_update (\<lambda>r. shr_id r = i) (\<lambda>r. r\<lparr>shr_quota_project_id := Some m\<rparr>) t)"
  have idle: "\<forall>r \<in> set t. shr_id r \<noteq> i \<Longrightarrow> ?u t = List.map_filter shr_quota_project_id t" for t
    by (induction t) (simp_all add: map_filter_simps split: option.splits)
  have sub: "set (?u t) \<subseteq> insert m (set (List.map_filter shr_quota_project_id t))" for t
    by (induction t) (auto simp: map_filter_simps split: option.splits)
  show ?thesis using assms
  proof (induction t)
    case (Cons r t)
    have "shr_id r \<notin> shr_id ` set t" and k1: "keyed shr_id t" using Cons.prems(1) by (simp_all add: keyed_def)
    then have k: "keyed shr_id t" "\<forall>s \<in> set t. shr_id s \<noteq> shr_id r" by (metis imageI)+
    show ?case
    proof (cases "shr_id r = i")
      case True
      then show ?thesis using Cons.prems idle [of t] k(2)
        by (auto simp: map_filter_simps split: option.splits)
    next
      case False
      then show ?thesis using Cons.prems Cons.IH [OF k(1)] sub [of t]
        by (auto simp: map_filter_simps split: option.splits)
    qed
  qed (simp add: map_filter_simps)
qed

lemma ensureQuotaProjectId_cases:
  assumes "quota_ok d"
  shows "(\<exists>n. Option.bind (shareRow d i) shr_quota_project_id = Some n \<and> ensureQuotaProjectId i d = (n, d)) \<or>
    (Option.bind (shareRow d i) shr_quota_project_id = None \<and>
     ensureQuotaProjectId i d = (max 1000 (max_project_id d) + 1,
       d\<lparr>db_shares := sql_update (\<lambda>r. shr_id r = i)
          (\<lambda>r. r\<lparr>shr_quota_project_id := Some (max 1000 (max_project_id d) + 1)\<rparr>) (db_shares d)\<rparr>))"
proof (cases "Option.bind (shareRow d i) shr_quota_project_id")
  case (Some n)
  then obtain r where "shareRow d i = Some r" "shr_quota_project_id r = Some n" by (cases "shareRow d i") auto
  then have "n \<in> set (project_ids d)" by (auto simp: set_project_ids shareRow_def dest: sql_get_SomeD)
  then have "1000 < n" using assms by (simp add: quota_ok_def)
  then obtain m where "n = Suc m" by (cases n) auto
  then show ?thesis using Some by (simp add: ensureQuotaProjectId_def)
qed (simp add: ensureQuotaProjectId_def Let_def)

lemma ensureQuotaProjectId_ok:
  assumes "quota_ok d"
  shows "quota_ok (snd (ensureQuotaProjectId i d))"
  using ensureQuotaProjectId_cases [OF assms, of i]
proof
  assume "\<exists>n. Option.bind (shareRow d i) shr_quota_project_id = Some n \<and> ensureQuotaProjectId i d = (n, d)"
  then show ?thesis using assms by auto
next
  let ?m = "max 1000 (max_project_id d) + 1"
  let ?t = "sql_update (\<lambda>r. shr_id r = i) (\<lambda>r. r\<lparr>shr_quota_project_id := Some ?m\<rparr>) (db_shares d)"
  assume "Option.bind (shareRow d i) shr_quota_project_id = None \<and> ensureQuotaProjectId i d = (?m, d\<lparr>db_shares := ?t\<rparr>)"
  then have d': "snd (ensureQuotaProjectId i d) = d\<lparr>db_shares := ?t\<rparr>" by simp
  have "?m \<notin> set (project_ids d)" using max_project_id_ge [of ?m d] by auto
  then have "distinct (List.map_filter shr_quota_project_id ?t)"
    using assms by (intro map_filter_assign) (auto simp: quota_ok_def project_ids_def)
  moreover have "\<forall>n \<in> set (project_ids (d\<lparr>db_shares := ?t\<rparr>)). 1000 < n"
    using assms by (fastforce simp: set_project_ids quota_ok_def)
  moreover have "keyed shr_id ?t" using assms by (auto simp: quota_ok_def intro: keyed_update)
  ultimately show ?thesis by (simp add: quota_ok_def d' project_ids_def)
qed

lemma quota_ok_delete: "quota_ok d \<Longrightarrow> quota_ok (deleteShare i d)"
proof -
  have sub: "set (List.map_filter shr_quota_project_id (sql_delete P t)) \<subseteq> set (List.map_filter shr_quota_project_id t)" for P t
    by (induction t) (auto simp: map_filter_simps split: option.splits)
  then have "distinct (List.map_filter shr_quota_project_id t) \<Longrightarrow>
    distinct (List.map_filter shr_quota_project_id (sql_delete P t))" for P t
    by (induction t) (auto simp: map_filter_simps split: option.splits)
  then show "quota_ok d \<Longrightarrow> quota_ok (deleteShare i d)"
    using sub by (fastforce simp: quota_ok_def deleteShare_def project_ids_def)
qed

lemma quota_ok_update: "quota_ok d \<Longrightarrow> quota_ok (updateShare i f d)"
proof -
  have "List.map_filter shr_quota_project_id (sql_update (\<lambda>r. shr_id r = i) (apply_share_fields f) t) =
    List.map_filter shr_quota_project_id t" for t
    by (induction t) (simp_all add: map_filter_simps apply_share_fields_def split: option.splits)
  then show "quota_ok d \<Longrightarrow> quota_ok (updateShare i f d)"
    by (auto simp: quota_ok_def updateShare_def project_ids_def apply_share_fields_def intro: keyed_update)
qed

lemma quota_ok_create:
  assumes "quota_ok d" and "createShare i now inp d = Inr (s, d')"
  shows "quota_ok d'"
proof -
  have d': "db_shares d' = db_shares d @ [new_share_row i now inp]" and new: "\<forall>r \<in> set (db_shares d). shr_id r \<noteq> i"
    using assms(2) by (auto simp: createShare_def Let_def sql_exists_iff split: if_splits)
  have "project_ids d' = project_ids d" by (simp add: project_ids_def d' map_filter_def new_share_row_def)
  moreover have "keyed shr_id (db_shares d')"
    unfolding d' using assms(1) new by (intro keyed_snoc) (auto simp: quota_ok_def new_share_row_def)
  ultimately show ?thesis using assms(1) by (simp add: quota_ok_def)
qed

text \<open>What the administrator does to the shares table.\<close>

datatype share_step = MakeShare string millis create_share_input | EditShare string update_share_fields
  | DropShare string | AllocProject string

fun share_run :: "share_step \<Rightarrow> db \<Rightarrow> db" where
  "share_run (MakeShare i now inp) d = (case createShare i now inp d of Inl e \<Rightarrow> d | Inr (s, d') \<Rightarrow> d')"
| "share_run (EditShare i f) d = updateShare i f d"
| "share_run (DropShare i) d = deleteShare i d"
| "share_run (AllocProject i) d = snd (ensureQuotaProjectId i d)"

lemma share_run_quota: "quota_ok d \<Longrightarrow> quota_ok (share_run a d)"
  by (cases a)
    (auto simp: quota_ok_update quota_ok_delete ensureQuotaProjectId_ok intro: quota_ok_create split: sum.splits prod.splits)

lemma share_runs_quota: "quota_ok d \<Longrightarrow> quota_ok (fold share_run steps d)"
  by (induction steps arbitrary: d) (simp_all add: share_run_quota)

lemma project_id_unique:
  assumes "distinct (List.map_filter shr_quota_project_id t)" and "r \<in> set t" and "q \<in> set t"
    and "shr_quota_project_id r = Some n" and "shr_quota_project_id q = Some n"
  shows "r = q"
proof -
  have mem: "s \<in> set u \<Longrightarrow> shr_quota_project_id s = Some n \<Longrightarrow> n \<in> set (List.map_filter shr_quota_project_id u)" for s u
    by (force simp: map_filter_def)
  show ?thesis using assms(1-3)
  proof (induction t)
    case (Cons s t)
    show ?case
    proof (cases "shr_quota_project_id s")
      case None
      then show ?thesis using Cons assms(4,5) by (auto simp: map_filter_simps)
    next
      case (Some m)
      then show ?thesis using Cons assms(4,5) mem [of r t] mem [of q t] by (auto simp: map_filter_simps)
    qed
  qed simp
qed

lemma ensure_again:
  assumes "quota_ok d" and "shareRow d i \<noteq> None"
  shows "ensureQuotaProjectId i (snd (ensureQuotaProjectId i d)) = (fst (ensureQuotaProjectId i d), snd (ensureQuotaProjectId i d))"
  using ensureQuotaProjectId_cases [OF assms(1), of i]
proof
  assume "\<exists>n. Option.bind (shareRow d i) shr_quota_project_id = Some n \<and> ensureQuotaProjectId i d = (n, d)"
  then show ?thesis by auto
next
  let ?m = "max 1000 (max_project_id d) + 1"
  let ?t = "sql_update (\<lambda>r. shr_id r = i) (\<lambda>r. r\<lparr>shr_quota_project_id := Some ?m\<rparr>) (db_shares d)"
  assume "Option.bind (shareRow d i) shr_quota_project_id = None \<and> ensureQuotaProjectId i d = (?m, d\<lparr>db_shares := ?t\<rparr>)"
  moreover have "shareRow (d\<lparr>db_shares := ?t\<rparr>) i = map_option (\<lambda>r. r\<lparr>shr_quota_project_id := Some ?m\<rparr>) (shareRow d i)"
    by (simp add: shareRow_def sql_get_update_same)
  moreover obtain k where "?m = Suc k" by simp
  ultimately show ?thesis using assms(2) by (auto simp: ensureQuotaProjectId_def)
qed

text \<open>
  Quota projects: after any sequence of creating, editing and deleting shares and
  allocating projects, no two shares have the same project id, every id is above 1000,
  and asking again for an existing share's id gives the same number and changes nothing.
\<close>

theorem quota_projects_distinct:
  assumes "db_shares d = []" and "d' = fold share_run steps d" and "shareRow d' i \<noteq> None"
    and "ensureQuotaProjectId i d' = (n, e)"
  shows "1000 < n \<and> ensureQuotaProjectId i e = (n, e) \<and>
    (\<forall>r \<in> set (db_shares e). shr_quota_project_id r = Some n \<longleftrightarrow> shr_id r = i)"
proof -
  have ok: "quota_ok d'" unfolding assms(2)
    using assms(1) by (intro share_runs_quota) (simp add: quota_ok_def project_ids_def map_filter_simps)
  have e: "ensureQuotaProjectId i e = (n, e)" using ensure_again [OF ok assms(3)] assms(4) by simp
  have oke: "quota_ok e" using ensureQuotaProjectId_ok [OF ok, of i] assms(4) by simp
  have "Option.bind (shareRow e i) shr_quota_project_id = Some n"
    using assms(3,4) ensureQuotaProjectId_cases [OF ok, of i] by (auto simp: shareRow_def sql_get_update_same)
  then obtain q where q: "shareRow e i = Some q" and id: "shr_quota_project_id q = Some n"
    by (cases "shareRow e i") auto
  have qe: "q \<in> set (db_shares e)" "shr_id q = i" using q by (auto simp: shareRow_def dest: sql_get_SomeD)
  have k: "keyed shr_id (db_shares e)" and ds: "distinct (project_ids e)" and big: "\<forall>m \<in> set (project_ids e). 1000 < m"
    using oke by (auto simp: quota_ok_def)
  have holder: "shr_quota_project_id r = Some n \<longleftrightarrow> shr_id r = i" if "r \<in> set (db_shares e)" for r
  proof
    assume "shr_quota_project_id r = Some n"
    then have "r = q" using project_id_unique [OF ds [unfolded project_ids_def] that qe(1)] id by simp
    then show "shr_id r = i" using qe(2) by simp
  next
    assume "shr_id r = i"
    then have "r = q" using keyed_unique [OF k that qe(1)] qe(2) by simp
    then show "shr_quota_project_id r = Some n" using id by simp
  qed
  have "1000 < n" using big id qe(1) set_project_ids by blast
  with e holder show ?thesis by blast
qed

theorem quota_projects_distinct_witness:
  "fst (ensureQuotaProjectId ''s2'' (fold share_run
     [MakeShare ''s1'' 0 \<lparr>csi_name = ''a'', csi_comment = None, csi_guest_access = None, csi_smb_enabled = None, csi_nfs_enabled = None,
        csi_browseable = None, csi_volume = None, csi_recycle_enabled = None, csi_time_machine = None\<rparr>,
      MakeShare ''s2'' 0 \<lparr>csi_name = ''b'', csi_comment = None, csi_guest_access = None, csi_smb_enabled = None, csi_nfs_enabled = None,
        csi_browseable = None, csi_volume = None, csi_recycle_enabled = None, csi_time_machine = None\<rparr>,
      AllocProject ''s1''] empty_db)) > 1000"
  (is "fst (ensureQuotaProjectId _ ?d) > 1000")
proof -
  obtain n e where ne: "ensureQuotaProjectId ''s2'' ?d = (n, e)" by fastforce
  have ex: "shareRow ?d ''s2'' \<noteq> None"
    by (simp add: createShare_def Let_def empty_db_def sql_exists_def new_share_row_def ensureQuotaProjectId_def
        shareRow_def sql_get_update_other)
  from quota_projects_distinct [OF _ refl ex ne] ne show ?thesis by (simp add: empty_db_def)
qed

lemma delete_updated_projects:
  assumes "\<And>r. r \<in> set t \<Longrightarrow> shr_id r = a \<Longrightarrow> shr_quota_project_id r = None" and "\<And>r. shr_id (f r) = shr_id r"
  shows "List.map_filter shr_quota_project_id (sql_delete (\<lambda>r. shr_id r = a) (sql_update (\<lambda>r. shr_id r = a) f t)) =
    List.map_filter shr_quota_project_id t"
  using assms by (induction t) (auto simp: map_filter_simps split: option.splits)

text \<open>
  A project id is not kept from other shares for good: the share that held the highest
  one is deleted, and the next share to ask gets that very number, although the
  directories of the deleted share may still carry it.
\<close>

theorem quota_project_reused:
  assumes "quota_ok d" and "a \<noteq> b" and "Option.bind (shareRow d a) shr_quota_project_id = None"
    and "Option.bind (shareRow d b) shr_quota_project_id = None"
  shows "fst (ensureQuotaProjectId b (deleteShare a (snd (ensureQuotaProjectId a d)))) = fst (ensureQuotaProjectId a d)"
proof -
  let ?m = "max 1000 (max_project_id d) + 1"
  let ?f = "\<lambda>r. r\<lparr>shr_quota_project_id := Some ?m\<rparr>"
  let ?t = "sql_delete (\<lambda>r. shr_id r = a) (sql_update (\<lambda>r. shr_id r = a) ?f (db_shares d))"
  let ?e = "deleteShare a (snd (ensureQuotaProjectId a d))"
  have a: "ensureQuotaProjectId a d = (?m, d\<lparr>db_shares := sql_update (\<lambda>r. shr_id r = a) ?f (db_shares d)\<rparr>)"
    using assms(3) by (simp add: ensureQuotaProjectId_def Let_def)
  then have e: "db_shares ?e = ?t" by (simp add: deleteShare_def)
  have "r \<in> set (db_shares d) \<Longrightarrow> shr_id r = a \<Longrightarrow> shr_quota_project_id r = None" for r
    using assms(1,3) sql_get_keyed [of shr_id "db_shares d" r] by (simp add: shareRow_def quota_ok_def)
  then have "List.map_filter shr_quota_project_id ?t = List.map_filter shr_quota_project_id (db_shares d)"
    by (rule delete_updated_projects) simp_all
  then have "max_project_id ?e = max_project_id d" by (simp add: max_project_id_def e)
  moreover have "shareRow ?e b = shareRow d b"
    using assms(2) unfolding shareRow_def e by (simp add: sql_get_delete_other sql_get_update_other)
  ultimately show ?thesis using a assms(4) by (simp add: ensureQuotaProjectId_def Let_def)
qed

theorem quota_project_reused_witness:
  "fst (ensureQuotaProjectId ''s2'' (deleteShare ''s1'' (snd (ensureQuotaProjectId ''s1'' sample_nas)))) =
   fst (ensureQuotaProjectId ''s1'' sample_nas)"
proof -
  have "quota_ok sample_nas"
    by (simp add: quota_ok_def sample_nas_def sample_share_def new_share_row_def keyed_def project_ids_def map_filter_simps)
  moreover have "Option.bind (shareRow sample_nas ''s1'') shr_quota_project_id = None"
    "Option.bind (shareRow sample_nas ''s2'') shr_quota_project_id = None" by code_simp+
  ultimately show ?thesis by (intro quota_project_reused) simp_all
qed

end
