(* ===== verification/Acls.thy ===== *)
theory Acls
  imports Shares
begin

text \<open>
  Folder rules below a share's root: \<open>apps/api/src/db/acls.ts\<close>.  The share's grant is the
  starting point; of the rules on the way down to a folder the deepest one that names
  the user or one of its groups decides.  \<open>(share_id, path, subject_type, subject_id)\<close> is
  unique and \<open>share_id\<close> references \<open>shares\<close>; the subject references nothing.
\<close>

text \<open>\<open>normalizeAclPath\<close> throws (here \<open>None\<close>) on a path with a dot-dot segment.\<close>

definition acl_segments :: "string \<Rightarrow> string list" where
  "acl_segments inp = filter (\<lambda>p. p \<noteq> '''' \<and> p \<noteq> ''.'') (split_on (CHR ''/'') inp)"

definition normalizeAclPath :: "string \<Rightarrow> string option" where
  "normalizeAclPath inp =
     (let parts = acl_segments inp
      in if list_ex (\<lambda>p. p = ''..'') parts then None else Some (join ''/'' parts))"

definition ancestorsOf :: "string \<Rightarrow> string list" where
  "ancestorsOf path =
     (let parts = filter (\<lambda>p. p \<noteq> '''') (split_on (CHR ''/'') path)
      in map (\<lambda>i. join ''/'' (take (i + 1) parts)) [0..<length parts])"

record folder_acl =
  fa_id :: string
  fa_share_id :: string
  fa_path :: string
  fa_subject_type :: string
  fa_subject_id :: string
  fa_subject_name :: string
  fa_subject_label :: string
  fa_level :: access_level
  fa_created_at :: millis

text \<open>The two left joins; a deleted subject shows as \<open>(deleted)\<close>.\<close>

definition subject_name :: "db \<Rightarrow> acl_row \<Rightarrow> string option" where
  "subject_name d a =
     (if acl_subject_type a = ''user'' then map_option usr_username (userRow d (acl_subject_id a))
      else if acl_subject_type a = ''group'' then map_option grp_name (groupRow d (acl_subject_id a)) else None)"

definition subject_label :: "db \<Rightarrow> acl_row \<Rightarrow> string option" where
  "subject_label d a =
     (if acl_subject_type a = ''user'' then map_option usr_display_name (userRow d (acl_subject_id a))
      else if acl_subject_type a = ''group'' then map_option grp_name (groupRow d (acl_subject_id a)) else None)"

definition to_folder_acl :: "db \<Rightarrow> acl_row \<Rightarrow> folder_acl" where
  "to_folder_acl d a = \<lparr>fa_id = acl_id a, fa_share_id = acl_share_id a, fa_path = acl_path a,
     fa_subject_type = (if acl_subject_type a = ''group'' then ''group'' else ''user''),
     fa_subject_id = acl_subject_id a,
     fa_subject_name = (case subject_name d a of None \<Rightarrow> ''(deleted)'' | Some n \<Rightarrow> n),
     fa_subject_label = (case subject_label d a of None \<Rightarrow> ''(deleted)'' | Some n \<Rightarrow> n),
     fa_level = normLevel (acl_level a), fa_created_at = acl_created_at a\<rparr>"

text \<open>SQLite sorts \<open>NULL\<close> before any text, so a missing name sorts like one smaller than all.\<close>

definition acl_order :: "db \<Rightarrow> acl_row \<Rightarrow> string list" where
  "acl_order d a = [acl_path a, acl_subject_type a] @ (case subject_name d a of None \<Rightarrow> [] | Some n \<Rightarrow> [n])"

definition listAcls :: "db \<Rightarrow> string \<Rightarrow> folder_acl list" where
  "listAcls d shareId =
     map (to_folder_acl d) (order_asc (acl_order d) (filter (\<lambda>a. acl_share_id a = shareId) (db_acls d)))"

record set_acl_input =
  sai_share_id :: string
  sai_path :: string
  sai_subject_type :: string
  sai_subject_id :: string
  sai_level :: access_level

datatype acl_error = PathEscapes | RootRule | AclSql sql_error

definition same_rule :: "set_acl_input \<Rightarrow> string \<Rightarrow> acl_row \<Rightarrow> bool" where
  "same_rule inp path a \<longleftrightarrow> acl_share_id a = sai_share_id inp \<and> acl_path a = path \<and>
     acl_subject_type a = sai_subject_type inp \<and> acl_subject_id a = sai_subject_id inp"

definition setAcl :: "string \<Rightarrow> millis \<Rightarrow> set_acl_input \<Rightarrow> db \<Rightarrow> acl_error + (folder_acl \<times> db)" where
  "setAcl i now inp d =
     (case normalizeAclPath (sai_path inp) of
        None \<Rightarrow> Inl PathEscapes
      | Some path \<Rightarrow>
          if path = '''' then Inl RootRule
          else
            (let new = \<lparr>acl_id = i, acl_share_id = sai_share_id inp, acl_path = path,
                        acl_subject_type = sai_subject_type inp, acl_subject_id = sai_subject_id inp,
                        acl_level = level_text (sai_level inp), acl_created_at = now\<rparr>;
                 d1 = d\<lparr>db_acls := sql_upsert (same_rule inp path)
                          (\<lambda>a. a\<lparr>acl_level := level_text (sai_level inp)\<rparr>) new (db_acls d)\<rparr>
             in if shareRow d (sai_share_id inp) = None then Inl (AclSql ForeignKeyViolation)
                else if \<not> sql_exists (same_rule inp path) (db_acls d) \<and> sql_exists (\<lambda>a. acl_id a = i) (db_acls d)
                then Inl (AclSql UniqueViolation)
                else Inr (the (map_option (to_folder_acl d1) (sql_get (same_rule inp path) (db_acls d1))), d1)))"

definition deleteAcl :: "string \<Rightarrow> string \<Rightarrow> db \<Rightarrow> bool \<times> db" where
  "deleteAcl shareId i d =
     (sql_count (\<lambda>a. acl_id a = i \<and> acl_share_id a = shareId) (db_acls d) = 1,
      d\<lparr>db_acls := sql_delete (\<lambda>a. acl_id a = i \<and> acl_share_id a = shareId) (db_acls d)\<rparr>)"

definition shareHasAcls :: "db \<Rightarrow> string \<Rightarrow> bool" where
  "shareHasAcls d shareId \<longleftrightarrow> sql_count (\<lambda>a. acl_share_id a = shareId) (db_acls d) > 0"

text \<open>\<open>reduce((a, b) => (RANK[a] <= RANK[b] ? a : b))\<close> on a non-empty list.\<close>

fun most_restrictive :: "access_level list \<Rightarrow> access_level" where
  "most_restrictive [] = NoAccess"
| "most_restrictive (a # ls) = fold (\<lambda>b a. if level_rank a \<le> level_rank b then a else b) ls a"

text \<open>One round of the loop over the chain.\<close>

definition acl_step :: "acl_row list \<Rightarrow> string \<Rightarrow> string list \<Rightarrow> string \<Rightarrow> access_level \<Rightarrow> access_level" where
  "acl_step rows userId groupIds step level =
     (let here = filter (\<lambda>r. acl_path r = step) rows in
      case find (\<lambda>r. acl_subject_type r = ''user'' \<and> acl_subject_id r = userId) here of
        Some userRule \<Rightarrow> normLevel (acl_level userRule)
      | None \<Rightarrow>
          (let groupRules = filter (\<lambda>r. acl_subject_type r = ''group'' \<and> List.member groupIds (acl_subject_id r)) here
           in if groupRules \<noteq> [] then most_restrictive (map (\<lambda>r. normLevel (acl_level r)) groupRules) else level))"

definition applyFolderAcls ::
  "db \<Rightarrow> string \<Rightarrow> string \<Rightarrow> string \<Rightarrow> string list \<Rightarrow> access_level \<Rightarrow> access_level option" where
  "applyFolderAcls d shareId relPath userId groupIds shareLevel =
     (if shareLevel = NoAccess then Some NoAccess
      else
        (case normalizeAclPath relPath of
           None \<Rightarrow> None
         | Some path \<Rightarrow>
             if path = '''' then Some shareLevel
             else
               (let chain = ancestorsOf path;
                    rows = filter (\<lambda>a. acl_share_id a = shareId \<and> List.member chain (acl_path a)) (db_acls d)
                in if rows = [] then Some shareLevel
                   else Some (fold (acl_step rows userId groupIds) chain shareLevel))))"

definition pruneOrphanAcls :: "db \<Rightarrow> nat \<times> db" where
  "pruneOrphanAcls d =
     (let orphan = (\<lambda>a. (acl_subject_type a = ''user'' \<and> userRow d (acl_subject_id a) = None) \<or>
                        (acl_subject_type a = ''group'' \<and> groupRow d (acl_subject_id a) = None))
      in (sql_count orphan (db_acls d), d\<lparr>db_acls := sql_delete orphan (db_acls d)\<rparr>))"

subsection \<open>Lemmas: rule paths\<close>

definition acl_path_ok :: "string \<Rightarrow> bool" where
  "acl_path_ok p \<longleftrightarrow> (\<exists>ss. p = join ''/'' ss \<and> ss \<noteq> [] \<and> (\<forall>s \<in> set ss. plain_segment s))"

lemma acl_segments_plain: "s \<in> set (acl_segments p) \<Longrightarrow> s \<noteq> ''..'' \<Longrightarrow> plain_segment s"
  by (auto simp: acl_segments_def plain_segment_def dest: split_on_no_sep)

lemma normalizeAclPath_Some:
  "normalizeAclPath p = Some q \<longleftrightarrow> (\<forall>s \<in> set (acl_segments p). plain_segment s) \<and> q = join ''/'' (acl_segments p)"
  using acl_segments_plain [of _ p]
  by (auto simp: normalizeAclPath_def Let_def list_ex_iff plain_segment_def)

lemma split_plain_path:
  "\<forall>s \<in> set ss. plain_segment s \<Longrightarrow> ss \<noteq> [] \<Longrightarrow> split_on (CHR ''/'') (join ''/'' ss) = ss"
  by (rule split_on_join) (auto simp: plain_segment_def)

lemma join_Nil_iff: "\<forall>s \<in> set ss. plain_segment s \<Longrightarrow> join ''/'' ss = '''' \<longleftrightarrow> ss = []"
  by (cases ss; cases "tl ss") (auto simp: plain_segment_def)

lemma ancestorsOf_join:
  "\<forall>s \<in> set ss. plain_segment s \<Longrightarrow> ancestorsOf (join ''/'' ss) = map (\<lambda>i. join ''/'' (take (i + 1) ss)) [0..<length ss]"
proof (cases "ss = []")
  case False
  assume p: "\<forall>s \<in> set ss. plain_segment s"
  then have "filter (\<lambda>p. p \<noteq> '''') ss = ss" by (auto simp: filter_id_conv plain_segment_def)
  then show ?thesis using split_plain_path [OF p False] by (simp add: ancestorsOf_def)
qed (simp add: ancestorsOf_def)

lemma normalizeAclPath_join:
  "\<forall>s \<in> set ss. plain_segment s \<Longrightarrow> normalizeAclPath (join ''/'' ss) = Some (join ''/'' ss)"
proof (cases "ss = []")
  case False
  assume p: "\<forall>s \<in> set ss. plain_segment s"
  then have "acl_segments (join ''/'' ss) = ss"
    using split_plain_path [OF p False] by (auto simp: acl_segments_def filter_id_conv plain_segment_def)
  then show ?thesis using p by (simp add: normalizeAclPath_Some)
qed (simp add: normalizeAclPath_def acl_segments_def)

lemma normalizeAclPath_idem: "normalizeAclPath p = Some q \<Longrightarrow> normalizeAclPath q = Some q"
  using normalizeAclPath_join [of "acl_segments p"] by (auto simp: normalizeAclPath_Some)

subsection \<open>Lemmas: which rule decides\<close>

text \<open>
  The reference: the rules that name the user or one of its groups at a folder, and the
  level they give together: the user's own rule, or else the lowest of the groups' ones.
\<close>

definition acls_ok :: "db \<Rightarrow> bool" where
  "acls_ok d \<longleftrightarrow> keyed acl_id (db_acls d) \<and>
     keyed (\<lambda>a. (acl_share_id a, acl_path a, acl_subject_type a, acl_subject_id a)) (db_acls d) \<and>
     (\<forall>a \<in> set (db_acls d). acl_path_ok (acl_path a))"

definition user_rules :: "db \<Rightarrow> string \<Rightarrow> string \<Rightarrow> string \<Rightarrow> access_level set" where
  "user_rules d shareId folder userId =
     {normLevel (acl_level a) | a. a \<in> set (db_acls d) \<and> acl_share_id a = shareId \<and> acl_path a = folder \<and>
        acl_subject_type a = ''user'' \<and> acl_subject_id a = userId}"

definition group_rules :: "db \<Rightarrow> string \<Rightarrow> string \<Rightarrow> string list \<Rightarrow> access_level set" where
  "group_rules d shareId folder groupIds =
     {normLevel (acl_level a) | a. a \<in> set (db_acls d) \<and> acl_share_id a = shareId \<and> acl_path a = folder \<and>
        acl_subject_type a = ''group'' \<and> acl_subject_id a \<in> set groupIds}"

definition folder_level :: "db \<Rightarrow> string \<Rightarrow> string \<Rightarrow> string list \<Rightarrow> string \<Rightarrow> access_level \<Rightarrow> bool" where
  "folder_level d shareId userId groupIds folder l \<longleftrightarrow>
     (if user_rules d shareId folder userId \<noteq> {} then user_rules d shareId folder userId = {l}
      else group_rules d shareId folder groupIds \<noteq> {} \<and> l = Min (group_rules d shareId folder groupIds))"

definition no_rule :: "db \<Rightarrow> string \<Rightarrow> string \<Rightarrow> string list \<Rightarrow> string \<Rightarrow> bool" where
  "no_rule d shareId userId groupIds folder \<longleftrightarrow>
     user_rules d shareId folder userId = {} \<and> group_rules d shareId folder groupIds = {}"

lemma most_restrictive_Min: "ls \<noteq> [] \<Longrightarrow> most_restrictive ls = Min (set ls)"
proof (cases ls)
  case (Cons a as)
  have "fold (\<lambda>b a. if level_rank a \<le> level_rank b then a else b) as a = Min (insert a (set as))" for a
  proof (induction as arbitrary: a)
    case (Cons b as)
    have "(if level_rank a \<le> level_rank b then a else b) = min a b"
      by (simp add: min_def less_eq_access_level_def)
    moreover have "Min (insert (min a b) (set as)) = Min (insert a (insert b (set as)))"
      by (cases "as = []") (simp_all add: min.assoc)
    ultimately show ?case using Cons by simp
  qed simp
  then show ?thesis using Cons by simp
qed simp

lemma user_rules_one:
  assumes "acls_ok d" and "a \<in> set (db_acls d)" and "acl_share_id a = s" "acl_path a = f"
    and "acl_subject_type a = ''user''" "acl_subject_id a = u"
  shows "user_rules d s f u = {normLevel (acl_level a)}"
proof -
  have "b = a" if "b \<in> set (db_acls d)" "acl_share_id b = s" "acl_path b = f" "acl_subject_type b = ''user''"
    "acl_subject_id b = u" for b
    using assms that keyed_unique [of "\<lambda>a. (acl_share_id a, acl_path a, acl_subject_type a, acl_subject_id a)" "db_acls d" b a]
    by (simp add: acls_ok_def)
  then show ?thesis using assms(2-) by (fastforce simp: user_rules_def)
qed

lemma acl_step_cases:
  assumes ok: "acls_ok d" and step: "step \<in> set chain"
    and rows: "rows = filter (\<lambda>a. acl_share_id a = s \<and> List.member chain (acl_path a)) (db_acls d)"
  shows "(no_rule d s u gs step \<and> acl_step rows u gs step l = l) \<or>
    folder_level d s u gs step (acl_step rows u gs step l)"
proof -
  let ?here = "filter (\<lambda>r. acl_path r = step) rows"
  let ?user = "\<lambda>r. acl_subject_type r = ''user'' \<and> acl_subject_id r = u"
  let ?group = "\<lambda>r. acl_subject_type r = ''group'' \<and> List.member gs (acl_subject_id r)"
  have here: "a \<in> set ?here \<longleftrightarrow> a \<in> set (db_acls d) \<and> acl_share_id a = s \<and> acl_path a = step" for a
    using step by (auto simp: rows)
  have groups: "group_rules d s step gs = set (map (\<lambda>r. normLevel (acl_level r)) (filter ?group ?here))"
    using here by (auto simp: group_rules_def)
  show ?thesis
  proof (cases "find ?user ?here")
    case (Some a)
    then have "a \<in> set ?here" "?user a"
      using sql_get_SomeD [of ?user ?here a] unfolding sql_get_def by blast+
    then have "user_rules d s step u = {normLevel (acl_level a)}" using user_rules_one [OF ok] here by blast
    moreover have "acl_step rows u gs step l = normLevel (acl_level a)" using Some by (simp add: acl_step_def)
    ultimately show ?thesis by (simp add: folder_level_def)
  next
    case None
    then have "\<forall>a \<in> set ?here. \<not> ?user a" by (auto simp: find_None_iff)
    then have nouser: "user_rules d s step u = {}" using here by (auto simp: user_rules_def)
    show ?thesis
    proof (cases "filter ?group ?here = []")
      case True
      then have "group_rules d s step gs = {}" by (simp only: groups) simp
      moreover have "acl_step rows u gs step l = l" unfolding acl_step_def Let_def None True by simp
      ultimately show ?thesis using nouser by (simp add: no_rule_def)
    next
      case False
      let ?ls = "map (\<lambda>r. normLevel (acl_level r)) (filter ?group ?here)"
      have "acl_step rows u gs step l = most_restrictive ?ls" unfolding acl_step_def Let_def None using False by simp
      also have "\<dots> = Min (set ?ls)" using False by (intro most_restrictive_Min) simp
      also have "\<dots> = Min (group_rules d s step gs)" by (simp only: groups)
      finally have "acl_step rows u gs step l = Min (group_rules d s step gs)" .
      moreover have "group_rules d s step gs \<noteq> {}"
        using False by (simp only: groups set_empty map_is_Nil_conv not_False_eq_True)
      ultimately show ?thesis using nouser by (simp add: folder_level_def)
    qed
  qed
qed

text \<open>The loop stops at the level of the last folder that has a rule.\<close>

lemma acl_loop:
  assumes "acls_ok d" and "set steps \<subseteq> set chain"
    and "rows = filter (\<lambda>a. acl_share_id a = s \<and> List.member chain (acl_path a)) (db_acls d)"
  shows "((\<forall>f \<in> set steps. no_rule d s u gs f) \<and> fold (acl_step rows u gs) steps l = l) \<or>
    (\<exists>pre f post. steps = pre @ f # post \<and> folder_level d s u gs f (fold (acl_step rows u gs) steps l) \<and>
       (\<forall>g \<in> set post. no_rule d s u gs g))"
  using assms(2)
proof (induction steps rule: rev_induct)
  case (snoc f steps)
  let ?l = "fold (acl_step rows u gs) steps l"
  have fold: "fold (acl_step rows u gs) (steps @ [f]) l = acl_step rows u gs f ?l" by simp
  have "f \<in> set chain" using snoc.prems by simp
  from acl_step_cases [OF assms(1) this assms(3), of u gs ?l] show ?case
  proof
    assume "no_rule d s u gs f \<and> acl_step rows u gs f ?l = ?l"
    then have f: "no_rule d s u gs f" "fold (acl_step rows u gs) (steps @ [f]) l = ?l" by simp_all
    from snoc.IH snoc.prems have "((\<forall>f \<in> set steps. no_rule d s u gs f) \<and> ?l = l) \<or>
      (\<exists>pre g post. steps = pre @ g # post \<and> folder_level d s u gs g ?l \<and> (\<forall>h \<in> set post. no_rule d s u gs h))" by simp
    then show ?thesis
    proof
      assume "(\<forall>f \<in> set steps. no_rule d s u gs f) \<and> ?l = l"
      then show ?thesis using f by auto
    next
      assume "\<exists>pre g post. steps = pre @ g # post \<and> folder_level d s u gs g ?l \<and> (\<forall>h \<in> set post. no_rule d s u gs h)"
      then obtain pre g post where "steps = pre @ g # post" "folder_level d s u gs g ?l"
        "\<forall>h \<in> set post. no_rule d s u gs h" by blast
      then have "steps @ [f] = pre @ g # (post @ [f]) \<and> folder_level d s u gs g (fold (acl_step rows u gs) (steps @ [f]) l) \<and>
        (\<forall>h \<in> set (post @ [f]). no_rule d s u gs h)" using f by auto
      then show ?thesis by blast
    qed
  next
    assume "folder_level d s u gs f (acl_step rows u gs f ?l)"
    then have "steps @ [f] = steps @ f # [] \<and> folder_level d s u gs f (fold (acl_step rows u gs) (steps @ [f]) l) \<and>
      (\<forall>h \<in> set ([]::string list). no_rule d s u gs h)" using fold by simp
    then show ?thesis by blast
  qed
qed simp

lemma acl_step_empty: "fold (acl_step [] u gs) steps l = l"
  by (induction steps) (simp_all add: acl_step_def)

lemma applyFolderAcls_fold:
  assumes "\<forall>s \<in> set ss. plain_segment s" and "ss \<noteq> []" and "l \<noteq> NoAccess"
  shows "applyFolderAcls d shareId (join ''/'' ss) u gs l =
    (let chain = map (\<lambda>i. join ''/'' (take (i + 1) ss)) [0..<length ss]
     in Some (fold (acl_step (filter (\<lambda>a. acl_share_id a = shareId \<and> List.member chain (acl_path a)) (db_acls d)) u gs) chain l))"
proof -
  have "join ''/'' ss \<noteq> ''''" using assms join_Nil_iff by blast
  then show ?thesis
    using assms by (simp add: applyFolderAcls_def normalizeAclPath_join ancestorsOf_join Let_def acl_step_empty)
qed

text \<open>
  C6. Folder rules: what the loop over a path's ancestors computes is what the rules
  promise.  Where the share lets the user in at all, either no folder on the way has a
  rule that names the user or one of its groups, and the share's level stands; or the
  deepest folder that has one decides, by the user's own rule, or else by the most
  restrictive of the groups' rules.
\<close>

theorem folder_rules_decide:
  assumes "acls_ok d" and "\<forall>s \<in> set ss. plain_segment s" and "ss \<noteq> []" and "l \<noteq> NoAccess"
    and "applyFolderAcls d shareId (join ''/'' ss) u gs l = Some r"
  shows "(r = l \<and> (\<forall>k \<in> {1..length ss}. no_rule d shareId u gs (join ''/'' (take k ss)))) \<or>
    (\<exists>k \<in> {1..length ss}. folder_level d shareId u gs (join ''/'' (take k ss)) r \<and>
       (\<forall>j \<in> {k<..length ss}. no_rule d shareId u gs (join ''/'' (take j ss))))"
proof -
  let ?chain = "map (\<lambda>i. join ''/'' (take (i + 1) ss)) [0..<length ss]"
  let ?rows = "filter (\<lambda>a. acl_share_id a = shareId \<and> List.member ?chain (acl_path a)) (db_acls d)"
  have r: "r = fold (acl_step ?rows u gs) ?chain l"
    using assms(5) unfolding applyFolderAcls_fold [OF assms(2-4)] Let_def by simp
  have nth: "?chain ! i = join ''/'' (take (i + 1) ss)" if "i < length ss" for i using that by simp
  have mem: "join ''/'' (take k ss) \<in> set ?chain" if "k \<in> {1..length ss}" for k
  proof -
    have "k - 1 < length ?chain" "join ''/'' (take k ss) = ?chain ! (k - 1)" using that by auto
    then show ?thesis using nth_mem by metis
  qed
  from acl_loop [OF assms(1) subset_refl refl, of ?chain shareId u gs l]
  show ?thesis
  proof
    assume "(\<forall>f \<in> set ?chain. no_rule d shareId u gs f) \<and> fold (acl_step ?rows u gs) ?chain l = l"
    then show ?thesis using mem r by blast
  next
    assume "\<exists>pre f post. ?chain = pre @ f # post \<and> folder_level d shareId u gs f (fold (acl_step ?rows u gs) ?chain l) \<and>
      (\<forall>g \<in> set post. no_rule d shareId u gs g)"
    then obtain pre f post where c: "?chain = pre @ f # post" and f: "folder_level d shareId u gs f r"
      and post: "\<forall>g \<in> set post. no_rule d shareId u gs g" using r by blast
    have len: "length pre + 1 + length post = length ss" using arg_cong [OF c, of length] by simp
    have "f = ?chain ! length pre" unfolding c by simp
    then have fk: "f = join ''/'' (take (length pre + 1) ss)" using nth len by simp
    have "no_rule d shareId u gs (join ''/'' (take j ss))" if j: "j \<in> {length pre + 1<..length ss}" for j
    proof -
      have "j - 1 < length ss" "j - 1 + 1 = j" using j by auto
      then have "join ''/'' (take j ss) = ?chain ! (j - 1)" using nth by simp
      also have "\<dots> = post ! (j - 1 - (length pre + 1))" unfolding c using j by (auto simp: nth_append nth_Cons')
      finally have "join ''/'' (take j ss) \<in> set post" using j len by auto
      then show ?thesis using post by blast
    qed
    then show ?thesis using f fk len by (intro disjI2 bexI [of _ "length pre + 1"]) auto
  qed
qed

definition sample_acl_db :: db where
  "sample_acl_db = sample_nas\<lparr>db_acls :=
     [\<lparr>acl_id = ''r1'', acl_share_id = ''s1'', acl_path = ''a'', acl_subject_type = ''group'', acl_subject_id = ''g1'',
       acl_level = ''none'', acl_created_at = 0\<rparr>,
      \<lparr>acl_id = ''r2'', acl_share_id = ''s1'', acl_path = ''a/b'', acl_subject_type = ''user'', acl_subject_id = ''u1'',
       acl_level = ''ro'', acl_created_at = 0\<rparr>]\<rparr>"

lemma sample_acls_ok: "acls_ok sample_acl_db"
proof -
  have plain: "plain_segment ''a''" "plain_segment ''b''" by code_simp+
  have "acl_path_ok ''a''"
    unfolding acl_path_ok_def by (rule exI [of _ "[''a'']"]) (simp add: plain)
  moreover have "acl_path_ok ''a/b''"
    unfolding acl_path_ok_def by (rule exI [of _ "[''a'', ''b'']"]) (simp add: plain)
  ultimately have "acl_path_ok ''a''" "acl_path_ok ''a/b''" by simp_all
  then show ?thesis by (simp add: acls_ok_def sample_acl_db_def keyed_def)
qed

theorem folder_rules_decide_witness:
  "applyFolderAcls sample_acl_db ''s1'' ''a/b/c'' ''u1'' [''g1''] ReadWriteAccess = Some ReadOnly \<and>
   (\<exists>k \<in> {1..3}. folder_level sample_acl_db ''s1'' ''u1'' [''g1''] (join ''/'' (take k [''a'', ''b'', ''c''])) ReadOnly)"
proof -
  have run: "applyFolderAcls sample_acl_db ''s1'' (join ''/'' [''a'', ''b'', ''c'']) ''u1'' [''g1''] ReadWriteAccess = Some ReadOnly"
    by code_simp
  have plain: "\<forall>s \<in> set [''a'', ''b'', ''c'']. plain_segment s" by code_simp
  from folder_rules_decide [OF sample_acls_ok plain _ _ run] run show ?thesis by auto
qed

end
