(* ===== verification/FilePaths.thy ===== *)
theory FilePaths
  imports Shares "HOL-Library.Sublist"
begin

text \<open>
  The chokepoint between the paths a client names and the real file system:
  \<open>apps/api/src/files/paths.ts\<close>.  A virtual path starts with a share's name; the rest
  is a path in the folder of that share.  A thrown \<open>PathError\<close> is \<open>Inl\<close>; the roots of
  the configuration are absolute paths.
\<close>

datatype path_error = InvalidPath | NoRealFolder | NoSuchShare | Escapes | InvalidName | NameSlashes | NameTooLong

definition FILES_ROOT :: "config \<Rightarrow> string" where
  "FILES_ROOT cfg = path_resolve (cfg_files_root cfg) []"

definition VOLUMES_ROOT :: "config \<Rightarrow> string" where
  "VOLUMES_ROOT cfg = path_resolve (cfg_volumes_root cfg) []"

definition share_base :: "config \<Rightarrow> share_row \<Rightarrow> string" where
  "share_base cfg row =
     (if shr_volume row \<noteq> '''' then path_resolve (VOLUMES_ROOT cfg) [shr_volume row, shr_name row]
      else path_resolve (FILES_ROOT cfg) [shr_name row])"

definition shareBaseReal :: "config \<Rightarrow> db \<Rightarrow> string \<Rightarrow> string option" where
  "shareBaseReal cfg d name = map_option (share_base cfg) (getShareRowByName d name)"

text \<open>\<open>s.replace(/\/+$/, "")\<close>\<close>

definition strip_slashes :: "string \<Rightarrow> string" where
  "strip_slashes s = rev (dropWhile (\<lambda>c. c = CHR ''/'') (rev s))"

definition normalizeVirtual :: "string \<Rightarrow> string" where
  "normalizeVirtual virtualPath =
     (let v = strip_slashes (posix_normalize (''/'' @ (if virtualPath = '''' then ''/'' else virtualPath)))
      in if v = '''' then ''/'' else v)"

definition nonempty_parts :: "string \<Rightarrow> string list" where
  "nonempty_parts s = filter (\<lambda>p. p \<noteq> '''') (split_on (CHR ''/'') s)"

definition virtualSegments :: "string \<Rightarrow> string list" where
  "virtualSegments virtualPath = nonempty_parts (normalizeVirtual virtualPath)"

definition isShareRoot :: "string \<Rightarrow> bool" where
  "isShareRoot virtualPath \<longleftrightarrow> length (virtualSegments virtualPath) = 1"

definition resolveSafe :: "config \<Rightarrow> db \<Rightarrow> string \<Rightarrow> path_error + string" where
  "resolveSafe cfg d virtualPath =
     (let clean = normalizeVirtual virtualPath in
      if CHR 0x00 \<in> set clean then Inl InvalidPath
      else
        (case nonempty_parts clean of
           [] \<Rightarrow> Inl NoRealFolder
         | name # segs \<Rightarrow>
             (case shareBaseReal cfg d name of
                None \<Rightarrow> Inl NoSuchShare
              | Some base \<Rightarrow>
                  (let rest = join ''/'' segs;
                       real = (if rest \<noteq> '''' then path_resolve base [''./'' @ rest] else base)
                   in if real \<noteq> base \<and> \<not> starts_with real (base @ ''/'') then Inl Escapes else Inr real))))"

text \<open>The loop over the shares returns at the first whose folder holds the path.\<close>

fun to_virtual_loop :: "config \<Rightarrow> string \<Rightarrow> share_row list \<Rightarrow> string" where
  "to_virtual_loop cfg real [] = ''/''"
| "to_virtual_loop cfg real (s # ss) =
     (let base = share_base cfg s in
      if real = base then ''/'' @ shr_name s
      else if starts_with real (base @ ''/'')
      then ''/'' @ shr_name s @ ''/'' @ join ''/'' (nonempty_parts (drop (length base) real))
      else to_virtual_loop cfg real ss)"

definition toVirtual :: "config \<Rightarrow> db \<Rightarrow> string \<Rightarrow> string" where
  "toVirtual cfg d realPath = to_virtual_loop cfg (path_resolve realPath []) (order_asc shr_name (db_shares d))"

definition validateName :: "string \<Rightarrow> path_error + string" where
  "validateName name =
     (let trimmed = js_trim name in
      if trimmed = '''' \<or> trimmed = ''.'' \<or> trimmed = ''..'' then Inl InvalidName
      else if list_ex (\<lambda>c. c = CHR 0x5C \<or> c = CHR ''/'' \<or> c = CHR 0x00) trimmed then Inl NameSlashes
      else if posix_normalize trimmed \<noteq> trimmed then Inl InvalidName
      else if length trimmed > 255 then Inl NameTooLong
      else Inr trimmed)"

subsection \<open>Lemmas: absolute paths\<close>

lemma starts_with_Cons [simp]: "starts_with (c # s) (b # p) \<longleftrightarrow> c = b \<and> starts_with s p"
  by (auto simp: starts_with_def)

lemma starts_with_Nil [simp]: "starts_with s []"
  by (simp add: starts_with_def)

abbreviation slash :: char where "slash \<equiv> CHR ''/''"

definition abs_path :: "string list \<Rightarrow> string" where
  "abs_path ss = ''/'' @ join ''/'' ss"

abbreviation plain :: "string list \<Rightarrow> bool" where
  "plain ss \<equiv> \<forall>s \<in> set ss. plain_segment s"

definition segs_of :: "string \<Rightarrow> string list" where
  "segs_of p = norm_segments False [] (split_on slash p)"

lemma segs_of_plain: "plain (segs_of p)"
  using norm_segments_plain by (auto simp: segs_of_def)

lemma path_resolve_abs: "path_resolve root [] = abs_path (segs_of root)"
  by (simp add: path_resolve_def abs_path_def segs_of_def)

lemma split_abs: "plain ss \<Longrightarrow> split_on slash (abs_path ss) = (if ss = [] then ['''', ''''] else '''' # ss)"
proof -
  assume p: "plain ss"
  have "split_on slash (join ''/'' ss) = ss" if "ss \<noteq> []"
    using p that by (intro split_on_join) (auto simp: plain_segment_def)
  then show ?thesis by (auto simp: abs_path_def)
qed

lemma segs_of_abs [simp]: "plain ss \<Longrightarrow> segs_of (abs_path ss) = ss"
  by (simp add: segs_of_def split_abs norm_segments_id)

lemma nonempty_parts_abs [simp]: "plain ss \<Longrightarrow> nonempty_parts (abs_path ss) = ss"
  by (auto simp: nonempty_parts_def split_abs filter_id_conv plain_segment_def)

lemma abs_path_inj: "plain ss \<Longrightarrow> plain ts \<Longrightarrow> abs_path ss = abs_path ts \<longleftrightarrow> ss = ts"
  by (metis segs_of_abs)

lemma abs_path_append: "ss \<noteq> [] \<Longrightarrow> ts \<noteq> [] \<Longrightarrow> abs_path (ss @ ts) = abs_path ss @ ''/'' @ join ''/'' ts"
  by (simp add: abs_path_def join_append)

lemma segs_of_append_slash: "segs_of (p @ slash # q) = norm_segments False (rev (segs_of p)) (split_on slash q)"
  by (simp add: segs_of_def split_on_append norm_segments_append [of _ "[]"])

lemma path_resolve_one:
  assumes "p \<noteq> ''''" and "\<not> is_absolute p"
  shows "path_resolve root [p] = abs_path (norm_segments False (rev (segs_of root)) (split_on slash p))"
proof -
  have "path_resolve root [p] = abs_path (segs_of (root @ slash # p))"
    using assms by (simp add: path_resolve_def abs_path_def segs_of_def)
  then show ?thesis by (simp only: segs_of_append_slash)
qed

lemma plain_segmentD: "plain_segment s \<Longrightarrow> s \<noteq> '''' \<and> \<not> is_absolute s \<and> split_on slash s = [s]"
  by (cases s) (auto simp: plain_segment_def is_absolute_def starts_with_def split_on_plain)

lemma path_resolve_seg: "plain_segment s \<Longrightarrow> path_resolve root [s] = abs_path (segs_of root @ [s])"
  using plain_segmentD [of s] by (auto simp: path_resolve_one plain_segment_def)

text \<open>A virtual path is its segments, and normalising it again changes nothing.\<close>

lemma strip_slashes_join:
  assumes "plain ss" and "ss \<noteq> []"
  shows "strip_slashes (join ''/'' ss) = join ''/'' ss" and "strip_slashes (join ''/'' ss @ ''/'') = join ''/'' ss"
proof -
  obtain us s where ss: "ss = us @ [s]" using assms(2) by (metis rev_exhaust)
  then have "plain_segment s" using assms(1) by simp
  then obtain c cs where s: "s = cs @ [c]" and c: "c \<noteq> slash"
    by (metis append_butlast_last_id in_set_conv_decomp plain_segment_def)
  have "\<exists>w. join ''/'' ss = w @ [c]"
    unfolding ss s by (cases "us = []") (auto simp: join_append)
  then obtain w where "join ''/'' ss = w @ [c]" by blast
  then show "strip_slashes (join ''/'' ss) = join ''/'' ss" "strip_slashes (join ''/'' ss @ ''/'') = join ''/'' ss"
    using c by (simp_all add: strip_slashes_def)
qed

lemma strip_slashes_Cons:
  assumes "strip_slashes s \<noteq> ''''"
  shows "strip_slashes (c # s) = c # strip_slashes s"
proof -
  from assms obtain x where "x \<in> set (rev s)" "x \<noteq> slash" by (auto simp: strip_slashes_def)
  then have "dropWhile (\<lambda>c. c = slash) (rev s @ [c]) = dropWhile (\<lambda>c. c = slash) (rev s) @ [c]"
    by (intro dropWhile_append1)
  then show ?thesis by (simp add: strip_slashes_def)
qed

lemma join_plain_ne: "plain ss \<Longrightarrow> ss \<noteq> [] \<Longrightarrow> join ''/'' ss \<noteq> ''''"
  by (cases ss; cases "tl ss") (auto simp: plain_segment_def)

lemma posix_normalize_abs:
  assumes "is_absolute q"
  shows "posix_normalize q = (if segs_of q = [] then ''/''
    else ''/'' @ join ''/'' (segs_of q) @ (if ends_with q ''/'' then ''/'' else ''''))"
proof -
  have "q \<noteq> ''''" using assms by (auto simp: is_absolute_def starts_with_def)
  then show ?thesis
    using assms join_plain_ne [OF segs_of_plain, of q] by (simp add: posix_normalize_def segs_of_def Let_def)
qed

lemma normalizeVirtual_abs: "normalizeVirtual p = abs_path (segs_of (''/'' @ p))"
proof -
  let ?q = "''/'' @ (if p = '''' then ''/'' else p)"
  let ?ss = "segs_of ?q"
  have same: "?ss = segs_of (''/'' @ p)" by (simp add: segs_of_def)
  have abs: "is_absolute ?q" by (simp add: is_absolute_def starts_with_def)
  have plain: "plain ?ss" by (rule segs_of_plain)
  show ?thesis
  proof (cases "?ss = []")
    case True
    then have "posix_normalize ?q = ''/''" using posix_normalize_abs [OF abs] by presburger
    then have "normalizeVirtual p = ''/''" unfolding normalizeVirtual_def Let_def by (simp add: strip_slashes_def)
    then show ?thesis unfolding same [symmetric] True by (simp add: abs_path_def)
  next
    case False
    then have ne: "join ''/'' ?ss \<noteq> ''''" using join_plain_ne [OF plain] by blast
    from False have "posix_normalize ?q = ''/'' @ join ''/'' ?ss @ (if ends_with ?q ''/'' then ''/'' else '''')"
      using posix_normalize_abs [OF abs] by presburger
    moreover have "strip_slashes (''/'' @ join ''/'' ?ss @ t) = ''/'' @ join ''/'' ?ss" if "t = '''' \<or> t = ''/''" for t
    proof -
      have "strip_slashes (join ''/'' ?ss @ t) = join ''/'' ?ss"
        using strip_slashes_join [OF plain False] that by auto
      then show ?thesis using ne strip_slashes_Cons [of "join ''/'' ?ss @ t" slash] by simp
    qed
    ultimately have "strip_slashes (posix_normalize ?q) = ''/'' @ join ''/'' ?ss" by simp
    then have "normalizeVirtual p = ''/'' @ join ''/'' ?ss" unfolding normalizeVirtual_def Let_def by simp
    then show ?thesis unfolding abs_path_def same .
  qed
qed

lemma virtualSegments_eq: "virtualSegments p = segs_of (''/'' @ p)"
  by (simp add: virtualSegments_def normalizeVirtual_abs segs_of_plain)

lemma plain_virtualSegments: "plain (virtualSegments p)"
  by (simp add: virtualSegments_eq segs_of_plain)

lemma normalizeVirtual_segments: "normalizeVirtual p = abs_path (virtualSegments p)"
  by (simp add: normalizeVirtual_abs virtualSegments_eq)

lemma segs_of_slash_abs: "plain ss \<Longrightarrow> segs_of (slash # abs_path ss) = ss"
  by (simp add: segs_of_def split_abs norm_segments_id)

lemma virtualSegments_normalize [simp]: "virtualSegments (normalizeVirtual p) = virtualSegments p"
  unfolding virtualSegments_eq normalizeVirtual_abs by (simp add: segs_of_slash_abs segs_of_plain)

lemma starts_with_abs:
  assumes "plain xs" and "plain ys" and "ys \<noteq> []"
  shows "starts_with (abs_path xs) (abs_path ys @ ''/'') \<longleftrightarrow> strict_prefix ys xs"
proof
  assume "starts_with (abs_path xs) (abs_path ys @ ''/'')"
  then obtain t where "abs_path xs = abs_path ys @ slash # t" by (auto simp: starts_with_iff)
  then have eq: "split_on slash (abs_path xs) = ('''' # ys) @ split_on slash t"
    using assms by (simp add: split_on_append split_abs)
  have "length (ys @ split_on slash t) \<ge> 2"
    using assms(3) split_on_not_Nil [of slash t] by (cases ys; cases "split_on slash t") auto
  moreover have "xs = [] \<Longrightarrow> length (ys @ split_on slash t) = 1"
    using arg_cong [OF eq, of length] split_abs [OF assms(1)] by simp
  ultimately have "xs \<noteq> []" by auto
  then have "xs = ys @ split_on slash t" using eq split_abs [OF assms(1)] by simp
  then show "strict_prefix ys xs" by (metis prefixI prefix_order.dual_order.not_eq_order_implies_strict append_self_conv split_on_not_Nil)
next
  assume "strict_prefix ys xs"
  then obtain t ts where "xs = ys @ (t # ts)" by (auto elim: strict_prefixE')
  then show "starts_with (abs_path xs) (abs_path ys @ ''/'')" using assms(3) abs_path_append [of ys "t # ts"] by simp
qed

lemma path_resolve_plain: "\<exists>ss. plain ss \<and> path_resolve root ps = abs_path ss"
  unfolding path_resolve_def Let_def segs_of_def [symmetric] abs_path_def using segs_of_plain by blast

text \<open>A share's folder as a list of segments.\<close>

definition share_segs :: "config \<Rightarrow> share_row \<Rightarrow> string list" where
  "share_segs cfg row = segs_of (share_base cfg row)"

lemma share_base_segs: "plain (share_segs cfg row)" "share_base cfg row = abs_path (share_segs cfg row)"
proof -
  obtain ss where "plain ss" "share_base cfg row = abs_path ss"
    using path_resolve_plain [of "VOLUMES_ROOT cfg" "[shr_volume row, shr_name row]"]
      path_resolve_plain [of "FILES_ROOT cfg" "[shr_name row]"]
    unfolding share_base_def by (cases "shr_volume row \<noteq> ''''") auto
  then show "plain (share_segs cfg row)" "share_base cfg row = abs_path (share_segs cfg row)"
    by (simp_all add: share_segs_def)
qed

lemma resolve_below:
  assumes "plain bs" and "plain ss" and "ss \<noteq> []"
  shows "path_resolve (abs_path bs) [''./'' @ join ''/'' ss] = abs_path (bs @ ss)"
proof -
  have "split_on slash (''./'' @ join ''/'' ss) = ''.'' # ss"
    using assms(2,3) by (simp add: split_on_join plain_segment_def)
  moreover have "\<not> is_absolute (''./'' @ join ''/'' ss)" by (simp add: is_absolute_def starts_with_def)
  ultimately show ?thesis using assms by (simp add: path_resolve_one norm_segments_id)
qed

lemma resolveSafe_eq:
  assumes "\<forall>row \<in> set (db_shares d). share_base cfg row \<noteq> ''/''"
  shows "resolveSafe cfg d p =
    (if CHR 0x00 \<in> set (normalizeVirtual p) then Inl InvalidPath
     else case virtualSegments p of
         [] \<Rightarrow> Inl NoRealFolder
       | name # segs \<Rightarrow>
           (case getShareRowByName d name of
              None \<Rightarrow> Inl NoSuchShare
            | Some row \<Rightarrow> Inr (join ''/'' (share_base cfg row # segs))))"
proof -
  have parts: "nonempty_parts (normalizeVirtual p) = virtualSegments p" by (simp add: virtualSegments_def)
  show ?thesis
  proof (cases "virtualSegments p")
    case Nil
    then show ?thesis by (simp add: resolveSafe_def parts)
  next
    case (Cons name segs)
    then have plain: "plain segs" using plain_virtualSegments [of p] by simp
    show ?thesis
    proof (cases "getShareRowByName d name")
      case None
      then show ?thesis using Cons by (simp add: resolveSafe_def parts shareBaseReal_def)
    next
      case (Some row)
      let ?bs = "share_segs cfg row"
      have "row \<in> set (db_shares d)" using Some by (auto simp: getShareRowByName_def dest: sql_get_SomeD)
      then have ne: "?bs \<noteq> []" using assms share_base_segs(2) [of cfg row] by (auto simp: abs_path_def)
      show ?thesis
      proof (cases "segs = []")
        case True
        then show ?thesis using Cons Some by (simp add: resolveSafe_def parts shareBaseReal_def Let_def)
      next
        case False
        have rest: "join ''/'' segs \<noteq> ''''" by (rule join_plain_ne [OF plain False])
        have real: "path_resolve (share_base cfg row) [''./'' @ join ''/'' segs] = abs_path (?bs @ segs)"
          unfolding share_base_segs(2) [of cfg row] by (rule resolve_below [OF share_base_segs(1) plain False])
        also have abs: "abs_path (?bs @ segs) = join ''/'' (share_base cfg row # segs)"
          using ne False share_base_segs(2) [of cfg row] by (simp add: abs_path_append join_Cons)
        finally have res: "path_resolve (share_base cfg row) [''./'' @ join ''/'' segs] = join ''/'' (share_base cfg row # segs)" .
        have inside: "starts_with (join ''/'' (share_base cfg row # segs)) (share_base cfg row @ ''/'')"
          using False by (simp add: join_Cons starts_with_def)
        show ?thesis
          unfolding resolveSafe_def Let_def parts Cons list.case shareBaseReal_def Some option.map option.case
          using rest res inside by simp
      qed
    qed
  qed
qed

text \<open>
  C5. Every path a client may send ends in exactly one way: a NUL is refused, the root and
  unknown shares are refused, and any other path, dots and all, resolves to the folder
  of the share its first segment names, followed by the segments of the normalised
  path; so nothing ever resolves outside the owning share, and the escape check is
  never the one that refuses.
\<close>

theorem resolveSafe_exact:
  assumes "\<forall>row \<in> set (db_shares d). share_base cfg row \<noteq> ''/''"
  shows "resolveSafe cfg d p =
    (if CHR 0x00 \<in> set (normalizeVirtual p) then Inl InvalidPath
     else case virtualSegments p of
         [] \<Rightarrow> Inl NoRealFolder
       | name # segs \<Rightarrow>
           (case getShareRowByName d name of
              None \<Rightarrow> Inl NoSuchShare
            | Some row \<Rightarrow> Inr (join ''/'' (share_base cfg row # segs))))"
  by (rule resolveSafe_eq [OF assms])

lemma resolveSafe_Inr:
  assumes "\<forall>row \<in> set (db_shares d). share_base cfg row \<noteq> ''/''" and "resolveSafe cfg d p = Inr real"
  obtains name segs row where "virtualSegments p = name # segs" and "getShareRowByName d name = Some row"
    and "row \<in> set (db_shares d)" and "shr_name row = name" and "real = abs_path (share_segs cfg row @ segs)" and "plain segs"
    and "share_segs cfg row \<noteq> []"
proof -
  note run = assms(2) [unfolded resolveSafe_eq [OF assms(1)]]
  obtain name segs where v: "virtualSegments p = name # segs"
    using run by (cases "virtualSegments p") (auto split: if_splits)
  obtain row where row: "getShareRowByName d name = Some row"
    using run v by (cases "getShareRowByName d name") (auto split: if_splits)
  have mem: "row \<in> set (db_shares d)" "shr_name row = name"
    using row by (auto simp: getShareRowByName_def dest: sql_get_SomeD)
  have ne: "share_segs cfg row \<noteq> []" using assms(1) mem(1) share_base_segs(2) [of cfg row] by (auto simp: abs_path_def)
  have "real = join ''/'' (share_base cfg row # segs)" using run v row by (simp split: if_splits)
  then have "real = abs_path (share_segs cfg row @ segs)"
    using ne share_base_segs(2) [of cfg row] by (cases "segs = []") (simp_all add: abs_path_append join_Cons)
  moreover have "plain segs" using plain_virtualSegments [of p] v by simp
  ultimately show thesis using that v row mem ne by blast
qed

subsection \<open>Lemmas: from real paths back\<close>

text \<open>
  An installation keeps shares and volumes under two roots, neither inside the other,
  and its shares and volumes have plain names.
\<close>

definition roots_apart :: "config \<Rightarrow> db \<Rightarrow> bool" where
  "roots_apart cfg d \<longleftrightarrow> parallel (segs_of (cfg_files_root cfg)) (segs_of (cfg_volumes_root cfg)) \<and>
     keyed shr_name (db_shares d) \<and>
     (\<forall>r \<in> set (db_shares d). plain_segment (shr_name r) \<and> (shr_volume r = '''' \<or> plain_segment (shr_volume r)))"

lemma path_resolve_two:
  assumes "plain_segment a" and "plain_segment b"
  shows "path_resolve root [a, b] = abs_path (segs_of root @ [a, b])"
proof -
  have norm: "norm_segments False (rev (segs_of root)) [a, b] = rev (rev (segs_of root)) @ [a, b]"
    by (rule norm_segments_id) (use assms in auto)
  have "path_resolve root [a, b] = abs_path (segs_of (root @ slash # (a @ slash # b)))"
    using plain_segmentD [OF assms(1)] plain_segmentD [OF assms(2)]
    by (simp add: path_resolve_def abs_path_def segs_of_def)
  moreover have "split_on slash (a @ slash # b) = [a, b]"
    using plain_segmentD [OF assms(1)] plain_segmentD [OF assms(2)] by (simp add: split_on_append)
  then have "segs_of (root @ slash # (a @ slash # b)) = segs_of root @ [a, b]"
    unfolding segs_of_append_slash by (simp only: norm) simp
  ultimately show ?thesis by simp
qed

lemma share_segs_installed:
  assumes "roots_apart cfg d" and "r \<in> set (db_shares d)"
  shows "share_segs cfg r =
    (if shr_volume r = '''' then segs_of (cfg_files_root cfg) @ [shr_name r]
     else segs_of (cfg_volumes_root cfg) @ [shr_volume r, shr_name r])"
proof -
  have n: "plain_segment (shr_name r)" and v: "shr_volume r \<noteq> '''' \<Longrightarrow> plain_segment (shr_volume r)"
    using assms by (auto simp: roots_apart_def)
  have F: "segs_of (FILES_ROOT cfg) = segs_of (cfg_files_root cfg)" "segs_of (VOLUMES_ROOT cfg) = segs_of (cfg_volumes_root cfg)"
    by (simp_all add: FILES_ROOT_def VOLUMES_ROOT_def path_resolve_abs segs_of_plain)
  show ?thesis
  proof (cases "shr_volume r = ''''")
    case True
    then have "share_base cfg r = abs_path (segs_of (cfg_files_root cfg) @ [shr_name r])"
      using n F by (simp add: share_base_def path_resolve_seg)
    moreover have "plain (segs_of (cfg_files_root cfg) @ [shr_name r])" using n segs_of_plain by auto
    ultimately show ?thesis using True by (simp add: share_segs_def)
  next
    case False
    then have "share_base cfg r = abs_path (segs_of (cfg_volumes_root cfg) @ [shr_volume r, shr_name r])"
      using n v F by (simp add: share_base_def path_resolve_two)
    moreover have "plain (segs_of (cfg_volumes_root cfg) @ [shr_volume r, shr_name r])" using n v False segs_of_plain by auto
    ultimately show ?thesis using False by (simp add: share_segs_def)
  qed
qed

lemma shares_apart:
  assumes ok: "roots_apart cfg d" and r: "r \<in> set (db_shares d)" "s \<in> set (db_shares d)" "r \<noteq> s"
  shows "\<not> prefix (share_segs cfg r) (share_segs cfg s)"
proof
  assume p: "prefix (share_segs cfg r) (share_segs cfg s)"
  let ?F = "segs_of (cfg_files_root cfg)" and ?V = "segs_of (cfg_volumes_root cfg)"
  have names: "shr_name r \<noteq> shr_name s"
    using ok r keyed_unique [of shr_name "db_shares d" r s] by (auto simp: roots_apart_def)
  have apart: "\<not> prefix ?F ?V" "\<not> prefix ?V ?F" using ok by (auto simp: roots_apart_def parallel_def)
  have seg: "share_segs cfg x = (if shr_volume x = '''' then ?F @ [shr_name x] else ?V @ [shr_volume x, shr_name x])"
    if "x \<in> set (db_shares d)" for x by (rule share_segs_installed [OF ok that])
  have mixed: False if "prefix (?F @ xs) (?V @ ys) \<or> prefix (?V @ ys) (?F @ xs)" for xs ys
    using that apart by (metis append_prefixD prefixI prefix_same_cases)
  consider "shr_volume r = ''''" "shr_volume s = ''''" | "shr_volume r \<noteq> ''''" "shr_volume s \<noteq> ''''"
    | "shr_volume r = ''''" "shr_volume s \<noteq> ''''" | "shr_volume r \<noteq> ''''" "shr_volume s = ''''" by blast
  then show False
  proof cases
    case 1
    then show ?thesis using p seg [OF r(1)] seg [OF r(2)] names by simp
  next
    case 2
    then show ?thesis using p seg [OF r(1)] seg [OF r(2)] names by simp
  next
    case 3
    then show ?thesis using p seg [OF r(1)] seg [OF r(2)] mixed [of "[shr_name r]" "[shr_volume s, shr_name s]"] by simp
  next
    case 4
    then show ?thesis using p seg [OF r(1)] seg [OF r(2)] mixed [of "[shr_name s]" "[shr_volume r, shr_name r]"] by simp
  qed
qed

lemma to_virtual_loop_finds:
  assumes "set ss \<subseteq> set (db_shares d)" and "row \<in> set ss" and "roots_apart cfg d" and "plain segs"
  shows "to_virtual_loop cfg (abs_path (share_segs cfg row @ segs)) ss = abs_path (shr_name row # segs)"
  using assms(1,2)
proof (induction ss)
  case (Cons s ss)
  have base: "share_segs cfg x \<noteq> []" if "x \<in> set (db_shares d)" for x
    using share_segs_installed [OF assms(3) that] by simp
  show ?case
  proof (cases "s = row")
    case True
    let ?bs = "share_segs cfg row"
    have ne: "?bs \<noteq> []" using base True Cons.prems by simp
    show ?thesis
    proof (cases "segs = []")
      case True
      then show ?thesis using \<open>s = row\<close> share_base_segs(2) [of cfg row] by (simp add: abs_path_def)
    next
      case False
      then have real: "abs_path (?bs @ segs) = share_base cfg row @ abs_path segs"
        using abs_path_append [OF ne False] share_base_segs(2) [of cfg row] by (simp add: abs_path_def)
      have "abs_path (?bs @ segs) \<noteq> share_base cfg row" unfolding real by (simp add: abs_path_def)
      moreover have "starts_with (abs_path (?bs @ segs)) (share_base cfg row @ ''/'')"
        unfolding real by (simp add: abs_path_def starts_with_def)
      moreover have "nonempty_parts (drop (length (share_base cfg row)) (abs_path (?bs @ segs))) = segs"
        unfolding real using assms(4) by simp
      ultimately show ?thesis using \<open>s = row\<close> False by (simp add: Let_def abs_path_def join_Cons)
    qed
  next
    case False
    then have r: "row \<in> set ss" "row \<in> set (db_shares d)" "s \<in> set (db_shares d)" using Cons.prems by auto
    have apart: "\<not> prefix (share_segs cfg s) (share_segs cfg row @ segs)"
      using shares_apart [OF assms(3) r(3,2)] shares_apart [OF assms(3) r(2,3)] False
      by (metis prefixI prefix_same_cases)
    have pl: "plain (share_segs cfg row @ segs)" using share_base_segs(1) assms(4) by auto
    have "abs_path (share_segs cfg row @ segs) \<noteq> share_base cfg s"
      unfolding share_base_segs(2) [of cfg s] using apart abs_path_inj [OF pl share_base_segs(1), of cfg s] by auto
    moreover have "\<not> starts_with (abs_path (share_segs cfg row @ segs)) (share_base cfg s @ ''/'')"
      unfolding share_base_segs(2) [of cfg s] starts_with_abs [OF pl share_base_segs(1) base [OF r(3)]]
      using apart by (auto simp: strict_prefix_def)
    ultimately show ?thesis using Cons r(1) by (simp add: Let_def)
  qed
qed simp

lemma toVirtual_resolveSafe:
  assumes "roots_apart cfg d" and "resolveSafe cfg d p = Inr real"
  shows "toVirtual cfg d real = normalizeVirtual p"
proof -
  have "\<forall>row \<in> set (db_shares d). share_base cfg row \<noteq> ''/''"
  proof
    fix row
    assume "row \<in> set (db_shares d)"
    then have "share_segs cfg row \<noteq> []" using share_segs_installed [OF assms(1)] by simp
    then show "share_base cfg row \<noteq> ''/''"
      using share_base_segs [of cfg row] join_plain_ne [of "share_segs cfg row"] by (simp add: abs_path_def)
  qed
  then obtain name segs row where r: "virtualSegments p = name # segs" "row \<in> set (db_shares d)"
    "shr_name row = name" "real = abs_path (share_segs cfg row @ segs)" "plain segs"
    using assms(2) by (rule resolveSafe_Inr)
  have "path_resolve real [] = real"
    unfolding path_resolve_abs r(4) using share_base_segs(1) r(5) by (subst segs_of_abs) auto
  then have "toVirtual cfg d real = abs_path (shr_name row # segs)"
    unfolding toVirtual_def using to_virtual_loop_finds [OF _ _ assms(1) r(5), of "order_asc shr_name (db_shares d)" row] r(2,4)
    by simp
  then show ?thesis using r(1,3) by (simp add: normalizeVirtual_segments)
qed

text \<open>
  Virtual and real paths are two names of one thing: what a virtual path resolves to
  is shown to the user as the normalised form of that path, whatever dots, repeated or
  trailing slashes it was written with.
\<close>

theorem virtual_path_roundtrip:
  assumes "roots_apart cfg d" and "resolveSafe cfg d p = Inr real"
  shows "toVirtual cfg d real = normalizeVirtual p"
  by (rule toVirtual_resolveSafe [OF assms])

lemma sample_roots_apart: "roots_apart sample_config sample_nas"
proof -
  have "segs_of ''/srv/files'' = [''srv'', ''files'']" "segs_of ''/srv/volumes'' = [''srv'', ''volumes'']"
    "plain_segment ''media''" "plain_segment ''vault''" by code_simp+
  then show ?thesis
    by (simp add: roots_apart_def sample_config_def sample_nas_def sample_share_def new_share_row_def keyed_def parallel_def)
qed

lemma sample_resolve: "resolveSafe sample_config sample_nas ''media//a/./../b/'' = Inr ''/srv/files/media/b''"
  by code_simp

theorem resolveSafe_exact_witness:
  "resolveSafe sample_config sample_nas ''media//a/./../b/'' = Inr (join ''/'' [''/srv/files/media'', ''b''])"
proof -
  have base: "share_base sample_config (sample_share ''s1'' ''media'') = ''/srv/files/media''"
    "share_base sample_config (sample_share ''s2'' ''vault'') = ''/srv/files/vault''" by code_simp+
  then have "\<forall>row \<in> set (db_shares sample_nas). share_base sample_config row \<noteq> ''/''" by (simp add: sample_nas_def)
  moreover have "CHR 0x00 \<notin> set (normalizeVirtual ''media//a/./../b/'')"
    "virtualSegments ''media//a/./../b/'' = [''media'', ''b'']"
    "getShareRowByName sample_nas ''media'' = Some (sample_share ''s1'' ''media'')" by code_simp+
  ultimately show ?thesis using resolveSafe_exact [of sample_nas sample_config "''media//a/./../b/''"] base by simp
qed

theorem virtual_path_roundtrip_witness:
  "toVirtual sample_config sample_nas ''/srv/files/media/b'' = ''/media/b''"
proof -
  have "normalizeVirtual ''media//a/./../b/'' = ''/media/b''" by code_simp
  with virtual_path_roundtrip [OF sample_roots_apart sample_resolve] show ?thesis by simp
qed

lemma validateName_plain:
  assumes "validateName name = Inr t"
  shows "t = js_trim name \<and> plain_segment t \<and> length t \<le> 255 \<and> CHR 0x00 \<notin> set t \<and>
    path_resolve dir [t] = abs_path (segs_of dir @ [t])"
proof -
  have t: "t = js_trim name" "t \<noteq> ''''" "t \<noteq> ''.''" "t \<noteq> ''..''" "length t \<le> 255"
    "\<forall>c \<in> set t. c \<noteq> slash \<and> c \<noteq> CHR 0x00"
    using assms by (auto simp: validateName_def Let_def list_ex_iff split: if_splits)
  then have "plain_segment t" by (auto simp: plain_segment_def)
  with t path_resolve_seg show ?thesis by auto
qed

text \<open>
  A name the API accepts for a new entry is a single plain segment of at most 255
  characters, so the entry is created in the very directory it was meant for.
\<close>

theorem validateName_stays:
  assumes "validateName name = Inr t"
  shows "t = js_trim name \<and> plain_segment t \<and> length t \<le> 255 \<and> CHR 0x00 \<notin> set t \<and>
    path_resolve dir [t] = abs_path (segs_of dir @ [t])"
  by (rule validateName_plain [OF assms])

theorem validateName_stays_witness: "path_resolve ''/srv/files/media'' [''notes''] = ''/srv/files/media/notes''"
proof -
  have "validateName '' notes '' = Inr ''notes''" by code_simp
  from validateName_stays [OF this, of "''/srv/files/media''"] have
    "path_resolve ''/srv/files/media'' [''notes''] = abs_path (segs_of ''/srv/files/media'' @ [''notes''])" by blast
  moreover have "abs_path (segs_of ''/srv/files/media'' @ [''notes'']) = ''/srv/files/media/notes''" by code_simp
  ultimately show ?thesis by simp
qed

end
