(* ===== verification/FileAccess.thy ===== *)
theory FileAccess
  imports Acls FilePaths
begin

text \<open>
  Who may read or write what: \<open>apps/api/src/files/access.ts\<close>, and how it composes with
  the shares, the groups, the folder rules and the path resolution.
\<close>

record access =
  ac_read :: bool
  ac_write :: bool

definition pathAccess :: "db \<Rightarrow> user \<Rightarrow> string \<Rightarrow> access option" where
  "pathAccess d u virtualPath =
     (let p = normalizeVirtual virtualPath in
      if p = ''/'' then Some \<lparr>ac_read = True, ac_write = False\<rparr>
      else if u_role u = Admin then Some \<lparr>ac_read = True, ac_write = True\<rparr>
      else
        (case nonempty_parts p of
           [] \<Rightarrow> Some \<lparr>ac_read = True, ac_write = False\<rparr>
         | shareName # rest \<Rightarrow>
             (let level = effectiveAccess d shareName (u_id u) in
              if level = NoAccess then Some \<lparr>ac_read = False, ac_write = False\<rparr>
              else
                (case getShareRowByName d shareName of
                   None \<Rightarrow> Some \<lparr>ac_read = True, ac_write = (level = ReadWriteAccess)\<rparr>
                 | Some share \<Rightarrow>
                     if rest = [] \<or> \<not> shareHasAcls d (shr_id share)
                     then Some \<lparr>ac_read = True, ac_write = (level = ReadWriteAccess)\<rparr>
                     else
                       (case applyFolderAcls d (shr_id share) (join ''/'' rest) (u_id u)
                               (groupIdsForUser d (u_id u)) level of
                          None \<Rightarrow> None
                        | Some effective \<Rightarrow>
                            if effective = NoAccess then Some \<lparr>ac_read = False, ac_write = False\<rparr>
                            else Some \<lparr>ac_read = True, ac_write = (effective = ReadWriteAccess)\<rparr>)))))"

text \<open>
  \<open>a.localeCompare(b, undefined, { sensitivity: "base" })\<close> is the library's: the
  parameter \<open>collate\<close> gives the sort key it compares by.
\<close>

definition accessibleShareNames :: "(string \<Rightarrow> string) \<Rightarrow> db \<Rightarrow> user \<Rightarrow> string list" where
  "accessibleShareNames collate d u =
     order_asc collate (if u_role u = Admin then map sh_name (listShares d) else visibleShareNames d (u_id u))"

subsection \<open>Lemmas\<close>

text \<open>The level a user who is no administrator has on the segments of a path below a share.\<close>

definition level_at :: "db \<Rightarrow> string \<Rightarrow> share_row \<Rightarrow> string list \<Rightarrow> access_level" where
  "level_at d userId share rest =
     (let level = effectiveAccessForShareId d (shr_id share) (shr_guest_access share) userId in
      if rest = [] \<or> level = NoAccess then level
      else the (applyFolderAcls d (shr_id share) (join ''/'' rest) userId (groupIdsForUser d userId) level))"

lemma applyFolderAcls_plain:
  assumes "plain rest"
  shows "\<exists>r. applyFolderAcls d s (join ''/'' rest) u gs l = Some r"
  using assms normalizeAclPath_join [OF assms] by (auto simp: applyFolderAcls_def Let_def)

lemma no_acls_no_change:
  assumes "\<not> shareHasAcls d s" and "plain rest"
  shows "applyFolderAcls d s (join ''/'' rest) u gs l = Some l"
proof -
  have "\<forall>a \<in> set (db_acls d). acl_share_id a \<noteq> s" using assms(1) by (simp add: shareHasAcls_def sql_count_zero)
  then have "filter (\<lambda>a. acl_share_id a = s \<and> Q a) (db_acls d) = []" for Q by (auto simp: filter_empty_conv)
  then show ?thesis using normalizeAclPath_join [OF assms(2)] by (auto simp: applyFolderAcls_def Let_def)
qed

lemma nonempty_parts_normalize [simp]: "nonempty_parts (normalizeVirtual p) = virtualSegments p"
  by (simp add: virtualSegments_def)

lemma normalizeVirtual_root: "normalizeVirtual p = ''/'' \<longleftrightarrow> virtualSegments p = []"
proof -
  have "normalizeVirtual p = abs_path (virtualSegments p)" by (rule normalizeVirtual_segments)
  then show ?thesis using join_plain_ne [OF plain_virtualSegments, of p] by (auto simp: abs_path_def)
qed

lemma pathAccess_eq:
  shows "pathAccess d u p = Some
    (case virtualSegments p of
       [] \<Rightarrow> \<lparr>ac_read = True, ac_write = False\<rparr>
     | name # rest \<Rightarrow>
         if u_role u = Admin then \<lparr>ac_read = True, ac_write = True\<rparr>
         else (case getShareRowByName d name of
                 None \<Rightarrow> \<lparr>ac_read = False, ac_write = False\<rparr>
               | Some share \<Rightarrow>
                   \<lparr>ac_read = (level_at d (u_id u) share rest \<noteq> NoAccess),
                    ac_write = (level_at d (u_id u) share rest = ReadWriteAccess)\<rparr>))"
proof (cases "virtualSegments p")
  case Nil
  then show ?thesis using normalizeVirtual_root [of p] by (simp add: pathAccess_def)
next
  case (Cons name rest)
  then have plain: "plain rest" using plain_virtualSegments [of p] by simp
  have root: "normalizeVirtual p \<noteq> ''/''" using Cons normalizeVirtual_root [of p] by simp
  show ?thesis
  proof (cases "u_role u = Admin \<or> getShareRowByName d name = None")
    case True
    then show ?thesis using root Cons by (auto simp: pathAccess_def Let_def effectiveAccess_def)
  next
    case False
    then obtain share where share: "getShareRowByName d name = Some share" and role: "u_role u \<noteq> Admin" by auto
    let ?l = "effectiveAccessForShareId d (shr_id share) (shr_guest_access share) (u_id u)"
    have l: "effectiveAccess d name (u_id u) = ?l" by (simp add: effectiveAccess_def share)
    obtain r where r: "applyFolderAcls d (shr_id share) (join ''/'' rest) (u_id u) (groupIdsForUser d (u_id u)) ?l = Some r"
      using applyFolderAcls_plain [OF plain] by blast
    have no: "\<not> shareHasAcls d (shr_id share) \<Longrightarrow> r = ?l" using no_acls_no_change [OF _ plain] r by simp
    show ?thesis
      using root Cons share role l r no by (auto simp: pathAccess_def Let_def level_at_def)
  qed
qed

text \<open>
  The access check always answers, and its answer depends on the segments of the
  normalised path only: the root is readable, an administrator may do everything, an
  unknown share gives nothing, and below a share the answer is the level the share's
  grants and its folder rules give; the shortcuts for share roots and shares without
  rules change nothing.
\<close>

theorem pathAccess_spec:
  shows "pathAccess d u p = Some
    (case virtualSegments p of
       [] \<Rightarrow> \<lparr>ac_read = True, ac_write = False\<rparr>
     | name # rest \<Rightarrow>
         if u_role u = Admin then \<lparr>ac_read = True, ac_write = True\<rparr>
         else (case getShareRowByName d name of
                 None \<Rightarrow> \<lparr>ac_read = False, ac_write = False\<rparr>
               | Some share \<Rightarrow>
                   \<lparr>ac_read = (level_at d (u_id u) share rest \<noteq> NoAccess),
                    ac_write = (level_at d (u_id u) share rest = ReadWriteAccess)\<rparr>))"
  by (rule pathAccess_eq)

text \<open>
  C4. Access decisions and file accesses concern the same folder.  When a user who is no
  administrator is told a path is readable, and the path resolves, the real path lies in
  the folder of a share on which that user, one of its groups or everybody has a grant;
  it contains no dot-dot segment; and \<open>toVirtual\<close> shows it under the path that was
  checked.
\<close>

theorem readable_paths_stay_in_granted_shares:
  assumes "roots_apart cfg d" and "perms_ok d" and "u_role u \<noteq> Admin"
    and "pathAccess d u p = Some a" and "ac_read a" and "resolveSafe cfg d p = Inr real"
  shows "\<exists>share segs. share \<in> set (db_shares d) \<and> real = abs_path (share_segs cfg share @ segs) \<and>
    plain (share_segs cfg share @ segs) \<and> toVirtual cfg d real = normalizeVirtual p \<and>
    (\<exists>g \<in> insert (normLevel (shr_guest_access share)) (grants_on d (shr_id share) (u_id u)). g \<noteq> NoAccess)"
proof -
  have "share_base cfg row \<noteq> ''/''" if "row \<in> set (db_shares d)" for row
    using share_segs_installed [OF assms(1) that] share_base_segs [of cfg row] join_plain_ne [of "share_segs cfg row"]
    by (auto simp: abs_path_def)
  then obtain name segs row where r: "virtualSegments p = name # segs" "getShareRowByName d name = Some row"
    "row \<in> set (db_shares d)" "real = abs_path (share_segs cfg row @ segs)" "plain segs"
    using assms(6) by (metis resolveSafe_Inr)
  let ?l = "effectiveAccessForShareId d (shr_id row) (shr_guest_access row) (u_id u)"
  have "level_at d (u_id u) row segs \<noteq> NoAccess"
    using assms(3-5) pathAccess_eq [of d u p] r(1,2) by auto
  then have "?l \<noteq> NoAccess" by (auto simp: level_at_def Let_def applyFolderAcls_def split: if_splits)
  then have max: "Max (insert (normLevel (shr_guest_access row)) (grants_on d (shr_id row) (u_id u))) \<noteq> NoAccess"
    using effectiveAccess_Max [OF assms(2)] by simp
  have "finite (grants_on d (shr_id row) (u_id u))" by (simp add: grants_on_def)
  then have "Max (insert (normLevel (shr_guest_access row)) (grants_on d (shr_id row) (u_id u)))
      \<in> insert (normLevel (shr_guest_access row)) (grants_on d (shr_id row) (u_id u))" by (intro Max_in) simp_all
  with max have "\<exists>g \<in> insert (normLevel (shr_guest_access row)) (grants_on d (shr_id row) (u_id u)). g \<noteq> NoAccess" by blast
  moreover have "plain (share_segs cfg row @ segs)" using share_base_segs(1) r(5) by auto
  ultimately show ?thesis using r toVirtual_resolveSafe [OF assms(1,6)] by blast
qed

theorem readable_paths_stay_in_granted_shares_witness:
  "\<exists>share segs. share \<in> set (db_shares sample_nas) \<and> ''/srv/files/media/b'' = abs_path (share_segs sample_config share @ segs) \<and>
     (\<exists>g \<in> insert (normLevel (shr_guest_access share)) (grants_on sample_nas (shr_id share) ''u1''). g \<noteq> NoAccess)"
proof -
  have "perms_ok sample_nas" by (simp add: perms_ok_def sample_nas_def keyed_def)
  moreover have "u_role (toUser sample_user) \<noteq> Admin" "u_id (toUser sample_user) = ''u1''" by code_simp+
  moreover have "pathAccess sample_nas (toUser sample_user) ''media//a/./../b/'' = Some \<lparr>ac_read = True, ac_write = True\<rparr>"
    by code_simp
  ultimately show ?thesis
    using readable_paths_stay_in_granted_shares [OF sample_roots_apart _ _ _ _ sample_resolve, of "toUser sample_user"] by auto
qed

end
