(* ===== verification/FileSystem.thy ===== *)
theory FileSystem
  imports FilePaths
begin

text \<open>
  The calls of \<open>node:fs\<close> and \<open>node:path\<close> that the file routes make, over a tree of
  directories and regular files: entries keyed by the segments of their absolute path,
  the root at the empty list.  Symbolic links, which the routes skip, and time stamps
  are left out; a call that fails with an error code is \<open>None\<close>.
\<close>

datatype node = DirNode | FileNode string

type_synonym fs = "(string list \<times> node) list"

definition fs_get :: "fs \<Rightarrow> string list \<Rightarrow> node option" where
  "fs_get f p = map_of f p"

definition lstat :: "fs \<Rightarrow> string \<Rightarrow> node option" where
  "lstat f real = fs_get f (segs_of real)"

definition file_exists :: "fs \<Rightarrow> string \<Rightarrow> bool" where
  "file_exists f real \<longleftrightarrow> lstat f real \<noteq> None"

definition is_file :: "node \<Rightarrow> bool" where
  "is_file n = (case n of FileNode c \<Rightarrow> True | DirNode \<Rightarrow> False)"

definition node_size :: "node \<Rightarrow> nat" where
  "node_size n = (case n of FileNode c \<Rightarrow> length c | DirNode \<Rightarrow> 0)"

text \<open>\<open>path.join\<close>, \<open>basename\<close> and \<open>dirname\<close> on absolute paths, and \<open>extname\<close>.\<close>

definition path_join :: "string \<Rightarrow> string \<Rightarrow> string" where
  "path_join a b = posix_normalize (a @ ''/'' @ b)"

definition basename :: "string \<Rightarrow> string" where
  "basename real = (case rev (nonempty_parts real) of [] \<Rightarrow> '''' | s # ss \<Rightarrow> s)"

definition dirname :: "string \<Rightarrow> string" where
  "dirname real = abs_path (butlast (nonempty_parts real))"

definition extname :: "string \<Rightarrow> string" where
  "extname name =
     (if CHR ''.'' \<notin> set (tl name) then ''''
      else if list_all (\<lambda>c. c = CHR ''.'') name \<and> length name \<le> 2 then ''''
      else CHR ''.'' # rev (takeWhile (\<lambda>c. c \<noteq> CHR ''.'') (rev name)))"

subsection \<open>Changing the tree\<close>

definition fs_put :: "string list \<Rightarrow> node \<Rightarrow> fs \<Rightarrow> fs" where
  "fs_put p n f = (p, n) # filter (\<lambda>(q, m). q \<noteq> p) f"

definition fs_drop_tree :: "string list \<Rightarrow> fs \<Rightarrow> fs" where
  "fs_drop_tree p f = filter (\<lambda>(q, m). \<not> prefix p q) f"

definition fs_tree :: "string list \<Rightarrow> fs \<Rightarrow> fs" where
  "fs_tree p f = filter (\<lambda>(q, m). prefix p q) f"

definition fs_moved :: "string list \<Rightarrow> string list \<Rightarrow> fs \<Rightarrow> fs" where
  "fs_moved src dst f = map (\<lambda>(q, m). (dst @ drop (length src) q, m)) (fs_tree src f)"

definition parent_is_dir :: "fs \<Rightarrow> string list \<Rightarrow> bool" where
  "parent_is_dir f p \<longleftrightarrow> p \<noteq> [] \<and> fs_get f (butlast p) = Some DirNode"

definition fs_children :: "fs \<Rightarrow> string list \<Rightarrow> string list" where
  "fs_children f p = map (\<lambda>(q, m). last q) (filter (\<lambda>(q, m). q \<noteq> [] \<and> butlast q = p) f)"

definition mkdir :: "string \<Rightarrow> fs \<Rightarrow> fs option" where
  "mkdir real f =
     (let p = segs_of real in
      if fs_get f p \<noteq> None \<or> \<not> parent_is_dir f p then None else Some (fs_put p DirNode f))"

text \<open>\<open>mkdir(..., { recursive: true })\<close>: the missing directories from the top down.\<close>

fun mkdir_steps :: "string list list \<Rightarrow> fs \<Rightarrow> fs option" where
  "mkdir_steps [] f = Some f"
| "mkdir_steps (p # ps) f =
     (case fs_get f p of
        Some DirNode \<Rightarrow> mkdir_steps ps f
      | Some (FileNode c) \<Rightarrow> None
      | None \<Rightarrow> mkdir_steps ps (fs_put p DirNode f))"

definition mkdir_recursive :: "string \<Rightarrow> fs \<Rightarrow> fs option" where
  "mkdir_recursive real f = mkdir_steps (prefixes (segs_of real)) f"

text \<open>
  \<open>rename(2)\<close>: the target's directory must exist, a directory cannot go below itself, an
  existing file gives way to a file and an empty directory to a directory.
\<close>

definition rename :: "string \<Rightarrow> string \<Rightarrow> fs \<Rightarrow> fs option" where
  "rename srcReal dstReal f =
     (let src = segs_of srcReal; dst = segs_of dstReal in
      case fs_get f src of
        None \<Rightarrow> None
      | Some n \<Rightarrow>
          if src = [] \<or> \<not> parent_is_dir f dst \<or> strict_prefix src dst then None
          else if src = dst then Some f
          else
            (case fs_get f dst of
               None \<Rightarrow> Some (fs_moved src dst f @ fs_drop_tree src f)
             | Some m \<Rightarrow>
                 if is_file n \<noteq> is_file m \<or> fs_children f dst \<noteq> [] then None
                 else Some (fs_moved src dst f @ fs_drop_tree dst (fs_drop_tree src f))))"

text \<open>\<open>cp(..., { recursive: true })\<close> onto a path where nothing is, and \<open>rm(..., { recursive, force })\<close>.\<close>

definition cp_recursive :: "string \<Rightarrow> string \<Rightarrow> fs \<Rightarrow> fs option" where
  "cp_recursive srcReal dstReal f =
     (let src = segs_of srcReal; dst = segs_of dstReal in
      if fs_get f src = None \<or> fs_get f dst \<noteq> None \<or> prefix src dst then None
      else map_option (\<lambda>g. fs_moved src dst f @ g) (mkdir_steps (prefixes (butlast dst)) f))"

definition rm_recursive :: "string \<Rightarrow> fs \<Rightarrow> fs" where
  "rm_recursive real f = fs_drop_tree (segs_of real) f"

definition writeFile :: "string \<Rightarrow> string \<Rightarrow> fs \<Rightarrow> fs option" where
  "writeFile real content f =
     (let p = segs_of real in
      if \<not> parent_is_dir f p \<or> fs_get f p = Some DirNode then None else Some (fs_put p (FileNode content) f))"

subsection \<open>Lemmas: looking things up\<close>

lemma fs_get_put [simp]: "fs_get (fs_put p n f) q = (if q = p then Some n else fs_get f q)"
proof -
  have "q \<noteq> p \<Longrightarrow> map_of (filter (\<lambda>(q, m). q \<noteq> p) f) q = map_of f q" by (induction f) auto
  then show ?thesis by (simp add: fs_get_def fs_put_def)
qed

lemma fs_get_drop_tree [simp]: "fs_get (fs_drop_tree p f) q = (if prefix p q then None else fs_get f q)"
  unfolding fs_get_def fs_drop_tree_def by (induction f) auto

lemma fs_get_tree [simp]: "fs_get (fs_tree p f) q = (if prefix p q then fs_get f q else None)"
  unfolding fs_get_def fs_tree_def by (induction f) auto

lemma fs_get_moved [simp]:
  "fs_get (fs_moved src dst f) q = (if prefix dst q then fs_get f (src @ drop (length dst) q) else None)"
proof (induction f)
  case (Cons e f)
  obtain p m where e: "e = (p, m)" by fastforce
  have key: "prefix src p \<Longrightarrow> dst @ drop (length src) p = q \<longleftrightarrow> prefix dst q \<and> p = src @ drop (length dst) q"
    by (auto simp: prefix_def)
  show ?case
  proof (cases "prefix src p")
    case True
    then show ?thesis using Cons key [OF True] by (auto simp: fs_get_def fs_moved_def fs_tree_def e)
  next
    case False
    then have "p \<noteq> src @ drop (length dst) q" by auto
    then show ?thesis using Cons False by (auto simp: fs_get_def fs_moved_def fs_tree_def e)
  qed
qed (simp add: fs_get_def fs_moved_def fs_tree_def)

lemma fs_get_append: "fs_get (f @ g) q = (case fs_get f q of None \<Rightarrow> fs_get g q | Some n \<Rightarrow> Some n)"
  unfolding fs_get_def by (induction f) (auto split: option.splits)

lemma mkdir_steps_get:
  assumes "mkdir_steps ps f = Some g"
  shows "fs_get g q = (if q \<in> set ps \<and> fs_get f q = None then Some DirNode else fs_get f q)"
  using assms
proof (induction ps arbitrary: f)
  case (Cons p ps)
  show ?case
  proof (cases "fs_get f p")
    case None
    then have "mkdir_steps ps (fs_put p DirNode f) = Some g" using Cons.prems by simp
    from Cons.IH [OF this] None show ?thesis by auto
  next
    case (Some n)
    then have "n = DirNode" "mkdir_steps ps f = Some g" using Cons.prems by (auto split: node.splits)
    then show ?thesis using Cons.IH Some by auto
  qed
qed simp

text \<open>What each call leaves alone.\<close>

lemma mkdir_frame: "mkdir r f = Some g \<Longrightarrow> q \<noteq> segs_of r \<Longrightarrow> fs_get g q = fs_get f q"
  by (auto simp: mkdir_def Let_def split: if_splits)

lemma writeFile_frame: "writeFile r c f = Some g \<Longrightarrow> q \<noteq> segs_of r \<Longrightarrow> fs_get g q = fs_get f q"
  by (auto simp: writeFile_def Let_def split: if_splits)

lemma rm_frame: "\<not> prefix (segs_of r) q \<Longrightarrow> fs_get (rm_recursive r f) q = fs_get f q"
  by (simp add: rm_recursive_def)

lemma rename_get:
  assumes "rename s t f = Some g" and "fs_get f (segs_of t) = None" and "segs_of s \<noteq> segs_of t"
  shows "fs_get g q = (if prefix (segs_of t) q then
      (case fs_get f (segs_of s @ drop (length (segs_of t)) q) of
         None \<Rightarrow> if prefix (segs_of s) q then None else fs_get f q | Some n \<Rightarrow> Some n)
    else if prefix (segs_of s) q then None else fs_get f q)"
  using assms by (auto simp: rename_def Let_def fs_get_append split: option.splits if_splits)

lemma rename_frame:
  assumes "rename s t f = Some g" and "\<not> prefix (segs_of s) q" and "\<not> prefix (segs_of t) q"
  shows "fs_get g q = fs_get f q"
  using assms by (auto simp: rename_def Let_def fs_get_append split: option.splits if_splits)

lemma cp_frame:
  assumes "cp_recursive s t f = Some g" and "\<not> prefix (segs_of t) q"
  shows "fs_get g q = (if q \<in> set (prefixes (butlast (segs_of t))) \<and> fs_get f q = None then Some DirNode else fs_get f q)"
  using assms by (auto simp: cp_recursive_def Let_def fs_get_append mkdir_steps_get split: option.splits if_splits)

subsection \<open>Lemmas: the shape of the tree\<close>

text \<open>The root is a directory, and whatever is in the tree is in a directory.\<close>

definition fs_ok :: "fs \<Rightarrow> bool" where
  "fs_ok f \<longleftrightarrow> fs_get f [] = Some DirNode \<and>
     (\<forall>p n. fs_get f (p @ [n]) \<noteq> None \<longrightarrow> fs_get f p = Some DirNode)"

lemma fs_ok_prefix:
  assumes "fs_ok f" and "prefix p q" and "p \<noteq> q" and "fs_get f q \<noteq> None"
  shows "fs_get f p = Some DirNode"
  using assms(2-)
proof (induction q rule: rev_induct)
  case (snoc x q)
  then have "fs_get f q = Some DirNode" using assms(1) by (auto simp: fs_ok_def)
  then show ?case using snoc by (cases "p = q") (auto simp: prefix_snoc)
qed simp

lemma fs_ok_get_cong: "fs_ok f \<Longrightarrow> (\<And>q. fs_get g q = fs_get f q) \<Longrightarrow> fs_ok g"
  by (simp add: fs_ok_def)

lemma fs_ok_put:
  assumes "fs_ok f" and "parent_is_dir f p" and "n = DirNode \<or> fs_get f p \<noteq> Some DirNode"
  shows "fs_ok (fs_put p n f)"
  unfolding fs_ok_def
proof (intro conjI allI impI)
  show "fs_get (fs_put p n f) [] = Some DirNode" using assms by (auto simp: fs_ok_def parent_is_dir_def)
next
  fix q m
  assume "fs_get (fs_put p n f) (q @ [m]) \<noteq> None"
  then have "fs_get f q = Some DirNode" using assms(1,2) by (auto simp: fs_ok_def parent_is_dir_def split: if_splits)
  then show "fs_get (fs_put p n f) q = Some DirNode" using assms(3) by auto
qed

lemma fs_ok_drop_tree: "fs_ok f \<Longrightarrow> p \<noteq> [] \<Longrightarrow> fs_ok (fs_drop_tree p f)"
  by (auto simp: fs_ok_def prefix_snoc split: if_splits)

lemma mkdir_ok: "fs_ok f \<Longrightarrow> mkdir r f = Some g \<Longrightarrow> fs_ok g"
  by (auto simp: mkdir_def Let_def intro: fs_ok_put split: if_splits)

lemma writeFile_ok: "fs_ok f \<Longrightarrow> writeFile r c f = Some g \<Longrightarrow> fs_ok g"
  by (auto simp: writeFile_def Let_def intro: fs_ok_put split: if_splits)

lemma rm_ok: "fs_ok f \<Longrightarrow> segs_of r \<noteq> [] \<Longrightarrow> fs_ok (rm_recursive r f)"
  by (simp add: rm_recursive_def fs_ok_drop_tree)

lemma fs_ok_graft:
  assumes f: "fs_ok f" and g: "fs_ok g" and dst: "dst \<noteq> []" and parent: "fs_get g (butlast dst) = Some DirNode"
    and free: "\<And>q. prefix dst q \<Longrightarrow> fs_get g q = None" and src: "fs_get f src \<noteq> None"
  shows "fs_ok (fs_moved src dst f @ g)"
proof -
  have get: "fs_get (fs_moved src dst f @ g) q =
      (if prefix dst q then fs_get f (src @ drop (length dst) q) else fs_get g q)" for q
    using free by (auto simp: fs_get_append split: option.splits)
  show ?thesis
    unfolding fs_ok_def
  proof (intro conjI allI impI)
    show "fs_get (fs_moved src dst f @ g) [] = Some DirNode" using g dst by (simp add: get fs_ok_def)
  next
    fix q m
    assume ne: "fs_get (fs_moved src dst f @ g) (q @ [m]) \<noteq> None"
    show "fs_get (fs_moved src dst f @ g) q = Some DirNode"
    proof (cases "prefix dst (q @ [m])")
      case False
      then show ?thesis using ne g by (auto simp: get fs_ok_def dest: prefix_order.trans)
    next
      case True
      show ?thesis
      proof (cases "dst = q @ [m]")
        case True
        then show ?thesis unfolding get using parent by simp
      next
        case False
        then have p: "prefix dst q" using True by (simp add: prefix_snoc)
        then have "src @ drop (length dst) (q @ [m]) = (src @ drop (length dst) q) @ [m]"
          by (simp add: prefix_length_le)
        then have "fs_get f ((src @ drop (length dst) q) @ [m]) \<noteq> None" using ne True by (simp only: get if_True not_False_eq_True)
        then have "fs_get f (src @ drop (length dst) q) = Some DirNode"
          using f unfolding fs_ok_def by blast
        then show ?thesis using p by (simp add: get)
      qed
    qed
  qed
qed

lemma parent_prefix: "prefix src (butlast dst) \<Longrightarrow> dst \<noteq> [] \<Longrightarrow> strict_prefix src dst"
  by (metis append_butlast_last_id prefix_snoc strict_prefixI' prefix_order.le_less_trans prefix_order.less_le_not_le prefixI not_Cons_self2 self_append_conv strict_prefix_simps(1) prefix_order.order_iff_strict)

lemma rename_ok:
  assumes ok: "fs_ok f" and run: "rename s t f = Some g"
  shows "fs_ok g"
proof -
  let ?s = "segs_of s" and ?t = "segs_of t"
  obtain n where n: "fs_get f ?s = Some n" using run by (cases "fs_get f ?s") (auto simp: rename_def)
  have guards: "?s \<noteq> []" "parent_is_dir f ?t" "\<not> strict_prefix ?s ?t"
    using run n by (auto simp: rename_def Let_def split: if_splits)
  show ?thesis
  proof (cases "?s = ?t")
    case True
    then show ?thesis using run n guards ok by (simp add: rename_def Let_def)
  next
    case False
    have t: "?t \<noteq> []" "fs_get f (butlast ?t) = Some DirNode" using guards(2) by (auto simp: parent_is_dir_def)
    have kept: "\<not> prefix ?s (butlast ?t)" using parent_prefix t(1) guards(3) by blast
    show ?thesis
    proof (cases "fs_get f ?t")
      case None
      then have g: "g = fs_moved ?s ?t f @ fs_drop_tree ?s f" using run n guards False by (simp add: rename_def Let_def)
      show ?thesis unfolding g
      proof (rule fs_ok_graft [OF ok fs_ok_drop_tree [OF ok guards(1)] t(1)])
        show "fs_get (fs_drop_tree ?s f) (butlast ?t) = Some DirNode" using t kept by simp
        show "fs_get f ?s \<noteq> None" using n by simp
        fix q
        assume "prefix ?t q"
        then show "fs_get (fs_drop_tree ?s f) q = None" using fs_ok_prefix [OF ok, of ?t q] None by (cases "?t = q"; cases "fs_get f q") auto
      qed
    next
      case (Some m)
      then have g: "g = fs_moved ?s ?t f @ fs_drop_tree ?t (fs_drop_tree ?s f)"
        using run n guards False by (auto simp: rename_def Let_def split: if_splits)
      show ?thesis unfolding g
      proof (rule fs_ok_graft [OF ok fs_ok_drop_tree [OF fs_ok_drop_tree [OF ok guards(1)] t(1)] t(1)])
        have "\<not> prefix ?t (butlast ?t)" using t(1) by (metis parent_prefix prefix_order.less_irrefl)
        then show "fs_get (fs_drop_tree ?t (fs_drop_tree ?s f)) (butlast ?t) = Some DirNode" using t kept by simp
        show "fs_get f ?s \<noteq> None" using n by simp
      qed simp
    qed
  qed
qed

lemma mkdir_steps_dirs: "mkdir_steps ps f = Some g \<Longrightarrow> p \<in> set ps \<Longrightarrow> fs_get g p = Some DirNode"
proof (induction ps arbitrary: f)
  case (Cons q ps)
  show ?case
  proof (cases "fs_get f q")
    case None
    then have run: "mkdir_steps ps (fs_put q DirNode f) = Some g" using Cons.prems by simp
    then show ?thesis using Cons mkdir_steps_get [OF run, of p] by auto
  next
    case (Some n)
    then have "n = DirNode" and run: "mkdir_steps ps f = Some g" using Cons.prems by (auto split: node.splits)
    then show ?thesis using Cons Some mkdir_steps_get [OF run, of p] by auto
  qed
qed simp

lemma mkdir_steps_ok:
  assumes "fs_ok f" and "mkdir_steps (prefixes r) f = Some g"
  shows "fs_ok g"
  unfolding fs_ok_def
proof (intro conjI allI impI)
  show "fs_get g [] = Some DirNode" using mkdir_steps_dirs [OF assms(2), of "[]"] by simp
next
  fix p n
  assume ne: "fs_get g (p @ [n]) \<noteq> None"
  show "fs_get g p = Some DirNode"
  proof (cases "p @ [n] \<in> set (prefixes r)")
    case True
    then have "p \<in> set (prefixes r)" by (auto dest: append_prefixD)
    then show ?thesis by (rule mkdir_steps_dirs [OF assms(2)])
  next
    case False
    then have "fs_get f (p @ [n]) \<noteq> None" using ne mkdir_steps_get [OF assms(2)] by simp
    then have "fs_get f p = Some DirNode" using assms(1) by (auto simp: fs_ok_def)
    then show ?thesis using mkdir_steps_get [OF assms(2)] by simp
  qed
qed

lemma mkdir_recursive_ok: "fs_ok f \<Longrightarrow> mkdir_recursive r f = Some g \<Longrightarrow> fs_ok g"
  by (simp add: mkdir_recursive_def mkdir_steps_ok)

lemma cp_ok:
  assumes ok: "fs_ok f" and run: "cp_recursive s t f = Some g"
  shows "fs_ok g"
proof -
  let ?s = "segs_of s" and ?t = "segs_of t"
  obtain h where h: "mkdir_steps (prefixes (butlast ?t)) f = Some h" and g: "g = fs_moved ?s ?t f @ h"
    and src: "fs_get f ?s \<noteq> None" and dst: "fs_get f ?t = None"
    using run by (auto simp: cp_recursive_def Let_def split: if_splits)
  have t: "?t \<noteq> []" using ok dst by (auto simp: fs_ok_def)
  show ?thesis unfolding g
  proof (rule fs_ok_graft [OF ok mkdir_steps_ok [OF ok h] t _ _ src])
    show "fs_get h (butlast ?t) = Some DirNode" by (rule mkdir_steps_dirs [OF h]) simp
  next
    fix q
    assume q: "prefix ?t q"
    then have "fs_get f q = None" using fs_ok_prefix [OF ok q] dst by (cases "fs_get f q"; cases "?t = q") auto
    moreover have "\<not> prefix q (butlast ?t)" using q t
      by (metis append_butlast_last_id not_Cons_self2 prefix_order.antisym prefix_order.trans prefixI self_append_conv)
    ultimately show "fs_get h q = None" using mkdir_steps_get [OF h] by simp
  qed
qed

end
