(* ===== verification/FileRoutes.thy ===== *)
theory FileRoutes
  imports FileAccess FileSystem
begin

text \<open>
  The file routes: \<open>apps/api/src/files/routes.ts\<close>, with \<open>files/mime.ts\<close> and
  \<open>files/archive.ts\<close>.  A handler gets the configuration, the database, the tree, the
  signed-in user (\<open>requireAuth\<close> has run) and the request; each runs without interleaving.
  A \<open>PathError\<close> becomes 400 and any other failed call 500, as in the error handler.
\<close>

subsection \<open>Media types: \<open>files/mime.ts\<close>\<close>

definition MIME :: "(string \<times> string) list" where
  "MIME =
    [(''.txt'', ''text/plain''), (''.md'', ''text/markdown''), (''.log'', ''text/plain''),
     (''.json'', ''application/json''), (''.xml'', ''application/xml''), (''.csv'', ''text/csv''),
     (''.html'', ''text/html''), (''.htm'', ''text/html''), (''.css'', ''text/css''), (''.js'', ''text/javascript''),
     (''.ts'', ''text/plain''), (''.yml'', ''text/yaml''), (''.yaml'', ''text/yaml''), (''.toml'', ''text/plain''),
     (''.png'', ''image/png''), (''.jpg'', ''image/jpeg''), (''.jpeg'', ''image/jpeg''), (''.gif'', ''image/gif''),
     (''.webp'', ''image/webp''), (''.svg'', ''image/svg+xml''), (''.bmp'', ''image/bmp''), (''.ico'', ''image/x-icon''),
     (''.avif'', ''image/avif''), (''.heic'', ''image/heic''), (''.pdf'', ''application/pdf''),
     (''.mp3'', ''audio/mpeg''), (''.wav'', ''audio/wav''), (''.flac'', ''audio/flac''), (''.ogg'', ''audio/ogg''),
     (''.m4a'', ''audio/mp4''), (''.mp4'', ''video/mp4''), (''.mkv'', ''video/x-matroska''), (''.webm'', ''video/webm''),
     (''.mov'', ''video/quicktime''), (''.avi'', ''video/x-msvideo''), (''.zip'', ''application/zip''),
     (''.gz'', ''application/gzip''), (''.tar'', ''application/x-tar''), (''.7z'', ''application/x-7z-compressed''),
     (''.rar'', ''application/vnd.rar''), (''.doc'', ''application/msword''),
     (''.docx'', ''application/vnd.openxmlformats-officedocument.wordprocessingml.document''),
     (''.xls'', ''application/vnd.ms-excel''),
     (''.xlsx'', ''application/vnd.openxmlformats-officedocument.spreadsheetml.sheet'')]"

definition mimeOf :: "string \<Rightarrow> string option" where
  "mimeOf filename = map_of MIME (js_lower (extname filename))"

definition isInlineSafe :: "string option \<Rightarrow> bool" where
  "isInlineSafe mime =
     (case mime of
        None \<Rightarrow> False
      | Some m \<Rightarrow>
          if m = ''image/svg+xml'' \<or> m = ''text/html'' then False
          else starts_with m ''image/'' \<or> starts_with m ''video/'' \<or> starts_with m ''audio/'' \<or>
            m = ''application/pdf'' \<or> m = ''text/plain'' \<or> m = ''text/markdown'' \<or> m = ''text/csv'')"

subsection \<open>Listing and sending\<close>

text \<open>\<open>pathAccess\<close> always answers (\<open>pathAccess_eq\<close>), so a thrown error need not be told apart.\<close>

definition can_read :: "db \<Rightarrow> user \<Rightarrow> string \<Rightarrow> bool" where
  "can_read d u p = (case pathAccess d u p of None \<Rightarrow> False | Some a \<Rightarrow> ac_read a)"

definition can_write :: "db \<Rightarrow> user \<Rightarrow> string \<Rightarrow> bool" where
  "can_write d u p = (case pathAccess d u p of None \<Rightarrow> False | Some a \<Rightarrow> ac_write a)"

definition or_root :: "string option \<Rightarrow> string" where
  "or_root p = normalizeVirtual (case p of None \<Rightarrow> ''/'' | Some s \<Rightarrow> s)"

record file_entry =
  fe_name :: string
  fe_is_dir :: bool
  fe_size :: nat
  fe_mime :: "string option"

definition dir_entry :: "string \<Rightarrow> file_entry" where
  "dir_entry name = \<lparr>fe_name = name, fe_is_dir = True, fe_size = 0, fe_mime = None\<rparr>"

definition entry_of :: "string \<Rightarrow> node \<Rightarrow> file_entry" where
  "entry_of name n = (case n of DirNode \<Rightarrow> dir_entry name
     | FileNode c \<Rightarrow> \<lparr>fe_name = name, fe_is_dir = False, fe_size = length c, fe_mime = mimeOf name\<rparr>)"

text \<open>Folders first, then by name: two stable sorts.\<close>

definition getList ::
  "(string \<Rightarrow> string) \<Rightarrow> config \<Rightarrow> db \<Rightarrow> fs \<Rightarrow> user \<Rightarrow> string option \<Rightarrow> (string \<times> file_entry list \<times> bool) reply" where
  "getList collate cfg d f u q =
     (let path = or_root q in
      if \<not> can_read d u path then Refused 403 ''forbidden''
      else if path = ''/'' then Sent (''/'', map dir_entry (accessibleShareNames collate d u), False)
      else
        (case resolveSafe cfg d path of
           Inl e \<Rightarrow> Refused 400 ''bad_path''
         | Inr real \<Rightarrow>
             if lstat f real \<noteq> Some DirNode then Refused 404 ''not_found''
             else
               (let entries = List.map_filter (\<lambda>name. map_option (entry_of name) (fs_get f (segs_of real @ [name])))
                                (fs_children f (segs_of real))
                in Sent (path,
                     order_asc (\<lambda>e. if fe_is_dir e then 0 else 1 :: nat) (order_asc (\<lambda>e. collate (fe_name e)) entries),
                     can_write d u path))))"

text \<open>The \<open>Range\<close> header: \<open>/^bytes=(\d*)-(\d*)$/\<close> on the trimmed value.\<close>

definition parse_range :: "string \<Rightarrow> (string \<times> string) option" where
  "parse_range h =
     (let s = js_trim h in
      if starts_with s ''bytes='' then
        (case split_on (CHR ''-'') (drop 6 s) of
           [a, b] \<Rightarrow> if list_all is_digit a \<and> list_all is_digit b then Some (a, b) else None
         | _ \<Rightarrow> None)
      else None)"

datatype range_reply = Whole | Partial int int | Unsatisfiable

definition serve_range :: "int \<Rightarrow> string option \<Rightarrow> range_reply" where
  "serve_range size_b rangeHeader =
     (case Option.bind rangeHeader parse_range of
        None \<Rightarrow> Whole
      | Some (a, b) \<Rightarrow>
          if a = '''' \<and> b = '''' then Whole
          else
            (let start = (if a = '''' then max 0 (size_b - int (decimal b)) else int (decimal a));
                 end' = (if a = '''' \<or> b = '''' then size_b - 1 else int (decimal b))
             in if start > end' \<or> start \<ge> size_b \<or> size_b = 0 then Unsatisfiable
                else Partial start (min end' (size_b - 1))))"

record sent_file =
  sf_name :: string
  sf_content_type :: string
  sf_inline :: bool
  sf_status :: nat
  sf_start :: int
  sf_length :: int
  sf_body :: string

definition sendFile :: "config \<Rightarrow> db \<Rightarrow> fs \<Rightarrow> user \<Rightarrow> string option \<Rightarrow> string option \<Rightarrow> bool \<Rightarrow> sent_file reply" where
  "sendFile cfg d f u q rangeHeader inlineMode =
     (let path = or_root q in
      if \<not> can_read d u path then Refused 403 ''forbidden''
      else
        (case resolveSafe cfg d path of
           Inl e \<Rightarrow> Refused 400 ''bad_path''
         | Inr real \<Rightarrow>
             (case lstat f real of
                Some (FileNode content) \<Rightarrow>
                  (let name = basename real;
                       mime = mimeOf name;
                       size_b = int (length content);
                       file = \<lparr>sf_name = name,
                               sf_content_type = (case mime of None \<Rightarrow> ''application/octet-stream'' | Some m \<Rightarrow> m),
                               sf_inline = (inlineMode \<and> isInlineSafe mime), sf_status = 200, sf_start = 0,
                               sf_length = size_b, sf_body = content\<rparr>
                   in case serve_range size_b rangeHeader of
                        Whole \<Rightarrow> Sent file
                      | Unsatisfiable \<Rightarrow> Refused 416 ''''
                      | Partial start end' \<Rightarrow>
                          Sent (file\<lparr>sf_status := 206, sf_start := start, sf_length := end' - start + 1,
                                     sf_body := take (nat (end' - start + 1)) (drop (nat start) content)\<rparr>))
              | _ \<Rightarrow> Refused 404 ''not_found'')))"

text \<open>\<open>/info\<close>: the recursive size of a folder is the size of the files below it.\<close>

definition dirSize :: "fs \<Rightarrow> string \<Rightarrow> nat" where
  "dirSize f real = sum_list (map (\<lambda>(q, n). node_size n) (fs_tree (segs_of real) f))"

record file_info =
  fi_name :: string
  fi_path :: string
  fi_is_dir :: bool
  fi_size :: nat
  fi_item_count :: nat
  fi_mime :: "string option"

definition getInfo :: "config \<Rightarrow> db \<Rightarrow> fs \<Rightarrow> user \<Rightarrow> string option \<Rightarrow> file_info reply" where
  "getInfo cfg d f u q =
     (let path = or_root q in
      if \<not> can_read d u path then Refused 403 ''forbidden''
      else
        (case resolveSafe cfg d path of
           Inl e \<Rightarrow> Refused 400 ''bad_path''
         | Inr real \<Rightarrow>
             (case lstat f real of
                None \<Rightarrow> Refused 404 ''not_found''
              | Some n \<Rightarrow>
                  Sent \<lparr>fi_name = (if basename real = '''' then ''/'' else basename real), fi_path = path,
                        fi_is_dir = (n = DirNode),
                        fi_size = (if n = DirNode then dirSize f real else node_size n),
                        fi_item_count = (if n = DirNode then length (fs_children f (segs_of real)) else 0),
                        fi_mime = (if n = DirNode then None else mimeOf (basename real))\<rparr>)))"

subsection \<open>Folders, names, copies and moves\<close>

text \<open>A failed call throws: the reply is 500 and the tree is as the failed call found it.\<close>

definition or_io_error :: "fs option \<Rightarrow> fs \<Rightarrow> (fs \<Rightarrow> 'a reply) \<Rightarrow> 'a reply \<times> fs" where
  "or_io_error res f answer = (case res of None \<Rightarrow> (Refused 500 ''io_error'', f) | Some g \<Rightarrow> (answer g, g))"

definition postMkdir ::
  "config \<Rightarrow> db \<Rightarrow> user \<Rightarrow> string \<Rightarrow> string \<Rightarrow> fs \<Rightarrow> string reply \<times> fs" where
  "postMkdir cfg d u path name f =
     (if \<not> can_write d u path then (Refused 403 ''forbidden'', f)
      else
        (case (validateName name, resolveSafe cfg d path) of
           (Inr nm, Inr parent) \<Rightarrow>
             (let target = path_join parent nm in
              if file_exists f target then (Refused 409 ''exists'', f)
              else or_io_error (mkdir target f) f (\<lambda>g. Sent (toVirtual cfg d target)))
         | _ \<Rightarrow> (Refused 400 ''bad_path'', f)))"

definition postRename ::
  "config \<Rightarrow> db \<Rightarrow> user \<Rightarrow> string \<Rightarrow> string \<Rightarrow> fs \<Rightarrow> string reply \<times> fs" where
  "postRename cfg d u path newName f =
     (if \<not> can_write d u path then (Refused 403 ''forbidden'', f)
      else
        (case validateName newName of
           Inl e \<Rightarrow> (Refused 400 ''bad_path'', f)
         | Inr nm \<Rightarrow>
             if isShareRoot path then (Refused 400 ''bad_path'', f)
             else
               (case resolveSafe cfg d path of
                  Inl e \<Rightarrow> (Refused 400 ''bad_path'', f)
                | Inr src \<Rightarrow>
                    (let dest = path_join (dirname src) nm in
                     if file_exists f dest then (Refused 409 ''exists'', f)
                     else or_io_error (rename src dest f) f (\<lambda>g. Sent (toVirtual cfg d dest))))))"

definition js_copy_suffix :: "nat \<Rightarrow> string" where
  "js_copy_suffix i = (if i = 1 then '' (copy)'' else '' (copy '' @ js_nat i @ '')'')"

definition uniqueName :: "fs \<Rightarrow> millis \<Rightarrow> string \<Rightarrow> string \<Rightarrow> string" where
  "uniqueName f now dir name =
     (let ext = extname name;
          stem = (if ext \<noteq> '''' then take (length name - length ext) name else name)
      in case find (\<lambda>i. \<not> file_exists f (path_join dir (stem @ js_copy_suffix i @ ext))) [1..<1000] of
           Some i \<Rightarrow> path_join dir (stem @ js_copy_suffix i @ ext)
         | None \<Rightarrow> path_join dir (stem @ '' (copy '' @ js_nat (nat now) @ '')'' @ ext))"

definition planTransfer ::
  "config \<Rightarrow> db \<Rightarrow> user \<Rightarrow> millis \<Rightarrow> bool \<Rightarrow> string \<Rightarrow> string \<Rightarrow> fs \<Rightarrow> (string \<times> string) reply" where
  "planTransfer cfg d u now uniquify path toDir f =
     (let srcVirtual = normalizeVirtual path; toDirVirtual = normalizeVirtual toDir in
      if \<not> can_read d u srcVirtual \<or> \<not> can_write d u toDirVirtual then Refused 403 ''forbidden''
      else if isShareRoot srcVirtual then Refused 400 ''bad_path''
      else
        (case (resolveSafe cfg d srcVirtual, resolveSafe cfg d toDirVirtual) of
           (Inr src, Inr destDir) \<Rightarrow>
             if lstat f destDir \<noteq> Some DirNode then Refused 404 ''not_found''
             else if destDir = src \<or> starts_with destDir (src @ ''/'') then Refused 400 ''bad_path''
             else
               (let dest = path_join destDir (basename src) in
                if file_exists f dest then
                  (if \<not> uniquify then Refused 409 ''exists''
                   else Sent (src, uniqueName f now destDir (basename src)))
                else Sent (src, dest))
         | _ \<Rightarrow> Refused 400 ''bad_path''))"

definition postCopy ::
  "config \<Rightarrow> db \<Rightarrow> user \<Rightarrow> millis \<Rightarrow> string \<Rightarrow> string \<Rightarrow> fs \<Rightarrow> string reply \<times> fs" where
  "postCopy cfg d u now path toDir f =
     (case planTransfer cfg d u now True path toDir f of
        Refused s e \<Rightarrow> (Refused s e, f)
      | Sent (src, dest) \<Rightarrow> or_io_error (cp_recursive src dest f) f (\<lambda>g. Sent (toVirtual cfg d dest)))"

definition postMove ::
  "config \<Rightarrow> db \<Rightarrow> user \<Rightarrow> millis \<Rightarrow> string \<Rightarrow> string \<Rightarrow> fs \<Rightarrow> string reply \<times> fs" where
  "postMove cfg d u now path toDir f =
     (case planTransfer cfg d u now False path toDir f of
        Refused s e \<Rightarrow> (Refused s e, f)
      | Sent (src, dest) \<Rightarrow> or_io_error (rename src dest f) f (\<lambda>g. Sent (toVirtual cfg d dest)))"

definition putWrite ::
  "config \<Rightarrow> db \<Rightarrow> user \<Rightarrow> string \<Rightarrow> string \<Rightarrow> fs \<Rightarrow> unit reply \<times> fs" where
  "putWrite cfg d u path content f =
     (let p = normalizeVirtual path in
      if \<not> can_write d u p then (Refused 403 ''forbidden'', f)
      else
        (case resolveSafe cfg d p of
           Inl e \<Rightarrow> (Refused 400 ''bad_path'', f)
         | Inr real \<Rightarrow>
             if lstat f real = Some DirNode then (Refused 400 ''not_file'', f)
             else or_io_error (writeFile real content f) f (\<lambda>g. Sent ())))"

text \<open>
  A part of the upload: its file name, what arrived, and whether the size limit cut it
  off.  The loop stops at the first part that fails; what it saved before stays.
\<close>

record upload_part =
  up_filename :: string
  up_content :: string
  up_truncated :: bool

fun upload_parts ::
  "config \<Rightarrow> db \<Rightarrow> string \<Rightarrow> upload_part list \<Rightarrow> string list \<Rightarrow> fs \<Rightarrow> string list reply \<times> fs" where
  "upload_parts cfg d dir [] saved f =
     (if saved = [] then (Refused 400 ''no_files'', f) else (Sent saved, f))"
| "upload_parts cfg d dir (p # ps) saved f =
     (case validateName (if up_filename p = '''' then ''upload'' else up_filename p) of
        Inl e \<Rightarrow> (Refused 400 ''bad_path'', f)
      | Inr name \<Rightarrow>
          (let dest = path_join dir name in
           case resolveSafe cfg d (toVirtual cfg d dest) of
             Inl e \<Rightarrow> (Refused 400 ''bad_path'', f)
           | Inr _ \<Rightarrow>
               (case writeFile dest (up_content p) f of
                  None \<Rightarrow> (Refused 500 ''io_error'', f)
                | Some g \<Rightarrow>
                    if up_truncated p then (Refused 413 ''too_large'', rm_recursive dest g)
                    else upload_parts cfg d dir ps (saved @ [name]) g)))"

definition postUpload ::
  "config \<Rightarrow> db \<Rightarrow> user \<Rightarrow> string option \<Rightarrow> upload_part list \<Rightarrow> fs \<Rightarrow> string list reply \<times> fs" where
  "postUpload cfg d u q parts f =
     (let path = or_root q in
      if \<not> can_write d u path then (Refused 403 ''forbidden'', f)
      else
        (case resolveSafe cfg d path of
           Inl e \<Rightarrow> (Refused 400 ''bad_path'', f)
         | Inr dir \<Rightarrow>
             if lstat f dir \<noteq> Some DirNode then (Refused 404 ''not_found'', f)
             else upload_parts cfg d dir parts [] f))"

subsection \<open>Archives: \<open>files/archive.ts\<close>\<close>

definition MAX_ZIP_BYTES :: nat where "MAX_ZIP_BYTES = 1024 * 1024 * 1024"

text \<open>
  \<open>addPath\<close> visits what is below a path: files under their name relative to the base
  name, a childless folder with a trailing slash.  A file that takes the total over the
  limit throws.
\<close>

definition addPath :: "fs \<Rightarrow> string \<Rightarrow> (string \<times> string) list" where
  "addPath f real =
     (let p = segs_of real in
      List.map_filter (\<lambda>(q, n).
          let name = join ''/'' (basename real # drop (length p) q) in
          case n of
            FileNode c \<Rightarrow> Some (name, c)
          | DirNode \<Rightarrow> if fs_children f q = [] then Some (name @ ''/'', '''') else None)
        (fs_tree p f))"

definition buildZip :: "((string \<times> string) list \<Rightarrow> string) \<Rightarrow> fs \<Rightarrow> string list \<Rightarrow> string option" where
  "buildZip zipSync f reals =
     (let entries = concat (map (addPath f) reals)
      in if sum_list (map (\<lambda>(name, c). length c) entries) > MAX_ZIP_BYTES then None else Some (zipSync entries))"

definition getZip ::
  "((string \<times> string) list \<Rightarrow> string) \<Rightarrow> config \<Rightarrow> db \<Rightarrow> fs \<Rightarrow> user \<Rightarrow> string option \<Rightarrow> string reply" where
  "getZip zipSync cfg d f u q =
     (let path = or_root q in
      if \<not> can_read d u path then Refused 403 ''forbidden''
      else
        (case resolveSafe cfg d path of
           Inl e \<Rightarrow> Refused 400 ''bad_path''
         | Inr real \<Rightarrow>
             if lstat f real \<noteq> Some DirNode then Refused 400 ''not_dir''
             else (case buildZip zipSync f [real] of None \<Rightarrow> Refused 413 ''too_large'' | Some z \<Rightarrow> Sent z)))"

fun all_valid :: "string list \<Rightarrow> string list option" where
  "all_valid [] = Some []"
| "all_valid (n # ns) =
     (case validateName n of Inl e \<Rightarrow> None | Inr nm \<Rightarrow> map_option (\<lambda>nms. nm # nms) (all_valid ns))"

definition postCompress ::
  "((string \<times> string) list \<Rightarrow> string) \<Rightarrow> config \<Rightarrow> db \<Rightarrow> user \<Rightarrow> string \<Rightarrow> string list \<Rightarrow> string \<Rightarrow> fs \<Rightarrow> string reply \<times> fs" where
  "postCompress zipSync cfg d u dir names name f =
     (if \<not> can_write d u dir then (Refused 403 ''forbidden'', f)
      else
        (case (resolveSafe cfg d dir,
               validateName (if ends_with (js_lower name) ''.zip'' then name else name @ ''.zip''), all_valid names) of
           (Inr real, Inr zipName, Some nms) \<Rightarrow>
             (let dest = path_join real zipName in
              if file_exists f dest then (Refused 409 ''exists'', f)
              else
                (case buildZip zipSync f (map (path_join real) nms) of
                   None \<Rightarrow> (Refused 400 ''zip_failed'', f)
                 | Some z \<Rightarrow> or_io_error (writeFile dest z f) f (\<lambda>g. Sent (toVirtual cfg d dest))))
         | _ \<Rightarrow> (Refused 400 ''bad_path'', f)))"

text \<open>
  \<open>extractZip\<close>: entries in order; the result says whether it threw, the tree is what was
  written until then.  \<open>unzipSync\<close> is the library's reader, \<open>None\<close> when it rejects the file.
\<close>

datatype extract_result = Extracted | UnsafePath | ExtractTooLarge | ExtractIo | BadZip

fun extract_loop :: "string \<Rightarrow> (string \<times> string) list \<Rightarrow> nat \<Rightarrow> fs \<Rightarrow> extract_result \<times> fs" where
  "extract_loop destReal [] size_b f = (Extracted, f)"
| "extract_loop destReal ((name, content) # es) size_b f =
     (let dest = path_resolve destReal [name] in
      if dest \<noteq> destReal \<and> \<not> starts_with dest (destReal @ ''/'') then (UnsafePath, f)
      else if ends_with name ''/'' then
        (case mkdir_recursive dest f of None \<Rightarrow> (ExtractIo, f) | Some g \<Rightarrow> extract_loop destReal es size_b g)
      else if size_b + length content > MAX_ZIP_BYTES then (ExtractTooLarge, f)
      else
        (case mkdir_recursive (dirname dest) f of
           None \<Rightarrow> (ExtractIo, f)
         | Some g \<Rightarrow>
             (case writeFile dest content g of
                None \<Rightarrow> (ExtractIo, g)
              | Some h \<Rightarrow> extract_loop destReal es (size_b + length content) h)))"

definition extractZip ::
  "(string \<Rightarrow> (string \<times> string) list option) \<Rightarrow> string \<Rightarrow> string \<Rightarrow> fs \<Rightarrow> extract_result \<times> fs" where
  "extractZip unzipSync content destReal f =
     (case unzipSync content of None \<Rightarrow> (BadZip, f) | Some es \<Rightarrow> extract_loop destReal es 0 f)"

text \<open>
  \<open>uniqueDir\<close> tries names until one is free; a tree of \<open>n\<close> entries cannot take all of
  \<open>n + 1\<close> candidates, which \<open>uniqueDir_free\<close> proves.
\<close>

definition dir_candidate :: "string \<Rightarrow> string \<Rightarrow> nat \<Rightarrow> string" where
  "dir_candidate parent name i =
     path_join parent (if i = 1 then name else name @ '' ('' @ js_nat i @ '')'')"

definition uniqueDir :: "fs \<Rightarrow> string \<Rightarrow> string \<Rightarrow> string option" where
  "uniqueDir f parent name =
     map_option (dir_candidate parent name)
       (find (\<lambda>i. \<not> file_exists f (dir_candidate parent name i)) [1..<length f + 3])"

definition before_last_slash :: "string \<Rightarrow> string" where
  "before_last_slash p =
     (if CHR ''/'' \<in> set p then rev (drop 1 (dropWhile (\<lambda>c. c \<noteq> CHR ''/'') (rev p))) else butlast p)"

definition zip_folder :: "string \<Rightarrow> string" where
  "zip_folder base =
     (let stem = (if ends_with (js_lower base) ''.zip'' then take (length base - 4) base else base)
      in if stem = '''' then ''extracted'' else stem)"

definition postExtract ::
  "(string \<Rightarrow> (string \<times> string) list option) \<Rightarrow> config \<Rightarrow> db \<Rightarrow> user \<Rightarrow> string \<Rightarrow> fs \<Rightarrow> string reply \<times> fs" where
  "postExtract unzipSync cfg d u path f =
     (if isShareRoot path then (Refused 400 ''bad_path'', f)
      else
        (let up = before_last_slash path;
             parentVirtual = normalizeVirtual (if up = '''' then ''/'' else up)
         in if \<not> can_write d u parentVirtual then (Refused 403 ''forbidden'', f)
            else
              (case resolveSafe cfg d path of
                 Inl e \<Rightarrow> (Refused 400 ''bad_path'', f)
               | Inr zipReal \<Rightarrow>
                   (case lstat f zipReal of
                      Some (FileNode content) \<Rightarrow>
                        (case uniqueDir f (dirname zipReal) (zip_folder (basename zipReal)) of
                           None \<Rightarrow> (Refused 500 ''io_error'', f)
                         | Some destReal \<Rightarrow>
                             (case mkdir_recursive destReal f of
                                None \<Rightarrow> (Refused 500 ''io_error'', f)
                              | Some g \<Rightarrow>
                                  (let (res, h) = extractZip unzipSync content destReal g in
                                   case res of
                                     Extracted \<Rightarrow> (Sent (toVirtual cfg d destReal), h)
                                   | ExtractIo \<Rightarrow> (Refused 500 ''io_error'', rm_recursive destReal h)
                                   | _ \<Rightarrow> (Refused 400 ''unzip_failed'', rm_recursive destReal h))))
                    | _ \<Rightarrow> (Refused 404 ''not_found'', f)))))"

end
