(* ===== verification/FileProps.thy ===== *)
theory FileProps
  imports FileRoutes
begin

text \<open>
  What the file routes guarantee: the tree stays a tree, a user changes nothing in a
  share it cannot write to, ranges are in bounds, archives stay in their folder; and
  where the code falls short of that, with the counterexamples.
\<close>

subsection \<open>Paths below a share\<close>

lemma path_join_plain:
  assumes "plain ss" and "plain_segment n"
  shows "path_join (abs_path ss) n = abs_path (ss @ [n])" and "segs_of (path_join (abs_path ss) n) = ss @ [n]"
proof -
  have s: "segs_of (abs_path ss @ slash # n) = ss @ [n]"
    unfolding segs_of_append_slash using assms norm_segments_id [of "[n]" False "rev ss"] plain_segmentD [OF assms(2)]
    by (auto simp: plain_segment_def)
  have "is_absolute (abs_path ss @ slash # n)" by (simp add: is_absolute_def abs_path_def)
  moreover have "\<not> ends_with (abs_path ss @ slash # n) ''/''"
    using assms(2) by (auto simp: ends_with_def plain_segment_def split: if_splits) (metis hd_in_set hd_rev last_in_set list.collapse rev.simps(1) rev_is_rev_conv set_rev starts_with_Cons append_Cons)
  ultimately show "path_join (abs_path ss) n = abs_path (ss @ [n])"
    using s by (simp add: path_join_def posix_normalize_abs abs_path_def)
  then show "segs_of (path_join (abs_path ss) n) = ss @ [n]" using assms by simp
qed

lemma basename_abs [simp]: "plain ss \<Longrightarrow> ss \<noteq> [] \<Longrightarrow> basename (abs_path ss) = last ss"
  by (cases ss rule: rev_cases) (simp_all add: basename_def)

lemma dirname_abs [simp]: "plain ss \<Longrightarrow> dirname (abs_path ss) = abs_path (butlast ss)"
  by (simp add: dirname_def)

text \<open>What the resolution of a path gives in an installation with separate roots.\<close>

lemma installed_bases: "roots_apart cfg d \<Longrightarrow> \<forall>row \<in> set (db_shares d). share_base cfg row \<noteq> ''/''"
proof
  fix row
  assume "roots_apart cfg d" "row \<in> set (db_shares d)"
  then have "share_segs cfg row \<noteq> []" using share_segs_installed by simp
  then show "share_base cfg row \<noteq> ''/''"
    using share_base_segs [of cfg row] join_plain_ne [of "share_segs cfg row"] by (simp add: abs_path_def)
qed

lemma resolved:
  assumes "roots_apart cfg d" and "resolveSafe cfg d p = Inr real"
  obtains row segs where "row \<in> set (db_shares d)" and "virtualSegments p = shr_name row # segs"
    and "real = abs_path (share_segs cfg row @ segs)" and "plain (share_segs cfg row @ segs)"
    and "segs_of real = share_segs cfg row @ segs" and "share_segs cfg row \<noteq> []"
proof -
  from resolveSafe_Inr [OF installed_bases [OF assms(1)] assms(2)] obtain name segs row where r:
    "virtualSegments p = name # segs" "row \<in> set (db_shares d)" "shr_name row = name"
    "real = abs_path (share_segs cfg row @ segs)" "plain segs" "share_segs cfg row \<noteq> []" by metis
  have pl: "plain (share_segs cfg row @ segs)" using share_base_segs(1) r(5) by auto
  show thesis by (rule that [of row segs]) (use r pl in simp_all)
qed

subsection \<open>Requests on the tree\<close>

record file_env =
  en_cfg :: config
  en_db :: db
  en_user :: user
  en_zip :: "(string \<times> string) list \<Rightarrow> string"
  en_unzip :: "string \<Rightarrow> (string \<times> string) list option"

datatype file_request =
    ReqMkdir string string
  | ReqRename string string
  | ReqCopy millis string string
  | ReqMove millis string string
  | ReqWrite string string
  | ReqUpload "string option" "upload_part list"
  | ReqCompress string "string list" string
  | ReqExtract string

fun file_step :: "file_env \<Rightarrow> file_request \<Rightarrow> fs \<Rightarrow> fs" where
  "file_step e (ReqMkdir p n) f = snd (postMkdir (en_cfg e) (en_db e) (en_user e) p n f)"
| "file_step e (ReqRename p n) f = snd (postRename (en_cfg e) (en_db e) (en_user e) p n f)"
| "file_step e (ReqCopy now p t) f = snd (postCopy (en_cfg e) (en_db e) (en_user e) now p t f)"
| "file_step e (ReqMove now p t) f = snd (postMove (en_cfg e) (en_db e) (en_user e) now p t f)"
| "file_step e (ReqWrite p c) f = snd (putWrite (en_cfg e) (en_db e) (en_user e) p c f)"
| "file_step e (ReqUpload p parts) f = snd (postUpload (en_cfg e) (en_db e) (en_user e) p parts f)"
| "file_step e (ReqCompress p ns n) f = snd (postCompress (en_zip e) (en_cfg e) (en_db e) (en_user e) p ns n f)"
| "file_step e (ReqExtract p) f = snd (postExtract (en_unzip e) (en_cfg e) (en_db e) (en_user e) p f)"

text \<open>
  \<open>changes_in S f g\<close>: the trees differ only at paths of \<open>S\<close>.
\<close>

definition changes_in :: "string list set \<Rightarrow> fs \<Rightarrow> fs \<Rightarrow> bool" where
  "changes_in S f g \<longleftrightarrow> (\<forall>q. fs_get g q \<noteq> fs_get f q \<longrightarrow> q \<in> S)"

definition below :: "string list \<Rightarrow> string list set" where
  "below p = {q. prefix p q}"

lemma changes_refl [simp]: "changes_in S f f"
  by (simp add: changes_in_def)

lemma changes_trans: "changes_in S f g \<Longrightarrow> changes_in S g h \<Longrightarrow> changes_in S f h"
  by (auto simp: changes_in_def) metis

lemma changes_mono: "changes_in S f g \<Longrightarrow> S \<subseteq> T \<Longrightarrow> changes_in T f g"
  by (auto simp: changes_in_def)

lemma changes_up: "changes_in (below (p @ q)) f g \<Longrightarrow> changes_in (below p) f g"
  by (erule changes_mono) (auto simp: below_def dest: append_prefixD)

lemma changes_inI: "(\<And>q. q \<notin> S \<Longrightarrow> fs_get g q = fs_get f q) \<Longrightarrow> changes_in S f g"
  by (auto simp: changes_in_def)

lemma mkdir_changes: "mkdir r f = Some g \<Longrightarrow> changes_in {segs_of r} f g"
  by (rule changes_inI) (simp add: mkdir_frame)

lemma writeFile_changes: "writeFile r c f = Some g \<Longrightarrow> changes_in {segs_of r} f g"
  by (rule changes_inI) (simp add: writeFile_frame)

lemma rm_changes: "changes_in (below (segs_of r)) f (rm_recursive r f)"
  by (rule changes_inI) (simp add: below_def rm_frame)

lemma rename_changes: "rename s t f = Some g \<Longrightarrow> changes_in (below (segs_of s) \<union> below (segs_of t)) f g"
  by (rule changes_inI) (simp add: below_def rename_frame)

lemma mkdir_recursive_changes:
  assumes "fs_ok f" and "fs_get f p = Some DirNode" and "prefix p (segs_of r) \<or> prefix (segs_of r) p"
    and "mkdir_recursive r f = Some g"
  shows "changes_in (below p) f g"
proof (rule changes_inI, rule ccontr)
  fix q
  assume out: "q \<notin> below p" and ne: "fs_get g q \<noteq> fs_get f q"
  then have q: "prefix q (segs_of r)" "fs_get f q = None"
    using mkdir_steps_get [of "prefixes (segs_of r)" f g q] assms(4) by (auto simp: mkdir_recursive_def split: if_splits)
  then have "prefix q p" using assms(3) out prefix_same_cases prefix_order.trans unfolding below_def by blast
  then show False using fs_ok_prefix [OF assms(1), of q p] assms(2) q(2) by (cases "q = p") auto
qed

lemma cp_changes:
  assumes "fs_get f (butlast (segs_of t)) = Some DirNode" and "fs_ok f" and "cp_recursive s t f = Some g"
  shows "changes_in (below (segs_of t)) f g"
  unfolding changes_in_def
proof (intro allI impI)
  fix q
  assume ne: "fs_get g q \<noteq> fs_get f q"
  show "q \<in> below (segs_of t)"
  proof (rule ccontr)
    assume "q \<notin> below (segs_of t)"
    then have "\<not> prefix (segs_of t) q" by (simp add: below_def)
    from cp_frame [OF assms(3) this] ne have "prefix q (butlast (segs_of t))" "fs_get f q = None"
      by (auto split: if_splits)
    then show False using fs_ok_prefix [OF assms(2), of q "butlast (segs_of t)"] assms(1)
      by (cases "q = butlast (segs_of t)") auto
  qed
qed

subsection \<open>Archives stay in their folder\<close>

lemma extract_dest:
  assumes "plain ds" and "ds \<noteq> []" and "dest = path_resolve (abs_path ds) [name]"
    and "dest = abs_path ds \<or> starts_with dest (abs_path ds @ ''/'')"
  shows "prefix ds (segs_of dest)"
proof -
  obtain ss where ss: "plain ss" "dest = abs_path ss" using path_resolve_plain assms(3) by blast
  then show ?thesis using assms starts_with_abs [OF ss(1) assms(1,2)] abs_path_inj [OF ss(1) assms(1)] by auto
qed

text \<open>One entry of an archive: the tree stays a tree and changes below the folder only.\<close>

definition grows :: "string list \<Rightarrow> fs \<Rightarrow> fs \<Rightarrow> bool" where
  "grows ds f g \<longleftrightarrow> changes_in (below ds) f g \<and> fs_ok g \<and> fs_get g ds = Some DirNode"

lemma grows_trans: "grows ds f g \<Longrightarrow> grows ds g h \<Longrightarrow> grows ds f h"
  by (auto simp: grows_def intro: changes_trans)

lemma grows_refl: "fs_ok f \<Longrightarrow> fs_get f ds = Some DirNode \<Longrightarrow> grows ds f f"
  by (simp add: grows_def)

lemma mkdir_grows:
  assumes "fs_ok f" and "fs_get f ds = Some DirNode" and "prefix ds (segs_of r) \<or> prefix (segs_of r) ds"
    and "mkdir_recursive r f = Some g"
  shows "grows ds f g"
  using mkdir_recursive_changes [OF assms] mkdir_recursive_ok [OF assms(1,4)] assms(2,4)
    mkdir_steps_get [of "prefixes (segs_of r)" f g ds] by (simp add: grows_def mkdir_recursive_def)

lemma writeFile_grows:
  assumes "fs_ok f" and "fs_get f ds = Some DirNode" and "prefix ds (segs_of r)" and "writeFile r c f = Some g"
  shows "grows ds f g"
proof -
  have "segs_of r \<noteq> ds" using assms(2,4) by (auto simp: writeFile_def Let_def)
  then have "fs_get g ds = Some DirNode" using writeFile_frame [OF assms(4), of ds] assms(2) by auto
  moreover have "changes_in (below ds) f g"
    using writeFile_changes [OF assms(4)] assms(3) by (auto simp: below_def intro: changes_mono)
  ultimately show ?thesis using writeFile_ok [OF assms(1,4)] by (simp add: grows_def)
qed

lemma dirname_near: "prefix ds (segs_of r) \<Longrightarrow> plain (segs_of r) \<Longrightarrow> r = abs_path (segs_of r) \<Longrightarrow>
    prefix ds (segs_of (dirname r)) \<or> prefix (segs_of (dirname r)) ds"
  by (metis append_butlast_last_id butlast.simps(1) dirname_abs in_set_butlastD list.pred_set prefix_order.refl prefix_snoc prefixI segs_of_abs)

lemma extract_loop_grows:
  assumes "plain ds" and "ds \<noteq> []"
  shows "fs_ok f \<Longrightarrow> fs_get f ds = Some DirNode \<Longrightarrow> grows ds f (snd (extract_loop (abs_path ds) es n f))"
proof (induction "abs_path ds" es n f rule: extract_loop.induct)
  case (1 n f)
  then show ?case by (simp add: grows_refl)
next
  case (2 name content es n f)
  let ?dest = "path_resolve (abs_path ds) [name]"
  show ?case
  proof (cases "?dest \<noteq> abs_path ds \<and> \<not> starts_with ?dest (abs_path ds @ ''/'')")
    case True
    then show ?thesis using "2.prems" by (simp add: grows_refl)
  next
    case safe: False
    then have in_ds: "prefix ds (segs_of ?dest)" using extract_dest [OF assms refl] by blast
    obtain ss where ss: "plain ss" "?dest = abs_path ss" using path_resolve_plain by blast
    then have near: "prefix ds (segs_of (dirname ?dest)) \<or> prefix (segs_of (dirname ?dest)) ds"
      using dirname_near [OF in_ds] by simp
    have next_dir: "grows ds f (snd (extract_loop (abs_path ds) es n h))"
      if "ends_with name ''/''" "mkdir_recursive ?dest f = Some h" for h
      using mkdir_grows [OF "2.prems" _ that(2)] in_ds "2.hyps"(1) [OF refl safe that] grows_trans by (auto simp: grows_def)
    have step: "grows ds f h" if "mkdir_recursive (dirname ?dest) f = Some h" for h
      by (rule mkdir_grows [OF "2.prems" near that])
    have next_file: "grows ds f k \<and> grows ds f (snd (extract_loop (abs_path ds) es (n + length content) k))"
      if "\<not> ends_with name ''/''" "\<not> n + length content > MAX_ZIP_BYTES"
        "mkdir_recursive (dirname ?dest) f = Some h" "writeFile ?dest content h = Some k" for h k
      using step [OF that(3)] writeFile_grows [OF _ _ in_ds that(4)] "2.hyps"(2) [OF refl safe that] grows_trans
      by (metis grows_def)
    show ?thesis
      using safe next_dir step next_file "2.prems" by (auto simp: Let_def grows_refl split: option.splits)
  qed
qed

text \<open>
  C7. Whatever entries an archive has, with whatever names (dot-dot segments, absolute
  paths), extracting it changes nothing outside the folder it is extracted into, also
  when it stops at an unsafe, oversized or unwritable entry, and the tree stays one.
\<close>

theorem extract_no_zip_slip:
  assumes "fs_ok f" and "plain ds" and "ds \<noteq> []" and "fs_get f ds = Some DirNode"
    and "extractZip unzipSync content (abs_path ds) f = (res, g)"
  shows "changes_in (below ds) f g \<and> fs_ok g"
  using extract_loop_grows [OF assms(2,3,1,4)] assms(1,4,5)
  by (auto simp: extractZip_def grows_def split: option.splits) (metis snd_conv)+

theorem extract_no_zip_slip_witness:
  "changes_in (below [''media'', ''a'']) [([''media'', ''a''], DirNode), ([''media''], DirNode), ([], DirNode)]
     [([''media'', ''a'', ''ok''], FileNode ''y''), ([''media'', ''a''], DirNode), ([''media''], DirNode), ([], DirNode)]"
proof -
  let ?f = "[([''media'', ''a''], DirNode), ([''media''], DirNode), ([], DirNode)]"
  have paths: "abs_path [''media'', ''a''] = ''/media/a''" "path_resolve ''/media/a'' [''ok''] = ''/media/a/ok''"
    "path_resolve ''/media/a'' [''../evil''] = ''/media/evil''" "dirname ''/media/a/ok'' = ''/media/a''"
    "mkdir_recursive ''/media/a'' ?f = Some ?f"
    "writeFile ''/media/a/ok'' ''y'' ?f = Some (([''media'', ''a'', ''ok''], FileNode ''y'') # ?f)" by code_simp+
  have run: "extractZip (\<lambda>c. Some [(''ok'', ''y''), (''../evil'', ''x'')]) ''zip'' (abs_path [''media'', ''a'']) ?f
      = (UnsafePath, ([''media'', ''a'', ''ok''], FileNode ''y'') # ?f)"
    by (simp add: extractZip_def paths MAX_ZIP_BYTES_def starts_with_def ends_with_def)
  have "fs_ok ?f" by (auto simp: fs_ok_def fs_get_def split: if_splits)
  then show ?thesis
    using extract_no_zip_slip [OF _ _ _ _ run] by (simp add: plain_segment_def fs_get_def)
qed

subsection \<open>Changes stay where the user may write\<close>

text \<open>A path of the tree lies in the folder of a share in which the user may write somewhere.\<close>

definition writable_share :: "file_env \<Rightarrow> string list \<Rightarrow> bool" where
  "writable_share e q \<longleftrightarrow> (\<exists>row \<in> set (db_shares (en_db e)). prefix (share_segs (en_cfg e) row) q \<and>
     (\<exists>p segs. virtualSegments p = shr_name row # segs \<and> can_write (en_db e) (en_user e) p))"

definition confined :: "file_env \<Rightarrow> fs \<Rightarrow> fs \<Rightarrow> bool" where
  "confined e f g \<longleftrightarrow> fs_ok g \<and> changes_in {q. writable_share e q} f g"

lemma confined_refl: "fs_ok f \<Longrightarrow> confined e f f"
  by (simp add: confined_def)

lemma confined_io:
  assumes "fs_ok f" and "\<And>g. res = Some g \<Longrightarrow> confined e f g"
  shows "confined e f (snd (or_io_error res f ans))"
  using assms by (cases res) (auto simp: or_io_error_def confined_refl)

lemma confinedI: "fs_ok g \<Longrightarrow> changes_in (below p) f g \<Longrightarrow> below p \<subseteq> {q. writable_share e q} \<Longrightarrow> confined e f g"
  by (auto simp: confined_def intro: changes_mono)

lemma confined_trans: "confined e f g \<Longrightarrow> confined e g h \<Longrightarrow> confined e f h"
  by (auto simp: confined_def intro: changes_trans)

lemma can_write_normalize [simp]: "can_write d u (normalizeVirtual p) \<longleftrightarrow> can_write d u p"
  by (simp add: can_write_def pathAccess_eq)

lemma can_read_normalize [simp]: "can_read d u (normalizeVirtual p) \<longleftrightarrow> can_read d u p"
  by (simp add: can_read_def pathAccess_eq)

lemma isShareRoot_normalize [simp]: "isShareRoot (normalizeVirtual p) \<longleftrightarrow> isShareRoot p"
  by (simp add: isShareRoot_def)

lemma writable_below:
  assumes "row \<in> set (db_shares (en_db e))" and "virtualSegments p = shr_name row # segs"
    and "can_write (en_db e) (en_user e) p" and "prefix (share_segs (en_cfg e) row) ds"
  shows "below ds \<subseteq> {q. writable_share e q}"
  using assms by (auto simp: writable_share_def below_def dest: prefix_order.trans)

text \<open>One call on a path that lies below a folder the user may write to.\<close>

lemma confined_child:
  assumes "fs_ok f" and "plain ds" and "below ds \<subseteq> {q. writable_share e q}" and "plain_segment n"
  shows "mkdir (path_join (abs_path ds) n) f = Some g \<Longrightarrow> confined e f g"
    and "writeFile (path_join (abs_path ds) n) c f = Some g \<Longrightarrow> confined e f g"
    and "confined e f (rm_recursive (path_join (abs_path ds) n) f)"
proof -
  have seg: "segs_of (path_join (abs_path ds) n) = ds @ [n]" by (rule path_join_plain(2) [OF assms(2,4)])
  have sub: "below (ds @ [n]) \<subseteq> {q. writable_share e q}" "{ds @ [n]} \<subseteq> {q. writable_share e q}"
    using assms(3) append_prefixD unfolding below_def by blast+
  show "mkdir (path_join (abs_path ds) n) f = Some g \<Longrightarrow> confined e f g"
    using mkdir_changes mkdir_ok [OF assms(1)] sub(2) unfolding confined_def by (metis changes_mono seg)
  show "writeFile (path_join (abs_path ds) n) c f = Some g \<Longrightarrow> confined e f g"
    using writeFile_changes writeFile_ok [OF assms(1)] sub(2) unfolding confined_def by (metis changes_mono seg)
  show "confined e f (rm_recursive (path_join (abs_path ds) n) f)"
    by (rule confinedI [OF rm_ok [OF assms(1)] rm_changes]) (use seg sub(1) in simp_all)
qed

lemma writable_dir:
  assumes "roots_apart (en_cfg e) (en_db e)" and "can_write (en_db e) (en_user e) p"
    and "resolveSafe (en_cfg e) (en_db e) p = Inr real"
  obtains ds where "real = abs_path ds" and "plain ds" and "below ds \<subseteq> {q. writable_share e q}" and "ds \<noteq> []"
proof -
  from resolved [OF assms(1,3)] obtain row segs where s: "row \<in> set (db_shares (en_db e))"
    "virtualSegments p = shr_name row # segs" "real = abs_path (share_segs (en_cfg e) row @ segs)"
    "plain (share_segs (en_cfg e) row @ segs)" "share_segs (en_cfg e) row \<noteq> []" by metis
  show thesis by (rule that [OF s(3,4) writable_below [OF s(1,2) assms(2)]]) (use s(5) in auto)
qed

lemma validateName_segment: "validateName n = Inr t \<Longrightarrow> plain_segment t"
  using validateName_plain by blast

lemma mkdir_confined:
  assumes "fs_ok f" and "roots_apart (en_cfg e) (en_db e)"
  shows "confined e f (snd (postMkdir (en_cfg e) (en_db e) (en_user e) p n f))"
proof -
  have "confined e f (snd (or_io_error (mkdir (path_join real nm) f) f ans))"
    if "can_write (en_db e) (en_user e) p" "validateName n = Inr nm" "resolveSafe (en_cfg e) (en_db e) p = Inr real"
    for nm real and ans :: "fs \<Rightarrow> string reply"
    using writable_dir [OF assms(2) that(1,3)] confined_io [OF assms(1)]
      confined_child(1) [OF assms(1) _ _ validateName_segment [OF that(2)]] by metis
  then show ?thesis by (auto simp: postMkdir_def Let_def confined_refl assms(1) split: sum.splits)
qed

lemma write_confined:
  assumes "fs_ok f" and "roots_apart (en_cfg e) (en_db e)"
  shows "confined e f (snd (putWrite (en_cfg e) (en_db e) (en_user e) p c f))"
proof -
  have "confined e f g"
    if "can_write (en_db e) (en_user e) p" "resolveSafe (en_cfg e) (en_db e) (normalizeVirtual p) = Inr real"
      "writeFile real c f = Some g" for real g
  proof -
    from that(1) have "can_write (en_db e) (en_user e) (normalizeVirtual p)" by simp
    from writable_dir [OF assms(2) this that(2)] obtain ds where ds: "real = abs_path ds" "plain ds"
      "below ds \<subseteq> {q. writable_share e q}" by metis
    have "changes_in (below ds) f g"
      using writeFile_changes [OF that(3)] ds(1,2) by (auto simp: below_def intro: changes_mono)
    then show ?thesis by (rule confinedI [OF writeFile_ok [OF assms(1) that(3)] _ ds(3)])
  qed
  then show ?thesis
    by (auto simp: putWrite_def Let_def confined_refl assms(1) split: sum.splits intro!: confined_io)
qed

lemma upload_parts_confined:
  assumes "plain ds" and "below ds \<subseteq> {q. writable_share e q}"
  shows "fs_ok f \<Longrightarrow> confined e f (snd (upload_parts cfg d (abs_path ds) ps saved f))"
proof (induction ps arbitrary: saved f)
  case (Cons part ps)
  have "confined e f g \<and> confined e f (rm_recursive (path_join (abs_path ds) nm) g) \<and>
      confined e f (snd (upload_parts cfg d (abs_path ds) ps saved' g))"
    if "validateName n = Inr nm" "writeFile (path_join (abs_path ds) nm) c f = Some g" for n nm c g saved'
  proof -
    note child = confined_child [OF _ assms validateName_segment [OF that(1)]]
    have g: "confined e f g" by (rule child(2) [OF Cons.prems that(2)])
    then have "fs_ok g" by (simp add: confined_def)
    then show ?thesis using g child(3) Cons.IH confined_trans by blast
  qed
  then show ?case by (auto simp: Let_def confined_refl Cons.prems split: sum.splits option.splits)
qed (simp add: confined_refl)

lemma upload_confined:
  assumes "fs_ok f" and "roots_apart (en_cfg e) (en_db e)"
  shows "confined e f (snd (postUpload (en_cfg e) (en_db e) (en_user e) q parts f))"
proof -
  have "confined e f (snd (upload_parts (en_cfg e) (en_db e) real parts [] f))"
    if "can_write (en_db e) (en_user e) (or_root q)" "resolveSafe (en_cfg e) (en_db e) (or_root q) = Inr real" for real
    using writable_dir [OF assms(2) that] upload_parts_confined assms(1) by metis
  then show ?thesis by (auto simp: postUpload_def Let_def confined_refl assms(1) split: sum.splits)
qed

lemma compress_confined:
  assumes "fs_ok f" and "roots_apart (en_cfg e) (en_db e)"
  shows "confined e f (snd (postCompress z (en_cfg e) (en_db e) (en_user e) dir names n f))"
proof -
  have "confined e f (snd (or_io_error (writeFile (path_join real nm) c f) f ans))"
    if "can_write (en_db e) (en_user e) dir" "validateName n' = Inr nm" "resolveSafe (en_cfg e) (en_db e) dir = Inr real"
    for n' nm real c and ans :: "fs \<Rightarrow> string reply"
    using writable_dir [OF assms(2) that(1,3)] confined_io [OF assms(1)]
      confined_child(2) [OF assms(1) _ _ validateName_segment [OF that(2)]] by metis
  then show ?thesis by (auto simp: postCompress_def Let_def confined_refl assms(1) split: sum.splits option.splits)
qed

lemma rename_confined:
  assumes "fs_ok f" and "roots_apart (en_cfg e) (en_db e)"
  shows "confined e f (snd (postRename (en_cfg e) (en_db e) (en_user e) p n f))"
proof -
  have "confined e f g"
    if w: "can_write (en_db e) (en_user e) p" and n: "validateName n = Inr nm" and root: "\<not> isShareRoot p"
      and r: "resolveSafe (en_cfg e) (en_db e) p = Inr real" and run: "rename real (path_join (dirname real) nm) f = Some g"
    for nm real g
  proof -
    from resolved [OF assms(2) r] obtain row segs where s: "row \<in> set (db_shares (en_db e))"
      "virtualSegments p = shr_name row # segs" "real = abs_path (share_segs (en_cfg e) row @ segs)"
      "plain (share_segs (en_cfg e) row @ segs)" by metis
    let ?ds = "share_segs (en_cfg e) row @ butlast segs"
    have "segs \<noteq> []" using root s(2) by (auto simp: isShareRoot_def)
    then have up: "butlast (share_segs (en_cfg e) row @ segs) = ?ds" by (simp add: butlast_append)
    have plain: "plain ?ds" using s(4) by (auto dest: in_set_butlastD)
    have "dirname real = abs_path ?ds" using s(3) dirname_abs [OF s(4)] up by simp
    then have to: "segs_of (path_join (dirname real) nm) = ?ds @ [nm]"
      using path_join_plain(2) [OF plain validateName_segment [OF n]] by simp
    have from_ds: "prefix ?ds (segs_of real)" using s(3,4) up prefixeq_butlast by (metis segs_of_abs)
    have "changes_in (below ?ds) f g"
      by (rule changes_mono [OF rename_changes [OF run]])
        (use to from_ds in \<open>auto simp: below_def prefix_def\<close>)
    then show ?thesis by (rule confinedI [OF rename_ok [OF assms(1) run] _ writable_below [OF s(1,2) w]]) simp
  qed
  then show ?thesis
    by (auto simp: postRename_def Let_def confined_refl assms(1) split: sum.splits intro!: confined_io)
qed

text \<open>The names that copies and extracted folders get are plain segments again.\<close>

lemma js_nat_no_slash: "slash \<notin> set (js_nat n)"
proof
  assume "slash \<in> set (js_nat n)"
  then have "is_digit slash" using js_nat_digits [of n] by (simp add: list_all_iff)
  then show False by (simp add: is_digit_def code_unit_def)
qed

lemma set_extname: "set (extname name) \<subseteq> insert (CHR ''.'') (set name)"
  by (auto simp: extname_def dest: set_takeWhileD)

lemma set_stem: "set (take n name) \<subseteq> set name"
  by (rule set_take_subset)

lemma uniqueName_plain:
  assumes "slash \<notin> set name"
  shows "\<exists>n. uniqueName f now dir name = path_join dir n \<and> plain_segment n"
proof -
  let ?ext = "extname name"
  have parts: "slash \<notin> set ?ext" "slash \<notin> set (if ?ext \<noteq> '''' then take (length name - length ?ext) name else name)"
    using assms set_extname [of name] set_stem [of _ name] by auto
  have name: "plain_segment (stem @ '' (copy'' @ t @ ext)" if "slash \<notin> set stem" "slash \<notin> set ext" "slash \<notin> set t" for stem t ext :: string
    using that by (auto simp: plain_segment_def append_eq_Cons_conv)
  have suffix: "\<exists>t. js_copy_suffix i = '' (copy'' @ t \<and> slash \<notin> set t" for i
    using js_nat_no_slash by (auto simp: js_copy_suffix_def)
  show ?thesis
  proof (cases "find (\<lambda>i. \<not> file_exists f (path_join dir
      ((if ?ext \<noteq> '''' then take (length name - length ?ext) name else name) @ js_copy_suffix i @ ?ext))) [1..<1000]")
    case None
    then show ?thesis
      using name [OF parts(2,1), of "'' '' @ js_nat (nat now) @ '')''"] js_nat_no_slash by (auto simp: uniqueName_def Let_def)
  next
    case (Some i)
    obtain t where "js_copy_suffix i = '' (copy'' @ t" "slash \<notin> set t" using suffix by blast
    then show ?thesis using name [OF parts(2,1), of t] Some by (auto simp: uniqueName_def Let_def)
  qed
qed

text \<open>What \<open>planTransfer\<close> hands to the copy or the move.\<close>

lemma planTransfer_Sent:
  assumes "roots_apart (en_cfg e) (en_db e)"
    and "planTransfer (en_cfg e) (en_db e) (en_user e) now uniquify p t f = Sent (src, dest)"
  obtains ds n where "can_write (en_db e) (en_user e) t" and "resolveSafe (en_cfg e) (en_db e) (normalizeVirtual t) = Inr (abs_path ds)"
    and "plain ds" and "below ds \<subseteq> {q. writable_share e q}" and "fs_get f ds = Some DirNode"
    and "dest = path_join (abs_path ds) n" and "plain_segment n"
    and "can_read (en_db e) (en_user e) p" and "\<not> isShareRoot p"
    and "resolveSafe (en_cfg e) (en_db e) (normalizeVirtual p) = Inr src"
proof -
  have guards: "can_write (en_db e) (en_user e) t" "can_read (en_db e) (en_user e) p" "\<not> isShareRoot p"
    using assms(2) by (auto simp: planTransfer_def Let_def split: if_splits)
  obtain destDir where r: "resolveSafe (en_cfg e) (en_db e) (normalizeVirtual p) = Inr src"
      "resolveSafe (en_cfg e) (en_db e) (normalizeVirtual t) = Inr destDir" "lstat f destDir = Some DirNode"
    and d: "dest = path_join destDir (basename src) \<or> dest = uniqueName f now destDir (basename src)"
    using assms(2) guards by (auto simp: planTransfer_def Let_def split: if_splits sum.splits)
  have "can_write (en_db e) (en_user e) (normalizeVirtual t)" using guards(1) by simp
  from writable_dir [OF assms(1) this r(2)] obtain ds where ds: "destDir = abs_path ds" "plain ds" "below ds \<subseteq> {q. writable_share e q}"
    by metis
  from resolved [OF assms(1) r(1)] obtain ss where ss: "src = abs_path ss" "plain ss" "ss \<noteq> []" by (metis append_is_Nil_conv)
  then have seg: "plain_segment (basename src)" by simp
  have "\<exists>n. dest = path_join destDir n \<and> plain_segment n"
    using d seg uniqueName_plain [of "basename src"] by (auto simp: plain_segment_def)
  then obtain n where "dest = path_join (abs_path ds) n" "plain_segment n" using ds(1) by blast
  with guards r ds show thesis by (intro that [of ds n]) (simp_all add: lstat_def)
qed

lemma copy_confined:
  assumes "fs_ok f" and "roots_apart (en_cfg e) (en_db e)"
  shows "confined e f (snd (postCopy (en_cfg e) (en_db e) (en_user e) now p t f))"
proof -
  have "confined e f g"
    if plan: "planTransfer (en_cfg e) (en_db e) (en_user e) now True p t f = Sent (src, dest)"
      and run: "cp_recursive src dest f = Some g" for src dest g
  proof -
    from planTransfer_Sent [OF assms(2) plan] obtain ds n where d: "plain ds" "below ds \<subseteq> {q. writable_share e q}"
      "fs_get f ds = Some DirNode" "dest = path_join (abs_path ds) n" "plain_segment n" by metis
    have seg: "segs_of dest = ds @ [n]" using path_join_plain(2) [OF d(1,5)] d(4) by simp
    then have "changes_in (below ds) f g"
      using cp_changes [OF _ assms(1) run] d(3) by (auto simp: below_def dest: append_prefixD intro: changes_mono)
    then show ?thesis by (rule confinedI [OF cp_ok [OF assms(1) run] _ d(2)])
  qed
  then show ?thesis
    by (auto simp: postCopy_def confined_refl assms(1) split: reply.splits intro!: confined_io)
qed

subsection \<open>Extracting into a new folder\<close>

lemma dir_candidate_plain:
  assumes "plain ps" and "slash \<notin> set name" and "i \<noteq> 1 \<or> plain_segment name"
  shows "\<exists>n. plain_segment n \<and> dir_candidate (abs_path ps) name i = abs_path (ps @ [n])"
proof -
  let ?n = "if i = 1 then name else name @ '' ('' @ js_nat i @ '')''"
  have "plain_segment ?n" using assms(2,3) js_nat_no_slash by (auto simp: plain_segment_def append_eq_Cons_conv)
  then show ?thesis using path_join_plain(1) [OF assms(1)] unfolding dir_candidate_def by blast
qed

text \<open>
  A name that is only dots would lead elsewhere, but there \<open>uniqueDir\<close> finds something
  already, and goes on to \<open>.. (2)\<close>.
\<close>

lemma norm_one:
  assumes "plain xs"
  shows "norm_segments False (rev xs) [l] =
    (if l = '''' \<or> l = ''.'' then xs else if l = ''..'' then butlast xs else xs @ [l])"
proof (cases xs rule: rev_cases)
  case (snoc ys y)
  then have "y \<noteq> ''..''" using assms by (simp add: plain_segment_def)
  then show ?thesis using snoc by simp
qed simp

lemma path_join_dots:
  assumes "plain ps" and "name = ''.'' \<or> name = ''..''"
  shows "segs_of (path_join (abs_path ps) name) = (if name = ''.'' then ps else butlast ps)" (is "_ = ?ss")
proof -
  have "segs_of (abs_path ps @ slash # name) = ?ss"
    unfolding segs_of_append_slash segs_of_abs [OF assms(1)] using assms(2) norm_one [OF assms(1), of name]
    by (elim disjE) (simp_all add: split_on_plain del: norm_segments.simps)
  moreover have "is_absolute (abs_path ps @ slash # name)" by (simp add: is_absolute_def abs_path_def)
  moreover have "\<not> ends_with (abs_path ps @ slash # name) ''/''" using assms(2) by (auto simp: ends_with_def)
  ultimately have "path_join (abs_path ps) name = abs_path ?ss" by (simp add: path_join_def posix_normalize_abs abs_path_def)
  moreover have "plain ?ss" using assms(1) by (auto dest: in_set_butlastD)
  ultimately show ?thesis by (simp only: segs_of_abs)
qed

lemma zip_folder_no_slash: "slash \<notin> set base \<Longrightarrow> slash \<notin> set (zip_folder base)"
  by (auto simp: zip_folder_def Let_def dest: in_set_takeD)

lemma zip_folder_not_Nil: "zip_folder base \<noteq> ''''"
  by (auto simp: zip_folder_def Let_def)

lemma uniqueDir_plain:
  assumes "fs_ok f" and "plain ps" and "fs_get f ps = Some DirNode" and "slash \<notin> set base"
    and "uniqueDir f (abs_path ps) (zip_folder base) = Some r"
  shows "\<exists>n. plain_segment n \<and> r = abs_path (ps @ [n]) \<and> \<not> file_exists f r"
proof -
  obtain i where i: "r = dir_candidate (abs_path ps) (zip_folder base) i" "\<not> file_exists f r"
    using assms(5) by (auto simp: uniqueDir_def find_Some_iff)
  have up: "fs_get f (butlast ps) = Some DirNode"
    using fs_ok_prefix [OF assms(1) prefixeq_butlast, of ps] assms(3) by (cases "butlast ps = ps") auto
  have "i \<noteq> 1 \<or> plain_segment (zip_folder base)"
  proof (rule ccontr)
    assume "\<not> (i \<noteq> 1 \<or> plain_segment (zip_folder base))"
    then have "r = path_join (abs_path ps) (zip_folder base)" "zip_folder base = ''.'' \<or> zip_folder base = ''..''"
      using i(1) zip_folder_no_slash [OF assms(4)] zip_folder_not_Nil by (auto simp: dir_candidate_def plain_segment_def)
    then have "file_exists f r" using path_join_dots [OF assms(2)] up assms(3) by (auto simp: file_exists_def lstat_def)
    then show False using i(2) by simp
  qed
  from dir_candidate_plain [OF assms(2) zip_folder_no_slash [OF assms(4)] this] i show ?thesis by metis
qed

text \<open>The path whose write permission is checked names the same share as the archive.\<close>

lemma before_last_slash_split:
  assumes "slash \<in> set p"
  obtains l where "p = before_last_slash p @ slash # l" and "slash \<notin> set l"
proof -
  have "dropWhile (\<lambda>c. c \<noteq> slash) (rev p) \<noteq> []" using assms by (auto simp: dropWhile_eq_Nil_conv)
  moreover from hd_dropWhile [OF this] have "hd (dropWhile (\<lambda>c. c \<noteq> slash) (rev p)) = slash" by simp
  ultimately have tail: "dropWhile (\<lambda>c. c \<noteq> slash) (rev p) = slash # drop 1 (dropWhile (\<lambda>c. c \<noteq> slash) (rev p))"
    by (metis One_nat_def drop0 drop_Suc list.collapse)
  let ?l = "rev (takeWhile (\<lambda>c. c \<noteq> slash) (rev p))"
  have "p = rev (takeWhile (\<lambda>c. c \<noteq> slash) (rev p) @ dropWhile (\<lambda>c. c \<noteq> slash) (rev p))" by simp
  also have "\<dots> = before_last_slash p @ slash # ?l"
    using assms by (subst tail) (simp add: before_last_slash_def)
  finally show thesis using that [of ?l] by (auto dest: set_takeWhileD)
qed

lemma parent_same_share:
  assumes "virtualSegments p = name # seg # segs" and "up = before_last_slash p"
  shows "\<exists>rest. virtualSegments (if up = '''' then ''/'' else up) = name # rest"
proof -
  have "slash \<in> set p"
  proof (rule ccontr)
    assume no: "slash \<notin> set p"
    have "length (segs_of (slash # p)) \<le> 1"
      unfolding segs_of_append_slash [of "[]", simplified] using no by (simp add: split_on_plain segs_of_def)
    then show False using assms(1) by (simp add: virtualSegments_eq)
  qed
  then obtain l where l: "p = up @ slash # l" "slash \<notin> set l" using before_last_slash_split assms(2) by metis
  have "virtualSegments p = segs_of ((slash # up) @ slash # l)" by (simp add: virtualSegments_eq l(1))
  also have "\<dots> = norm_segments False (rev (segs_of (slash # up))) [l]"
    unfolding segs_of_append_slash using l(2) by (simp add: split_on_plain)
  finally have v: "name # seg # segs = norm_segments False (rev (segs_of (slash # up))) [l]" using assms(1) by simp
  have "segs_of (slash # up) \<noteq> [] \<and> hd (segs_of (slash # up)) = name"
    using v unfolding norm_one [OF segs_of_plain]
    by (cases "segs_of (slash # up)"; cases "tl (segs_of (slash # up))") (auto split: if_splits)
  moreover then have "up \<noteq> ''''" by (auto simp: segs_of_def)
  ultimately show ?thesis by (cases "segs_of (slash # up)") (auto simp: virtualSegments_eq)
qed

lemma extract_confined:
  assumes "fs_ok f" and "roots_apart (en_cfg e) (en_db e)"
  shows "confined e f (snd (postExtract z (en_cfg e) (en_db e) (en_user e) p f))"
proof -
  let ?up = "before_last_slash p"
  let ?upv = "if ?up = '''' then ''/'' else ?up"
  have "confined e f g \<and> confined e f h \<and> confined e f (rm_recursive dest h)"
    if w: "can_write (en_db e) (en_user e) ?upv" and root: "\<not> isShareRoot p"
      and r: "resolveSafe (en_cfg e) (en_db e) p = Inr real" and regular: "lstat f real = Some (FileNode c)"
      and u: "uniqueDir f (dirname real) (zip_folder (basename real)) = Some dest"
      and mk: "mkdir_recursive dest f = Some g" and ex: "extractZip z c dest g = (res, h)" for real c dest g h res
  proof -
    from resolved [OF assms(2) r] obtain row segs where s: "row \<in> set (db_shares (en_db e))"
      "virtualSegments p = shr_name row # segs" "real = abs_path (share_segs (en_cfg e) row @ segs)"
      "plain (share_segs (en_cfg e) row @ segs)" by metis
    obtain seg segs' where segs: "segs = seg # segs'" using root s(2) by (cases segs) (auto simp: isShareRoot_def)
    let ?ps = "share_segs (en_cfg e) row @ butlast segs"
    have ps: "dirname real = abs_path ?ps" using s(3) dirname_abs [OF s(4)] segs by (simp add: butlast_append)
    have plain: "plain ?ps" using s(4) by (auto dest: in_set_butlastD)
    have base: "slash \<notin> set (basename real)"
    proof -
      have "basename real = last segs" using s(3) basename_abs [OF s(4)] segs by simp
      moreover have "last segs \<in> set segs" using segs by simp
      ultimately show ?thesis using s(4) by (auto simp: plain_segment_def)
    qed
    have "?ps @ [last segs] = segs_of real" using s(3) segs_of_abs [OF s(4)] segs by simp
    then have dir: "fs_get f ?ps = Some DirNode" using assms(1) regular unfolding fs_ok_def lstat_def by (metis option.distinct(1))
    from uniqueDir_plain [OF assms(1) plain dir base u [unfolded ps]] obtain n where
      n: "plain_segment n" "dest = abs_path (?ps @ [n])" by blast
    have plain_n: "plain (?ps @ [n])" using plain n(1) by simp
    have segs_dest: "segs_of dest = ?ps @ [n]" using n(2) segs_of_abs [OF plain_n] by simp
    have g: "grows ?ps f g" by (rule mkdir_grows [OF assms(1) dir _ mk]) (simp add: segs_dest)
    have "fs_get g (?ps @ [n]) = Some DirNode"
      using mk mkdir_steps_dirs segs_dest unfolding mkdir_recursive_def by (metis in_set_prefixes prefix_order.refl)
    then have "grows (?ps @ [n]) g h"
      using extract_loop_grows [OF plain_n] ex g n(2) grows_refl
      by (auto simp: extractZip_def grows_def split: option.splits) (metis snd_conv)+
    then have h: "fs_ok h" "changes_in (below ?ps) g h"
      unfolding grows_def using changes_up by blast+
    have rm: "fs_ok (rm_recursive dest h)" "changes_in (below ?ps) h (rm_recursive dest h)"
      using rm_ok [OF h(1), of dest] rm_changes [of dest h] changes_up unfolding segs_dest by blast+
    obtain rest where rest: "virtualSegments ?upv = shr_name row # rest"
      using parent_same_share [OF _ refl, of p "shr_name row" seg segs'] s(2) segs by blast
    note sub = writable_below [OF s(1) rest w, of ?ps, simplified]
    show ?thesis
      using confinedI [OF _ _ sub] g h rm changes_trans unfolding grows_def by metis
  qed
  then show ?thesis
    by (auto simp: postExtract_def Let_def confined_refl assms(1) split: sum.splits option.splits node.splits prod.splits extract_result.splits)
qed

text \<open>Moves keep the tree one, though they are not confined.\<close>

lemma move_ok: "fs_ok f \<Longrightarrow> fs_ok (snd (postMove cfg d u now p t f))"
  by (auto simp: postMove_def or_io_error_def intro: rename_ok split: reply.splits option.splits)

lemma step_confined:
  assumes "fs_ok f" and "roots_apart (en_cfg e) (en_db e)" and "\<forall>now p t. r \<noteq> ReqMove now p t"
  shows "confined e f (file_step e r f)"
  using assms mkdir_confined rename_confined copy_confined write_confined upload_confined compress_confined extract_confined
  by (cases r) simp_all



text \<open>A tree over the sample installation, with a note in each share.\<close>

definition sample_fs :: fs where
  "sample_fs = [([''srv'', ''files'', ''media'', ''a'', ''n''], FileNode ''hidden''), ([''srv'', ''files'', ''media'', ''a''], DirNode),
     ([''srv'', ''files'', ''media''], DirNode), ([''srv'', ''files'', ''vault'', ''n''], FileNode ''kept''),
     ([''srv'', ''files'', ''vault''], DirNode), ([''srv'', ''files''], DirNode), ([''srv''], DirNode), ([], DirNode)]"

lemma sample_fs_ok: "fs_ok sample_fs"
  by (auto simp: fs_ok_def fs_get_def sample_fs_def append_eq_Cons_conv split: if_splits)

definition sample_env :: file_env where
  "sample_env = \<lparr>en_cfg = sample_config, en_db = sample_nas, en_user = toUser sample_user,
     en_zip = (\<lambda>es. concat (map fst es)), en_unzip = (\<lambda>c. None)\<rparr>"



definition sample_ro_env :: file_env where
  "sample_ro_env = sample_env\<lparr>en_db := sample_nas\<lparr>db_share_perms := db_share_perms sample_nas @
     [\<lparr>spm_share_id = ''s2'', spm_user_id = ''u1'', spm_level = ''ro''\<rparr>]\<rparr>\<rparr>"

text \<open>
  C40. A move does not respect read-only shares: it checks that the source is readable and
  the target folder writable, so a user with read-only access to a share takes a file
  out of it, though the access check refuses the user every write in that share and a
  delete of the file would be refused.
\<close>

theorem move_empties_read_only_share:
  shows "{p. can_write (en_db sample_ro_env) (en_user sample_ro_env) p \<and> (\<exists>segs. virtualSegments p = ''vault'' # segs)} = {} \<and>
     fs_get sample_fs [''srv'', ''files'', ''vault'', ''n''] = Some (FileNode ''kept'') \<and>
     fs_get (file_step sample_ro_env (ReqMove 5 ''/vault/n'' ''/media'') sample_fs) [''srv'', ''files'', ''vault'', ''n''] = None \<and>
     fs_get (file_step sample_ro_env (ReqMove 5 ''/vault/n'' ''/media'') sample_fs) [''srv'', ''files'', ''media'', ''n''] = Some (FileNode ''kept'')"
proof (intro conjI equals0I)
  let ?ro = "en_db sample_ro_env" and ?u = "en_user sample_ro_env" and ?vault = "sample_share ''s2'' ''vault''"
  fix p
  assume p: "p \<in> {p. can_write ?ro ?u p \<and> (\<exists>segs. virtualSegments p = ''vault'' # segs)}"
  then obtain segs where v: "virtualSegments p = ''vault'' # segs" by blast
  have facts: "u_role ?u \<noteq> Admin" "getShareRowByName ?ro ''vault'' = Some ?vault" "\<not> shareHasAcls ?ro ''s2''"
    "effectiveAccessForShareId ?ro ''s2'' (shr_guest_access ?vault) (u_id ?u) = ReadOnly" "shr_id ?vault = ''s2''" by code_simp+
  have "plain segs" using plain_virtualSegments [of p] v by simp
  then have "level_at ?ro (u_id ?u) ?vault segs = ReadOnly"
    unfolding level_at_def facts(5) facts(4) Let_def using no_acls_no_change [OF facts(3)] by simp
  then show False using p v facts(1,2) by (simp add: can_write_def pathAccess_eq)
qed code_simp+

text \<open>
  An archive of a folder ignores the folder rules below it: a file the user is refused
  when it asks for it is in the archive of the folder above.
\<close>

theorem zip_ignores_folder_rules:
  shows "let u = toUser sample_user; z = (\<lambda>es. concat (map (\<lambda>(name, c). name @ '':'' @ c @ '';'') es)) in
     \<not> can_read sample_acl_db u ''/media/a/n'' \<and>
     sendFile sample_config sample_acl_db sample_fs u (Some ''/media/a/n'') None False = Refused 403 ''forbidden'' \<and>
     getZip z sample_config sample_acl_db sample_fs u (Some ''/media'') = Sent ''media/a/n:hidden;''"
proof -
  have "\<not> can_read sample_acl_db (toUser sample_user) ''/media/a/n''" by code_simp
  moreover have "sendFile sample_config sample_acl_db sample_fs (toUser sample_user) (Some ''/media/a/n'') None False = Refused 403 ''forbidden''"
    by code_simp
  moreover have "can_read sample_acl_db (toUser sample_user) (or_root (Some ''/media''))"
    "resolveSafe sample_config sample_acl_db (or_root (Some ''/media'')) = Inr ''/srv/files/media''"
    "lstat sample_fs ''/srv/files/media'' = Some DirNode"
    "addPath sample_fs ''/srv/files/media'' = [(''media/a/n'', ''hidden'')]" by code_simp+
  ultimately show ?thesis by (simp add: getZip_def buildZip_def MAX_ZIP_BYTES_def)
qed

subsection \<open>Downloads\<close>

lemma serve_range_bounds:
  assumes "0 \<le> n" and "serve_range n h = Partial a b"
  shows "0 \<le> a \<and> a \<le> b \<and> b < n"
  using assms by (auto simp: serve_range_def Let_def split: option.splits prod.splits if_splits)

text \<open>
  A download sends bytes of a file the user may read, and only those the request asked
  for: the offset and length are inside the file whatever the range header says, the
  body has the announced length, a complete answer is the whole file, and nothing is
  shown inline as HTML or SVG.
\<close>

theorem download_in_bounds:
  assumes "sendFile cfg d f u q rangeHeader inlineMode = Sent r"
  shows "\<exists>real content. can_read d u (or_root q) \<and> resolveSafe cfg d (or_root q) = Inr real \<and>
     lstat f real = Some (FileNode content) \<and> 0 \<le> sf_start r \<and> 0 \<le> sf_length r \<and>
     sf_start r + sf_length r \<le> int (length content) \<and> int (length (sf_body r)) = sf_length r \<and>
     sf_body r = take (nat (sf_length r)) (drop (nat (sf_start r)) content) \<and>
     (sf_status r = 200 \<longrightarrow> sf_body r = content) \<and>
     (sf_inline r \<longrightarrow> sf_content_type r \<noteq> ''text/html'' \<and> sf_content_type r \<noteq> ''image/svg+xml'')"
proof -
  obtain real content where r: "can_read d u (or_root q)" "resolveSafe cfg d (or_root q) = Inr real"
    "lstat f real = Some (FileNode content)"
    using assms by (auto simp: sendFile_def Let_def split: if_splits sum.splits option.splits node.splits)
  have inl: "isInlineSafe m \<Longrightarrow> (case m of None \<Rightarrow> ''application/octet-stream'' | Some m \<Rightarrow> m) \<notin> {''text/html'', ''image/svg+xml''}" for m
    by (auto simp: isInlineSafe_def split: option.splits if_splits)
  show ?thesis
  proof (cases "serve_range (int (length content)) rangeHeader")
    case Whole
    then show ?thesis using assms r inl by (auto simp: sendFile_def Let_def)
  next
    case (Partial a b)
    then show ?thesis using serve_range_bounds [OF _ Partial] assms r inl
      by (auto simp: sendFile_def Let_def)
  next
    case Unsatisfiable
    then show ?thesis using assms r by (simp add: sendFile_def Let_def)
  qed
qed

theorem download_in_bounds_witness:
  "\<exists>r. sendFile sample_config sample_nas sample_fs (toUser sample_user) (Some ''/media/a/n'') (Some ''bytes=-3'') False = Sent r \<and>
     sf_start r + sf_length r \<le> 6 \<and> sf_body r = ''den''"
proof -
  let ?run = "sendFile sample_config sample_nas sample_fs (toUser sample_user) (Some ''/media/a/n'') (Some ''bytes=-3'') False"
  obtain r where r: "?run = Sent r" "sf_body r = ''den''"
  proof -
    have "case ?run of Sent r \<Rightarrow> sf_body r = ''den'' | Refused s e \<Rightarrow> False" by code_simp
    then show thesis using that by (auto split: reply.splits)
  qed
  have "resolveSafe sample_config sample_nas (or_root (Some ''/media/a/n'')) = Inr ''/srv/files/media/a/n''"
    "lstat sample_fs ''/srv/files/media/a/n'' = Some (FileNode ''hidden'')" by code_simp+
  then have "sf_start r + sf_length r \<le> 6" using download_in_bounds [OF r(1)] by auto
  then show ?thesis using r by blast
qed

subsection \<open>Free names and lost files\<close>

text \<open>
  C39. The search for a free folder name always ends: among one more candidate than the tree
  has entries one is free, whatever names are taken, and the one it returns is free.
\<close>

theorem uniqueDir_free:
  assumes "plain ps" and "slash \<notin> set name"
  shows "\<exists>r. uniqueDir f (abs_path ps) name = Some r \<and> \<not> file_exists f r"
proof -
  let ?c = "\<lambda>i. segs_of (dir_candidate (abs_path ps) name i)" and ?I = "set [2..<length f + 3]"
  have seg: "plain_segment (name @ '' ('' @ js_nat i @ '')'')" for i
    using assms(2) js_nat_no_slash by (auto simp: plain_segment_def append_eq_Cons_conv)
  have c: "?c i = ps @ [name @ '' ('' @ js_nat i @ '')'']" if "i \<in> ?I" for i
    using that path_join_plain(2) [OF assms(1) seg [of i]] by (simp add: dir_candidate_def)
  have "inj_on ?c ?I" using c js_nat_inj by (auto intro!: inj_onI)
  then have "card (?c ` ?I) = length f + 1" by (simp add: card_image)
  moreover have "card (set (map fst f)) \<le> length f" using card_length [of "map fst f"] by simp
  ultimately have "\<not> ?c ` ?I \<subseteq> set (map fst f)" using card_mono [of "set (map fst f)" "?c ` ?I"] by auto
  then obtain i where i: "i \<in> ?I" "?c i \<notin> fst ` set f" unfolding set_map by blast
  then have "\<not> file_exists f (dir_candidate (abs_path ps) name i)"
    by (simp add: file_exists_def lstat_def fs_get_def map_of_eq_None_iff)
  then have "find (\<lambda>i. \<not> file_exists f (dir_candidate (abs_path ps) name i)) [1..<length f + 3] \<noteq> None"
    using i(1) by (auto simp: find_None_iff)
  then show ?thesis by (auto simp: uniqueDir_def find_Some_iff)
qed

theorem uniqueDir_free_witness:
  "\<exists>r. uniqueDir sample_fs (abs_path [''srv'', ''files'', ''media'']) ''a'' = Some r \<and> \<not> file_exists sample_fs r"
  by (rule uniqueDir_free) (simp_all add: plain_segment_def)

text \<open>
  An upload over the size limit destroys the file it was to replace: the part is written
  over the existing file before the limit is known to be exceeded, and the clean-up
  then removes the file, so the answer 413 means that the old content is gone.
\<close>

theorem oversized_upload_removes_old_file:
  assumes "roots_apart cfg d" and "can_write d u (or_root q)" and "resolveSafe cfg d (or_root q) = Inr (abs_path ds)"
    and "plain ds" and "fs_get f ds = Some DirNode" and "validateName (up_filename p) = Inr name" and "up_filename p \<noteq> ''''"
    and "fs_get f (ds @ [name]) = Some (FileNode old)" and "up_truncated p"
    and "resolveSafe cfg d (toVirtual cfg d (abs_path (ds @ [name]))) = Inr real"
  shows "fst (postUpload cfg d u q (p # ps) f) = Refused 413 ''too_large'' \<and>
     fs_get (snd (postUpload cfg d u q (p # ps) f)) (ds @ [name]) = None"
proof -
  note dest = path_join_plain [OF assms(4) validateName_segment [OF assms(6)]]
  have "\<exists>g. writeFile (abs_path (ds @ [name])) (up_content p) f = Some g"
    using assms(5,8) dest by (simp add: writeFile_def Let_def parent_is_dir_def)
  then show ?thesis
    using assms dest by (auto simp: postUpload_def lstat_def rm_recursive_def)
qed

theorem oversized_upload_removes_old_file_witness:
  "fs_get (snd (postUpload sample_config sample_nas (toUser sample_user) (Some ''/media/a'')
       [\<lparr>up_filename = ''n'', up_content = ''new'', up_truncated = True\<rparr>] sample_fs)) [''srv'', ''files'', ''media'', ''a'', ''n''] = None"
proof -
  let ?p = "\<lparr>up_filename = ''n'', up_content = ''new'', up_truncated = True\<rparr>"
  have "can_write sample_nas (toUser sample_user) (or_root (Some ''/media/a''))"
    "resolveSafe sample_config sample_nas (or_root (Some ''/media/a'')) = Inr (abs_path [''srv'', ''files'', ''media'', ''a''])"
    "\<forall>s \<in> set [''srv'', ''files'', ''media'', ''a'']. plain_segment s"
    "fs_get sample_fs [''srv'', ''files'', ''media'', ''a''] = Some DirNode" "validateName (up_filename ?p) = Inr ''n''"
    "up_filename ?p \<noteq> ''''" "fs_get sample_fs ([''srv'', ''files'', ''media'', ''a''] @ [''n'']) = Some (FileNode ''hidden'')"
    "up_truncated ?p"
    "resolveSafe sample_config sample_nas (toVirtual sample_config sample_nas (abs_path ([''srv'', ''files'', ''media'', ''a''] @ [''n''])))
      = Inr ''/srv/files/media/a/n''" by code_simp+
  from oversized_upload_removes_old_file [OF sample_roots_apart this, of "[]"] show ?thesis by simp
qed

end
