(* ===== verification/TrashLinks.thy ===== *)
theory TrashLinks
  imports FileProps Secrets
begin

text \<open>
  Deleting into the recycle bin and sharing by link: \<open>db/trash.ts\<close>, \<open>files/trash.ts\<close>,
  \<open>db/share-links.ts\<close>, \<open>files/public-share.ts\<close> and their routes in \<open>files/routes.ts\<close>
  of \<open>apps/api/src\<close>.  The recycle bin keeps the item in the tree, at the item's id
  below \<open>config.trashDir\<close>, and its origin in the table \<open>trash_items\<close>.
\<close>

subsection \<open>The table: \<open>db/trash.ts\<close>\<close>

record trash_item =
  ti_id :: string
  ti_original_path :: string
  ti_name :: string
  ti_is_dir :: bool
  ti_size_bytes :: int
  ti_deleted_at :: millis

definition toItem :: "trash_row \<Rightarrow> trash_item" where
  "toItem r = \<lparr>ti_id = trs_id r, ti_original_path = trs_virtual_path r, ti_name = trs_name r,
     ti_is_dir = trs_is_dir r, ti_size_bytes = trs_size_bytes r, ti_deleted_at = trs_deleted_at r\<rparr>"

definition addTrashItem ::
  "string \<Rightarrow> string \<Rightarrow> string \<Rightarrow> string \<Rightarrow> bool \<Rightarrow> int \<Rightarrow> millis \<Rightarrow> db \<Rightarrow> sql_error + db" where
  "addTrashItem i userId virtualPath name isDir sizeBytes now d =
     map_sum id (\<lambda>t. d\<lparr>db_trash := t\<rparr>)
       (sql_insert trs_id \<lparr>trs_id = i, trs_user_id = userId, trs_virtual_path = virtualPath, trs_name = name,
          trs_is_dir = isDir, trs_size_bytes = sizeBytes, trs_deleted_at = now\<rparr> (db_trash d))"

definition listTrash :: "db \<Rightarrow> string \<Rightarrow> trash_item list" where
  "listTrash d userId = map toItem (order_desc trs_deleted_at (filter (\<lambda>r. trs_user_id r = userId) (db_trash d)))"

definition getTrashRow :: "db \<Rightarrow> string \<Rightarrow> string \<Rightarrow> trash_item option" where
  "getTrashRow d userId i = map_option toItem (sql_get (\<lambda>r. trs_id r = i \<and> trs_user_id r = userId) (db_trash d))"

definition removeTrashItem :: "string \<Rightarrow> db \<Rightarrow> db" where
  "removeTrashItem i d = d\<lparr>db_trash := sql_delete (\<lambda>r. trs_id r = i) (db_trash d)\<rparr>"

definition clearTrash :: "string \<Rightarrow> db \<Rightarrow> db" where
  "clearTrash userId d = d\<lparr>db_trash := sql_delete (\<lambda>r. trs_user_id r = userId) (db_trash d)\<rparr>"

subsection \<open>Moving between file systems: \<open>files/trash.ts\<close>\<close>

text \<open>
  \<open>rename\<close> answers \<open>EXDEV\<close> when source and target are on different file systems; which
  paths share one is the parameter \<open>same_fs\<close>.
\<close>

definition moveCrossFs :: "(string \<Rightarrow> string \<Rightarrow> bool) \<Rightarrow> string \<Rightarrow> string \<Rightarrow> fs \<Rightarrow> fs option" where
  "moveCrossFs same_fs src dest f =
     (if same_fs src dest then rename src dest f
      else map_option (rm_recursive src) (cp_recursive src dest f))"

definition trash_path :: "config \<Rightarrow> string \<Rightarrow> string" where
  "trash_path cfg i = path_join (cfg_trash_dir cfg) i"

definition moveToTrash ::
  "(string \<Rightarrow> string \<Rightarrow> bool) \<Rightarrow> config \<Rightarrow> string \<Rightarrow> millis \<Rightarrow> string \<Rightarrow> string \<Rightarrow> string \<Rightarrow> bool \<Rightarrow> int \<Rightarrow>
    db \<Rightarrow> fs \<Rightarrow> bool reply \<times> db \<times> fs" where
  "moveToTrash same_fs cfg i now userId real virtualPath isDir sizeBytes d f =
     (case moveCrossFs same_fs real (trash_path cfg i) f of
        None \<Rightarrow> (Refused 500 ''io_error'', d, f)
      | Some g \<Rightarrow>
          (case addTrashItem i userId virtualPath (basename real) isDir sizeBytes now d of
             Inl e \<Rightarrow> (Refused 500 ''db_error'', d, g)
           | Inr d' \<Rightarrow> (Sent True, d', g)))"

text \<open>\<open>item.name.match(/\.[^.]+$/)?.[0] ?? ""\<close>\<close>

definition name_ext :: "string \<Rightarrow> string" where
  "name_ext name =
     (let tail = rev (takeWhile (\<lambda>c. c \<noteq> CHR ''.'') (rev name)) in
      if CHR ''.'' \<in> set name \<and> tail \<noteq> '''' then CHR ''.'' # tail else '''')"

definition restored_candidate :: "string \<Rightarrow> string \<Rightarrow> string \<Rightarrow> nat \<Rightarrow> string" where
  "restored_candidate dir stem ext i =
     path_join dir (stem @ '' (restored'' @ (if i > 1 then '' '' @ js_nat i else '''') @ '')'' @ ext)"

text \<open>The \<open>do\<close> loop: a tree of \<open>n\<close> entries cannot take all of \<open>n + 1\<close> names.\<close>

definition restored_name :: "fs \<Rightarrow> trash_item \<Rightarrow> string \<Rightarrow> string option" where
  "restored_name f it destReal =
     (let ext = (if ti_is_dir it then '''' else name_ext (ti_name it));
          stem = (if ext \<noteq> '''' then take (length (ti_name it) - length ext) (ti_name it) else ti_name it);
          candidate = restored_candidate (dirname destReal) stem ext
      in map_option candidate (find (\<lambda>i. \<not> file_exists f (candidate i)) [1..<length f + 2]))"

definition or_same :: "fs \<Rightarrow> fs option \<Rightarrow> fs" where
  "or_same f g = (case g of None \<Rightarrow> f | Some h \<Rightarrow> h)"

definition restoreFromTrash ::
  "(string \<Rightarrow> string \<Rightarrow> bool) \<Rightarrow> config \<Rightarrow> string \<Rightarrow> string \<Rightarrow> db \<Rightarrow> fs \<Rightarrow> string reply \<times> db \<times> fs" where
  "restoreFromTrash same_fs cfg userId i d f =
     (case getTrashRow d userId i of
        None \<Rightarrow> (Refused 404 ''restore_failed'', d, f)
      | Some it \<Rightarrow>
          (let src = trash_path cfg i in
           if \<not> file_exists f src then (Refused 404 ''restore_failed'', removeTrashItem i d, f)
           else
             (case resolveSafe cfg d (ti_original_path it) of
                Inl e \<Rightarrow> (Refused 400 ''restore_failed'', d, f)
              | Inr destReal \<Rightarrow>
                  (let g = or_same f (mkdir_recursive (dirname destReal) f) in
                   case (if file_exists g destReal then restored_name g it destReal else Some destReal) of
                     None \<Rightarrow> (Refused 500 ''io_error'', d, g)
                   | Some dest \<Rightarrow>
                       (case moveCrossFs same_fs src dest g of
                          None \<Rightarrow> (Refused 500 ''io_error'', d, g)
                        | Some h \<Rightarrow> (Sent (toVirtual cfg d dest), removeTrashItem i d, h))))))"

definition purgeTrashItem :: "config \<Rightarrow> string \<Rightarrow> string \<Rightarrow> db \<Rightarrow> fs \<Rightarrow> bool \<times> db \<times> fs" where
  "purgeTrashItem cfg userId i d f =
     (case getTrashRow d userId i of
        None \<Rightarrow> (False, d, f)
      | Some it \<Rightarrow> (True, removeTrashItem i d, rm_recursive (trash_path cfg i) f))"

definition emptyTrash :: "config \<Rightarrow> string \<Rightarrow> db \<Rightarrow> fs \<Rightarrow> db \<times> fs" where
  "emptyTrash cfg userId d f =
     (clearTrash userId d, fold (\<lambda>it. rm_recursive (trash_path cfg (ti_id it))) (listTrash d userId) f)"

subsection \<open>The routes\<close>

definition deletePath ::
  "(string \<Rightarrow> string \<Rightarrow> bool) \<Rightarrow> config \<Rightarrow> string \<Rightarrow> millis \<Rightarrow> user \<Rightarrow> string option \<Rightarrow> string option \<Rightarrow>
    db \<Rightarrow> fs \<Rightarrow> bool reply \<times> db \<times> fs" where
  "deletePath same_fs cfg i now u q permanent d f =
     (let path = normalizeVirtual (case q of None \<Rightarrow> '''' | Some p \<Rightarrow> p) in
      if \<not> can_write d u path then (Refused 403 ''forbidden'', d, f)
      else if isShareRoot path then (Refused 400 ''bad_path'', d, f)
      else
        (case resolveSafe cfg d path of
           Inl e \<Rightarrow> (Refused 400 ''bad_path'', d, f)
         | Inr real \<Rightarrow>
             (case lstat f real of
                None \<Rightarrow> (Refused 404 ''not_found'', d, f)
              | Some n \<Rightarrow>
                  if permanent = Some ''1'' \<or> permanent = Some ''true'' then (Sent False, d, rm_recursive real f)
                  else moveToTrash same_fs cfg i now (u_id u) real path (n = DirNode) (int (node_size n)) d f)))"

definition restoreRoute ::
  "(string \<Rightarrow> string \<Rightarrow> bool) \<Rightarrow> config \<Rightarrow> user \<Rightarrow> string \<Rightarrow> db \<Rightarrow> fs \<Rightarrow> string reply \<times> db \<times> fs" where
  "restoreRoute same_fs cfg u i d f =
     (let denied = (case getTrashRow d (u_id u) i of
            None \<Rightarrow> False
          | Some it \<Rightarrow>
              (let up = before_last_slash (ti_original_path it)
               in \<not> can_write d u (normalizeVirtual (if up = '''' then ''/'' else up))))
      in if denied then (Refused 403 ''forbidden'', d, f) else restoreFromTrash same_fs cfg (u_id u) i d f)"

subsection \<open>Links: \<open>db/share-links.ts\<close>\<close>

record share_link =
  sl_id :: string
  sl_path :: string
  sl_name :: string
  sl_is_dir :: bool
  sl_has_password :: bool
  sl_expires_at :: "millis option"
  sl_created_at :: millis
  sl_url :: string

definition toLink :: "link_row \<Rightarrow> share_link" where
  "toLink r = \<lparr>sl_id = lnk_id r, sl_path = lnk_virtual_path r, sl_name = lnk_name r, sl_is_dir = lnk_is_dir r,
     sl_has_password = (case lnk_password_hash r of None \<Rightarrow> False | Some h \<Rightarrow> h \<noteq> ''''),
     sl_expires_at = lnk_expires_at r, sl_created_at = lnk_created_at r, sl_url = ''/s/'' @ lnk_id r\<rparr>"

definition createLink :: "link_row \<Rightarrow> db \<Rightarrow> sql_error + db" where
  "createLink r d = map_sum id (\<lambda>t. d\<lparr>db_links := t\<rparr>) (sql_insert lnk_id r (db_links d))"

definition listLinks :: "db \<Rightarrow> string \<Rightarrow> share_link list" where
  "listLinks d userId = map toLink (order_desc lnk_created_at (filter (\<lambda>r. lnk_user_id r = userId) (db_links d)))"

definition getLink :: "db \<Rightarrow> string \<Rightarrow> string \<Rightarrow> share_link option" where
  "getLink d userId i = map_option toLink (sql_get (\<lambda>r. lnk_id r = i \<and> lnk_user_id r = userId) (db_links d))"

definition removeLink :: "string \<Rightarrow> string \<Rightarrow> db \<Rightarrow> db" where
  "removeLink userId i d = d\<lparr>db_links := sql_delete (\<lambda>r. lnk_id r = i \<and> lnk_user_id r = userId) (db_links d)\<rparr>"

record public_link =
  pl_id :: string
  pl_virtual_path :: string
  pl_is_dir :: bool
  pl_password_hash :: "string option"
  pl_expires_at :: "millis option"

definition getPublicLink :: "db \<Rightarrow> string \<Rightarrow> public_link option" where
  "getPublicLink d i = map_option
     (\<lambda>r. \<lparr>pl_id = lnk_id r, pl_virtual_path = lnk_virtual_path r, pl_is_dir = lnk_is_dir r,
           pl_password_hash = lnk_password_hash r, pl_expires_at = lnk_expires_at r\<rparr>)
     (sql_get (\<lambda>r. lnk_id r = i) (db_links d))"

definition deleteLinkById :: "string \<Rightarrow> db \<Rightarrow> db" where
  "deleteLinkById i d = d\<lparr>db_links := sql_delete (\<lambda>r. lnk_id r = i) (db_links d)\<rparr>"

text \<open>The route that makes a link, on a body the schema accepts; \<open>i\<close> and \<open>salt\<close> are fresh.\<close>

definition postShareLink ::
  "crypto \<Rightarrow> config \<Rightarrow> string \<Rightarrow> string \<Rightarrow> millis \<Rightarrow> user \<Rightarrow> string \<Rightarrow> nat option \<Rightarrow> string option \<Rightarrow>
    fs \<Rightarrow> db \<Rightarrow> share_link reply \<times> db" where
  "postShareLink cr cfg i salt now u p expiresInDays password f d =
     (let path = normalizeVirtual p in
      if path = ''/'' \<or> isShareRoot path then (Refused 400 ''bad_path'', d)
      else if \<not> can_read d u path then (Refused 403 ''forbidden'', d)
      else
        (case resolveSafe cfg d path of
           Inl e \<Rightarrow> (Refused 400 ''bad_path'', d)
         | Inr real \<Rightarrow>
             (case lstat f real of
                None \<Rightarrow> (Refused 404 ''not_found'', d)
              | Some n \<Rightarrow>
                  (let expiresAt = (case expiresInDays of None \<Rightarrow> None
                         | Some days \<Rightarrow> if days > 0 then Some (now + int days * 86400000) else None);
                       row = \<lparr>lnk_id = i, lnk_user_id = u_id u, lnk_virtual_path = path, lnk_name = basename real,
                              lnk_is_dir = (n = DirNode), lnk_password_hash = map_option (hashPassword cr salt) password,
                              lnk_expires_at = expiresAt, lnk_created_at = now\<rparr>
                   in case createLink row d of
                        Inl e \<Rightarrow> (Refused 500 ''db_error'', d)
                      | Inr d' \<Rightarrow> (Sent (the (getLink d' (u_id u) i)), d')))))"

subsection \<open>The public endpoint: \<open>files/public-share.ts\<close>\<close>

text \<open>\<open>s.replace(/[&<>"]/g, ...)\<close>\<close>

definition esc :: "string \<Rightarrow> string" where
  "esc s = concat (map (\<lambda>c. if c = CHR ''&'' then ''&amp;'' else if c = CHR ''<'' then ''&lt;''
     else if c = CHR ''>'' then ''&gt;'' else if c = CHR 0x22 then ''&quot;'' else [c]) s)"

text \<open>
  A request gets a page, a file or an archive.  \<open>unsign\<close> is the cookie library's check of
  a signed value: the value when the signature is right.
\<close>

datatype public_page = NotFoundPage | ExpiredPage | PasswordPage string bool

datatype public_reply =
    Page nat public_page
  | PublicZip string string
  | PublicFile string string bool string
  | PublicError nat
  | SetCookieAndRedirect string string string nat
  | Redirect string

definition link_expired :: "public_link \<Rightarrow> millis \<Rightarrow> bool" where
  "link_expired l now = (case pl_expires_at l of None \<Rightarrow> False | Some t \<Rightarrow> t < now)"

definition password_of :: "public_link \<Rightarrow> string option" where
  "password_of l = (case pl_password_hash l of None \<Rightarrow> None | Some h \<Rightarrow> if h = '''' then None else Some h)"

definition public_content ::
  "((string \<times> string) list \<Rightarrow> string) \<Rightarrow> config \<Rightarrow> db \<Rightarrow> fs \<Rightarrow> public_link \<Rightarrow> public_reply" where
  "public_content zipSync cfg d f l =
     (case resolveSafe cfg d (pl_virtual_path l) of
        Inl e \<Rightarrow> Page 404 NotFoundPage
      | Inr real \<Rightarrow>
          (case lstat f real of
             None \<Rightarrow> Page 404 NotFoundPage
           | Some DirNode \<Rightarrow>
               (case buildZip zipSync f [real] of
                  None \<Rightarrow> PublicError 500
                | Some z \<Rightarrow> PublicZip (encode_uri_component (basename real) @ ''.zip'') z)
           | Some (FileNode content) \<Rightarrow>
               (let mime = mimeOf (basename real) in
                PublicFile (encode_uri_component (basename real))
                  (case mime of None \<Rightarrow> ''application/octet-stream'' | Some m \<Rightarrow> m) (isInlineSafe mime) content)))"

definition servePublicLink ::
  "(string \<Rightarrow> string option) \<Rightarrow> ((string \<times> string) list \<Rightarrow> string) \<Rightarrow> config \<Rightarrow> millis \<Rightarrow> string \<Rightarrow>
    (string \<Rightarrow> string option) \<Rightarrow> fs \<Rightarrow> db \<Rightarrow> public_reply \<times> db" where
  "servePublicLink unsign zipSync cfg now token cookies f d =
     (case getPublicLink d token of
        None \<Rightarrow> (Page 404 NotFoundPage, d)
      | Some link \<Rightarrow>
          if link_expired link now then (Page 410 ExpiredPage, deleteLinkById token d)
          else
            (let valid = (case cookies (''dl_'' @ token) of
                   None \<Rightarrow> False
                 | Some cookie \<Rightarrow> cookie \<noteq> '''' \<and> unsign cookie \<noteq> None)
             in if password_of link \<noteq> None \<and> \<not> valid then (Page 200 (PasswordPage (esc token) False), d)
                else (public_content zipSync cfg d f link, d)))"

definition checkPublicPassword ::
  "crypto \<Rightarrow> (string \<Rightarrow> string) \<Rightarrow> millis \<Rightarrow> string \<Rightarrow> string option \<Rightarrow> db \<Rightarrow> public_reply" where
  "checkPublicPassword cr sign now token body d =
     (case getPublicLink d token of
        None \<Rightarrow> Redirect (''/s/'' @ token)
      | Some link \<Rightarrow>
          (case password_of link of
             None \<Rightarrow> Redirect (''/s/'' @ token)
           | Some h \<Rightarrow>
               if link_expired link now then Page 410 ExpiredPage
               else
                 (let password = (case body of None \<Rightarrow> '''' | Some p \<Rightarrow> p) in
                  if \<not> verifyPassword cr password h then Page 200 (PasswordPage (esc token) True)
                  else SetCookieAndRedirect (''dl_'' @ token) (sign ''1'') (''/s/'' @ token) 3600)))"

subsection \<open>Lemmas: moving\<close>

lemma mkdir_steps_all: "(\<And>p. p \<in> set ps \<Longrightarrow> fs_get f p = Some DirNode) \<Longrightarrow> mkdir_steps ps f = Some f"
  by (induction ps) auto

lemma parents_there:
  assumes "fs_ok f" and "fs_get f p = Some DirNode"
  shows "mkdir_steps (prefixes p) f = Some f"
  using fs_ok_prefix [OF assms(1), of _ p] assms(2) by (intro mkdir_steps_all) (metis in_set_prefixes option.distinct(1))

lemma fs_ok_absent: "fs_ok f \<Longrightarrow> fs_get f p = None \<Longrightarrow> prefix p q \<Longrightarrow> fs_get f q = None"
  using fs_ok_prefix [of f p q] by (cases "p = q") (auto, metis option.exhaust)

text \<open>What a move onto a free place does, in one step or by copying and removing.\<close>

lemma moveCrossFs_get:
  assumes "fs_ok f" and "moveCrossFs same_fs s t f = Some g" and "fs_get f (segs_of t) = None"
    and "fs_get f (butlast (segs_of t)) = Some DirNode"
  shows "fs_ok g" and "fs_get f (segs_of s) \<noteq> None" and "segs_of s \<noteq> []" and "\<not> prefix (segs_of s) (segs_of t)"
    and "fs_get g q = (if prefix (segs_of t) q then fs_get f (segs_of s @ drop (length (segs_of t)) q)
       else if prefix (segs_of s) q then None else fs_get f q)"
proof -
  let ?s = "segs_of s" and ?t = "segs_of t"
  have s: "fs_get f ?s \<noteq> None \<and> ?s \<noteq> [] \<and> \<not> prefix ?s ?t"
  proof (cases "same_fs s t")
    case True
    then obtain n where "fs_get f ?s = Some n" "?s \<noteq> []" "\<not> strict_prefix ?s ?t"
      using assms(2) by (auto simp: moveCrossFs_def rename_def Let_def split: option.splits if_splits)
    then show ?thesis using assms(3) by (auto simp: strict_prefix_def)
  next
    case False
    then have "fs_get f ?s \<noteq> None" "\<not> prefix ?s ?t"
      using assms(2) by (auto simp: moveCrossFs_def cp_recursive_def Let_def split: if_splits)
    then show ?thesis by auto
  qed
  have t: "fs_get f q = None" if "prefix ?t q" for q using fs_ok_absent [OF assms(1,3) that] .
  have apart: "\<not> prefix ?s q" if "prefix ?t q" for q using t [of ?s] s that prefix_same_cases by metis
  have "fs_ok g \<and> (\<forall>q. fs_get g q = (if prefix ?t q then fs_get f (?s @ drop (length ?t) q)
       else if prefix ?s q then None else fs_get f q))"
  proof (cases "same_fs s t")
    case True
    then have run: "rename s t f = Some g" using assms(2) by (simp add: moveCrossFs_def)
    have "?s \<noteq> ?t" using s by auto
    note get = rename_get [OF run assms(3) this]
    have "fs_get g q = (if prefix ?t q then fs_get f (?s @ drop (length ?t) q)
       else if prefix ?s q then None else fs_get f q)" for q
      using get [of q] t [of q] by (cases "prefix ?t q") (simp_all split: option.splits)
    then show ?thesis using rename_ok [OF assms(1) run] by blast
  next
    case False
    then obtain h where h: "cp_recursive s t f = Some h" "g = rm_recursive s h" using assms(2) by (auto simp: moveCrossFs_def)
    have "h = fs_moved ?s ?t f @ f"
      using h(1) parents_there [OF assms(1,4)] by (simp add: cp_recursive_def Let_def split: if_splits)
    then have "fs_get g q = (if prefix ?t q then fs_get f (?s @ drop (length ?t) q)
       else if prefix ?s q then None else fs_get f q)" for q
      using h(2) t [of q] apart [of q] by (cases "prefix ?t q") (simp_all add: rm_recursive_def fs_get_append split: option.splits)
    moreover have "fs_ok g" using rm_ok [OF cp_ok [OF assms(1) h(1)]] s h(2) by simp
    ultimately show ?thesis by blast
  qed
  then show "fs_ok g" and "fs_get g q = (if prefix ?t q then fs_get f (?s @ drop (length ?t) q)
       else if prefix ?s q then None else fs_get f q)" by blast+
  show "fs_get f ?s \<noteq> None" "?s \<noteq> []" "\<not> prefix ?s ?t" using s by blast+
qed

lemma moveCrossFs_works:
  assumes "fs_ok f" and "fs_get f (segs_of s) \<noteq> None" and "segs_of s \<noteq> []" and "\<not> prefix (segs_of s) (segs_of t)"
    and "fs_get f (segs_of t) = None" and "fs_get f (butlast (segs_of t)) = Some DirNode"
  shows "\<exists>g. moveCrossFs same_fs s t f = Some g"
proof -
  have "segs_of t \<noteq> []" using assms(1,5) by (auto simp: fs_ok_def)
  then show ?thesis
    using assms parents_there [OF assms(1,6)]
    by (auto simp: moveCrossFs_def rename_def cp_recursive_def parent_is_dir_def Let_def strict_prefix_def split: option.splits)
qed

text \<open>
  Falling back from a rename to copying and removing changes nothing but the cost:
  whenever one of the two moves an item to a free place in an existing folder, the
  other does, and the two trees have the same entries with the same content.
\<close>

theorem move_across_file_systems:
  assumes "fs_ok f" and "fs_get f (segs_of dest) = None" and "fs_get f (butlast (segs_of dest)) = Some DirNode"
    and "moveCrossFs same_fs src dest f = Some g"
  shows "\<exists>h. moveCrossFs other_fs src dest f = Some h \<and> (\<forall>q. fs_get h q = fs_get g q)"
proof -
  note g = moveCrossFs_get [OF assms(1,4,2,3)]
  obtain h where h: "moveCrossFs other_fs src dest f = Some h" using moveCrossFs_works [OF assms(1) g(2-4) assms(2,3)] by blast
  with moveCrossFs_get(5) [OF assms(1) h assms(2,3)] g(5) show ?thesis by simp
qed

theorem move_across_file_systems_witness:
  "\<exists>h. moveCrossFs (\<lambda>s t. False) ''/srv/files/vault/n'' ''/srv/files/media/m'' sample_fs = Some h \<and>
     fs_get h [''srv'', ''files'', ''media'', ''m''] = Some (FileNode ''kept'')"
proof -
  let ?g = "the (moveCrossFs (\<lambda>s t. True) ''/srv/files/vault/n'' ''/srv/files/media/m'' sample_fs)"
  have "fs_get sample_fs (segs_of ''/srv/files/media/m'') = None"
    "fs_get sample_fs (butlast (segs_of ''/srv/files/media/m'')) = Some DirNode"
    "moveCrossFs (\<lambda>s t. True) ''/srv/files/vault/n'' ''/srv/files/media/m'' sample_fs = Some ?g"
    and g: "fs_get ?g [''srv'', ''files'', ''media'', ''m''] = Some (FileNode ''kept'')" by code_simp+
  from move_across_file_systems [OF sample_fs_ok this(1-3), of "\<lambda>s t. False"] g show ?thesis by auto
qed

subsection \<open>Lemmas: the recycle bin\<close>

lemma removeTrashItem_trash [simp]: "db_trash (removeTrashItem i d) = sql_delete (\<lambda>r. trs_id r = i) (db_trash d)"
  by (simp add: removeTrashItem_def)

lemma normalizeVirtual_idem: "normalizeVirtual (normalizeVirtual p) = normalizeVirtual p"
  unfolding normalizeVirtual_segments [of "normalizeVirtual p"] virtualSegments_normalize
  by (rule normalizeVirtual_segments [symmetric])

lemma resolveSafe_shares: "db_shares d' = db_shares d \<Longrightarrow> resolveSafe cfg d' p = resolveSafe cfg d p"
  by (simp only: resolveSafe_def shareBaseReal_def getShareRowByName_def)

lemma toVirtual_shares: "db_shares d' = db_shares d \<Longrightarrow> toVirtual cfg d' p = toVirtual cfg d p"
  by (simp add: toVirtual_def)

text \<open>
  C8. Deleting and restoring is a round trip: right after an item went to the recycle bin,
  restoring it brings the tree back entry for entry, empties the record, and reports
  the path it was deleted from, on one file system or across several.
\<close>

theorem delete_restore_roundtrip:
  assumes ok: "fs_ok f" and roots: "roots_apart cfg d" and fresh: "\<forall>r \<in> set (db_trash d). trs_id r \<noteq> i"
    and free: "fs_get f (segs_of (trash_path cfg i)) = None"
    and bin: "fs_get f (butlast (segs_of (trash_path cfg i))) = Some DirNode"
    and del: "deletePath same_fs cfg i now u (Some p) None d f = (Sent True, d', f')"
  shows "\<exists>d2 f2. restoreFromTrash same_fs cfg (u_id u) i d' f' = (Sent (normalizeVirtual p), d2, f2) \<and>
     db_trash d2 = db_trash d \<and> (\<forall>q. fs_get f2 q = fs_get f q)"
proof -
  let ?p = "normalizeVirtual p" and ?t = "trash_path cfg i"
  obtain real n where r: "resolveSafe cfg d ?p = Inr real" "lstat f real = Some n"
    and put: "moveToTrash same_fs cfg i now (u_id u) real ?p (n = DirNode) (int (node_size n)) d f = (Sent True, d', f')"
    using del by (auto simp: deletePath_def Let_def split: if_splits sum.splits option.splits)
  have move: "moveCrossFs same_fs real ?t f = Some f'" using put by (auto simp: moveToTrash_def split: option.splits sum.splits)
  define row where "row = \<lparr>trs_id = i, trs_user_id = u_id u, trs_virtual_path = ?p, trs_name = basename real,
      trs_is_dir = (n = DirNode), trs_size_bytes = int (node_size n), trs_deleted_at = now\<rparr>"
  have d': "d' = d\<lparr>db_trash := db_trash d @ [row]\<rparr>"
    using put move fresh by (auto simp: moveToTrash_def addTrashItem_def sql_insert_def sql_exists_iff row_def split: if_splits)
  have item: "getTrashRow d' (u_id u) i = Some (toItem row)"
    using fresh by (auto simp: getTrashRow_def d' sql_get_append row_def sql_get_None split: option.splits dest: sql_get_SomeD)
  from resolved [OF roots r(1)] have real: "real = abs_path (segs_of real)" "plain (segs_of real)" by (metis segs_of_plain, metis segs_of_plain)
  note m = moveCrossFs_get [OF ok move free bin]
  let ?s = "segs_of real" and ?ts = "segs_of ?t"
  have s: "fs_get f ?s \<noteq> None" "\<not> prefix ?ts ?s" using r(2) fs_ok_absent [OF ok free] by (auto simp: lstat_def)
  have dirn: "segs_of (dirname real) = butlast ?s" using real by (metis dirname_abs in_set_butlastD segs_of_abs)
  have "fs_get f (butlast ?s) = Some DirNode"
    using ok s(1) m(3) unfolding fs_ok_def by (metis append_butlast_last_id)
  moreover have "\<not> prefix ?ts (butlast ?s)" using s(2) prefixeq_butlast prefix_order.trans by blast
  moreover have "\<not> prefix ?s (butlast ?s)" using m(3) by (metis parent_prefix prefix_order.less_irrefl)
  ultimately have up: "fs_get f' (butlast ?s) = Some DirNode" using m(5) by simp
  have there: "fs_get f' ?ts = fs_get f ?s" using m(5) [of ?ts] by simp
  have gone: "fs_get f' ?s = None" using m(5) [of ?s] s(2) by simp
  have mk: "mkdir_recursive (dirname real) f' = Some f'"
    using parents_there [OF m(1) up] by (simp add: mkdir_recursive_def dirn)
  have "?ts \<noteq> []" using free ok by (auto simp: fs_ok_def)
  then obtain f2 where undo: "moveCrossFs same_fs ?t real f' = Some f2"
    using moveCrossFs_works [OF m(1), of ?t real same_fs] there s gone up by auto
  note b = moveCrossFs_get(5) [OF m(1) undo gone up]
  have "fs_get f2 q = fs_get f q" for q
  proof (cases "prefix ?s q")
    case True
    then show ?thesis using b [of q] m(5) [of "?ts @ drop (length ?s) q"] by (auto simp: prefix_def)
  next
    case False
    then show ?thesis using b [of q] m(5) [of q] fs_ok_absent [OF ok free, of q] by simp
  qed
  moreover have "toVirtual cfg d' real = ?p"
    using toVirtual_resolveSafe [OF roots r(1)] toVirtual_shares [of d' d] by (simp add: d' normalizeVirtual_idem)
  moreover have "db_trash (removeTrashItem i d') = db_trash d"
    using fresh by (simp add: d' row_def sql_delete_idle)
  ultimately show ?thesis
    using item there s(1) r(1) mk gone undo resolveSafe_shares [of d' d cfg] 
    by (auto simp: restoreFromTrash_def Let_def file_exists_def lstat_def or_same_def d' toItem_def row_def)
qed

definition sample_bin :: fs where
  "sample_bin = ([''srv'', ''trash''], DirNode) # sample_fs"

lemma sample_bin_ok: "fs_ok sample_bin"
  by (auto simp: fs_ok_def fs_get_def sample_bin_def sample_fs_def append_eq_Cons_conv split: if_splits)

theorem delete_restore_roundtrip_witness:
  "\<exists>d' f' d2 f2. deletePath (\<lambda>s t. False) sample_config ''x1'' 7 (toUser sample_user) (Some ''media/a/'') None sample_nas sample_bin = (Sent True, d', f') \<and>
     fs_get f' [''srv'', ''files'', ''media'', ''a'', ''n''] = None \<and>
     restoreFromTrash (\<lambda>s t. False) sample_config ''u1'' ''x1'' d' f' = (Sent ''/media/a'', d2, f2) \<and>
     fs_get f2 [''srv'', ''files'', ''media'', ''a'', ''n''] = Some (FileNode ''hidden'')"
proof -
  let ?del = "deletePath (\<lambda>s t. False) sample_config ''x1'' 7 (toUser sample_user) (Some ''media/a/'') None sample_nas sample_bin"
  have start: "fs_get sample_bin (segs_of (trash_path sample_config ''x1'')) = None"
    "fs_get sample_bin (butlast (segs_of (trash_path sample_config ''x1''))) = Some DirNode" by code_simp+
  have "case ?del of (r, d', f') \<Rightarrow> r = Sent True \<and> fs_get f' [''srv'', ''files'', ''media'', ''a'', ''n''] = None" by code_simp
  then obtain d' f' where del: "?del = (Sent True, d', f')" "fs_get f' [''srv'', ''files'', ''media'', ''a'', ''n''] = None"
    by (cases ?del) auto
  have "\<forall>r \<in> set (db_trash sample_nas). trs_id r \<noteq> ''x1''" by (simp add: sample_nas_def empty_db_def)
  from delete_restore_roundtrip [OF sample_bin_ok sample_roots_apart this start del(1)] obtain d2 f2 where
    "restoreFromTrash (\<lambda>s t. False) sample_config (u_id (toUser sample_user)) ''x1'' d' f' = (Sent (normalizeVirtual ''media/a/''), d2, f2)"
    "fs_get f2 [''srv'', ''files'', ''media'', ''a'', ''n''] = fs_get sample_bin [''srv'', ''files'', ''media'', ''a'', ''n'']" by blast
  moreover have "normalizeVirtual ''media/a/'' = ''/media/a''" "u_id (toUser sample_user) = ''u1''"
    "fs_get sample_bin [''srv'', ''files'', ''media'', ''a'', ''n''] = Some (FileNode ''hidden'')" by code_simp+
  ultimately show ?thesis using del by auto
qed

subsection \<open>Whose items\<close>

definition items_of :: "string \<Rightarrow> db \<Rightarrow> trash_row list" where
  "items_of owner d = filter (\<lambda>r. trs_user_id r = owner) (db_trash d)"

lemma remove_keeps_others:
  assumes "keyed trs_id (db_trash d)" and "getTrashRow d userId i = Some it" and "other \<noteq> userId"
  shows "items_of other (removeTrashItem i d) = items_of other d"
proof -
  obtain r where r: "r \<in> set (db_trash d)" "trs_id r = i" "trs_user_id r = userId"
    using assms(2) by (auto simp: getTrashRow_def dest: sql_get_SomeD)
  have "trs_user_id x = userId" if "x \<in> set (db_trash d)" "trs_id x = i" for x
    using keyed_unique [OF assms(1) that(1) r(1)] that(2) r by simp
  then show ?thesis using assms(3) by (auto simp: items_of_def sql_delete_def intro: filter_cong)
qed

lemma segs_of_normalize:
  assumes "is_absolute q"
  shows "segs_of (posix_normalize q) = segs_of q"
proof -
  have "segs_of (abs_path (segs_of q) @ slash # '''') = segs_of q"
    unfolding segs_of_append_slash segs_of_abs [OF segs_of_plain] using norm_one [OF segs_of_plain, of q "''''"] by simp
  then show ?thesis
    using segs_of_abs [OF segs_of_plain, of q] segs_of_abs [of "[]"]
    by (simp add: posix_normalize_abs [OF assms] abs_path_def)
qed

lemma trash_path_segs:
  assumes "is_absolute (cfg_trash_dir cfg)" and "plain_segment i"
  shows "segs_of (trash_path cfg i) = segs_of (cfg_trash_dir cfg) @ [i]"
proof -
  have "is_absolute (cfg_trash_dir cfg @ slash # i)" using assms(1) by (auto simp: is_absolute_def starts_with_iff)
  moreover have "segs_of (cfg_trash_dir cfg @ slash # i) = segs_of (cfg_trash_dir cfg) @ [i]"
    unfolding segs_of_append_slash using norm_one [OF segs_of_plain, of "cfg_trash_dir cfg" i] plain_segmentD [OF assms(2)] assms(2)
    by (simp add: plain_segment_def del: norm_segments.simps)
  ultimately show ?thesis by (simp add: trash_path_def path_join_def segs_of_normalize)
qed

lemma rm_other_item:
  assumes "is_absolute (cfg_trash_dir cfg)" and "plain_segment i" and "plain_segment j" and "i \<noteq> j"
    and "prefix (segs_of (trash_path cfg j)) q"
  shows "fs_get (rm_recursive (trash_path cfg i) f) q = fs_get f q"
proof (rule rm_frame)
  show "\<not> prefix (segs_of (trash_path cfg i)) q"
    using assms(4,5) prefix_same_cases [of _ q] unfolding trash_path_segs [OF assms(1,2)] trash_path_segs [OF assms(1,3)]
    by (metis (no_types) last_snoc length_append_singleton prefix_length_prefix prefix_order.antisym le_refl)
qed

lemma fold_keeps: "\<forall>x \<in> set xs. \<forall>g. P (h x g) = P g \<Longrightarrow> P (fold h xs f) = P f"
  by (induction xs arbitrary: f) simp_all

text \<open>
  Recycle bins are private: whatever one user restores, purges or empties, the records
  of every other user stay as they are, and purging and emptying leave the content of
  the other users' items untouched too.
\<close>

theorem bins_are_private:
  assumes "keyed trs_id (db_trash d)" and "\<forall>r \<in> set (db_trash d). plain_segment (trs_id r)"
    and "is_absolute (cfg_trash_dir cfg)" and "other \<noteq> userId"
  shows "items_of other (fst (snd (restoreFromTrash same_fs cfg userId i d f))) = items_of other d \<and>
    items_of other (fst (snd (purgeTrashItem cfg userId i d f))) = items_of other d \<and>
    items_of other (fst (emptyTrash cfg userId d f)) = items_of other d \<and>
    (\<forall>r \<in> set (items_of other d). \<forall>q. prefix (segs_of (trash_path cfg (trs_id r))) q \<longrightarrow>
       fs_get (snd (snd (purgeTrashItem cfg userId i d f))) q = fs_get f q \<and>
       fs_get (snd (emptyTrash cfg userId d f)) q = fs_get f q)"
proof (intro conjI ballI allI impI)
  note keeps = remove_keeps_others [OF assms(1) _ assms(4)]
  show "items_of other (fst (snd (restoreFromTrash same_fs cfg userId i d f))) = items_of other d"
    using keeps by (auto simp: restoreFromTrash_def Let_def split: option.splits sum.splits)
  show "items_of other (fst (snd (purgeTrashItem cfg userId i d f))) = items_of other d"
    using keeps by (auto simp: purgeTrashItem_def split: option.splits)
  show "items_of other (fst (emptyTrash cfg userId d f)) = items_of other d"
    using assms(4) by (auto simp: emptyTrash_def clearTrash_def items_of_def sql_delete_def intro: filter_cong)
  fix r q
  assume r: "r \<in> set (items_of other d)" and q: "prefix (segs_of (trash_path cfg (trs_id r))) q"
  have id: "plain_segment (trs_id x) \<and> trs_id x \<noteq> trs_id r" if "x \<in> set (db_trash d)" "trs_user_id x = userId" for x
    using keyed_unique [OF assms(1) that(1)] r that assms(2,4) by (auto simp: items_of_def)
  have keep: "fs_get (rm_recursive (trash_path cfg (trs_id x)) g) q = fs_get g q"
    if "x \<in> set (db_trash d)" "trs_user_id x = userId" for x g
    by (rule rm_other_item [OF assms(3) _ _ _ q]) (use id [OF that] r assms(2) in \<open>auto simp: items_of_def\<close>)
  show "fs_get (snd (snd (purgeTrashItem cfg userId i d f))) q = fs_get f q"
    using keep by (auto simp: purgeTrashItem_def getTrashRow_def split: option.splits dest!: sql_get_SomeD)
  have "set (listTrash d userId) = toItem ` {x \<in> set (db_trash d). trs_user_id x = userId}" by (simp add: listTrash_def)
  then have "\<forall>it \<in> set (listTrash d userId). \<forall>g. fs_get (rm_recursive (trash_path cfg (ti_id it)) g) q = fs_get g q"
    using keep by (auto simp: toItem_def)
  then have "fs_get (fold (\<lambda>it. rm_recursive (trash_path cfg (ti_id it))) (listTrash d userId) f) q = fs_get f q"
    by (rule fold_keeps)
  then show "fs_get (snd (emptyTrash cfg userId d f)) q = fs_get f q" by (simp add: emptyTrash_def)
qed

definition sample_bins :: db where
  "sample_bins = sample_nas\<lparr>db_trash :=
     [\<lparr>trs_id = ''x1'', trs_user_id = ''u1'', trs_virtual_path = ''/media/p'', trs_name = ''p'', trs_is_dir = False,
       trs_size_bytes = 1, trs_deleted_at = 5\<rparr>,
      \<lparr>trs_id = ''x2'', trs_user_id = ''a1'', trs_virtual_path = ''/media/q'', trs_name = ''q'', trs_is_dir = False,
       trs_size_bytes = 1, trs_deleted_at = 6\<rparr>]\<rparr>"

theorem bins_are_private_witness:
  "items_of ''a1'' (fst (emptyTrash sample_config ''u1'' sample_bins sample_bin)) = items_of ''a1'' sample_bins \<and>
   items_of ''u1'' (fst (emptyTrash sample_config ''u1'' sample_bins sample_bin)) = []"
proof
  have "keyed trs_id (db_trash sample_bins)" by (simp add: keyed_def sample_bins_def)
  moreover have "\<forall>r \<in> set (db_trash sample_bins). plain_segment (trs_id r)" by (simp add: sample_bins_def plain_segment_def)
  moreover have "is_absolute (cfg_trash_dir sample_config)" by code_simp
  ultimately show "items_of ''a1'' (fst (emptyTrash sample_config ''u1'' sample_bins sample_bin)) = items_of ''a1'' sample_bins"
    using bins_are_private [of sample_bins sample_config "''a1''" "''u1''" "\<lambda>s t. True" "''x1''" sample_bin] by simp
qed code_simp

subsection \<open>Links\<close>


text \<open>
  But the signature is all that is looked at: any value the server ever signed, for the
  cookie of another link or for a session, opens every link with a password when it is
  sent under that link's cookie name.
\<close>

theorem any_signed_cookie_unlocks:
  assumes "unsign (sign v) = Some v" and "sign v \<noteq> ''''"
    and "getPublicLink d token = Some l" and "\<not> link_expired l now"
  shows "servePublicLink unsign z cfg now token [''dl_'' @ token \<mapsto> sign v] f d = (public_content z cfg d f l, d)"
  using assms by (simp add: servePublicLink_def)

lemma getPublicLink_created:
  assumes "createLink row d = Inr d'"
  shows "getPublicLink d' (lnk_id row) = Some \<lparr>pl_id = lnk_id row, pl_virtual_path = lnk_virtual_path row,
      pl_is_dir = lnk_is_dir row, pl_password_hash = lnk_password_hash row, pl_expires_at = lnk_expires_at row\<rparr>"
    and "getLink d' (lnk_user_id row) (lnk_id row) = Some (toLink row)" and "db_shares d' = db_shares d"
  using assms sql_get_None [of "\<lambda>r. lnk_id r = lnk_id row" "db_links d"] sql_get_None [of "\<lambda>r. lnk_id r = lnk_id row \<and> lnk_user_id r = lnk_user_id row" "db_links d"]
  by (auto simp: createLink_def sql_insert_def sql_exists_iff getPublicLink_def getLink_def sql_get_append split: if_splits option.splits)

text \<open>
  A protected link works for who knows the password: after a user shared an item, until
  the link expires, the password the user chose is answered with a cookie, and with
  that cookie the endpoint serves the content of exactly the shared path.
\<close>

theorem link_password_opens:
  assumes "sound_scrypt cr" and "base64_text salt" and "\<forall>v. unsign (sign v) = Some v \<and> sign v \<noteq> ''''"
    and "postShareLink cr cfg i salt now u p days (Some pw) f d = (Sent link, d')"
    and "case sl_expires_at link of None \<Rightarrow> True | Some t \<Rightarrow> now' \<le> t"
  shows "\<exists>name cookie l. checkPublicPassword cr sign now' (sl_id link) (Some pw) d' =
      SetCookieAndRedirect name cookie (sl_url link) 3600 \<and>
    servePublicLink unsign z cfg now' (sl_id link) [name \<mapsto> cookie] f d' = (public_content z cfg d' f l, d') \<and>
    pl_virtual_path l = normalizeVirtual p \<and> can_read d u p"
proof -
  obtain real n row where r: "can_read d u (normalizeVirtual p)" "createLink row d = Inr d'"
    "lnk_id row = i" "lnk_user_id row = u_id u" "lnk_virtual_path row = normalizeVirtual p"
    "lnk_password_hash row = Some (hashPassword cr salt pw)" "link = the (getLink d' (u_id u) i)"
    using assms(4) by (auto simp: postShareLink_def Let_def split: if_splits sum.splits option.splits)
  have link: "link = toLink row" using r getPublicLink_created(2) [OF r(2)] by simp
  let ?l = "\<lparr>pl_id = lnk_id row, pl_virtual_path = lnk_virtual_path row, pl_is_dir = lnk_is_dir row,
      pl_password_hash = lnk_password_hash row, pl_expires_at = lnk_expires_at row\<rparr>"
  have l: "getPublicLink d' (sl_id link) = Some ?l" using getPublicLink_created(1) [OF r(2)] by (simp add: link toLink_def)
  have fresh: "\<not> link_expired ?l now'" using assms(5) by (auto simp: link link_expired_def toLink_def split: option.splits)
  have url: "sl_url link = ''/s/'' @ sl_id link" by (simp add: link toLink_def)
  have "hashPassword cr salt pw \<noteq> []" by (simp add: hashPassword_def join_Cons)
  then have pw: "password_of ?l = Some (hashPassword cr salt pw)" using r(6) by (simp add: password_of_def)
  show ?thesis
    by (rule exI [of _ "''dl_'' @ sl_id link"], rule exI [of _ "sign ''1''"], rule exI [of _ ?l])
      (use l fresh pw url verify_hash [OF assms(1,2)] assms(3) r(1,5) in \<open>simp add: checkPublicPassword_def servePublicLink_def\<close>)
qed

text \<open>A signature that works, for the witnesses: a dot in front of the value.\<close>

definition sample_sign :: "string \<Rightarrow> string" where
  "sample_sign v = CHR ''.'' # v"

definition sample_unsign :: "string \<Rightarrow> string option" where
  "sample_unsign c = (case c of [] \<Rightarrow> None | x # v \<Rightarrow> if x = CHR ''.'' then Some v else None)"

lemma sample_unsign_sign: "sample_unsign (sample_sign v) = Some v \<and> sample_sign v \<noteq> ''''"
  by (simp add: sample_sign_def sample_unsign_def)

definition sample_shared :: db where
  "sample_shared = snd (postShareLink sample_crypto sample_config ''l1'' ''A'' 0 (toUser sample_user) ''/media/a/n'' (Some 1) (Some ''pw'') sample_fs sample_nas)"

definition sample_link :: public_link where
  "sample_link = the (getPublicLink sample_shared ''l1'')"

lemma sample_link_facts:
  "getPublicLink sample_shared ''l1'' = Some sample_link" "\<not> link_expired sample_link 1000" "password_of sample_link \<noteq> None"
  "public_content (\<lambda>es. '''') sample_config sample_shared sample_fs sample_link = PublicFile ''n'' ''application/octet-stream'' False ''hidden''"
  by code_simp+

theorem any_signed_cookie_unlocks_witness:
  "servePublicLink sample_unsign (\<lambda>es. '''') sample_config 1000 ''l1'' [''dl_'' @ ''l1'' \<mapsto> sample_sign ''session-of-someone''] sample_fs sample_shared
     = (PublicFile ''n'' ''application/octet-stream'' False ''hidden'', sample_shared)"
  using any_signed_cookie_unlocks [of sample_unsign sample_sign "''session-of-someone''", OF _ _ sample_link_facts(1,2)]
    sample_unsign_sign sample_link_facts(4) by simp


theorem link_password_opens_witness:
  "\<exists>name cookie l. checkPublicPassword sample_crypto sample_sign 1000 ''l1'' (Some ''pw'') sample_shared =
      SetCookieAndRedirect name cookie ''/s/l1'' 3600 \<and>
    servePublicLink sample_unsign (\<lambda>es. '''') sample_config 1000 ''l1'' [name \<mapsto> cookie] sample_fs sample_shared
      = (public_content (\<lambda>es. '''') sample_config sample_shared sample_fs l, sample_shared) \<and>
    pl_virtual_path l = ''/media/a/n''"
proof -
  let ?run = "postShareLink sample_crypto sample_config ''l1'' ''A'' 0 (toUser sample_user) ''/media/a/n'' (Some 1) (Some ''pw'') sample_fs sample_nas"
  have "case fst ?run of Sent link \<Rightarrow> sl_id link = ''l1'' \<and> sl_url link = ''/s/l1'' \<and> sl_expires_at link = Some 86400000 | Refused s e \<Rightarrow> False"
    by code_simp
  then obtain link where run: "?run = (Sent link, sample_shared)"
    and link: "sl_id link = ''l1''" "sl_url link = ''/s/l1''" "sl_expires_at link = Some 86400000"
    by (cases ?run) (auto simp: sample_shared_def split: reply.splits)
  have norm: "normalizeVirtual ''/media/a/n'' = ''/media/a/n''" "base64_text ''A''" by code_simp+
  have "\<forall>v. sample_unsign (sample_sign v) = Some v \<and> sample_sign v \<noteq> ''''" using sample_unsign_sign by blast
  from link_password_opens [OF sample_sound_scrypt norm(2) this run, of 1000 "\<lambda>es. ''''"] show ?thesis
    using link norm by auto
qed

end
