(* ===== verification/FileSearch.thy ===== *)
theory FileSearch
  imports FileProps
begin

text \<open>
  The file search: \<open>apps/api/src/files/search.ts\<close>.  The walk is the loop of
  \<open>searchFiles\<close> with its queue, its counters and its clock; \<open>late n\<close> says whether the
  deadline has passed when the loop has gone round \<open>n\<close> times.
\<close>

record search_hit =
  sh_hit_name :: string
  sh_hit_path :: string
  sh_parent :: string
  sh_is_dir :: bool
  sh_size :: nat
  sh_mime :: "string option"

definition MAX_HITS :: nat where "MAX_HITS = 40"
definition MAX_DIRS :: nat where "MAX_DIRS = 4000"

definition SKIP_DIRS :: "string list" where
  "SKIP_DIRS = [''@eaDir'', ''.git'', ''node_modules'', ''.Trash'', ''#recycle'', ''.opennas-trash'']"

text \<open>The entries of one directory: what joins the queue and what joins the hits.\<close>

definition hit_of :: "string \<Rightarrow> string \<Rightarrow> node \<Rightarrow> search_hit" where
  "hit_of virtualDir name n =
     \<lparr>sh_hit_name = name, sh_hit_path = virtualDir @ ''/'' @ name, sh_parent = virtualDir, sh_is_dir = (n = DirNode),
      sh_size = (if n = DirNode then 0 else node_size n), sh_mime = (if n = DirNode then None else mimeOf name)\<rparr>"

fun search_entries ::
  "db \<Rightarrow> user \<Rightarrow> string \<Rightarrow> string \<Rightarrow> (string \<times> node) list \<Rightarrow> string list \<Rightarrow> search_hit list \<Rightarrow> string list \<times> search_hit list" where
  "search_entries d u needle virtualDir [] queue hits = (queue, hits)"
| "search_entries d u needle virtualDir ((name, n) # es) queue hits =
     (if starts_with name ''.'' \<and> name \<noteq> ''.'' then search_entries d u needle virtualDir es queue hits
      else if n = DirNode \<and> List.member SKIP_DIRS name then search_entries d u needle virtualDir es queue hits
      else
        (let childVirtual = virtualDir @ ''/'' @ name;
             queue' = (if n = DirNode then queue @ [childVirtual] else queue);
             hits' = (if length hits < MAX_HITS \<and> contains (js_lower name) needle \<and> (n = DirNode \<longrightarrow> can_read d u childVirtual)
                      then hits @ [hit_of virtualDir name n] else hits)
         in search_entries d u needle virtualDir es queue' hits'))"

definition dir_entries :: "fs \<Rightarrow> string \<Rightarrow> (string \<times> node) list" where
  "dir_entries f real =
     List.map_filter (\<lambda>name. map_option (Pair name) (fs_get f (segs_of real @ [name]))) (fs_children f (segs_of real))"

function search_walk ::
  "(nat \<Rightarrow> bool) \<Rightarrow> config \<Rightarrow> db \<Rightarrow> fs \<Rightarrow> user \<Rightarrow> string \<Rightarrow> nat \<Rightarrow> nat \<Rightarrow> string list \<Rightarrow> search_hit list \<Rightarrow>
    search_hit list \<times> bool" where
  "search_walk late cfg d f u needle round visited [] hits = (hits, False)"
| "search_walk late cfg d f u needle round visited (virtualDir # queue) hits =
     (if length hits \<ge> MAX_HITS \<or> visited \<ge> MAX_DIRS \<or> late round then (hits, True)
      else if \<not> can_read d u virtualDir then search_walk late cfg d f u needle (round + 1) visited queue hits
      else
        (case resolveSafe cfg d virtualDir of
           Inl e \<Rightarrow> search_walk late cfg d f u needle (round + 1) visited queue hits
         | Inr real \<Rightarrow>
             if lstat f real \<noteq> Some DirNode then search_walk late cfg d f u needle (round + 1) (visited + 1) queue hits
             else
               (let (queue', hits') = search_entries d u needle virtualDir (dir_entries f real) queue hits
                in search_walk late cfg d f u needle (round + 1) (visited + 1) queue' hits')))"
  by pat_completeness auto

text \<open>
  The loop ends whatever the clock says and however the tree grows: each round visits a
  directory, of which there are at most \<open>MAX_DIRS\<close>, or shortens the queue.
\<close>

termination
  by (relation "measures [\<lambda>(late, cfg, d, f, u, needle, round, visited, queue, hits). MAX_DIRS - visited,
                          \<lambda>(late, cfg, d, f, u, needle, round, visited, queue, hits). length queue]") auto

text \<open>The order of the hits: names that start with the needle, then shorter ones, then by name.\<close>

definition sort_hits :: "(string \<Rightarrow> string) \<Rightarrow> string \<Rightarrow> search_hit list \<Rightarrow> search_hit list" where
  "sort_hits collate needle hits =
     order_asc (\<lambda>h. if starts_with (js_lower (sh_hit_name h)) needle then 0 else 1 :: nat)
       (order_asc (\<lambda>h. length (sh_hit_name h)) (order_asc (\<lambda>h. collate (sh_hit_name h)) hits))"

definition searchFiles ::
  "(string \<Rightarrow> string) \<Rightarrow> (nat \<Rightarrow> bool) \<Rightarrow> config \<Rightarrow> db \<Rightarrow> fs \<Rightarrow> user \<Rightarrow> string \<Rightarrow> search_hit list \<times> bool" where
  "searchFiles collate late cfg d f u query =
     (let needle = js_lower (js_trim query) in
      if length needle < 2 then ([], False)
      else
        (let queue = filter (can_read d u) (map (\<lambda>name. ''/'' @ name) (accessibleShareNames collate d u));
             (hits, truncated) = search_walk late cfg d f u needle 0 0 queue []
         in (sort_hits collate needle hits, truncated \<or> length hits \<ge> MAX_HITS)))"

subsection \<open>Lemmas\<close>

text \<open>What every hit satisfies: it is there, visible, matches, and the user may see it.\<close>

definition opens :: "config \<Rightarrow> db \<Rightarrow> fs \<Rightarrow> user \<Rightarrow> string \<Rightarrow> string \<Rightarrow> bool" where
  "opens cfg d f u v real \<longleftrightarrow> can_read d u v \<and> resolveSafe cfg d v = Inr real \<and> lstat f real = Some DirNode"

definition hidden_name :: "string \<Rightarrow> bool" where
  "hidden_name name \<longleftrightarrow> starts_with name ''.'' \<and> name \<noteq> ''.''"

definition matches :: "db \<Rightarrow> user \<Rightarrow> string \<Rightarrow> string \<Rightarrow> string \<times> node \<Rightarrow> bool" where
  "matches d u needle v e = (case e of (name, n) \<Rightarrow>
     \<not> hidden_name name \<and> contains (js_lower name) needle \<and>
     (n = DirNode \<longrightarrow> name \<notin> set SKIP_DIRS \<and> can_read d u (v @ ''/'' @ name)))"

definition hit_ok :: "config \<Rightarrow> db \<Rightarrow> fs \<Rightarrow> user \<Rightarrow> string \<Rightarrow> search_hit \<Rightarrow> bool" where
  "hit_ok cfg d f u needle h \<longleftrightarrow> (\<exists>v real name n. opens cfg d f u v real \<and> (name, n) \<in> set (dir_entries f real) \<and>
     matches d u needle v (name, n) \<and> h = hit_of v name n)"

lemma search_entries_Cons:
  "search_entries d u needle v ((name, n) # es) queue hits =
     (if hidden_name name \<or> (n = DirNode \<and> name \<in> set SKIP_DIRS) then search_entries d u needle v es queue hits
      else search_entries d u needle v es (if n = DirNode then queue @ [v @ ''/'' @ name] else queue)
        (if length hits < MAX_HITS \<and> matches d u needle v (name, n) then hits @ [hit_of v name n] else hits))"
  by (auto simp: hidden_name_def matches_def Let_def)

declare search_entries.simps(2) [simp del]

lemma search_entries_sound:
  assumes "opens cfg d f u v real" and "set es \<subseteq> set (dir_entries f real)"
    and "\<forall>h \<in> set hits. hit_ok cfg d f u needle h" and "length hits \<le> MAX_HITS"
    and "search_entries d u needle v es queue hits = (queue', hits')"
  shows "length hits' \<le> MAX_HITS \<and> (\<forall>h \<in> set hits'. hit_ok cfg d f u needle h)"
  using assms(2-)
proof (induction es arbitrary: queue hits)
  case (Cons e es)
  obtain name n where e: "e = (name, n)" by fastforce
  have "hit_ok cfg d f u needle (hit_of v name n)" if "matches d u needle v (name, n)"
    using assms(1) Cons.prems(1) that unfolding hit_ok_def e by (metis list.set_intros(1) subsetD)
  note hit = this
  let ?h = "if length hits < MAX_HITS \<and> matches d u needle v (name, n) then hits @ [hit_of v name n] else hits"
  show ?case
  proof (cases "hidden_name name \<or> (n = DirNode \<and> name \<in> set SKIP_DIRS)")
    case True
    then show ?thesis using Cons by (simp add: e search_entries_Cons)
  next
    case False
    have "\<forall>h \<in> set ?h. hit_ok cfg d f u needle h" "length ?h \<le> MAX_HITS" using hit Cons.prems(2,3) by auto
    then show ?thesis using Cons.IH [of ?h] Cons.prems(1,4) False by (auto simp: e search_entries_Cons simp del: set_append)
  qed
qed simp

lemma search_entries_complete:
  assumes "search_entries d u needle v es queue hits = (queue', hits')"
  shows "set queue \<subseteq> set queue' \<and> set hits \<subseteq> set hits' \<and> length hits \<le> length hits' \<and>
    (\<forall>(name, n) \<in> set es. \<not> hidden_name name \<longrightarrow>
       (n = DirNode \<longrightarrow> name \<notin> set SKIP_DIRS \<longrightarrow> v @ ''/'' @ name \<in> set queue') \<and>
       (length hits' < MAX_HITS \<longrightarrow> matches d u needle v (name, n) \<longrightarrow> hit_of v name n \<in> set hits'))"
  using assms
proof (induction es arbitrary: queue hits)
  case (Cons e es)
  obtain name n where e: "e = (name, n)" by fastforce
  show ?case
  proof (cases "hidden_name name \<or> (n = DirNode \<and> name \<in> set SKIP_DIRS)")
    case True
    then have "search_entries d u needle v es queue hits = (queue', hits')"
      using Cons.prems by (simp add: e search_entries_Cons)
    from Cons.IH [OF this] show ?thesis using True by (auto simp: e matches_def)
  next
    case False
    let ?q = "if n = DirNode then queue @ [v @ ''/'' @ name] else queue"
    let ?h = "if length hits < MAX_HITS \<and> matches d u needle v (name, n) then hits @ [hit_of v name n] else hits"
    have "search_entries d u needle v es ?q ?h = (queue', hits')"
      using False Cons.prems by (auto simp: e search_entries_Cons)
    note IH = Cons.IH [OF this]
    have grow: "set queue \<subseteq> set ?q" "set hits \<subseteq> set ?h" "length hits \<le> length ?h" by auto
    have own: "hit_of v name n \<in> set hits'" if "matches d u needle v (name, n)" "length hits' < MAX_HITS"
    proof -
      have "length hits < MAX_HITS" using that(2) IH grow(3) by linarith
      then show ?thesis using that(1) IH by auto
    qed
    have "n = DirNode \<Longrightarrow> v @ ''/'' @ name \<in> set queue'" using IH by auto
    then show ?thesis using IH grow own unfolding e
      by (intro conjI) (blast, blast, linarith, auto)
  qed
qed simp

text \<open>Induction over the walk: the queue is empty, the walk stops, passes over a path, or enters a directory.\<close>

lemma search_walk_induct [case_names Nil stop skip visit]:
  assumes "\<And>round visited hits. P round visited [] hits"
    and "\<And>round visited v queue hits. search_walk late cfg d f u needle round visited (v # queue) hits = (hits, True) \<Longrightarrow>
      P round visited (v # queue) hits"
    and "\<And>round visited v queue hits n. \<forall>real. \<not> opens cfg d f u v real \<Longrightarrow>
      search_walk late cfg d f u needle round visited (v # queue) hits = search_walk late cfg d f u needle (round + 1) n queue hits \<Longrightarrow>
      P (round + 1) n queue hits \<Longrightarrow> P round visited (v # queue) hits"
    and "\<And>round visited v queue hits real q h. opens cfg d f u v real \<Longrightarrow>
      search_entries d u needle v (dir_entries f real) queue hits = (q, h) \<Longrightarrow>
      search_walk late cfg d f u needle round visited (v # queue) hits = search_walk late cfg d f u needle (round + 1) (visited + 1) q h \<Longrightarrow>
      P (round + 1) (visited + 1) q h \<Longrightarrow> P round visited (v # queue) hits"
  shows "P round visited queue hits"
  using assms
proof (induction late cfg d f u needle round visited queue hits rule: search_walk.induct)
  case (1 late cfg d f u needle round visited hits)
  then show ?case by blast
next
  case (2 late cfg d f u needle round visited v queue hits)
  let ?stop = "length hits \<ge> MAX_HITS \<or> visited \<ge> MAX_DIRS \<or> late round"
  consider "?stop" | "\<not> ?stop" "\<not> can_read d u v" | e where "\<not> ?stop" "can_read d u v" "resolveSafe cfg d v = Inl e"
    | real where "\<not> ?stop" "can_read d u v" "resolveSafe cfg d v = Inr real" "lstat f real \<noteq> Some DirNode"
    | real where "\<not> ?stop" "can_read d u v" "resolveSafe cfg d v = Inr real" "lstat f real = Some DirNode"
    by (cases "resolveSafe cfg d v") blast+
  then show ?case
  proof cases
    case 1
    then show ?thesis by (intro "2.prems"(2)) simp
  next
    case 2
    then show ?thesis by (intro "2.prems"(3) [OF _ _ "2.IH"(1) [OF _ _ "2.prems"]]) (simp_all add: opens_def)
  next
    case 3
    then show ?thesis by (intro "2.prems"(3) [OF _ _ "2.IH"(2) [OF _ _ _ "2.prems"]]) (simp_all add: opens_def)
  next
    case 4
    then show ?thesis by (intro "2.prems"(3) [OF _ _ "2.IH"(3) [OF _ _ _ _ "2.prems"]]) (simp_all add: opens_def)
  next
    case (5 real)
    obtain q h where e: "search_entries d u needle v (dir_entries f real) queue hits = (q, h)" by fastforce
    have "P (round + 1) (visited + 1) q h"
      by (rule "2.IH"(4) [OF 5(1) _ 5(3) _ e [symmetric] refl])
        (use 5 in simp, use 5 in simp, fact "2.prems"(1), fact "2.prems"(2), fact "2.prems"(3), fact "2.prems"(4))
    then show ?thesis using 5 e by (intro "2.prems"(4) [OF _ e]) (simp_all add: opens_def)
  qed
qed

lemma search_walk_sound:
  assumes "\<forall>h \<in> set hits. hit_ok cfg d f u needle h" and "length hits \<le> MAX_HITS"
    and "search_walk late cfg d f u needle round visited queue hits = (hits', t)"
  shows "length hits' \<le> MAX_HITS \<and> (\<forall>h \<in> set hits'. hit_ok cfg d f u needle h)"
  using assms
proof (induction round visited queue hits rule: search_walk_induct [where late = late and cfg = cfg and d = d and f = f and u = u and needle = needle])
  case (visit round visited v queue hits real q h)
  then show ?case using search_entries_sound [OF visit(1) subset_refl visit(5,6,2)] by simp
qed simp_all

text \<open>One directory leads to another that the walk will enter.\<close>

inductive leads :: "config \<Rightarrow> db \<Rightarrow> fs \<Rightarrow> user \<Rightarrow> string \<Rightarrow> string \<Rightarrow> bool" for cfg d f u where
  "opens cfg d f u v real \<Longrightarrow> (name, DirNode) \<in> set (dir_entries f real) \<Longrightarrow> \<not> hidden_name name \<Longrightarrow>
    name \<notin> set SKIP_DIRS \<Longrightarrow> leads cfg d f u v (v @ ''/'' @ name)"

inductive_cases leadsE: "leads cfg d f u v w"

lemma search_walk_complete:
  assumes "search_walk late cfg d f u needle round visited queue hits = (hits', False)"
  shows "set hits \<subseteq> set hits' \<and> length hits \<le> length hits' \<and> (length hits' < MAX_HITS \<longrightarrow>
    (\<forall>v \<in> set queue. \<forall>w real name n. (leads cfg d f u)\<^sup>*\<^sup>* v w \<longrightarrow> opens cfg d f u w real \<longrightarrow>
    (name, n) \<in> set (dir_entries f real) \<longrightarrow> matches d u needle w (name, n) \<longrightarrow> hit_of w name n \<in> set hits'))"
  using assms
proof (induction round visited queue hits rule: search_walk_induct [where late = late and cfg = cfg and d = d and f = f and u = u and needle = needle])
  case (skip round visited v queue hits n)
  then have nothing: "\<not> leads cfg d f u v w" "\<not> opens cfg d f u v real" for w real by (auto elim: leadsE)
  then have "(leads cfg d f u)\<^sup>*\<^sup>* v w \<Longrightarrow> \<not> opens cfg d f u w real" for w real by (metis converse_rtranclpE)
  then show ?case using skip by auto
next
  case (visit round visited v queue hits real q h)
  note c = search_entries_complete [OF visit(2)]
  have IH: "set h \<subseteq> set hits'" "length h \<le> length hits'" "length hits' < MAX_HITS \<Longrightarrow> x \<in> set q \<Longrightarrow>
      (leads cfg d f u)\<^sup>*\<^sup>* x w \<Longrightarrow> opens cfg d f u w r \<Longrightarrow> e \<in> set (dir_entries f r) \<Longrightarrow> matches d u needle w e \<Longrightarrow>
      hit_of w (fst e) (snd e) \<in> set hits'" for x w r e
    using visit(4,5) visit(3) by (auto simp: split_beta)
  have next_dir: "w \<in> set q" if "leads cfg d f u v w" for w
    using that c visit(1) by (auto elim!: leadsE simp: opens_def)
  have "hit_of w name n \<in> set hits'"
    if "length hits' < MAX_HITS" "x \<in> set (v # queue)" "(leads cfg d f u)\<^sup>*\<^sup>* x w" "opens cfg d f u w r"
      "(name, n) \<in> set (dir_entries f r)" "matches d u needle w (name, n)" for x w r name n
  proof (cases "x \<in> set queue")
    case True
    then show ?thesis using IH(3) [OF that(1) _ that(3-6)] c by auto
  next
    case False
    with that(2) have x: "x = v" by simp
    from that(3) show ?thesis
    proof (cases rule: converse_rtranclpE)
      case base
      then have "r = real" using that(4) visit(1) x by (simp add: opens_def)
      then have "hit_of v name n \<in> set h" using c that base x IH(2) by (auto simp: matches_def)
      then show ?thesis using IH(1) base x by auto
    next
      case (step y)
      then show ?thesis using IH(3) [OF that(1) next_dir _ that(4-6), of y] x by simp
    qed
  qed
  then show ?case using c IH(1,2) by fastforce
qed simp_all

lemma set_sort_hits [simp]: "set (sort_hits collate needle hits) = set hits"
  by (simp add: sort_hits_def)

lemma length_sort_hits [simp]: "length (sort_hits collate needle hits) = length hits"
  by (simp add: sort_hits_def)

lemma dir_entries_get: "(name, n) \<in> set (dir_entries f real) \<Longrightarrow> fs_get f (segs_of real @ [name]) = Some n"
  by (auto simp: dir_entries_def map_filter_def)

text \<open>
  C26. A search returns at most 40 hits and gives no name away: the folder of every hit is a
  directory the user may read, a folder is only a hit when the user may read it too,
  every hit exists, contains the text searched for and is not a hidden file; this
  holds whenever the deadline strikes.
\<close>

theorem search_only_readable:
  assumes "searchFiles collate late cfg d f u query = (hits, truncated)"
  shows "length hits \<le> 40 \<and> (\<forall>h \<in> set hits.
    can_read d u (sh_parent h) \<and> (sh_is_dir h \<longrightarrow> can_read d u (sh_parent h @ ''/'' @ sh_hit_name h)) \<and>
    sh_hit_path h = sh_parent h @ ''/'' @ sh_hit_name h \<and>
    contains (js_lower (sh_hit_name h)) (js_lower (js_trim query)) \<and>
    (starts_with (sh_hit_name h) ''.'' \<longrightarrow> sh_hit_name h = ''.'') \<and>
    (\<exists>real n. resolveSafe cfg d (sh_parent h) = Inr real \<and> lstat f real = Some DirNode \<and>
       fs_get f (segs_of real @ [sh_hit_name h]) = Some n \<and> sh_is_dir h = (n = DirNode)))"
proof (cases "length (js_lower (js_trim query)) < 2")
  case True
  then show ?thesis using assms by (simp add: searchFiles_def)
next
  case False
  let ?needle = "js_lower (js_trim query)"
  obtain found t where walk: "search_walk late cfg d f u ?needle 0 0
      (filter (can_read d u) (map (\<lambda>name. ''/'' @ name) (accessibleShareNames collate d u))) [] = (found, t)" by fastforce
  have "searchFiles collate late cfg d f u query = (sort_hits collate ?needle found, t \<or> length found \<ge> MAX_HITS)"
    by (simp only: searchFiles_def Let_def False if_False walk prod.case)
  then have hits: "set hits = set found" "length hits = length found" using assms by auto
  have "length found \<le> MAX_HITS \<and> (\<forall>h \<in> set found. hit_ok cfg d f u ?needle h)"
    by (rule search_walk_sound [OF _ _ walk]) simp_all
  moreover have "can_read d u (sh_parent h) \<and> (sh_is_dir h \<longrightarrow> can_read d u (sh_parent h @ ''/'' @ sh_hit_name h)) \<and>
      sh_hit_path h = sh_parent h @ ''/'' @ sh_hit_name h \<and> contains (js_lower (sh_hit_name h)) ?needle \<and>
      (starts_with (sh_hit_name h) ''.'' \<longrightarrow> sh_hit_name h = ''.'') \<and>
      (\<exists>real n. resolveSafe cfg d (sh_parent h) = Inr real \<and> lstat f real = Some DirNode \<and>
         fs_get f (segs_of real @ [sh_hit_name h]) = Some n \<and> sh_is_dir h = (n = DirNode))"
    if hit: "hit_ok cfg d f u ?needle h" for h
  proof -
    from hit obtain v real name n where o: "opens cfg d f u v real" and e: "(name, n) \<in> set (dir_entries f real)"
      and m: "matches d u ?needle v (name, n)" and h: "h = hit_of v name n" unfolding hit_ok_def by blast
    have [simp]: "sh_parent h = v" "sh_hit_name h = name" "sh_hit_path h = v @ ''/'' @ name" "sh_is_dir h = (n = DirNode)"
      by (simp_all add: h hit_of_def)
    show ?thesis using o m dir_entries_get [OF e] unfolding opens_def matches_def hidden_name_def by simp
  qed
  ultimately show ?thesis unfolding hits MAX_HITS_def by blast
qed

text \<open>
  A search that does not report truncation missed nothing: every entry with the text in
  its name, in any directory that can be reached from a share by readable folders that
  are neither hidden nor skipped, is among the hits.
\<close>

theorem search_complete:
  assumes "searchFiles collate late cfg d f u query = (hits, False)" and "2 \<le> length (js_lower (js_trim query))"
    and "share \<in> set (accessibleShareNames collate d u)" and "(leads cfg d f u)\<^sup>*\<^sup>* (''/'' @ share) w"
    and "opens cfg d f u w real" and "(name, n) \<in> set (dir_entries f real)"
    and "matches d u (js_lower (js_trim query)) w (name, n)"
  shows "hit_of w name n \<in> set hits"
proof -
  let ?needle = "js_lower (js_trim query)"
  obtain found t where walk: "search_walk late cfg d f u ?needle 0 0
      (filter (can_read d u) (map (\<lambda>name. ''/'' @ name) (accessibleShareNames collate d u))) [] = (found, t)" by fastforce
  have "\<not> length ?needle < 2" using assms(2) by simp
  then have "searchFiles collate late cfg d f u query = (sort_hits collate ?needle found, t \<or> length found \<ge> MAX_HITS)"
    by (simp only: searchFiles_def Let_def if_False walk prod.case)
  then have found: "set hits = set found" "length found < MAX_HITS" "t = False" using assms(1) by auto
  have "can_read d u (''/'' @ share)"
    using assms(4,5) by (cases rule: converse_rtranclpE) (auto elim!: leadsE simp: opens_def)
  then have "''/'' @ share \<in> set (filter (can_read d u) (map (\<lambda>name. ''/'' @ name) (accessibleShareNames collate d u)))"
    using assms(3) by simp
  then show ?thesis
    using search_walk_complete [OF walk [unfolded found(3)]] found(1,2) assms(4-7) by blast
qed

theorem search_only_readable_witness:
  "\<exists>hits. searchFiles (\<lambda>s. s) (\<lambda>n. False) sample_config sample_nas (([''srv'', ''files'', ''media'', ''Notes.md''], FileNode ''x'') # sample_fs)
      (toUser sample_user) '' note'' = (hits, False) \<and> map sh_hit_path hits = [''/media/Notes.md''] \<and>
     (\<forall>h \<in> set hits. can_read sample_nas (toUser sample_user) (sh_parent h))"
proof -
  let ?run = "searchFiles (\<lambda>s. s) (\<lambda>n. False) sample_config sample_nas (([''srv'', ''files'', ''media'', ''Notes.md''], FileNode ''x'') # sample_fs)
      (toUser sample_user) '' note''"
  obtain hits t where run: "?run = (hits, t)" by fastforce
  have "map sh_hit_path (fst ?run) = [''/media/Notes.md'']" "snd ?run = False" by code_simp+
  then show ?thesis using run search_only_readable [OF run] by auto
qed

theorem search_complete_witness:
  "\<exists>hits. searchFiles (\<lambda>s. s) (\<lambda>n. False) sample_config sample_nas (([''srv'', ''files'', ''media'', ''a'', ''Notes.md''], FileNode ''x'') # sample_fs)
      (toUser sample_user) '' note'' = (hits, False) \<and> hit_of ''/media/a'' ''Notes.md'' (FileNode ''x'') \<in> set hits"
proof -
  let ?f = "([''srv'', ''files'', ''media'', ''a'', ''Notes.md''], FileNode ''x'') # sample_fs" and ?u = "toUser sample_user"
  let ?run = "searchFiles (\<lambda>s. s) (\<lambda>n. False) sample_config sample_nas ?f ?u '' note''"
  have trunc: "snd ?run = False" by code_simp
  then obtain hits where run: "?run = (hits, False)" by (cases ?run) simp
  have root: "opens sample_config sample_nas ?f ?u ''/media'' ''/srv/files/media''"
    and sub: "opens sample_config sample_nas ?f ?u ''/media/a'' ''/srv/files/media/a''"
    unfolding opens_def by code_simp+
  have step: "(''a'', DirNode) \<in> set (dir_entries ?f ''/srv/files/media'')" "\<not> hidden_name ''a''" "''a'' \<notin> set SKIP_DIRS"
    and entry: "(''Notes.md'', FileNode ''x'') \<in> set (dir_entries ?f ''/srv/files/media/a'')"
    and share: "''media'' \<in> set (accessibleShareNames (\<lambda>s. s) sample_nas ?u)"
    and needle: "2 \<le> length (js_lower (js_trim '' note''))"
    and match: "matches sample_nas ?u (js_lower (js_trim '' note'')) ''/media/a'' (''Notes.md'', FileNode ''x'')" by code_simp+
  have "(leads sample_config sample_nas ?f ?u)\<^sup>*\<^sup>* (''/'' @ ''media'') ''/media/a''"
    using leads.intros [OF root step] by (simp add: r_into_rtranclp)
  from search_complete [OF run needle share this sub entry match] run show ?thesis by blast
qed

end
