(* ===== verification/FetchProxy.thy ===== *)
theory FetchProxy
  imports Cidr
begin

unbundle bit_operations_syntax

text \<open>
  Outbound requests on behalf of apps: \<open>apps/api/src/apps/fetch-proxy.ts\<close>.  What the
  proxy reaches is a parameter: the URL parser (\<open>new URL\<close>), the resolver (\<open>dns.lookup\<close>)
  and the remote side, the latter two with the number of the hop as argument, so that
  a name may resolve differently on the second look.  The model returns, beside the
  answer, the connections it opened.
\<close>

subsection \<open>Host patterns\<close>

definition host_label :: "string \<Rightarrow> bool" where
  "host_label l \<longleftrightarrow> l \<noteq> '''' \<and> is_alnum (hd l) \<and> is_alnum (last l) \<and> list_all (\<lambda>c. is_alnum c \<or> c = CHR ''-'') l"

definition isValidHostPattern :: "string \<Rightarrow> bool" where
  "isValidHostPattern pattern \<longleftrightarrow>
     length pattern \<le> 253 \<and>
     list_all host_label (split_on (CHR ''.'') (if starts_with pattern ''*.'' then drop 2 pattern else pattern)) \<and>
     CHR ''.'' \<in> set pattern"

definition hostMatches :: "string \<Rightarrow> string list \<Rightarrow> bool" where
  "hostMatches host patterns =
     (let target = js_lower host;
          target = (if ends_with target ''.'' then butlast target else target)
      in list_ex (\<lambda>raw. let pattern = js_lower raw in
           if starts_with pattern ''*.'' then
             (let suffix = tl pattern in ends_with target suffix \<and> length target > length suffix)
           else target = pattern) patterns)"

subsection \<open>Addresses\<close>

definition v4_part :: "string \<Rightarrow> bool" where
  "v4_part p \<longleftrightarrow> digits_between 1 3 p \<and> decimal p \<le> 255"

definition ipv4ToInt :: "string \<Rightarrow> 32 word option" where
  "ipv4ToInt ip =
     (let parts = split_on (CHR ''.'') ip in
      if length parts \<noteq> 4 \<or> \<not> list_all v4_part parts then None
      else Some (fold (\<lambda>p out. push_bit 8 out OR octet_word p) parts 0))"

definition V4_BLOCKED :: "(string \<times> nat) list" where
  "V4_BLOCKED =
     [(''0.0.0.0'', 8), (''10.0.0.0'', 8), (''100.64.0.0'', 10), (''127.0.0.0'', 8), (''169.254.0.0'', 16),
      (''172.16.0.0'', 12), (''192.0.0.0'', 24), (''192.0.2.0'', 24), (''192.168.0.0'', 16), (''198.18.0.0'', 15),
      (''198.51.100.0'', 24), (''203.0.113.0'', 24), (''224.0.0.0'', 4), (''240.0.0.0'', 4)]"

definition v4_mask :: "nat \<Rightarrow> 32 word" where
  "v4_mask bits = (if bits = 0 then 0 else push_bit (32 - bits) 0xFFFFFFFF)"

definition in_v4_range :: "32 word \<Rightarrow> string \<times> nat \<Rightarrow> bool" where
  "in_v4_range v = (\<lambda>(base, bits).
     case ipv4ToInt base of None \<Rightarrow> False | Some b \<Rightarrow> v AND v4_mask bits = b AND v4_mask bits)"

definition isPublicV4 :: "string \<Rightarrow> bool" where
  "isPublicV4 ip = (case ipv4ToInt ip of None \<Rightarrow> False | Some v \<Rightarrow> \<not> list_ex (in_v4_range v) V4_BLOCKED)"

text \<open>
  \<open>isIP\<close> of \<open>node:net\<close>: dotted quads without leading zeros; eight hexadecimal groups,
  the last two possibly as a dotted quad, with at most one double colon standing for
  the groups that are missing, and a zone after a percent sign.
\<close>

definition is_ipv4 :: "string \<Rightarrow> bool" where
  "is_ipv4 s \<longleftrightarrow> dotted_quad s \<and> list_all valid_octet (split_on (CHR ''.'') s)"

definition is_hextet :: "string \<Rightarrow> bool" where
  "is_hextet g \<longleftrightarrow> 1 \<le> length g \<and> length g \<le> 4 \<and> list_all is_hex g"

definition v6_groups :: "string \<Rightarrow> nat option" where
  "v6_groups s =
     (let ps = split_on (CHR '':'') s in
      if s = '''' then Some 0
      else if list_all is_hextet ps then Some (length ps)
      else if list_all is_hextet (butlast ps) \<and> is_ipv4 (last ps) then Some (length ps + 1)
      else None)"

definition v6_zone :: "string \<Rightarrow> bool" where
  "v6_zone z \<longleftrightarrow> z = '''' \<or> tl z \<noteq> '''' \<and> list_all (\<lambda>c. is_alnum c \<or> c \<in> set ''-.:'') (tl z)"

definition is_ipv6 :: "string \<Rightarrow> bool" where
  "is_ipv6 s =
     (let a = before (CHR ''%'') s;
          l = before_double_colon a
      in v6_zone (drop (length a) s) \<and>
         (if l = a then v6_groups a = Some 8
          else
            (case (v6_groups l, v6_groups (drop (length l + 2) a)) of
               (Some m, Some n) \<Rightarrow> CHR ''.'' \<notin> set l \<and> m + n \<le> 7
             | _ \<Rightarrow> False)))"

definition isIP :: "string \<Rightarrow> nat" where
  "isIP s = (if is_ipv4 s then 4 else if is_ipv6 s then 6 else 0)"

text \<open>\<open>parseInt(head, 16)\<close> of the hexadecimal digits before the first colon.\<close>

definition v6_digit :: "char \<Rightarrow> nat" where
  "v6_digit c = (if is_digit c then digit_value c else code_unit (ascii_lower_char c) - 87)"

definition parse_hex :: "string \<Rightarrow> 32 word" where
  "parse_hex s = of_nat (fold (\<lambda>c n. 16 * n + v6_digit c) s 0)"

text \<open>
  The dotted quad at the end of an IPv6 address can only be its last group, which
  follows a colon.
\<close>

definition isPublicAddress :: "string \<Rightarrow> bool" where
  "isPublicAddress ip =
     (if isIP ip = 4 then isPublicV4 ip
      else if isIP ip \<noteq> 6 then False
      else
        (let addr = before (CHR ''%'') (js_lower ip);
             embedded = last (split_on (CHR '':'') addr);
             group = parse_hex (before (CHR '':'') addr)
         in if dotted_quad embedded \<and>
               (starts_with addr ''::ffff:'' \<or> starts_with addr ''::'' \<or> starts_with addr ''64:ff9b:'')
            then isPublicV4 embedded
            else if addr = ''::'' \<or> addr = ''::1'' then False
            else if group AND 0xFE00 = 0xFC00 then False
            else if group AND 0xFFC0 = 0xFE80 then False
            else if group AND 0xFF00 = 0xFF00 then False
            else if group = 0x2002 then False
            else if group = 0x0100 then False
            else True))"

subsection \<open>Requests\<close>

datatype fetch_denied = MethodDenied | BodyTooLarge | BadUrl | TooManyHeaders | BadHeaderName
  | BadHeaderValue | HeaderTooLong | BadScheme | EmbeddedCredentials | HostDenied | NotPublic | Unresolved
  | ResponseTooLarge | Unreachable | TooManyRedirects | BadRedirect

text \<open>What the code reads of a \<open>URL\<close>.\<close>

record url =
  url_protocol :: string
  url_username :: string
  url_password :: string
  url_hostname :: string
  url_origin :: string
  url_text :: string

record fetch_request =
  fq_url :: string
  fq_method :: "string option"
  fq_headers :: "(string \<times> string) list"
  fq_body :: "string option"

record hop =
  hop_url :: url
  hop_method :: string
  hop_headers :: "(string \<times> string) list"
  hop_body :: "string option"

record fetch_response =
  fr_status :: nat
  fr_status_text :: string
  fr_headers :: "(string \<times> string) list"
  fr_body :: string
  fr_as_text :: bool
  fr_url :: string

record remote_response =
  rr_status :: nat
  rr_status_text :: string
  rr_headers :: "(string \<times> string list) list"
  rr_body :: string

record world =
  w_parse :: "url option \<Rightarrow> string \<Rightarrow> url option"
  w_lookup :: "nat \<Rightarrow> string \<Rightarrow> string list option"
  w_send :: "nat \<Rightarrow> hop \<Rightarrow> string \<Rightarrow> remote_response option"

definition MAX_REDIRECTS :: nat where "MAX_REDIRECTS = 3"
definition MAX_REQUEST_BODY :: nat where "MAX_REQUEST_BODY = 1024 * 1024"
definition MAX_RESPONSE_BYTES :: nat where "MAX_RESPONSE_BYTES = 5 * 1024 * 1024"
definition MAX_HEADERS :: nat where "MAX_HEADERS = 20"

definition ALLOWED_METHODS :: "string list" where
  "ALLOWED_METHODS = [''GET'', ''HEAD'', ''POST'', ''PUT'', ''PATCH'', ''DELETE'']"

definition BLOCKED_REQUEST_HEADERS :: "string list" where
  "BLOCKED_REQUEST_HEADERS =
     [''host'', ''cookie'', ''connection'', ''keep-alive'', ''transfer-encoding'', ''te'', ''trailer'',
      ''upgrade'', ''content-length'', ''expect'', ''proxy-authorization'', ''proxy-connection'']"

definition BLOCKED_RESPONSE_HEADERS :: "string list" where
  "BLOCKED_RESPONSE_HEADERS = [''set-cookie'', ''set-cookie2'', ''connection'', ''keep-alive'', ''transfer-encoding'']"

definition TEXT_TYPE :: "string \<Rightarrow> bool" where
  "TEXT_TYPE contentType =
     (let t = js_lower contentType in
      starts_with t ''text/'' \<or>
      starts_with t ''application/'' \<and>
        (let r = drop 12 t in
         starts_with r ''json'' \<or> starts_with r ''xml'' \<or> starts_with r ''javascript'' \<or>
         starts_with r ''x-www-form-urlencoded'' \<or> contains r ''+json'' \<or> contains r ''+xml''))"

definition resolvePublicAddresses :: "(string \<Rightarrow> string list option) \<Rightarrow> string \<Rightarrow> fetch_denied + string list" where
  "resolvePublicAddresses look host =
     (if isIP host \<noteq> 0 then (if isPublicAddress host then Inr [host] else Inl NotPublic)
      else
        (case look host of
           None \<Rightarrow> Inl Unresolved
         | Some answers \<Rightarrow>
             if answers = [] then Inl Unresolved
             else if list_all isPublicAddress answers then Inr answers else Inl NotPublic))"

definition header_name_char :: "char \<Rightarrow> bool" where
  "header_name_char c \<longleftrightarrow> is_digit c \<or> (97 \<le> code_unit c \<and> code_unit c \<le> 122) \<or>
     code_unit c = 39 \<or> code_unit c = 96 \<or> c \<in> set ''!#$%&*+.^_|~-''"

definition blocked_name :: "string \<Rightarrow> bool" where
  "blocked_name name \<longleftrightarrow> name \<in> set BLOCKED_REQUEST_HEADERS \<or> starts_with name ''proxy-'' \<or> starts_with name ''sec-''"

text \<open>\<open>out[name] = value\<close> on an object: an existing member keeps its place.\<close>

definition set_member :: "string \<Rightarrow> string \<Rightarrow> (string \<times> string) list \<Rightarrow> (string \<times> string) list" where
  "set_member k v ms =
     (if k \<in> fst ` set ms then map (\<lambda>(j, w). if j = k then (k, v) else (j, w)) ms else ms @ [(k, v)])"

fun sanitize_loop :: "(string \<times> string) list \<Rightarrow> (string \<times> string) list \<Rightarrow> fetch_denied + (string \<times> string) list" where
  "sanitize_loop [] out = Inr out"
| "sanitize_loop ((rawName, value) # es) out =
     (let name = js_trim (js_lower rawName) in
      if name = '''' \<or> \<not> list_all header_name_char name then Inl BadHeaderName
      else if \<not> list_all (\<lambda>c. code_unit c \<notin> {10, 13}) value then Inl BadHeaderValue
      else if blocked_name name then sanitize_loop es out
      else if length value > 4096 then Inl HeaderTooLong
      else sanitize_loop es (set_member name value out))"

definition sanitizeRequestHeaders :: "(string \<times> string) list \<Rightarrow> fetch_denied + (string \<times> string) list" where
  "sanitizeRequestHeaders entries = (if length entries > MAX_HEADERS then Inl TooManyHeaders else sanitize_loop entries [])"

text \<open>One hop to a pinned address; \<open>None\<close> of the remote side is an error or a timeout.\<close>

definition performRequest :: "(hop \<Rightarrow> string \<Rightarrow> remote_response option) \<Rightarrow> hop \<Rightarrow> string \<Rightarrow> fetch_denied + remote_response" where
  "performRequest send h address =
     (case send h address of
        None \<Rightarrow> Inl Unreachable
      | Some r \<Rightarrow> if length (rr_body r) > MAX_RESPONSE_BYTES then Inl ResponseTooLarge else Inr r)"

definition reply_headers :: "remote_response \<Rightarrow> (string \<times> string) list" where
  "reply_headers r =
     map (\<lambda>(n, vs). (n, join '', '' vs)) (filter (\<lambda>(n, vs). n \<notin> set BLOCKED_RESPONSE_HEADERS) (rr_headers r))"

definition response_of :: "hop \<Rightarrow> remote_response \<Rightarrow> fetch_response" where
  "response_of h r =
     (let headers = reply_headers r;
          contentType = (case map_of headers ''content-type'' of None \<Rightarrow> '''' | Some t \<Rightarrow> t)
      in \<lparr>fr_status = rr_status r, fr_status_text = rr_status_text r, fr_headers = headers, fr_body = rr_body r,
          fr_as_text = (TEXT_TYPE contentType \<or> contentType = ''''), fr_url = url_text (hop_url h)\<rparr>)"

definition redirect_target :: "remote_response \<Rightarrow> string option" where
  "redirect_target r =
     (if 300 \<le> rr_status r \<and> rr_status r < 400 then
        (case map_of (rr_headers r) ''location'' of
           None \<Rightarrow> None
         | Some vs \<Rightarrow> if hd (vs @ ['''']) = '''' then None else Some (hd vs))
      else None)"

definition next_hop :: "hop \<Rightarrow> nat \<Rightarrow> url \<Rightarrow> hop" where
  "next_hop h status u =
     (let drop_body = (status = 303 \<or> (status = 301 \<or> status = 302) \<and> hop_method h = ''POST'')
      in \<lparr>hop_url = u, hop_method = (if drop_body then ''GET'' else hop_method h), hop_headers = hop_headers h,
          hop_body = (if drop_body then None else hop_body h)\<rparr>)"

definition hop_check :: "string list \<Rightarrow> url \<Rightarrow> fetch_denied option" where
  "hop_check allowed u =
     (if url_protocol u \<noteq> ''https:'' \<and> url_protocol u \<noteq> ''http:'' then Some BadScheme
      else if url_username u \<noteq> '''' \<or> url_password u \<noteq> '''' then Some EmbeddedCredentials
      else if \<not> hostMatches (url_hostname u) allowed then Some HostDenied
      else None)"

text \<open>
  The loop of \<open>proxyFetch\<close>, on the number of redirects that may still be followed; the
  hop that is refused a redirect is the one with none left.
\<close>

fun proxy_loop ::
  "world \<Rightarrow> string list \<Rightarrow> nat \<Rightarrow> hop \<Rightarrow> (fetch_denied + fetch_response) \<times> (hop \<times> string) list" where
  "proxy_loop w allowed left h =
     (case hop_check allowed (hop_url h) of
        Some e \<Rightarrow> (Inl e, [])
      | None \<Rightarrow>
          (case resolvePublicAddresses (w_lookup w left) (url_hostname (hop_url h)) of
             Inl e \<Rightarrow> (Inl e, [])
           | Inr addrs \<Rightarrow>
               (case performRequest (w_send w left) h (hd addrs) of
                  Inl e \<Rightarrow> (Inl e, [(h, hd addrs)])
                | Inr r \<Rightarrow>
                    (case redirect_target r of
                       None \<Rightarrow> (Inr (response_of h r), [(h, hd addrs)])
                     | Some location \<Rightarrow>
                         (case left of
                            0 \<Rightarrow> (Inl TooManyRedirects, [(h, hd addrs)])
                          | Suc n \<Rightarrow>
                              (case w_parse w (Some (hop_url h)) location of
                                 None \<Rightarrow> (Inl BadRedirect, [(h, hd addrs)])
                               | Some u \<Rightarrow>
                                   (let (res, conns) = proxy_loop w allowed n (next_hop h (rr_status r) u)
                                    in (res, (h, hd addrs) # conns))))))))"

declare proxy_loop.simps [simp del]

definition proxyFetch ::
  "world \<Rightarrow> fetch_request \<Rightarrow> string list \<Rightarrow> (fetch_denied + fetch_response) \<times> (hop \<times> string) list" where
  "proxyFetch w q allowed =
     (let meth = js_upper (case fq_method q of None \<Rightarrow> ''GET'' | Some m \<Rightarrow> m);
          body = (if meth = ''GET'' \<or> meth = ''HEAD'' then None else fq_body q)
      in if meth \<notin> set ALLOWED_METHODS then (Inl MethodDenied, [])
         else if (case body of None \<Rightarrow> False | Some b \<Rightarrow> length (concat (map utf8_bytes b)) > MAX_REQUEST_BODY)
           then (Inl BodyTooLarge, [])
         else
           (case w_parse w None (fq_url q) of
              None \<Rightarrow> (Inl BadUrl, [])
            | Some u \<Rightarrow>
                (case sanitizeRequestHeaders (fq_headers q) of
                   Inl e \<Rightarrow> (Inl e, [])
                 | Inr hs \<Rightarrow>
                     proxy_loop w allowed MAX_REDIRECTS
                       \<lparr>hop_url = u, hop_method = meth, hop_headers = hs, hop_body = body\<rparr>)))"

subsection \<open>What a connection may be\<close>

definition clean_header :: "string \<times> string \<Rightarrow> bool" where
  "clean_header = (\<lambda>(n, v). \<not> blocked_name n \<and> list_all header_name_char n \<and>
     list_all (\<lambda>c. code_unit c \<notin> {10, 13}) v \<and> length v \<le> 4096)"

definition allowed_connection :: "string list \<Rightarrow> hop \<times> string \<Rightarrow> bool" where
  "allowed_connection allowed = (\<lambda>(h, address).
     isPublicAddress address \<and> hop_check allowed (hop_url h) = None \<and>
     hop_method h \<in> set ALLOWED_METHODS \<and> list_all clean_header (hop_headers h))"

lemma allowed_connection_pair [simp]:
  "allowed_connection allowed (h, address) \<longleftrightarrow> isPublicAddress address \<and> hop_check allowed (hop_url h) = None \<and>
     hop_method h \<in> set ALLOWED_METHODS \<and> list_all clean_header (hop_headers h)"
  by (simp add: allowed_connection_def)

lemma resolved_public:
  "resolvePublicAddresses look host = Inr addrs \<Longrightarrow>
   addrs \<noteq> [] \<and> list_all isPublicAddress addrs \<and> (addrs = [host] \<or> look host = Some addrs)"
  by (auto simp: resolvePublicAddresses_def split: if_splits option.splits)

lemma clean_set_member:
  assumes "list_all clean_header ms" and "clean_header (k, v)"
  shows "list_all clean_header (set_member k v ms)"
  using assms by (auto simp: set_member_def list_all_iff)

lemma sanitize_loop_clean:
  "sanitize_loop es out = Inr hs \<Longrightarrow> list_all clean_header out \<Longrightarrow> list_all clean_header hs"
proof (induction es out rule: sanitize_loop.induct)
  case (2 rawName v es out)
  let ?name = "js_trim (js_lower rawName)"
  have step: "list_all header_name_char ?name" "list_all (\<lambda>c. code_unit c \<notin> {10, 13}) v" "?name \<noteq> []"
    using 2(3) by (simp_all add: Let_def split: if_splits)
  show ?case
  proof (cases "blocked_name ?name")
    case True
    then show ?thesis using 2(1) [OF refl _ _ True] 2(3,4) step by (simp add: Let_def)
  next
    case False
    then have len: "\<not> length v > 4096" and rest: "sanitize_loop es (set_member ?name v out) = Inr hs"
      using 2(3) step by (simp_all add: Let_def split: if_splits)
    have "clean_header (?name, v)" using step False len by (simp add: clean_header_def)
    then have "list_all clean_header (set_member ?name v out)" using 2(4) by (intro clean_set_member)
    then show ?thesis using 2(2) [OF refl _ _ False len rest] step by simp
  qed
qed simp

lemma proxy_loop_connections:
  assumes "hop_method h \<in> set ALLOWED_METHODS" and "list_all clean_header (hop_headers h)"
    and "proxy_loop w allowed left h = (res, conns)"
  shows "list_all (allowed_connection allowed) conns \<and> length conns \<le> Suc left"
  using assms
proof (induction left arbitrary: h res conns)
  case 0
  then show ?case
    by (auto simp: proxy_loop.simps [of w allowed 0] allowed_connection_def split: option.splits sum.splits
        dest!: resolved_public) (auto simp: list_all_iff)
next
  case (Suc n)
  have get: "''GET'' \<in> set ALLOWED_METHODS" by (simp add: ALLOWED_METHODS_def)
  have kept: "hop_method (next_hop h s u) \<in> set ALLOWED_METHODS" "list_all clean_header (hop_headers (next_hop h s u))"
    for s u using Suc.prems(1,2) get by (auto simp: next_hop_def Let_def)
  have IH: "list_all (allowed_connection allowed) (snd (proxy_loop w allowed n (next_hop h s u))) \<and>
      length (snd (proxy_loop w allowed n (next_hop h s u))) \<le> Suc n" for s u
    using Suc.IH [OF kept prod.collapse [symmetric]] .
  have own: "resolvePublicAddresses look host = Inr addrs \<Longrightarrow> isPublicAddress (hd addrs)" for look host addrs
    using resolved_public [of look host addrs] by (auto simp: list_all_iff)
  have conns: "snd (proxy_loop w allowed (Suc n) h) = conns" using Suc.prems(3) by simp
  show ?case
    unfolding conns [symmetric]
    using Suc.prems(1,2) IH own
    by (simp add: proxy_loop.simps [of w allowed "Suc n"] case_prod_beta split: option.splits sum.splits)
qed

lemma proxyFetch_hop:
  assumes "snd (proxyFetch w q allowed) \<noteq> []"
  obtains h where "proxyFetch w q allowed = proxy_loop w allowed MAX_REDIRECTS h"
    and "hop_method h \<in> set ALLOWED_METHODS" and "list_all clean_header (hop_headers h)"
proof -
  obtain u hs m body where "proxyFetch w q allowed = proxy_loop w allowed MAX_REDIRECTS
       \<lparr>hop_url = u, hop_method = m, hop_headers = hs, hop_body = body\<rparr>"
    and "m \<in> set ALLOWED_METHODS" and hs: "sanitizeRequestHeaders (fq_headers q) = Inr hs"
    using assms by (auto simp: proxyFetch_def Let_def split: if_splits option.splits sum.splits)
  moreover have "list_all clean_header hs"
    using hs sanitize_loop_clean [of "fq_headers q" "[]" hs] by (auto simp: sanitizeRequestHeaders_def split: if_splits)
  ultimately show ?thesis using that by fastforce
qed

lemma proxy_connections:
  "list_all (allowed_connection allowed) (snd (proxyFetch w q allowed)) \<and> length (snd (proxyFetch w q allowed)) \<le> 4"
proof (cases "snd (proxyFetch w q allowed) = []")
  case False
  then obtain h where h: "proxyFetch w q allowed = proxy_loop w allowed MAX_REDIRECTS h"
    and "hop_method h \<in> set ALLOWED_METHODS" and "list_all clean_header (hop_headers h)" by (rule proxyFetch_hop)
  then have "list_all (allowed_connection allowed) (snd (proxy_loop w allowed MAX_REDIRECTS h)) \<and>
      length (snd (proxy_loop w allowed MAX_REDIRECTS h)) \<le> Suc MAX_REDIRECTS"
    by (intro proxy_loop_connections [OF _ _ prod.collapse [symmetric]])
  then show ?thesis by (simp add: h MAX_REDIRECTS_def)
qed simp


text \<open>
  A host pattern names itself, and a pattern with a leading asterisk names proper
  subdomains only: never the bare domain, and never a host that merely ends in the same
  letters.
\<close>

theorem host_patterns_exact:
  assumes "isValidHostPattern pattern" and "js_lower host = host" and "js_lower pattern = pattern"
    and "\<not> ends_with host ''.''"
  shows "hostMatches host [pattern] \<longleftrightarrow>
    (if starts_with pattern ''*.'' then (\<exists>sub. sub \<noteq> '''' \<and> host = sub @ ''.'' @ drop 2 pattern) else host = pattern)"
proof (cases "starts_with pattern ''*.''")
  case True
  then obtain d where d: "pattern = ''*.'' @ d" by (auto simp: starts_with_iff)
  have "ends_with host (CHR ''.'' # d) \<longleftrightarrow> (\<exists>sub. host = sub @ CHR ''.'' # d)"
    unfolding ends_with_def starts_with_iff by (metis rev_append rev_rev_ident)
  then show ?thesis using assms d by (auto simp: hostMatches_def Let_def)
qed (use assms in \<open>auto simp: hostMatches_def Let_def\<close>)

definition v4_reserved :: "(nat \<times> nat) list" where
  "v4_reserved =
     [(0, 2 ^ 24), (10 * 2 ^ 24, 11 * 2 ^ 24), (100 * 2 ^ 24 + 64 * 2 ^ 16, 100 * 2 ^ 24 + 128 * 2 ^ 16),
      (127 * 2 ^ 24, 128 * 2 ^ 24), (169 * 2 ^ 24 + 254 * 2 ^ 16, 169 * 2 ^ 24 + 255 * 2 ^ 16),
      (172 * 2 ^ 24 + 16 * 2 ^ 16, 172 * 2 ^ 24 + 32 * 2 ^ 16), (192 * 2 ^ 24, 192 * 2 ^ 24 + 2 ^ 8),
      (192 * 2 ^ 24 + 2 * 2 ^ 8, 192 * 2 ^ 24 + 3 * 2 ^ 8), (192 * 2 ^ 24 + 168 * 2 ^ 16, 192 * 2 ^ 24 + 169 * 2 ^ 16),
      (198 * 2 ^ 24 + 18 * 2 ^ 16, 198 * 2 ^ 24 + 20 * 2 ^ 16),
      (198 * 2 ^ 24 + 51 * 2 ^ 16 + 100 * 2 ^ 8, 198 * 2 ^ 24 + 51 * 2 ^ 16 + 101 * 2 ^ 8),
      (203 * 2 ^ 24 + 113 * 2 ^ 8, 203 * 2 ^ 24 + 114 * 2 ^ 8), (224 * 2 ^ 24, 240 * 2 ^ 24), (240 * 2 ^ 24, 2 ^ 32)]"

lemma in_v4_range_div:
  assumes "ipv4ToInt base = Some b" and "0 < bits" and "bits \<le> 32"
  shows "in_v4_range v (base, bits) \<longleftrightarrow> unat v div 2 ^ (32 - bits) = unat b div 2 ^ (32 - bits)"
proof -
  have ones: "(0xFFFFFFFF :: 32 word) = - 1" by simp
  have "v4_mask bits = prefix_mask bits" using assms(2) unfolding v4_mask_def prefix_mask_def ones by (cases "bits = 32") simp_all
  then show ?thesis using assms masked_eq_iff_div [of bits v b] by (simp add: in_v4_range_def)
qed

lemma aligned_interval:
  assumes "b = q * 2 ^ k"
  shows "(n :: nat) div 2 ^ k = b div 2 ^ k \<longleftrightarrow> b \<le> n \<and> n < b + 2 ^ k"
proof -
  have "n div 2 ^ k = q" if "q * 2 ^ k \<le> n" and "n < q * 2 ^ k + 2 ^ k"
    by (rule div_nat_eqI) (use that in \<open>simp_all add: mult.commute\<close>)
  moreover have "n < (n div 2 ^ k) * 2 ^ k + 2 ^ k"
    using dividend_less_div_times [of "2 ^ k" n] by simp
  ultimately have "n div 2 ^ k = q \<longleftrightarrow> q * 2 ^ k \<le> n \<and> n < q * 2 ^ k + 2 ^ k"
    using div_times_less_eq_dividend [of n "2 ^ k"] by auto
  then show ?thesis using assms by simp
qed

lemma in_v4_range_interval:
  assumes "ipv4ToInt base = Some b" and "0 < bits" and "bits \<le> 32" and "unat b mod 2 ^ (32 - bits) = 0"
  shows "in_v4_range v (base, bits) \<longleftrightarrow> unat b \<le> unat v \<and> unat v < unat b + 2 ^ (32 - bits)"
  using in_v4_range_div [OF assms(1-3)] aligned_interval [of "unat b" "unat b div 2 ^ (32 - bits)" "32 - bits"] assms(4)
  by (simp add: div_mult_mod_eq [of "unat b" "2 ^ (32 - bits)", simplified] mod_0_imp_dvd)

lemma v4_bases:
  "ipv4ToInt ''0.0.0.0'' = Some 0" "ipv4ToInt ''10.0.0.0'' = Some 0x0A000000" "ipv4ToInt ''100.64.0.0'' = Some 0x64400000"
  "ipv4ToInt ''127.0.0.0'' = Some 0x7F000000" "ipv4ToInt ''169.254.0.0'' = Some 0xA9FE0000"
  "ipv4ToInt ''172.16.0.0'' = Some 0xAC100000" "ipv4ToInt ''192.0.0.0'' = Some 0xC0000000"
  "ipv4ToInt ''192.0.2.0'' = Some 0xC0000200" "ipv4ToInt ''192.168.0.0'' = Some 0xC0A80000"
  "ipv4ToInt ''198.18.0.0'' = Some 0xC6120000" "ipv4ToInt ''198.51.100.0'' = Some 0xC6336400"
  "ipv4ToInt ''203.0.113.0'' = Some 0xCB007100" "ipv4ToInt ''224.0.0.0'' = Some 0xE0000000"
  "ipv4ToInt ''240.0.0.0'' = Some 0xF0000000"
  by code_simp+

text \<open>
  An IPv4 address is public exactly when its number lies in none of the fourteen
  reserved intervals: the masks of the code and the intervals of the registry agree.
\<close>

theorem public_v4_exact:
  "isPublicV4 ip =
    (case ipv4ToInt ip of None \<Rightarrow> False | Some v \<Rightarrow> list_all (\<lambda>(lo, hi). unat v < lo \<or> hi \<le> unat v) v4_reserved)"
proof (cases "ipv4ToInt ip")
  case (Some v)
  have "unat v < 2 ^ 32" using unsigned_less [of v] by simp
  then show ?thesis
    by (simp add: isPublicV4_def Some V4_BLOCKED_def v4_reserved_def v4_bases in_v4_range_interval not_less de_Morgan_conj not_le)
qed (simp add: isPublicV4_def)

text \<open>
  The check reads an address by its spelling: the same NAT64 address, which names the
  loopback interface, is refused with a dotted quad and accepted in hexadecimal.
\<close>

theorem nat64_spelling:
  "\<not> isPublicAddress ''64:ff9b::127.0.0.1'' \<and> isPublicAddress ''64:ff9b::7f00:1'' \<and>
   isIP ''64:ff9b::127.0.0.1'' = 6 \<and> isIP ''64:ff9b::7f00:1'' = 6"
  by code_simp

end
