(* ===== verification/Apps.thy ===== *)
theory Apps
  imports FetchProxy Secrets Json FileAccess
begin

text \<open>
  The applications and who may use them: \<open>db/installed-apps.ts\<close>, \<open>db/app-access.ts\<close>,
  \<open>apps/dev-apps.ts\<close>, \<open>apps/trust.ts\<close>, \<open>apps/registry.ts\<close> with the manifests of
  \<open>packages/catalog.ts\<close>, and the lookup by id that every per-app route starts with
  (\<open>resolveApp\<close> of \<open>apps/routes.ts\<close>).
\<close>

subsection \<open>\<open>db/installed-apps.ts\<close>\<close>

definition listInstalledApps :: "db \<Rightarrow> installed_app_row list" where
  "listInstalledApps d = order_asc app_id (db_installed_apps d)"

definition getInstalledApp :: "db \<Rightarrow> string \<Rightarrow> installed_app_row option" where
  "getInstalledApp d i = sql_get (\<lambda>r. app_id r = i) (db_installed_apps d)"

definition upsertInstalledApp :: "millis \<Rightarrow> app_manifest \<Rightarrow> string option \<Rightarrow> db \<Rightarrow> db" where
  "upsertInstalledApp now m sourceRepo d =
     (let version = (case am_version m of None \<Rightarrow> ''0.0.0'' | Some v \<Rightarrow> v) in
      d\<lparr>db_installed_apps := sql_upsert (\<lambda>r. app_id r = am_id m)
          (\<lambda>r. r\<lparr>app_version := version, app_manifest_json := m,
                 app_source_repo := (case sourceRepo of None \<Rightarrow> app_source_repo r | Some s \<Rightarrow> Some s)\<rparr>)
          \<lparr>app_id = am_id m, app_version = version, app_manifest_json = m, app_enabled = True,
           app_installed_at = now, app_source_repo = sourceRepo\<rparr> (db_installed_apps d)\<rparr>)"

definition setAppEnabled :: "string \<Rightarrow> bool \<Rightarrow> db \<Rightarrow> db" where
  "setAppEnabled i enabled d =
     d\<lparr>db_installed_apps := sql_update (\<lambda>r. app_id r = i) (app_enabled_update (\<lambda>_. enabled)) (db_installed_apps d)\<rparr>"

definition removeInstalledApp :: "string \<Rightarrow> db \<Rightarrow> db" where
  "removeInstalledApp i d =
     d\<lparr>db_installed_apps := sql_delete (\<lambda>r. app_id r = i) (db_installed_apps d),
       db_app_storage := sql_delete (\<lambda>r. ast_app_id r = i) (db_app_storage d),
       db_app_settings := sql_delete (\<lambda>r. aps_app_id r = i) (db_app_settings d)\<rparr>"

definition storage_key :: "string \<Rightarrow> string \<Rightarrow> string \<Rightarrow> app_storage_row \<Rightarrow> bool" where
  "storage_key a u k r \<longleftrightarrow> ast_app_id r = a \<and> ast_user_id r = u \<and> ast_key r = k"

definition getAppStorage :: "db \<Rightarrow> string \<Rightarrow> string \<Rightarrow> string \<Rightarrow> string option" where
  "getAppStorage d a u k = map_option ast_value (sql_get (storage_key a u k) (db_app_storage d))"

definition listAppStorage :: "db \<Rightarrow> string \<Rightarrow> string \<Rightarrow> (string \<times> string) list" where
  "listAppStorage d a u =
     map (\<lambda>r. (ast_key r, ast_value r)) (filter (\<lambda>r. ast_app_id r = a \<and> ast_user_id r = u) (db_app_storage d))"

definition setAppStorage :: "string \<Rightarrow> string \<Rightarrow> string \<Rightarrow> string \<Rightarrow> db \<Rightarrow> sql_error + db" where
  "setAppStorage a u k v d =
     with_user d u (d\<lparr>db_app_storage := sql_upsert (storage_key a u k) (ast_value_update (\<lambda>_. v))
       \<lparr>ast_app_id = a, ast_user_id = u, ast_key = k, ast_value = v\<rparr> (db_app_storage d)\<rparr>)"

definition deleteAppStorage :: "string \<Rightarrow> string \<Rightarrow> string \<Rightarrow> db \<Rightarrow> db" where
  "deleteAppStorage a u k d = d\<lparr>db_app_storage := sql_delete (storage_key a u k) (db_app_storage d)\<rparr>"

subsection \<open>\<open>db/app-access.ts\<close>\<close>

definition ALWAYS_AVAILABLE :: "string list" where
  "ALWAYS_AVAILABLE = [''control-panel'', ''about'']"

definition isAppsRestricted :: "db \<Rightarrow> string \<Rightarrow> bool" where
  "isAppsRestricted d userId = (case userRow d userId of None \<Rightarrow> False | Some r \<Rightarrow> usr_apps_restricted r)"

definition allowedAppIds :: "db \<Rightarrow> string \<Rightarrow> string list" where
  "allowedAppIds d userId =
     map aac_app_id (order_asc aac_app_id (filter (\<lambda>r. aac_user_id r = userId) (db_app_access d)))"

definition canUseApp :: "db \<Rightarrow> user \<Rightarrow> string \<Rightarrow> bool" where
  "canUseApp d u appId =
     (if u_role u = Admin then True
      else if appId \<in> set ALWAYS_AVAILABLE then True
      else if \<not> isAppsRestricted d (u_id u) then True
      else sql_exists (\<lambda>r. aac_user_id r = u_id u \<and> aac_app_id r = appId) (db_app_access d))"

fun insert_access :: "string \<Rightarrow> string list \<Rightarrow> app_access_row list \<Rightarrow> app_access_row list" where
  "insert_access u [] t = t"
| "insert_access u (a # as) t =
     insert_access u as
       (if a \<in> set ALWAYS_AVAILABLE then t
        else sql_insert_ignore (\<lambda>r. aac_user_id r = u \<and> aac_app_id r = a) \<lparr>aac_user_id = u, aac_app_id = a\<rparr> t)"

text \<open>The route has found the user, so the foreign key of \<open>app_access\<close> holds.\<close>

definition setAppAccess :: "string \<Rightarrow> bool \<Rightarrow> string list \<Rightarrow> db \<Rightarrow> db" where
  "setAppAccess userId restricted appIds d =
     d\<lparr>db_users := sql_update (\<lambda>r. usr_id r = userId) (usr_apps_restricted_update (\<lambda>_. restricted)) (db_users d),
       db_app_access := insert_access userId appIds (sql_delete (\<lambda>r. aac_user_id r = userId) (db_app_access d))\<rparr>"

definition forgetApp :: "string \<Rightarrow> db \<Rightarrow> db" where
  "forgetApp appId d = d\<lparr>db_app_access := sql_delete (\<lambda>r. aac_app_id r = appId) (db_app_access d)\<rparr>"

subsection \<open>\<open>apps/dev-apps.ts\<close>\<close>

record dev_app =
  dv_id :: string
  dv_name :: string
  dv_url :: string
  dv_permissions :: "app_permission list"
  dv_enabled :: bool

definition MAX_DEV_APPS :: nat where "MAX_DEV_APPS = 5"

definition permission_text :: "app_permission \<Rightarrow> string" where
  "permission_text p =
     (case p of PNotifications \<Rightarrow> ''notifications'' | PStorage \<Rightarrow> ''storage'' | PUser \<Rightarrow> ''user'' | PFiles \<Rightarrow> ''files''
      | PSystem \<Rightarrow> ''system'' | PFetch \<Rightarrow> ''fetch'' | PSchedule \<Rightarrow> ''schedule'' | PSharesRead \<Rightarrow> ''shares:read''
      | PSharesWrite \<Rightarrow> ''shares:write'')"

definition APP_PERMISSIONS :: "app_permission list" where
  "APP_PERMISSIONS = [PNotifications, PStorage, PUser, PFiles, PSystem, PFetch, PSchedule, PSharesRead, PSharesWrite]"

definition permission_of_text :: "string \<Rightarrow> app_permission option" where
  "permission_of_text s = find (\<lambda>p. permission_text p = s) APP_PERMISSIONS"

text \<open>The parser of URLs is a parameter; what the code reads of a URL is the record \<open>url\<close>.\<close>

definition isValidDevUrl :: "(string \<Rightarrow> url option) \<Rightarrow> string \<Rightarrow> bool" where
  "isValidDevUrl parse u =
     (case parse u of
        None \<Rightarrow> False
      | Some v \<Rightarrow>
          if url_protocol v \<noteq> ''http:'' \<and> url_protocol v \<noteq> ''https:'' then False
          else url_hostname v \<in> {''localhost'', ''127.0.0.1'', ''[::1]'', ''::1''})"

definition devOrigin :: "(string \<Rightarrow> url option) \<Rightarrow> string \<Rightarrow> string option" where
  "devOrigin parse u = map_option url_origin (parse u)"

definition dev_id_ok :: "string \<Rightarrow> bool" where
  "dev_id_ok s \<longleftrightarrow> 2 \<le> length s \<and> length s \<le> 64 \<and>
     list_all (\<lambda>c. is_alnum c \<and> \<not> (65 \<le> code_unit c \<and> code_unit c \<le> 90) \<or> c \<in> set ''._-'') s \<and> is_alnum (hd s)"

text \<open>\<open>String(v)\<close> of a parsed value.\<close>

fun js_string :: "json \<Rightarrow> string" where
  "js_string JNull = ''null''"
| "js_string (JBool b) = (if b then ''true'' else ''false'')"
| "js_string (JNum i) = (if i < 0 then CHR ''-'' # js_nat (nat (- i)) else js_nat (nat i))"
| "js_string (JStr s) = s"
| "js_string (JArr js) = join '','' (map (\<lambda>j. if j = JNull then '''' else js_string j) js)"
| "js_string (JObj ms) = ''[object Object]''"

definition string_member :: "json \<Rightarrow> string \<Rightarrow> string \<Rightarrow> string" where
  "string_member j k fallback =
     (case jget j k of None \<Rightarrow> fallback | Some v \<Rightarrow> if v = JNull then fallback else js_string v)"

definition coerce_dev :: "(string \<Rightarrow> url option) \<Rightarrow> json \<Rightarrow> dev_app option" where
  "coerce_dev parse raw =
     (let i = js_lower (string_member raw ''id'' '''');
          u = strip_slashes (string_member raw ''url'' '''');
          name = take 64 (string_member raw ''name'' i)
      in if \<not> dev_id_ok i \<or> \<not> isValidDevUrl parse u then None
         else Some
           \<lparr>dv_id = i, dv_name = (if name = '''' then i else name), dv_url = u,
            dv_permissions = (case jget raw ''permissions'' of
                Some (JArr ps) \<Rightarrow> List.map_filter (\<lambda>p. case p of JStr s \<Rightarrow> permission_of_text s | _ \<Rightarrow> None) ps
              | _ \<Rightarrow> []),
            dv_enabled = (jget raw ''enabled'' \<noteq> Some (JBool False))\<rparr>)"

fun distinct_ids :: "string list \<Rightarrow> dev_app list \<Rightarrow> dev_app list" where
  "distinct_ids seen [] = []"
| "distinct_ids seen (a # as) =
     (if dv_id a \<in> set seen then distinct_ids seen as else a # distinct_ids (dv_id a # seen) as)"

definition dev_apps_of :: "(string \<Rightarrow> url option) \<Rightarrow> json list \<Rightarrow> dev_app list" where
  "dev_apps_of parse js = take MAX_DEV_APPS (distinct_ids [] (List.map_filter (coerce_dev parse) js))"

definition listDevApps :: "(string \<Rightarrow> url option) \<Rightarrow> crypto \<Rightarrow> db \<Rightarrow> dev_app list" where
  "listDevApps parse cr d =
     (case json_parse (getSettingOr cr d ''dev_apps'' ''[]'') of
        Some (JArr js) \<Rightarrow> dev_apps_of parse js
      | _ \<Rightarrow> [])"

definition dev_json :: "dev_app \<Rightarrow> json" where
  "dev_json a = JObj [(''id'', JStr (dv_id a)), (''name'', JStr (dv_name a)), (''url'', JStr (dv_url a)),
     (''permissions'', JArr (map (\<lambda>p. JStr (permission_text p)) (dv_permissions a))), (''enabled'', JBool (dv_enabled a))]"

definition saveDevApps :: "(string \<Rightarrow> url option) \<Rightarrow> crypto \<Rightarrow> dev_app list \<Rightarrow> db \<Rightarrow> dev_app list \<times> db" where
  "saveDevApps parse cr apps d =
     (let limited = dev_apps_of parse (map dev_json apps)
      in (limited, setSetting cr '''' '''' ''dev_apps'' (stringify (JArr (map dev_json limited))) d))"

definition devFrameOrigins :: "(string \<Rightarrow> url option) \<Rightarrow> crypto \<Rightarrow> db \<Rightarrow> string list" where
  "devFrameOrigins parse cr d =
     remdups (List.map_filter (\<lambda>a. devOrigin parse (dv_url a)) (filter dv_enabled (listDevApps parse cr d)))"

definition dev_manifest :: "dev_app \<Rightarrow> app_manifest" where
  "dev_manifest a =
     \<lparr>am_id = dv_id a, am_name = dv_name a, am_kind = ''external'', am_min_role = Admin, am_version = Some ''dev'',
      am_entry = Some '''', am_permissions = dv_permissions a, am_signed = False, am_fingerprint = None,
      am_fetch_hosts = [], am_settings = [], am_dev_url = Some (dv_url a)\<rparr>"

definition devManifests :: "(string \<Rightarrow> url option) \<Rightarrow> crypto \<Rightarrow> db \<Rightarrow> app_manifest list" where
  "devManifests parse cr d = map dev_manifest (filter dv_enabled (listDevApps parse cr d))"

subsection \<open>\<open>apps/trust.ts\<close>\<close>

text \<open>The setting only ever holds what \<open>setTrusted\<close> wrote, an array of strings.\<close>

definition trustedFingerprints :: "crypto \<Rightarrow> db \<Rightarrow> string list" where
  "trustedFingerprints cr d =
     (let raw = getSettingOr cr d ''trusted_publishers'' '''' in
      case json_parse (if raw = '''' then ''[]'' else raw) of
        Some (JArr js) \<Rightarrow> List.map_filter (\<lambda>j. case j of JStr s \<Rightarrow> Some s | _ \<Rightarrow> None) js
      | _ \<Rightarrow> [])"

definition isTrusted :: "crypto \<Rightarrow> db \<Rightarrow> string option \<Rightarrow> bool" where
  "isTrusted cr d fingerprint =
     (case fingerprint of None \<Rightarrow> False | Some fp \<Rightarrow> fp \<noteq> '''' \<and> fp \<in> set (trustedFingerprints cr d))"

definition setTrusted :: "crypto \<Rightarrow> string \<Rightarrow> bool \<Rightarrow> db \<Rightarrow> db" where
  "setTrusted cr fp trusted d =
     (let set0 = remdups (trustedFingerprints cr d);
          set1 = (if trusted then (if fp \<in> set set0 then set0 else set0 @ [fp]) else removeAll fp set0)
      in setSetting cr '''' '''' ''trusted_publishers'' (stringify (JArr (map JStr set1))) d)"

subsection \<open>\<open>apps/registry.ts\<close> and the manifests of \<open>packages/catalog.ts\<close>\<close>

definition host_app :: "string \<Rightarrow> string \<Rightarrow> string \<Rightarrow> user_role \<Rightarrow> app_manifest" where
  "host_app kind i name role =
     \<lparr>am_id = i, am_name = name, am_kind = kind, am_min_role = role, am_version = None, am_entry = None,
      am_permissions = [], am_signed = False, am_fingerprint = None, am_fetch_hosts = [], am_settings = [],
      am_dev_url = None\<rparr>"

definition BUILTIN_APPS :: "app_manifest list" where
  "BUILTIN_APPS =
     [host_app ''builtin'' ''dashboard'' ''Dashboard'' User, host_app ''builtin'' ''file-station'' ''Files'' User,
      host_app ''builtin'' ''task-manager'' ''Task Manager'' User,
      host_app ''builtin'' ''system-monitor'' ''Resource Monitor'' User,
      host_app ''builtin'' ''control-panel'' ''Control Panel'' User,
      host_app ''builtin'' ''package-center'' ''Package Center'' Admin,
      host_app ''builtin'' ''info-center'' ''Info Center'' User, host_app ''builtin'' ''about'' ''About OpenNAS'' User]"

text \<open>Each entry of the catalogue: its id, and the manifest of the app packages.\<close>

definition CATALOG :: "(string \<times> app_manifest option) list" where
  "CATALOG =
     [(''text-editor'', Some (host_app ''package'' ''text-editor'' ''Text Editor'' User)),
      (''notes'', Some (host_app ''package'' ''notes'' ''Notes'' User)),
      (''containers'', Some (host_app ''package'' ''containers'' ''Containers'' Admin)),
      (''virtual-machines'', Some (host_app ''package'' ''virtual-machines'' ''Virtual Machines'' Admin)),
      (''jellyfin'', None), (''vaultwarden'', None), (''gitea'', None), (''pihole'', None), (''nextcloud'', None),
      (''immich'', None), (''home-assistant'', None), (''portainer'', None)]"

definition manifestsForInstalled :: "string list \<Rightarrow> app_manifest list" where
  "manifestsForInstalled ids = List.map_filter (\<lambda>(i, m). if i \<in> set ids then m else None) CATALOG"

definition installedIds :: "db \<Rightarrow> string list" where
  "installedIds d = map pkg_id (order_asc pkg_installed_at (db_packages d))"

definition appsForRole :: "(string \<Rightarrow> url option) \<Rightarrow> crypto \<Rightarrow> db \<Rightarrow> user_role \<Rightarrow> app_manifest list" where
  "appsForRole parse cr d role =
     (let externals = map app_manifest_json (filter app_enabled (listInstalledApps d));
          all = BUILTIN_APPS @ manifestsForInstalled (installedIds d) @ externals @ devManifests parse cr d
      in if role = Admin then all else filter (\<lambda>a. am_min_role a \<noteq> Admin) all)"

definition appsForUser :: "(string \<Rightarrow> url option) \<Rightarrow> crypto \<Rightarrow> db \<Rightarrow> user \<Rightarrow> app_manifest list" where
  "appsForUser parse cr d u = filter (\<lambda>a. canUseApp d u (am_id a)) (appsForRole parse cr d (u_role u))"

subsection \<open>\<open>lookupApp\<close> and \<open>resolveApp\<close>\<close>

definition lookupApp :: "(string \<Rightarrow> url option) \<Rightarrow> crypto \<Rightarrow> db \<Rightarrow> string \<Rightarrow> (app_manifest \<times> bool) option" where
  "lookupApp parse cr d i =
     (case getInstalledApp d i of
        Some r \<Rightarrow> Some (app_manifest_json r, False)
      | None \<Rightarrow> map_option (\<lambda>m. (m, True)) (find (\<lambda>m. am_id m = i) (devManifests parse cr d)))"

definition resolveApp :: "(string \<Rightarrow> url option) \<Rightarrow> crypto \<Rightarrow> db \<Rightarrow> user \<Rightarrow> string \<Rightarrow> (app_manifest \<times> bool) option" where
  "resolveApp parse cr d u i =
     (case lookupApp parse cr d i of None \<Rightarrow> None | Some found \<Rightarrow> if canUseApp d u i then Some found else None)"

end
