(* ===== verification/AppGrants.thy ===== *)
theory AppGrants
  imports Apps FileRoutes
begin

text \<open>
  The folders users hand to apps: \<open>apps/api/src/db/app-grants.ts\<close>.  A grant says which
  path an app may ask about; \<open>resolveGrant\<close> asks for the user's own access every time.
\<close>

definition MAX_GRANTS_PER_APP :: nat where "MAX_GRANTS_PER_APP = 32"

record app_grant =
  ag_handle :: string
  ag_path :: string
  ag_name :: string
  ag_type :: grant_type
  ag_mode :: grant_mode
  ag_created_at :: millis
  ag_last_used_at :: "millis option"

definition toGrant :: "grant_row \<Rightarrow> app_grant" where
  "toGrant r =
     \<lparr>ag_handle = grn_id r, ag_path = grn_path r,
      ag_name = (if nonempty_parts (grn_path r) = [] then ''/'' else last (nonempty_parts (grn_path r))),
      ag_type = grn_type r, ag_mode = grn_mode r, ag_created_at = grn_created_at r, ag_last_used_at = grn_last_used_at r\<rparr>"

definition held_by :: "string \<Rightarrow> string \<Rightarrow> grant_row \<Rightarrow> bool" where
  "held_by appId userId r \<longleftrightarrow> grn_app_id r = appId \<and> grn_user_id r = userId"

definition listGrants :: "db \<Rightarrow> string \<Rightarrow> string \<Rightarrow> app_grant list" where
  "listGrants d appId userId = map toGrant (order_desc grn_created_at (filter (held_by appId userId) (db_grants d)))"

definition last_touched :: "grant_row \<Rightarrow> millis" where
  "last_touched r = (case grn_last_used_at r of None \<Rightarrow> grn_created_at r | Some t \<Rightarrow> t)"

text \<open>The row the subquery picks: least recently touched, the first of several.\<close>

definition stalest :: "string \<Rightarrow> string \<Rightarrow> grant_row list \<Rightarrow> grant_row option" where
  "stalest appId userId t =
     (case order_asc last_touched (filter (held_by appId userId) t) of [] \<Rightarrow> None | r # _ \<Rightarrow> Some r)"

definition grantPath ::
  "string \<Rightarrow> millis \<Rightarrow> string \<Rightarrow> string \<Rightarrow> string \<Rightarrow> grant_type \<Rightarrow> grant_mode \<Rightarrow> db \<Rightarrow> app_grant \<times> db" where
  "grantPath newId now appId userId path ty mode d =
     (let p = normalizeVirtual path in
      case sql_get (\<lambda>r. held_by appId userId r \<and> grn_path r = p) (db_grants d) of
        Some existing \<Rightarrow>
          (let m = (if grn_mode existing = ReadWrite \<or> mode = ReadWrite then ReadWrite else Read) in
           (toGrant (existing\<lparr>grn_mode := m, grn_type := ty\<rparr>),
            d\<lparr>db_grants := sql_update (\<lambda>r. grn_id r = grn_id existing) (\<lambda>r. r\<lparr>grn_mode := m, grn_type := ty\<rparr>) (db_grants d)\<rparr>))
      | None \<Rightarrow>
          (let kept = (if sql_count (held_by appId userId) (db_grants d) \<ge> MAX_GRANTS_PER_APP then
                         (case stalest appId userId (db_grants d) of
                            None \<Rightarrow> db_grants d
                          | Some old \<Rightarrow> sql_delete (\<lambda>r. grn_id r = grn_id old) (db_grants d))
                       else db_grants d);
               row = \<lparr>grn_id = newId, grn_app_id = appId, grn_user_id = userId, grn_path = p, grn_type = ty,
                      grn_mode = mode, grn_created_at = now, grn_last_used_at = None\<rparr>
           in (toGrant row, d\<lparr>db_grants := kept @ [row]\<rparr>)))"

definition listAllGrantsForUser :: "db \<Rightarrow> string \<Rightarrow> (app_grant \<times> string) list" where
  "listAllGrantsForUser d userId =
     map (\<lambda>r. (toGrant r, grn_app_id r)) (order_desc grn_created_at (filter (\<lambda>r. grn_user_id r = userId) (db_grants d)))"

definition revokeGrantForUser :: "string \<Rightarrow> string \<Rightarrow> db \<Rightarrow> bool \<times> db" where
  "revokeGrantForUser userId handle d =
     (sql_exists (\<lambda>r. grn_id r = handle \<and> grn_user_id r = userId) (db_grants d),
      d\<lparr>db_grants := sql_delete (\<lambda>r. grn_id r = handle \<and> grn_user_id r = userId) (db_grants d)\<rparr>)"

definition revokeGrant :: "string \<Rightarrow> string \<Rightarrow> string \<Rightarrow> db \<Rightarrow> bool \<times> db" where
  "revokeGrant appId userId handle d =
     (sql_exists (\<lambda>r. grn_id r = handle \<and> held_by appId userId r) (db_grants d),
      d\<lparr>db_grants := sql_delete (\<lambda>r. grn_id r = handle \<and> held_by appId userId r) (db_grants d)\<rparr>)"

definition revokeAllForApp :: "string \<Rightarrow> db \<Rightarrow> db" where
  "revokeAllForApp appId d = d\<lparr>db_grants := sql_delete (\<lambda>r. grn_app_id r = appId) (db_grants d)\<rparr>"

record resolved_path =
  rp_path :: string
  rp_read :: bool
  rp_write :: bool

definition resolveGrant ::
  "millis \<Rightarrow> user \<Rightarrow> string \<Rightarrow> string option \<Rightarrow> string option \<Rightarrow> bool \<Rightarrow> bool \<Rightarrow> db \<Rightarrow> resolved_path option \<times> db" where
  "resolveGrant now u appId handle path hasRead hasWrite d =
     (let rel = (case path of None \<Rightarrow> '''' | Some p \<Rightarrow> p) in
      if (case handle of None \<Rightarrow> False | Some h \<Rightarrow> h \<noteq> '''') then
        (case sql_get (\<lambda>r. grn_id r = the handle \<and> held_by appId (u_id u) r) (db_grants d) of
           None \<Rightarrow> (None, d)
         | Some row \<Rightarrow>
             (let joined = normalizeVirtual (grn_path row @ ''/'' @ rel);
                  root = (if grn_path row = ''/'' then ''/'' else grn_path row @ ''/'')
              in if joined \<noteq> grn_path row \<and> \<not> starts_with joined root then (None, d)
                 else if \<not> can_read d u joined then (None, d)
                 else (Some \<lparr>rp_path = joined, rp_read = True, rp_write = (can_write d u joined \<and> grn_mode row = ReadWrite)\<rparr>,
                       d\<lparr>db_grants := sql_update (\<lambda>r. grn_id r = grn_id row) (grn_last_used_at_update (\<lambda>_. Some now)) (db_grants d)\<rparr>)))
      else if \<not> hasRead then (None, d)
      else
        (let p = normalizeVirtual (if rel = '''' then ''/'' else rel) in
         if \<not> can_read d u p then (None, d)
         else (Some \<lparr>rp_path = p, rp_read = True, rp_write = (can_write d u p \<and> hasWrite)\<rparr>, d)))"

end
