(* ===== verification/AppSettings.thy ===== *)
theory AppSettings
  imports Secrets Cidr
begin

text \<open>
  The values behind the settings form of an app: \<open>apps/api/src/db/app-settings.ts\<close>.  A
  stored value is the scalar its JSON text parses to (\<open>JsonOther\<close> for a text that does
  not parse, or to no scalar); numbers are the integers.
\<close>

definition GLOBAL :: string where "GLOBAL = ''''"

definition scopeKey :: "setting_field \<Rightarrow> string \<Rightarrow> string" where
  "scopeKey f userId = (if sf_scope f = ScopeAdmin then GLOBAL else userId)"

text \<open>The \<open>Map\<close> is a list of its writes: the last one with a key counts.\<close>

definition loadRaw :: "db \<Rightarrow> string \<Rightarrow> string \<Rightarrow> (string \<times> json_scalar) list" where
  "loadRaw d appId userId =
     rev (map (\<lambda>r. (aps_user_id r @ '' '' @ aps_key r, aps_value r))
       (filter (\<lambda>r. aps_app_id r = appId \<and> (aps_user_id r = userId \<or> aps_user_id r = GLOBAL)) (db_app_settings d)))"

definition setting_number :: "json_scalar \<Rightarrow> int option" where
  "setting_number raw =
     (case raw of
        JsonNumber n \<Rightarrow> Some n
      | JsonString s \<Rightarrow> if js_trim s \<noteq> '''' then js_number (Some s) else None
      | _ \<Rightarrow> None)"

definition coerceValue :: "setting_field \<Rightarrow> json_scalar \<Rightarrow> json_scalar option" where
  "coerceValue f raw =
     (case sf_type f of
        SBoolean \<Rightarrow> (case raw of JsonBool b \<Rightarrow> Some (JsonBool b) | _ \<Rightarrow> None)
      | SNumber \<Rightarrow>
          (case setting_number raw of
             None \<Rightarrow> None
           | Some n \<Rightarrow>
               if (case sf_min f of None \<Rightarrow> False | Some m \<Rightarrow> n < m) then None
               else if (case sf_max f of None \<Rightarrow> False | Some m \<Rightarrow> n > m) then None
               else Some (JsonNumber n))
      | SSelect \<Rightarrow>
          (case raw of
             JsonString v \<Rightarrow> if v \<in> set (case sf_options f of None \<Rightarrow> [] | Some os \<Rightarrow> os) then Some (JsonString v) else None
           | _ \<Rightarrow> None)
      | SText \<Rightarrow> (case raw of JsonString s \<Rightarrow> if length s \<le> 4096 then Some (JsonString s) else None | _ \<Rightarrow> None))"

definition setting_fallback :: "setting_field \<Rightarrow> json_scalar" where
  "setting_fallback f =
     (case sf_default f of
        Some v \<Rightarrow> v
      | None \<Rightarrow>
          (case sf_type f of
             SBoolean \<Rightarrow> JsonBool False
           | SNumber \<Rightarrow> JsonNumber (case sf_min f of None \<Rightarrow> 0 | Some m \<Rightarrow> m)
           | SSelect \<Rightarrow> JsonString (case sf_options f of Some (o1 # _) \<Rightarrow> o1 | _ \<Rightarrow> '''')
           | SText \<Rightarrow> JsonString ''''))"

definition resolve_setting :: "db \<Rightarrow> string \<Rightarrow> string \<Rightarrow> setting_field \<Rightarrow> json_scalar" where
  "resolve_setting d appId userId f =
     (case map_of (loadRaw d appId userId) (scopeKey f userId @ '' '' @ sf_key f) of
        None \<Rightarrow> setting_fallback f
      | Some raw \<Rightarrow> (case coerceValue f raw of None \<Rightarrow> setting_fallback f | Some v \<Rightarrow> v))"

definition resolveSettings :: "db \<Rightarrow> string \<Rightarrow> setting_field list \<Rightarrow> string \<Rightarrow> (string \<times> json_scalar) list" where
  "resolveSettings d appId decl userId = map (\<lambda>f. (sf_key f, resolve_setting d appId userId f)) decl"

definition setting_row_key :: "string \<Rightarrow> string \<Rightarrow> string \<Rightarrow> app_setting_row \<Rightarrow> bool" where
  "setting_row_key appId scope key r \<longleftrightarrow> aps_app_id r = appId \<and> aps_user_id r = scope \<and> aps_key r = key"

definition stored_value :: "crypto \<Rightarrow> string \<Rightarrow> string \<Rightarrow> setting_field \<Rightarrow> json_scalar \<Rightarrow> json_scalar" where
  "stored_value cr salt iv f value =
     (case value of
        JsonString s \<Rightarrow> if sf_secret f then JsonString (encryptSecret cr salt iv s) else value
      | _ \<Rightarrow> value)"

definition setAppSetting ::
  "crypto \<Rightarrow> string \<Rightarrow> string \<Rightarrow> string \<Rightarrow> setting_field \<Rightarrow> string \<Rightarrow> json_scalar \<Rightarrow> db \<Rightarrow> db" where
  "setAppSetting cr salt iv appId f userId value d =
     (let stored = stored_value cr salt iv f value;
          scope = scopeKey f userId
      in d\<lparr>db_app_settings := sql_upsert (setting_row_key appId scope (sf_key f)) (aps_value_update (\<lambda>_. stored))
            \<lparr>aps_app_id = appId, aps_user_id = scope, aps_key = sf_key f, aps_value = stored\<rparr> (db_app_settings d)\<rparr>)"

definition clearUserSettings :: "string \<Rightarrow> db \<Rightarrow> db" where
  "clearUserSettings userId d = d\<lparr>db_app_settings := sql_delete (\<lambda>r. aps_user_id r = userId) (db_app_settings d)\<rparr>"

definition pruneUnknownSettings :: "string \<Rightarrow> setting_field list \<Rightarrow> db \<Rightarrow> nat \<times> db" where
  "pruneUnknownSettings appId decl d =
     (let P = (\<lambda>r. aps_app_id r = appId \<and> aps_key r \<notin> set (map sf_key decl))
      in (sql_count P (db_app_settings d), d\<lparr>db_app_settings := sql_delete P (db_app_settings d)\<rparr>))"

subsection \<open>Lemmas\<close>

text \<open>A user id is no part of a longer one: ids hold no blank, so the keys of the map do not collide.\<close>

definition no_blank :: "string \<Rightarrow> bool" where
  "no_blank s \<longleftrightarrow> CHR '' '' \<notin> set s"

lemma scoped_key_inj:
  "no_blank a \<Longrightarrow> no_blank b \<Longrightarrow> a @ CHR '' '' # k = b @ CHR '' '' # l \<longleftrightarrow> a = b \<and> k = l"
proof (induction a arbitrary: b)
  case Nil
  then show ?case by (cases b) (auto simp: no_blank_def)
next
  case (Cons c a)
  then show ?case by (cases b) (auto simp: no_blank_def)
qed

text \<open>The settings table: one row per app, scope and key, and scopes without blanks.\<close>

definition settings_ok :: "app_setting_row list \<Rightarrow> bool" where
  "settings_ok t \<longleftrightarrow> keyed (\<lambda>r. (aps_app_id r, aps_user_id r, aps_key r)) t \<and> list_all (\<lambda>r. no_blank (aps_user_id r)) t"

lemma loadRaw_get:
  assumes "settings_ok (db_app_settings d)" and "no_blank s" and "s = u \<or> s = GLOBAL" and "no_blank u"
  shows "map_of (loadRaw d a u) (s @ CHR '' '' # k) = map_option aps_value (sql_get (setting_row_key a s k) (db_app_settings d))"
proof -
  have "settings_ok t \<Longrightarrow>
      map_of (rev (map (\<lambda>r. (aps_user_id r @ CHR '' '' # aps_key r, aps_value r))
        (filter (\<lambda>r. aps_app_id r = a \<and> (aps_user_id r = u \<or> aps_user_id r = GLOBAL)) t))) (s @ CHR '' '' # k) =
      map_option aps_value (sql_get (setting_row_key a s k) t)" for t
  proof (induction t)
    case (Cons r t)
    have own: "aps_user_id r @ CHR '' '' # aps_key r = s @ CHR '' '' # k \<longleftrightarrow> aps_user_id r = s \<and> aps_key r = k"
      using Cons.prems assms(2) by (intro scoped_key_inj) (simp_all add: settings_ok_def)
    have rest: "settings_ok t" using Cons.prems by (simp add: settings_ok_def keyed_def)
    have "(aps_app_id r, aps_user_id r, aps_key r) \<noteq> (aps_app_id x, aps_user_id x, aps_key x)" if "x \<in> set t" for x
      using Cons.prems that by (auto simp: settings_ok_def keyed_def)
    then have gone: "setting_row_key a s k r \<Longrightarrow> sql_get (setting_row_key a s k) t = None"
      unfolding sql_get_None setting_row_key_def by metis
    show ?case
    proof (cases "setting_row_key a s k r")
      case True
      then have "aps_app_id r = a" "aps_user_id r = s" "aps_key r = k" by (simp_all add: setting_row_key_def)
      then show ?thesis using Cons.IH [OF rest] gone [OF True] True assms(3) by (simp add: map_add_def)
    next
      case False
      then show ?thesis using Cons.IH [OF rest] own by (auto simp: map_add_def setting_row_key_def split: option.splits)
    qed
  qed simp
  then show ?thesis using assms(1) by (simp add: loadRaw_def)
qed

lemma scopeKey_scope: "scopeKey f u = u \<or> scopeKey f u = GLOBAL"
  by (simp add: scopeKey_def)

lemma no_blank_scope: "no_blank u \<Longrightarrow> no_blank (scopeKey f u)"
  by (simp add: scopeKey_def GLOBAL_def no_blank_def)

lemma resolve_setting_eq:
  assumes "settings_ok (db_app_settings d)" and "no_blank u"
  shows "resolve_setting d a u f =
    (case sql_get (setting_row_key a (scopeKey f u) (sf_key f)) (db_app_settings d) of
       None \<Rightarrow> setting_fallback f
     | Some r \<Rightarrow> (case coerceValue f (aps_value r) of None \<Rightarrow> setting_fallback f | Some v \<Rightarrow> v))"
  using loadRaw_get [OF assms(1) no_blank_scope [OF assms(2)] scopeKey_scope assms(2)]
  by (simp add: resolve_setting_def split: option.splits)

lemma coerceValue_idem: "coerceValue f v = Some w \<Longrightarrow> coerceValue f w = Some w"
  by (auto simp: coerceValue_def setting_number_def split: setting_type.splits json_scalar.splits if_splits option.splits)

lemma setAppSetting_ok:
  assumes "settings_ok (db_app_settings d)" and "no_blank u"
  shows "settings_ok (db_app_settings (setAppSetting cr salt iv a f u v d))"
proof -
  let ?t = "db_app_settings (setAppSetting cr salt iv a f u v d)"
  have "keyed (\<lambda>r. (aps_app_id r, aps_user_id r, aps_key r)) ?t"
    unfolding setAppSetting_def Let_def using assms(1)
    by (simp, intro keyed_upsert) (auto simp: settings_ok_def setting_row_key_def)
  moreover have "list_all (\<lambda>r. no_blank (aps_user_id r)) ?t"
    using assms no_blank_scope [of u f]
    by (auto simp: setAppSetting_def Let_def settings_ok_def sql_upsert_def list_all_iff)
  ultimately show ?thesis by (simp add: settings_ok_def)
qed

lemma setAppSetting_same:
  "\<exists>r. sql_get (setting_row_key a (scopeKey f u) (sf_key f)) (db_app_settings (setAppSetting cr salt iv a f u v d)) = Some r \<and>
     aps_value r = stored_value cr salt iv f v"
  unfolding setAppSetting_def Let_def
  by (simp, subst sql_get_upsert) (auto simp: setting_row_key_def split: option.splits)

lemma setAppSetting_other:
  assumes "(a, s, k) \<noteq> (a', scopeKey f u, sf_key f)"
  shows "sql_get (setting_row_key a s k) (db_app_settings (setAppSetting cr salt iv a' f u v d)) =
    sql_get (setting_row_key a s k) (db_app_settings d)"
  unfolding setAppSetting_def Let_def using assms
  by (simp, intro sql_get_upsert_other) (auto simp: setting_row_key_def)

text \<open>
  A saved setting reads back: the value the field accepted is what the app gets next,
  for every user when the field is administrator-scoped and for the user who saved it
  otherwise; other fields, other users and other apps read what they read before.  A
  secret text is the exception: it is stored sealed and never opened again, so the app
  reads the sealed text when that still fits the field, and the default otherwise.
\<close>

theorem setting_read_back:
  assumes "settings_ok (db_app_settings d)" and "no_blank u" and "no_blank w" and "coerceValue f v = Some x"
  shows "resolve_setting (setAppSetting cr salt iv a f u x d) b w g =
    (if b = a \<and> sf_key g = sf_key f \<and> scopeKey g w = scopeKey f u
     then (case coerceValue g (stored_value cr salt iv f x) of None \<Rightarrow> setting_fallback g | Some y \<Rightarrow> y)
     else resolve_setting d b w g) \<and>
    (\<not> sf_secret f \<longrightarrow> resolve_setting (setAppSetting cr salt iv a f u x d) a u f = x)"
proof -
  let ?d = "setAppSetting cr salt iv a f u x d"
  have ok: "settings_ok (db_app_settings ?d)" using assms(1,2) by (rule setAppSetting_ok)
  have same: "resolve_setting ?d a w g = (case coerceValue g (stored_value cr salt iv f x) of None \<Rightarrow> setting_fallback g | Some y \<Rightarrow> y)"
    if "sf_key g = sf_key f" and "scopeKey g w = scopeKey f u" and "no_blank w" for w g
    using setAppSetting_same [of a f u cr salt iv x d] that resolve_setting_eq [OF ok that(3), of a g]
    by (auto split: option.splits)
  have other: "resolve_setting ?d b w g = resolve_setting d b w g"
    if "\<not> (b = a \<and> sf_key g = sf_key f \<and> scopeKey g w = scopeKey f u)"
    using setAppSetting_other [of b "scopeKey g w" "sf_key g" a f u cr salt iv x d] that
      resolve_setting_eq [OF ok assms(3)] resolve_setting_eq [OF assms(1,3)] by auto
  have "stored_value cr salt iv f x = x" if "\<not> sf_secret f" using that by (simp add: stored_value_def split: json_scalar.splits)
  then show ?thesis using same other assms coerceValue_idem [OF assms(4)] same [OF refl refl assms(2)] by auto
qed

end
