(* ===== verification/Notifications.thy ===== *)
theory Notifications
  imports Users Contracts
begin

text \<open>
  Notifications: \<open>db/notifications.ts\<close>, \<open>notifications/hub.ts\<close> and
  \<open>notifications/routes.ts\<close>.  Besides the table there is the registry of open sockets; a
  delivery is the pair of socket and record that the hub hands out.
\<close>

subsection \<open>\<open>db/notifications.ts\<close>\<close>

record notification =
  no_id :: string
  no_level :: string
  no_title :: string
  no_body :: "string option"
  no_app_id :: "string option"
  no_created_at :: millis
  no_read :: bool

definition LEVELS :: "string list" where
  "LEVELS = [''info'', ''success'', ''warning'', ''critical'']"

definition to_notification :: "notification_row \<Rightarrow> notification" where
  "to_notification r =
     \<lparr>no_id = ntf_id r, no_level = (if ntf_level r \<in> set LEVELS then ntf_level r else ''info''), no_title = ntf_title r,
      no_body = ntf_body r, no_app_id = ntf_app_id r, no_created_at = ntf_created_at r,
      no_read = (ntf_read_at r \<noteq> None)\<rparr>"

record new_notification =
  nn_user_id :: string
  nn_level :: "string option"
  nn_title :: string
  nn_body :: "string option"
  nn_app_id :: "string option"
  nn_dedupe_key :: "string option"

definition HISTORY_LIMIT :: nat where "HISTORY_LIMIT = 200"

definition level_or_info :: "new_notification \<Rightarrow> string" where
  "level_or_info n = (case nn_level n of None \<Rightarrow> ''info'' | Some l \<Rightarrow> l)"

definition new_notification_row :: "string \<Rightarrow> millis \<Rightarrow> new_notification \<Rightarrow> notification_row" where
  "new_notification_row newId now n =
     \<lparr>ntf_id = newId, ntf_user_id = nn_user_id n, ntf_level = level_or_info n, ntf_title = take 200 (nn_title n),
      ntf_body = map_option (take 1000) (nn_body n), ntf_app_id = nn_app_id n, ntf_dedupe_key = nn_dedupe_key n,
      ntf_created_at = now, ntf_read_at = None\<rparr>"

text \<open>The newest rows of a user, which is what the subquery of the trim selects.\<close>

definition newest_ids :: "nat \<Rightarrow> string \<Rightarrow> notification_row list \<Rightarrow> string list" where
  "newest_ids n userId t = map ntf_id (take n (order_desc ntf_created_at (filter (\<lambda>r. ntf_user_id r = userId) t)))"

definition trim_history :: "string \<Rightarrow> notification_row list \<Rightarrow> notification_row list" where
  "trim_history userId t =
     sql_delete (\<lambda>r. ntf_user_id r = userId \<and> ntf_id r \<notin> set (newest_ids HISTORY_LIMIT userId t)) t"

definition drop_repeats :: "new_notification \<Rightarrow> notification_row list \<Rightarrow> notification_row list" where
  "drop_repeats n t =
     (case nn_dedupe_key n of
        None \<Rightarrow> t
      | Some k \<Rightarrow>
          if k = '''' then t
          else sql_delete (\<lambda>r. ntf_user_id r = nn_user_id n \<and> ntf_dedupe_key r = Some k \<and> ntf_read_at r = None) t)"

definition createNotification :: "string \<Rightarrow> millis \<Rightarrow> new_notification \<Rightarrow> db \<Rightarrow> sql_error + notification \<times> db" where
  "createNotification newId now n d =
     with_user d (nn_user_id n)
       (\<lparr>no_id = newId, no_level = level_or_info n, no_title = nn_title n, no_body = nn_body n, no_app_id = nn_app_id n,
         no_created_at = now, no_read = False\<rparr>,
        d\<lparr>db_notifications :=
            trim_history (nn_user_id n) (drop_repeats n (db_notifications d) @ [new_notification_row newId now n])\<rparr>)"

definition listNotifications :: "db \<Rightarrow> string \<Rightarrow> nat \<Rightarrow> notification list" where
  "listNotifications d userId limit =
     map to_notification (take limit (order_desc ntf_created_at (filter (\<lambda>r. ntf_user_id r = userId) (db_notifications d))))"

definition markNotificationRead :: "millis \<Rightarrow> string \<Rightarrow> string \<Rightarrow> db \<Rightarrow> bool \<times> db" where
  "markNotificationRead now userId i d =
     (let P = (\<lambda>r. ntf_id r = i \<and> ntf_user_id r = userId \<and> ntf_read_at r = None)
      in (sql_exists P (db_notifications d),
          d\<lparr>db_notifications := sql_update P (ntf_read_at_update (\<lambda>_. Some now)) (db_notifications d)\<rparr>))"

definition markAllNotificationsRead :: "millis \<Rightarrow> string \<Rightarrow> db \<Rightarrow> nat \<times> db" where
  "markAllNotificationsRead now userId d =
     (let P = (\<lambda>r. ntf_user_id r = userId \<and> ntf_read_at r = None)
      in (sql_count P (db_notifications d),
          d\<lparr>db_notifications := sql_update P (ntf_read_at_update (\<lambda>_. Some now)) (db_notifications d)\<rparr>))"

definition deleteNotification :: "string \<Rightarrow> string \<Rightarrow> db \<Rightarrow> bool \<times> db" where
  "deleteNotification userId i d =
     (let P = (\<lambda>r. ntf_id r = i \<and> ntf_user_id r = userId)
      in (sql_exists P (db_notifications d), d\<lparr>db_notifications := sql_delete P (db_notifications d)\<rparr>))"

definition clearNotifications :: "string \<Rightarrow> db \<Rightarrow> nat \<times> db" where
  "clearNotifications userId d =
     (let P = (\<lambda>r. ntf_user_id r = userId)
      in (sql_count P (db_notifications d), d\<lparr>db_notifications := sql_delete P (db_notifications d)\<rparr>))"

subsection \<open>\<open>notifications/hub.ts\<close>\<close>

type_synonym listeners = "string \<Rightarrow> nat list"

definition subscribeUser :: "string \<Rightarrow> nat \<Rightarrow> listeners \<Rightarrow> listeners" where
  "subscribeUser userId socket ls = ls(userId := (if socket \<in> set (ls userId) then ls userId else ls userId @ [socket]))"

definition unsubscribeUser :: "string \<Rightarrow> nat \<Rightarrow> listeners \<Rightarrow> listeners" where
  "unsubscribeUser userId socket ls = ls(userId := removeAll socket (ls userId))"

definition notifyUser ::
  "string \<Rightarrow> millis \<Rightarrow> listeners \<Rightarrow> new_notification \<Rightarrow> db \<Rightarrow> sql_error + notification \<times> (nat \<times> notification) list \<times> db" where
  "notifyUser newId now ls n d =
     bind_ok (createNotification newId now n d)
       (\<lambda>(rec, d'). Inr (rec, map (\<lambda>s. (s, rec)) (ls (nn_user_id n)), d'))"

definition admins_of :: "db \<Rightarrow> millis \<Rightarrow> user list" where
  "admins_of d now = map aur_user (filter (\<lambda>r. u_role (aur_user r) = Admin \<and> \<not> aur_disabled r) (listUsers d now))"

fun notify_each ::
  "string list \<Rightarrow> millis \<Rightarrow> listeners \<Rightarrow> new_notification \<Rightarrow> user list \<Rightarrow> db \<Rightarrow> sql_error + (nat \<times> notification) list \<times> db" where
  "notify_each ids now ls n [] d = Inr ([], d)"
| "notify_each [] now ls n (u # us) d = Inr ([], d)"
| "notify_each (i # ids) now ls n (u # us) d =
     bind_ok (notifyUser i now ls (n\<lparr>nn_user_id := u_id u\<rparr>) d)
       (\<lambda>(_, sent, d1). bind_ok (notify_each ids now ls n us d1) (\<lambda>(more, d2). Inr (sent @ more, d2)))"

definition notifyAdmins ::
  "string list \<Rightarrow> millis \<Rightarrow> listeners \<Rightarrow> new_notification \<Rightarrow> db \<Rightarrow> sql_error + nat \<times> (nat \<times> notification) list \<times> db" where
  "notifyAdmins ids now ls n d =
     bind_ok (notify_each ids now ls n (admins_of d now) d) (\<lambda>(sent, d'). Inr (length (admins_of d now), sent, d'))"

subsection \<open>\<open>notifications/routes.ts\<close>\<close>

definition getNotifications :: "db \<Rightarrow> user \<Rightarrow> notification list \<times> nat" where
  "getNotifications d u =
     (let ns = listNotifications d (u_id u) 100 in (ns, length (filter (\<lambda>n. \<not> no_read n) ns)))"

definition postReadNotification :: "millis \<Rightarrow> user \<Rightarrow> string option \<Rightarrow> db \<Rightarrow> (bool \<times> nat) reply \<times> db" where
  "postReadNotification now u i d =
     (case i of
        None \<Rightarrow> (let (marked, d') = markAllNotificationsRead now (u_id u) d in (Sent (True, marked), d'))
      | Some j \<Rightarrow>
          if j = '''' \<or> length j > 64 then (Refused 400 ''invalid'', d)
          else (let (ok, d') = markNotificationRead now (u_id u) j d in (Sent (ok, if ok then 1 else 0), d')))"

definition deleteNotificationRoute :: "user \<Rightarrow> string \<Rightarrow> db \<Rightarrow> unit reply \<times> db" where
  "deleteNotificationRoute u i d =
     (let (ok, d') = deleteNotification (u_id u) i d in (if ok then Sent () else Refused 404 ''not_found'', d'))"

definition deleteAllNotifications :: "user \<Rightarrow> db \<Rightarrow> nat reply \<times> db" where
  "deleteAllNotifications u d = (let (n, d') = clearNotifications (u_id u) d in (Sent n, d'))"

subsection \<open>Lemmas\<close>

interpretation own_notifications: owned_rows db_notifications ntf_id ntf_user_id deleteNotification
  by unfold_locales (auto simp: deleteNotification_def Let_def sql_exists_iff)

text \<open>
  A bounded history without two unread rows for one ongoing condition.
\<close>

definition history_ok :: "notification_row list \<Rightarrow> bool" where
  "history_ok t \<longleftrightarrow> keyed ntf_id t \<and> (\<forall>u. sql_count (\<lambda>r. ntf_user_id r = u) t \<le> HISTORY_LIMIT) \<and>
     (\<forall>u k. k \<noteq> '''' \<longrightarrow> sql_count (\<lambda>r. ntf_user_id r = u \<and> ntf_dedupe_key r = Some k \<and> ntf_read_at r = None) t \<le> 1)"

lemma distinct_length_le: "distinct xs \<Longrightarrow> set xs \<subseteq> set ys \<Longrightarrow> length xs \<le> length ys"
  by (metis List.finite_set card_length card_mono distinct_card le_trans)

lemma length_newest_ids: "length (newest_ids n u t) \<le> n"
  by (simp add: newest_ids_def)

lemma trim_bounds: "keyed ntf_id t \<Longrightarrow> sql_count (\<lambda>r. ntf_user_id r = u) (trim_history u t) \<le> HISTORY_LIMIT"
proof -
  assume keyed: "keyed ntf_id t"
  let ?kept = "map ntf_id (filter (\<lambda>r. ntf_user_id r = u) (trim_history u t))"
  have "distinct ?kept" using keyed by (simp add: trim_history_def sql_delete_def keyed_def distinct_map_filter)
  moreover have "set ?kept \<subseteq> set (newest_ids HISTORY_LIMIT u t)" by (auto simp: trim_history_def)
  ultimately have "length ?kept \<le> length (newest_ids HISTORY_LIMIT u t)" by (rule distinct_length_le)
  then show ?thesis using length_newest_ids [of HISTORY_LIMIT u t] by (simp add: sql_count_def)
qed

lemma trim_other: "u \<noteq> v \<Longrightarrow> sql_count (\<lambda>r. ntf_user_id r = v) (trim_history u t) = sql_count (\<lambda>r. ntf_user_id r = v) t"
  unfolding trim_history_def by (rule sql_count_delete_disjoint) auto

lemma trim_le: "sql_count P (trim_history u t) \<le> sql_count P t"
  unfolding trim_history_def by (rule sql_count_delete_le)

lemma drop_repeats_keyed: "keyed ntf_id t \<Longrightarrow> keyed ntf_id (drop_repeats n t)"
  by (auto simp: drop_repeats_def split: option.splits)

lemma drop_repeats_le: "sql_count P (drop_repeats n t) \<le> sql_count P t"
  by (auto simp: drop_repeats_def sql_count_delete_le split: option.splits)

lemma drop_repeats_subset: "set (drop_repeats n t) \<subseteq> set t"
  by (auto simp: drop_repeats_def split: option.splits if_splits)

lemma drop_repeats_none:
  "k \<noteq> '''' \<Longrightarrow> nn_dedupe_key n = Some k \<Longrightarrow>
   sql_count (\<lambda>r. ntf_user_id r = nn_user_id n \<and> ntf_dedupe_key r = Some k \<and> ntf_read_at r = None) (drop_repeats n t) = 0"
  by (simp add: drop_repeats_def)

lemma history_create:
  assumes "history_ok t" and "newId \<notin> ntf_id ` set t"
  shows "history_ok (trim_history (nn_user_id n) (drop_repeats n t @ [new_notification_row newId now n]))"
    (is "history_ok (trim_history ?u (?old @ [?new]))")
proof -
  have keyed: "keyed ntf_id (?old @ [?new])"
    using assms drop_repeats_subset [of n t] drop_repeats_keyed [of t n]
    by (intro keyed_snoc) (auto simp: history_ok_def new_notification_row_def)
  have owner: "ntf_user_id ?new = ?u" by (simp add: new_notification_row_def)
  have count: "sql_count (\<lambda>r. ntf_user_id r = v) (trim_history ?u (?old @ [?new])) \<le> HISTORY_LIMIT" for v
  proof (cases "v = ?u")
    case False
    then have "sql_count (\<lambda>r. ntf_user_id r = v) (trim_history ?u (?old @ [?new])) = sql_count (\<lambda>r. ntf_user_id r = v) ?old"
      using trim_other [of ?u v] owner by simp
    then show ?thesis using assms(1) drop_repeats_le [of "\<lambda>r. ntf_user_id r = v" n t] by (auto simp: history_ok_def intro: order_trans)
  qed (simp add: trim_bounds keyed)
  have unread: "sql_count (\<lambda>r. ntf_user_id r = v \<and> ntf_dedupe_key r = Some k \<and> ntf_read_at r = None)
      (trim_history ?u (?old @ [?new])) \<le> 1" if "k \<noteq> ''''" for v k
  proof -
    let ?P = "\<lambda>r. ntf_user_id r = v \<and> ntf_dedupe_key r = Some k \<and> ntf_read_at r = None"
    have "sql_count ?P (?old @ [?new]) \<le> 1"
    proof (cases "v = ?u \<and> nn_dedupe_key n = Some k")
      case True
      then show ?thesis using drop_repeats_none [OF that, of n t] by simp
    next
      case False
      then have "\<not> ?P ?new" by (auto simp: new_notification_row_def)
      then show ?thesis using assms(1) that drop_repeats_le [of ?P n t] by (auto simp: history_ok_def intro: order_trans)
    qed
    then show ?thesis using trim_le [of ?P ?u "?old @ [?new]"] by linarith
  qed
  have "keyed ntf_id (trim_history ?u (?old @ [?new]))" unfolding trim_history_def using keyed by (rule keyed_delete)
  then show ?thesis using count unread by (simp add: history_ok_def)
qed

lemma history_delete: "history_ok t \<Longrightarrow> history_ok (sql_delete P t)"
  by (auto simp: history_ok_def intro: order_trans [OF sql_count_delete_le])

lemma history_read:
  assumes "history_ok t"
  shows "history_ok (sql_update P (ntf_read_at_update (\<lambda>_. Some now)) t)"
proof -
  have "sql_count (\<lambda>r. ntf_user_id r = u \<and> ntf_dedupe_key r = Some k \<and> ntf_read_at r = None)
      (sql_update P (ntf_read_at_update (\<lambda>_. Some now)) t) \<le>
     sql_count (\<lambda>r. ntf_user_id r = u \<and> ntf_dedupe_key r = Some k \<and> ntf_read_at r = None) t" for u k
    by (induction t) auto
  moreover have "sql_count (\<lambda>r. ntf_user_id r = u) (sql_update P (ntf_read_at_update (\<lambda>_. Some now)) t) =
     sql_count (\<lambda>r. ntf_user_id r = u) t" for u by (rule sql_count_update) simp
  moreover have "keyed ntf_id (sql_update P (ntf_read_at_update (\<lambda>_. Some now)) t)"
    using assms by (intro keyed_update) (simp_all add: history_ok_def)
  ultimately show ?thesis using assms unfolding history_ok_def by (metis (no_types, lifting) order_trans)
qed

datatype notification_op = NCreate string millis new_notification | NRead millis string string
  | NReadAll millis string | NDelete string string | NClear string

fun notification_step :: "notification_op \<Rightarrow> db \<Rightarrow> db" where
  "notification_step (NCreate i now n) d = (case createNotification i now n d of Inl e \<Rightarrow> d | Inr (rec, d') \<Rightarrow> d')"
| "notification_step (NRead now u i) d = snd (markNotificationRead now u i d)"
| "notification_step (NReadAll now u) d = snd (markAllNotificationsRead now u d)"
| "notification_step (NDelete u i) d = snd (deleteNotification u i d)"
| "notification_step (NClear u) d = snd (clearNotifications u d)"

text \<open>The ids \<open>nanoid\<close> draws are new: none is in the table and none is drawn twice.\<close>

fun fresh_ids :: "string list \<Rightarrow> notification_op list \<Rightarrow> bool" where
  "fresh_ids used [] = True"
| "fresh_ids used (NCreate i now n # ops) = (i \<notin> set used \<and> fresh_ids (i # used) ops)"
| "fresh_ids used (_ # ops) = fresh_ids used ops"

lemma step_history:
  assumes "history_ok (db_notifications d)" and "ntf_id ` set (db_notifications d) \<subseteq> set used" and "fresh_ids used (q # ops)"
  shows "history_ok (db_notifications (notification_step q d)) \<and>
    (\<exists>used'. ntf_id ` set (db_notifications (notification_step q d)) \<subseteq> set used' \<and> fresh_ids used' ops)"
proof (cases q)
  case (NCreate i now n)
  have new: "i \<notin> ntf_id ` set (db_notifications d)" and later: "fresh_ids (i # used) ops"
    using assms(2,3) NCreate by auto
  have "ntf_id ` set (trim_history (nn_user_id n) (drop_repeats n (db_notifications d) @ [new_notification_row i now n]))
      \<subseteq> set (i # used)"
    using assms(2) drop_repeats_subset [of n "db_notifications d"]
    by (auto simp: trim_history_def new_notification_row_def)
  then have "ntf_id ` set (db_notifications (notification_step q d)) \<subseteq> set (i # used)"
    using assms(2) NCreate by (auto simp: createNotification_def with_user_def)
  moreover have "history_ok (db_notifications (notification_step q d))"
    using history_create [OF assms(1) new, of n now] assms(1) NCreate by (auto simp: createNotification_def with_user_def)
  ultimately show ?thesis using later by blast
qed (use assms in \<open>auto simp: markNotificationRead_def markAllNotificationsRead_def deleteNotification_def
    clearNotifications_def Let_def history_delete history_read intro!: exI [of _ used]\<close>)

text \<open>
  Whatever is sent, read and deleted, no user ever has more than 200 notifications, and
  an ongoing condition has at most one unread row per user.
\<close>

theorem notifications_bounded:
  assumes "history_ok (db_notifications d)" and "fresh_ids (map ntf_id (db_notifications d)) ops"
  shows "history_ok (db_notifications (fold notification_step ops d))"
proof -
  have "history_ok (db_notifications d) \<Longrightarrow> ntf_id ` set (db_notifications d) \<subseteq> set used \<Longrightarrow> fresh_ids used ops \<Longrightarrow>
      history_ok (db_notifications (fold notification_step ops d))" for used
  proof (induction ops arbitrary: d used)
    case (Cons q ops)
    then show ?case using step_history [of d used q ops] by auto
  qed simp
  then show ?thesis using assms by (metis image_set subset_refl)
qed

end
