(* ===== verification/Scheduler.thy ===== *)
theory Scheduler
  imports Apps Notifications
begin

text \<open>
  The work apps schedule: \<open>db/scheduled-tasks.ts\<close> and \<open>apps/scheduler.ts\<close>.  An action is
  stored as JSON text and read back with the parser, so the runner sees what the route
  accepted.
\<close>

subsection \<open>\<open>db/scheduled-tasks.ts\<close>\<close>

datatype scheduled_action =
    NotifyAction string "string option" "string option"
  | FetchAction string "string option" "(string \<times> string) list option" string

definition optional_member :: "string \<Rightarrow> ('a \<Rightarrow> json) \<Rightarrow> 'a option \<Rightarrow> (string \<times> json) list" where
  "optional_member k f v = (case v of None \<Rightarrow> [] | Some x \<Rightarrow> [(k, f x)])"

definition headers_json :: "(string \<times> string) list \<Rightarrow> json" where
  "headers_json hs = JObj (map (\<lambda>(n, v). (n, JStr v)) hs)"

fun action_json :: "scheduled_action \<Rightarrow> json" where
  "action_json (NotifyAction title body level) =
     JObj ([(''kind'', JStr ''notify''), (''title'', JStr title)] @ optional_member ''body'' JStr body @
           optional_member ''level'' JStr level)"
| "action_json (FetchAction u meth headers storeAs) =
     JObj ([(''kind'', JStr ''fetch''), (''url'', JStr u)] @ optional_member ''method'' JStr meth @
           optional_member ''headers'' headers_json headers @ [(''storeAs'', JStr storeAs)])"

definition string_of :: "json option \<Rightarrow> string option" where
  "string_of v = (case v of Some (JStr s) \<Rightarrow> Some s | _ \<Rightarrow> None)"

definition headers_of :: "json option \<Rightarrow> (string \<times> string) list option" where
  "headers_of v = (case v of
     Some (JObj ms) \<Rightarrow> Some (List.map_filter (\<lambda>(n, j). map_option (Pair n) (string_of (Some j))) ms)
   | _ \<Rightarrow> None)"

text \<open>\<open>JSON.parse(row.action) as ScheduledAction\<close>: \<open>None\<close> for a kind the runner does not know.\<close>

definition action_of_json :: "json \<Rightarrow> scheduled_action option" where
  "action_of_json j =
     (case string_of (jget j ''kind'') of
        None \<Rightarrow> None
      | Some k \<Rightarrow>
          if k = ''notify'' then
            map_option (\<lambda>t. NotifyAction t (string_of (jget j ''body'')) (string_of (jget j ''level'')))
              (string_of (jget j ''title''))
          else if k = ''fetch'' then
            (case (string_of (jget j ''url''), string_of (jget j ''storeAs'')) of
               (Some u, Some s) \<Rightarrow> Some (FetchAction u (string_of (jget j ''method'')) (headers_of (jget j ''headers'')) s)
             | _ \<Rightarrow> None)
          else None)"

definition action_of :: "string \<Rightarrow> scheduled_action option" where
  "action_of txt = Option.bind (json_parse txt) action_of_json"

record task =
  tk_id :: string
  tk_app_id :: string
  tk_user_id :: string
  tk_name :: string
  tk_interval :: int
  tk_action :: "scheduled_action option"
  tk_enabled :: bool
  tk_next_run_at :: millis
  tk_last_run_at :: "millis option"
  tk_last_status :: "string option"
  tk_last_error :: "string option"
  tk_created_at :: millis

definition toTask :: "task_row \<Rightarrow> task" where
  "toTask r =
     \<lparr>tk_id = tsk_id r, tk_app_id = tsk_app_id r, tk_user_id = tsk_user_id r, tk_name = tsk_name r,
      tk_interval = tsk_interval_sec r, tk_action = action_of (tsk_action r), tk_enabled = tsk_enabled r,
      tk_next_run_at = tsk_next_run_at r, tk_last_run_at = tsk_last_run_at r, tk_last_status = tsk_last_status r,
      tk_last_error = tsk_last_error r, tk_created_at = tsk_created_at r\<rparr>"

definition task_of :: "string \<Rightarrow> string \<Rightarrow> task_row \<Rightarrow> bool" where
  "task_of appId userId r \<longleftrightarrow> tsk_app_id r = appId \<and> tsk_user_id r = userId"

definition task_key :: "string \<Rightarrow> string \<Rightarrow> string \<Rightarrow> task_row \<Rightarrow> bool" where
  "task_key appId userId name r \<longleftrightarrow> task_of appId userId r \<and> tsk_name r = name"

definition listTasks :: "db \<Rightarrow> string \<Rightarrow> string \<Rightarrow> task list" where
  "listTasks d appId userId = map toTask (order_asc tsk_name (filter (task_of appId userId) (db_tasks d)))"

definition countTasks :: "db \<Rightarrow> string \<Rightarrow> string \<Rightarrow> nat" where
  "countTasks d appId userId = sql_count (task_of appId userId) (db_tasks d)"

definition getTask :: "db \<Rightarrow> string \<Rightarrow> string \<Rightarrow> string \<Rightarrow> task option" where
  "getTask d appId userId name = map_option toTask (sql_get (task_key appId userId name) (db_tasks d))"

record upsert_task =
  ut_app_id :: string
  ut_user_id :: string
  ut_name :: string
  ut_interval :: int
  ut_action :: scheduled_action
  ut_enabled :: "bool option"

definition next_run :: "millis \<Rightarrow> upsert_task \<Rightarrow> millis" where
  "next_run now q = now + ut_interval q * 1000"

definition new_task_row :: "string \<Rightarrow> millis \<Rightarrow> upsert_task \<Rightarrow> task_row" where
  "new_task_row newId now q =
     \<lparr>tsk_id = newId, tsk_app_id = ut_app_id q, tsk_user_id = ut_user_id q, tsk_name = ut_name q,
      tsk_interval_sec = ut_interval q, tsk_action = stringify (action_json (ut_action q)),
      tsk_enabled = (ut_enabled q \<noteq> Some False), tsk_next_run_at = next_run now q, tsk_last_run_at = None,
      tsk_last_status = None, tsk_last_error = None, tsk_created_at = now\<rparr>"

definition registered_again :: "millis \<Rightarrow> upsert_task \<Rightarrow> task_row \<Rightarrow> task_row" where
  "registered_again now q r =
     r\<lparr>tsk_interval_sec := ut_interval q, tsk_action := stringify (action_json (ut_action q)),
       tsk_enabled := (ut_enabled q \<noteq> Some False),
       tsk_next_run_at := (if tsk_interval_sec r \<noteq> ut_interval q then next_run now q else tsk_next_run_at r)\<rparr>"

definition upsertTask :: "string \<Rightarrow> millis \<Rightarrow> upsert_task \<Rightarrow> db \<Rightarrow> sql_error + task \<times> db" where
  "upsertTask newId now q d =
     (let d' = d\<lparr>db_tasks := sql_upsert (task_key (ut_app_id q) (ut_user_id q) (ut_name q))
                   (registered_again now q) (new_task_row newId now q) (db_tasks d)\<rparr>
      in with_user d (ut_user_id q) (the (getTask d' (ut_app_id q) (ut_user_id q) (ut_name q)), d'))"

definition deleteTask :: "string \<Rightarrow> string \<Rightarrow> string \<Rightarrow> db \<Rightarrow> bool \<times> db" where
  "deleteTask appId userId name d =
     (sql_exists (task_key appId userId name) (db_tasks d),
      d\<lparr>db_tasks := sql_delete (task_key appId userId name) (db_tasks d)\<rparr>)"

definition deleteTasksForApp :: "string \<Rightarrow> db \<Rightarrow> nat \<times> db" where
  "deleteTasksForApp appId d =
     (sql_count (\<lambda>r. tsk_app_id r = appId) (db_tasks d), d\<lparr>db_tasks := sql_delete (\<lambda>r. tsk_app_id r = appId) (db_tasks d)\<rparr>)"

definition DUE_LIMIT :: nat where "DUE_LIMIT = 25"

definition dueTasks :: "millis \<Rightarrow> db \<Rightarrow> task list" where
  "dueTasks now d =
     map toTask (take DUE_LIMIT (order_asc tsk_next_run_at (filter (\<lambda>r. tsk_enabled r \<and> tsk_next_run_at r \<le> now) (db_tasks d))))"

definition completeRun :: "millis \<Rightarrow> string \<Rightarrow> int \<Rightarrow> string \<Rightarrow> string option \<Rightarrow> db \<Rightarrow> db" where
  "completeRun now i interval status err d =
     d\<lparr>db_tasks := sql_update (\<lambda>r. tsk_id r = i)
         (\<lambda>r. r\<lparr>tsk_last_run_at := Some now, tsk_last_status := Some status, tsk_last_error := map_option (take 500) err,
                tsk_next_run_at := now + interval * 1000\<rparr>) (db_tasks d)\<rparr>"

subsection \<open>\<open>apps/scheduler.ts\<close>\<close>

definition MIN_INTERVAL_SECONDS :: int where "MIN_INTERVAL_SECONDS = 15 * 60"
definition MAX_INTERVAL_SECONDS :: int where "MAX_INTERVAL_SECONDS = 30 * 24 * 60 * 60"
definition MAX_TASKS_PER_APP :: nat where "MAX_TASKS_PER_APP = 10"
definition MAX_STORED :: nat where "MAX_STORED = 256 * 1024"

text \<open>
  What a run does besides the database: the notification handed to sockets and the
  connections of the proxy.  The failures are the \<open>TaskError\<close>s, the proxy's refusals, and
  a crash (a statement that throws).
\<close>

record run_effects =
  re_sent :: "(nat \<times> notification) list"
  re_connections :: "(hop \<times> string) list"

definition no_effects :: run_effects where
  "no_effects = \<lparr>re_sent = [], re_connections = []\<rparr>"

datatype run_error = TaskError string | RunDenied fetch_denied | RunCrashed

record runner =
  rn_now :: millis
  rn_ids :: "string \<Rightarrow> string"
  rn_listeners :: listeners
  rn_world :: world

definition reminder :: "task \<Rightarrow> string \<Rightarrow> string option \<Rightarrow> string option \<Rightarrow> new_notification" where
  "reminder t title body level =
     \<lparr>nn_user_id = tk_user_id t, nn_level = Some (case level of None \<Rightarrow> ''info'' | Some l \<Rightarrow> l), nn_title = title, nn_body = body,
      nn_app_id = Some (tk_app_id t), nn_dedupe_key = Some (''app-task:'' @ tk_app_id t @ '':'' @ tk_id t)\<rparr>"

definition run_fetch ::
  "runner \<Rightarrow> task \<Rightarrow> app_manifest \<Rightarrow> string \<Rightarrow> string option \<Rightarrow> (string \<times> string) list option \<Rightarrow> string \<Rightarrow> db \<Rightarrow>
     (run_error + db) \<times> run_effects" where
  "run_fetch e t m u meth headers storeAs d =
     (if PFetch \<notin> set (am_permissions m) then (Inl (TaskError ''The app no longer has network access.''), no_effects)
      else if PStorage \<notin> set (am_permissions m) then (Inl (TaskError ''The app no longer has storage access.''), no_effects)
      else if am_fetch_hosts m = [] then (Inl (TaskError ''The app has no allowed hosts.''), no_effects)
      else
        (let (res, conns) = proxyFetch (rn_world e)
               \<lparr>fq_url = u, fq_method = meth, fq_headers = (case headers of None \<Rightarrow> [] | Some hs \<Rightarrow> hs), fq_body = None\<rparr>
               (am_fetch_hosts m);
             effects = no_effects\<lparr>re_connections := conns\<rparr>
         in case res of
              Inl refusal \<Rightarrow> (Inl (RunDenied refusal), effects)
            | Inr r \<Rightarrow>
                if fr_status r < 200 \<or> fr_status r \<ge> 300 then (Inl (TaskError (''The request returned HTTP '' @ js_nat (fr_status r) @ ''.'')), effects)
                else if length (fr_body r) > MAX_STORED then (Inl (TaskError ''The response is too large to store.''), effects)
                else (case setAppStorage (tk_app_id t) (tk_user_id t) storeAs (fr_body r) d of
                        Inl x \<Rightarrow> (Inl RunCrashed, effects)
                      | Inr d' \<Rightarrow> (Inr d', effects))))"

definition runAction :: "runner \<Rightarrow> task \<Rightarrow> db \<Rightarrow> (run_error + db) \<times> run_effects" where
  "runAction e t d =
     (case getInstalledApp d (tk_app_id t) of
        None \<Rightarrow> (Inl (TaskError ''The app is no longer installed.''), no_effects)
      | Some installed \<Rightarrow>
          if \<not> app_enabled installed then (Inl (TaskError ''The app is disabled.''), no_effects)
          else
            (case tk_action t of
               None \<Rightarrow> (Inl (TaskError ''Unknown action.''), no_effects)
             | Some (NotifyAction title body level) \<Rightarrow>
                 if PNotifications \<notin> set (am_permissions (app_manifest_json installed))
                 then (Inl (TaskError ''The app no longer has notification access.''), no_effects)
                 else (case notifyUser (rn_ids e (tk_id t)) (rn_now e) (rn_listeners e) (reminder t title body level) d of
                         Inl x \<Rightarrow> (Inl RunCrashed, no_effects)
                       | Inr (_, sent, d') \<Rightarrow> (Inr d', no_effects\<lparr>re_sent := sent\<rparr>))
             | Some (FetchAction u meth headers storeAs) \<Rightarrow>
                 run_fetch e t (app_manifest_json installed) u meth headers storeAs d))"

text \<open>The recorded message; of a refusal by the proxy only that it was one.\<close>

definition error_text :: "run_error \<Rightarrow> string" where
  "error_text x = (case x of TaskError s \<Rightarrow> s | RunDenied f \<Rightarrow> ''fetch denied'' | RunCrashed \<Rightarrow> ''The task could not be completed.'')"

record run_totals =
  rt_ran :: nat
  rt_failed :: nat

fun run_tasks :: "runner \<Rightarrow> task list \<Rightarrow> db \<Rightarrow> run_totals \<times> run_effects list \<times> db" where
  "run_tasks e [] d = (\<lparr>rt_ran = 0, rt_failed = 0\<rparr>, [], d)"
| "run_tasks e (t # ts) d =
     (if getInstalledApp d (tk_app_id t) = None then run_tasks e ts (snd (deleteTasksForApp (tk_app_id t) d))
      else
        (case runAction e t d of
           (Inr d1, effects) \<Rightarrow>
             (let (n, more, d2) = run_tasks e ts (completeRun (rn_now e) (tk_id t) (tk_interval t) ''ok'' None d1)
              in (n\<lparr>rt_ran := Suc (rt_ran n)\<rparr>, effects # more, d2))
         | (Inl x, effects) \<Rightarrow>
             (let (n, more, d2) = run_tasks e ts (completeRun (rn_now e) (tk_id t) (tk_interval t) ''error'' (Some (error_text x)) d)
              in (n\<lparr>rt_failed := Suc (rt_failed n)\<rparr>, effects # more, d2))))"

definition runDueTasks :: "runner \<Rightarrow> db \<Rightarrow> run_totals \<times> run_effects list \<times> db" where
  "runDueTasks e d = run_tasks e (dueTasks (rn_now e) d) d"

subsection \<open>Lemmas\<close>

lemma jget_Nil [simp]: "jget (JObj []) j = None"
  by (simp add: jget_def)

lemma jget_Cons [simp]:
  "jget (JObj ((k, v) # ms)) j = (case jget (JObj ms) j of None \<Rightarrow> if j = k then Some v else None | Some w \<Rightarrow> Some w)"
  by (simp add: jget_def map_add_def split: option.splits)

lemma headers_roundtrip: "headers_of (Some (headers_json hs)) = Some hs"
  by (induction hs) (auto simp: headers_of_def headers_json_def string_of_def map_filter_simps)

lemma headers_of_None: "headers_of None = None"
  by (simp add: headers_of_def)

lemma action_json_back: "action_of_json (action_json a) = Some a"
proof (cases a)
  case (NotifyAction title body level)
  then show ?thesis
    by (cases body; cases level) (simp_all add: action_of_json_def optional_member_def string_of_def)
next
  case (FetchAction u meth headers storeAs)
  then show ?thesis
    by (cases meth; cases headers)
      (simp_all add: action_of_json_def optional_member_def string_of_def headers_roundtrip headers_of_None)
qed

lemma action_roundtrip: "action_of (stringify (action_json a)) = Some a"
  unfolding action_of_def Json.json_roundtrip by (simp add: action_json_back)

subsection \<open>Registering\<close>

text \<open>
  Registering a task is idempotent for its timer: the task reads back with the interval
  and the action that were sent; a new task and a changed interval are one interval away,
  and an unchanged one keeps the time it was armed for, so an app that registers on every
  launch neither fires nor starves its task.
\<close>

theorem upsert_rearms_only_changes:
  assumes "upsertTask newId now q d = Inr (t, d')"
  shows "getTask d' (ut_app_id q) (ut_user_id q) (ut_name q) = Some t \<and>
    tk_interval t = ut_interval q \<and> tk_action t = Some (ut_action q) \<and> (tk_enabled t \<longleftrightarrow> ut_enabled q \<noteq> Some False) \<and>
    tk_next_run_at t =
      (case getTask d (ut_app_id q) (ut_user_id q) (ut_name q) of
         None \<Rightarrow> now + ut_interval q * 1000
       | Some old \<Rightarrow> if tk_interval old \<noteq> ut_interval q then now + ut_interval q * 1000 else tk_next_run_at old)"
proof -
  let ?P = "task_key (ut_app_id q) (ut_user_id q) (ut_name q)"
  have t: "t = the (getTask d' (ut_app_id q) (ut_user_id q) (ut_name q))"
    and d': "db_tasks d' = sql_upsert ?P (registered_again now q) (new_task_row newId now q) (db_tasks d)"
    using assms by (auto simp: upsertTask_def Let_def with_user_def split: if_splits)
  have "sql_get ?P (db_tasks d') = Some (case sql_get ?P (db_tasks d) of
      None \<Rightarrow> new_task_row newId now q | Some r \<Rightarrow> registered_again now q r)"
    unfolding d' by (rule sql_get_upsert) (simp_all add: task_key_def task_of_def registered_again_def new_task_row_def)
  then show ?thesis unfolding t getTask_def
    by (cases "sql_get ?P (db_tasks d)")
      (simp_all add: toTask_def action_roundtrip registered_again_def new_task_row_def next_run_def)
qed

subsection \<open>Running\<close>

definition due :: "millis \<Rightarrow> task_row \<Rightarrow> bool" where
  "due now r \<longleftrightarrow> tsk_enabled r \<and> tsk_next_run_at r \<le> now"

lemma installed_kept [simp]:
  "db_installed_apps (completeRun now i k st er d) = db_installed_apps d"
  "db_installed_apps (snd (deleteTasksForApp a d)) = db_installed_apps d"
  "getInstalledApp (completeRun now i k st er d) = getInstalledApp d"
  "getInstalledApp (snd (deleteTasksForApp a d)) = getInstalledApp d"
  by (simp_all add: completeRun_def deleteTasksForApp_def getInstalledApp_def fun_eq_iff)

lemma notifyUser_tables:
  "notifyUser i now ls n d = Inr (rec, sent, d') \<Longrightarrow>
   d' = d\<lparr>db_notifications := db_notifications d'\<rparr> \<and> list_all (\<lambda>(s, r). s \<in> set (ls (nn_user_id n))) sent"
  by (auto simp: notifyUser_def createNotification_def with_user_def bind_ok_def list_all_iff split: if_splits)

lemma runAction_tables:
  "runAction e t d = (Inr d', eff) \<Longrightarrow>
   d' = d\<lparr>db_notifications := db_notifications d', db_app_storage := db_app_storage d'\<rparr>"
  by (auto simp: runAction_def run_fetch_def setAppStorage_def with_user_def Let_def case_prod_beta
      split: option.splits if_splits scheduled_action.splits sum.splits dest!: notifyUser_tables)

text \<open>What an effect of a run presupposes.\<close>

definition authorised :: "db \<Rightarrow> task \<Rightarrow> run_effects \<Rightarrow> bool" where
  "authorised d t eff \<longleftrightarrow>
     (re_sent eff = [] \<and> re_connections eff = []) \<or>
     (\<exists>r. getInstalledApp d (tk_app_id t) = Some r \<and> app_enabled r \<and>
        (re_sent eff = [] \<or> PNotifications \<in> set (am_permissions (app_manifest_json r))) \<and>
        (re_connections eff = [] \<or> PFetch \<in> set (am_permissions (app_manifest_json r)) \<and>
           PStorage \<in> set (am_permissions (app_manifest_json r)) \<and>
           list_all (allowed_connection (am_fetch_hosts (app_manifest_json r))) (re_connections eff)))"

lemma authorised_none [simp]: "authorised d t no_effects"
  by (simp add: authorised_def no_effects_def)

lemma run_fetch_effects:
  "snd (run_fetch e t m u meth headers storeAs d) = no_effects \<or>
   PFetch \<in> set (am_permissions m) \<and> PStorage \<in> set (am_permissions m) \<and>
   re_sent (snd (run_fetch e t m u meth headers storeAs d)) = [] \<and>
   list_all (allowed_connection (am_fetch_hosts m)) (re_connections (snd (run_fetch e t m u meth headers storeAs d)))"
proof -
  obtain res conns where p: "proxyFetch (rn_world e)
      \<lparr>fq_url = u, fq_method = meth, fq_headers = (case headers of None \<Rightarrow> [] | Some hs \<Rightarrow> hs), fq_body = None\<rparr>
      (am_fetch_hosts m) = (res, conns)" by force
  then have "list_all (allowed_connection (am_fetch_hosts m)) conns" by (metis proxy_connections snd_conv)
  then show ?thesis by (auto simp: run_fetch_def p no_effects_def Let_def split: sum.splits)
qed

lemma runAction_authorised: "authorised d t (snd (runAction e t d))"
proof (cases "getInstalledApp d (tk_app_id t)")
  case (Some r)
  show ?thesis
  proof (cases "tk_action t")
    case (Some a)
    show ?thesis
    proof (cases a)
      case (NotifyAction title body level)
      then show ?thesis using \<open>getInstalledApp d (tk_app_id t) = Some r\<close> Some
        by (auto simp: runAction_def authorised_def no_effects_def split: sum.splits)
    next
      case (FetchAction u meth headers storeAs)
      then show ?thesis
        using \<open>getInstalledApp d (tk_app_id t) = Some r\<close> Some
          run_fetch_effects [of e t "app_manifest_json r" u meth headers storeAs d]
        by (auto simp: runAction_def authorised_def no_effects_def)
    qed
  qed (simp add: runAction_def Some)
qed (simp add: runAction_def)

lemma authorised_cong: "getInstalledApp d = getInstalledApp d' \<Longrightarrow> authorised d t eff = authorised d' t eff"
  by (simp add: authorised_def)

lemma runAction_installed: "runAction e t d = (Inr d', eff) \<Longrightarrow> getInstalledApp d' = getInstalledApp d"
  using arg_cong [OF runAction_tables [of e t d d' eff], of db_installed_apps] by (simp add: getInstalledApp_def fun_eq_iff)

lemma run_tasks_authorised:
  assumes "run_tasks e ts d = (n, effs, d')"
  shows "list_all (\<lambda>eff. list_ex (\<lambda>t. authorised d t eff) ts) effs \<and> length effs = rt_ran n + rt_failed n \<and>
    length effs \<le> length ts"
  using assms
proof (induction ts arbitrary: d n effs d')
  case (Cons t ts)
  have IH: "list_all (\<lambda>eff. list_ex (\<lambda>t. authorised d t eff) (t # ts)) (fst (snd (run_tasks e ts c))) \<and>
      length (fst (snd (run_tasks e ts c))) = rt_ran (fst (run_tasks e ts c)) + rt_failed (fst (run_tasks e ts c)) \<and>
      length (fst (snd (run_tasks e ts c))) \<le> length ts"
    if "getInstalledApp c = getInstalledApp d" for c
    using Cons.IH [of c] authorised_cong [OF that] by (cases "run_tasks e ts c") (auto simp: list_all_iff)
  show ?case
  proof (cases "getInstalledApp d (tk_app_id t)")
    case None
    then show ?thesis using Cons.prems IH [of "snd (deleteTasksForApp (tk_app_id t) d)"] by simp
  next
    case (Some r)
    obtain res eff where run: "runAction e t d = (res, eff)" by force
    have own: "authorised d t eff" using runAction_authorised [of d t e] run by simp
    define c where "c = (case res of Inr d1 \<Rightarrow> completeRun (rn_now e) (tk_id t) (tk_interval t) ''ok'' None d1
      | Inl x \<Rightarrow> completeRun (rn_now e) (tk_id t) (tk_interval t) ''error'' (Some (error_text x)) d)"
    have "getInstalledApp c = getInstalledApp d"
      using run runAction_installed by (auto simp: c_def split: sum.splits)
    then show ?thesis using Cons.prems IH [of c] own Some run
      by (auto simp: c_def case_prod_beta split: sum.splits)
  qed
qed simp


subsection \<open>The backlog\<close>

definition tasks_ok :: "db \<Rightarrow> bool" where
  "tasks_ok d \<longleftrightarrow> keyed tsk_id (db_tasks d) \<and> list_all (\<lambda>r. 0 < tsk_interval_sec r) (db_tasks d)"

lemma completeRun_due:
  assumes "0 < interval"
  shows "{r \<in> set (db_tasks (completeRun now i interval st er d)). due now r} = {r \<in> set (db_tasks d). due now r \<and> tsk_id r \<noteq> i}"
  using assms by (auto simp: completeRun_def due_def)

lemma completeRun_keyed: "keyed tsk_id (db_tasks d) \<Longrightarrow> keyed tsk_id (db_tasks (completeRun now i interval st er d))"
  unfolding completeRun_def by (simp, rule keyed_update) simp_all

lemma run_tasks_due:
  assumes "run_tasks e ts d = (n, effs, d')" and "keyed tsk_id (db_tasks d)" and "list_all (\<lambda>t. 0 < tk_interval t) ts"
    and "list_all (\<lambda>t. list_all (\<lambda>r. tsk_id r = tk_id t \<longrightarrow> tsk_app_id r = tk_app_id t) (db_tasks d)) ts"
  shows "{r \<in> set (db_tasks d'). due (rn_now e) r} \<subseteq>
      {r \<in> set (db_tasks d). due (rn_now e) r \<and> tsk_id r \<notin> tk_id ` set ts} \<and> keyed tsk_id (db_tasks d')"
  using assms
proof (induction ts arbitrary: d n effs d')
  case (Cons t ts)
  have step: "{r \<in> set (db_tasks d'). due (rn_now e) r} \<subseteq>
      {r \<in> set (db_tasks d). due (rn_now e) r \<and> tsk_id r \<notin> tk_id ` set (t # ts)} \<and> keyed tsk_id (db_tasks d')"
    if "run_tasks e ts c = (m, effs', d')" and "keyed tsk_id (db_tasks c)"
      and "{r \<in> set (db_tasks c). due (rn_now e) r} \<subseteq> {r \<in> set (db_tasks d). due (rn_now e) r \<and> tsk_id r \<noteq> tk_id t}"
      and "\<And>r. r \<in> set (db_tasks c) \<Longrightarrow> \<exists>r' \<in> set (db_tasks d). tsk_id r' = tsk_id r \<and> tsk_app_id r' = tsk_app_id r"
    for c m effs'
  proof -
    have "list_all (\<lambda>t. list_all (\<lambda>r. tsk_id r = tk_id t \<longrightarrow> tsk_app_id r = tk_app_id t) (db_tasks c)) ts"
      using that(4) Cons.prems(4) by (fastforce simp: list_all_iff)
    then show ?thesis using Cons.IH [OF that(1,2)] that(3) Cons.prems(3) by auto
  qed
  show ?case
  proof (cases "getInstalledApp d (tk_app_id t)")
    case None
    have "{r \<in> set (db_tasks (snd (deleteTasksForApp (tk_app_id t) d))). due (rn_now e) r} \<subseteq>
        {r \<in> set (db_tasks d). due (rn_now e) r \<and> tsk_id r \<noteq> tk_id t}"
      using Cons.prems(4) by (auto simp: deleteTasksForApp_def list_all_iff)
    then show ?thesis using Cons.prems None
      by (intro step [of "snd (deleteTasksForApp (tk_app_id t) d)" n effs]) (auto simp: deleteTasksForApp_def)
  next
    case (Some r)
    obtain res eff where run: "runAction e t d = (res, eff)" by force
    define c where "c = (case res of Inr d1 \<Rightarrow> completeRun (rn_now e) (tk_id t) (tk_interval t) ''ok'' None d1
      | Inl x \<Rightarrow> completeRun (rn_now e) (tk_id t) (tk_interval t) ''error'' (Some (error_text x)) d)"
    have tables: "db_tasks d1 = db_tasks d" if "res = Inr d1" for d1
      using arg_cong [OF runAction_tables [of e t d d1 eff], of db_tasks] run that by simp
    have pos: "0 < tk_interval t" using Cons.prems(3) by simp
    have "keyed tsk_id (db_tasks c)"
      using Cons.prems(2) tables completeRun_keyed by (auto simp: c_def split: sum.splits)
    moreover have "{r \<in> set (db_tasks c). due (rn_now e) r} = {r \<in> set (db_tasks d). due (rn_now e) r \<and> tsk_id r \<noteq> tk_id t}"
      using completeRun_due [OF pos, of "rn_now e" "tk_id t"] tables by (auto simp: c_def split: sum.splits)
    moreover have "r \<in> set (db_tasks c) \<Longrightarrow> \<exists>r' \<in> set (db_tasks d). tsk_id r' = tsk_id r \<and> tsk_app_id r' = tsk_app_id r" for r
      using tables by (force simp: c_def completeRun_def split: sum.splits if_splits)
    moreover obtain m effs' where "run_tasks e ts c = (m, effs', d')"
      using Cons.prems(1) Some run by (auto simp: c_def case_prod_beta split: sum.splits) (metis prod.collapse)+
    ultimately show ?thesis by (intro step [of c m effs']) auto
  qed
qed simp

lemma keyed_count_card: "keyed k t \<Longrightarrow> sql_count P t = card {r \<in> set t. P r}"
  by (metis distinct_card distinct_filter distinct_map keyed_def set_filter sql_count_def)

lemma keyed_filter: "keyed k t \<Longrightarrow> keyed k (filter P t)"
  by (simp add: keyed_def distinct_map_filter)

lemma keyed_order_asc: "keyed k (order_asc f t) \<longleftrightarrow> keyed k t"
  by (simp add: keyed_def order_asc_def distinct_map)

text \<open>
  The backlog shrinks: with positive intervals, the tasks still due after a tick are
  those it had no room for, so as long as nothing new falls due every enabled task gets its
  turn, and a task that fails does not hold up the others.
\<close>

theorem backlog_shrinks:
  assumes "tasks_ok d"
  shows "sql_count (due (rn_now e)) (db_tasks (snd (snd (runDueTasks e d)))) \<le>
    sql_count (due (rn_now e)) (db_tasks d) - 25"
proof -
  let ?L = "filter (due (rn_now e)) (db_tasks d)"
  let ?S = "order_asc tsk_next_run_at ?L"
  obtain n effs d' where run: "runDueTasks e d = (n, effs, d')" by (cases "runDueTasks e d")
  have ts: "dueTasks (rn_now e) d = map toTask (take 25 ?S)" by (simp add: dueTasks_def DUE_LIMIT_def due_def [abs_def])
  have keyed: "keyed tsk_id (db_tasks d)" and pos: "\<forall>r \<in> set (db_tasks d). 0 < tsk_interval_sec r"
    using assms by (simp_all add: tasks_ok_def list_all_iff)
  have S: "set ?S = set ?L" "length ?S = length ?L" "keyed tsk_id ?S"
    using keyed by (simp_all add: keyed_order_asc keyed_filter)
  define T where "T = take 25 ?S"
  have in_d: "r \<in> set (db_tasks d)" if "r \<in> set T" for r using that S(1) by (auto simp: T_def dest: in_set_takeD)
  have same_app: "tsk_app_id r = tsk_app_id r'" if "r \<in> set (db_tasks d)" "r' \<in> set T" "tsk_id r = tsk_id r'" for r r'
    using keyed_unique [OF keyed that(1) in_d [OF that(2)] that(3)] by simp
  have "list_all (\<lambda>t. 0 < tk_interval t) (map toTask T)"
    using pos in_d by (auto simp: list_all_iff toTask_def)
  moreover have "list_all (\<lambda>t. list_all (\<lambda>r. tsk_id r = tk_id t \<longrightarrow> tsk_app_id r = tk_app_id t) (db_tasks d)) (map toTask T)"
    using same_app by (auto simp: list_all_iff toTask_def)
  ultimately have rest: "{r \<in> set (db_tasks d'). due (rn_now e) r} \<subseteq>
      {r \<in> set (db_tasks d). due (rn_now e) r \<and> tsk_id r \<notin> tk_id ` set (map toTask T)}" and k': "keyed tsk_id (db_tasks d')"
    using run_tasks_due [of e "map toTask T" d n effs d'] run keyed ts by (auto simp: runDueTasks_def T_def)
  have "{r \<in> set (db_tasks d). due (rn_now e) r \<and> tsk_id r \<notin> tk_id ` set (map toTask T)} \<subseteq> set (drop 25 ?S)"
  proof
    fix r assume "r \<in> {r \<in> set (db_tasks d). due (rn_now e) r \<and> tsk_id r \<notin> tk_id ` set (map toTask T)}"
    then have "r \<in> set ?S" "r \<notin> set T" using S(1) by (auto simp: toTask_def image_iff)
    then show "r \<in> set (drop 25 ?S)" unfolding T_def by (metis append_take_drop_id Un_iff set_append)
  qed
  with rest have "{r \<in> set (db_tasks d'). due (rn_now e) r} \<subseteq> set (drop 25 ?S)" by (rule order_trans)
  then have "card {r \<in> set (db_tasks d'). due (rn_now e) r} \<le> length (drop 25 ?S)"
    by (meson List.finite_set card_length card_mono le_trans)
  then show ?thesis using S(2) by (simp add: run keyed_count_card [OF k', symmetric] sql_count_def)
qed

end
