(* ===== verification/AppRoutes.thy ===== *)
theory AppRoutes
  imports AppGrants AppSettings Scheduler
begin

text \<open>
  The per-app routes of \<open>apps/api/src/apps/routes.ts\<close>: settings, key-value storage,
  outbound requests, scheduled tasks, the private files of an app and the user's shared
  folders.  Every route resolves the app first and gets the signed-in user;
  \<open>AppError\<close> and schema errors become 400, any other failed call 500.
\<close>

record app_env =
  ap_parse :: "string \<Rightarrow> url option"
  ap_crypto :: crypto
  ap_config :: config
  ap_data_dir :: string
  ap_collate :: "string \<Rightarrow> string"

abbreviation resolve_app :: "app_env \<Rightarrow> db \<Rightarrow> user \<Rightarrow> string \<Rightarrow> (app_manifest \<times> bool) option" where
  "resolve_app e d u i \<equiv> resolveApp (ap_parse e) (ap_crypto e) d u i"

subsection \<open>Settings\<close>

definition visible_settings :: "user \<Rightarrow> app_manifest \<Rightarrow> setting_field list" where
  "visible_settings u m =
     (if u_role u = Admin then am_settings m else filter (\<lambda>f. sf_scope f \<noteq> ScopeAdmin) (am_settings m))"

record settings_reply =
  sr_fields :: "setting_field list"
  sr_values :: "(string \<times> json_scalar) list"
  sr_can_edit_admin :: bool

definition settings_reply_for :: "db \<Rightarrow> user \<Rightarrow> string \<Rightarrow> app_manifest \<Rightarrow> settings_reply" where
  "settings_reply_for d u i m =
     \<lparr>sr_fields = visible_settings u m, sr_values = resolveSettings d i (visible_settings u m) (u_id u),
      sr_can_edit_admin = (u_role u = Admin)\<rparr>"

definition getSettings :: "app_env \<Rightarrow> db \<Rightarrow> user \<Rightarrow> string \<Rightarrow> settings_reply reply" where
  "getSettings e d u i =
     (case resolve_app e d u i of
        None \<Rightarrow> Refused 404 ''not_found''
      | Some (m, _) \<Rightarrow> Sent (settings_reply_for d u i m))"

text \<open>The loop over the submitted members: which keys were saved, which were not.\<close>

fun save_settings ::
  "crypto \<Rightarrow> string \<Rightarrow> string \<Rightarrow> user \<Rightarrow> string \<Rightarrow> setting_field list \<Rightarrow> (string \<times> json_scalar) list \<Rightarrow> db \<Rightarrow>
     string list \<times> string list \<times> db" where
  "save_settings cr salt iv u i decl [] d = ([], [], d)"
| "save_settings cr salt iv u i decl ((key, raw) # vs) d =
     (case find (\<lambda>f. sf_key f = key) decl of
        None \<Rightarrow> (let (ap, rej, d') = save_settings cr salt iv u i decl vs d in (ap, key # rej, d'))
      | Some f \<Rightarrow>
          if sf_scope f = ScopeAdmin \<and> u_role u \<noteq> Admin
          then (let (ap, rej, d') = save_settings cr salt iv u i decl vs d in (ap, key # rej, d'))
          else
            (case coerceValue f raw of
               None \<Rightarrow> (let (ap, rej, d') = save_settings cr salt iv u i decl vs d in (ap, key # rej, d'))
             | Some v \<Rightarrow>
                 (let (ap, rej, d') = save_settings cr salt iv u i decl vs (setAppSetting cr salt iv i f (u_id u) v d)
                  in (key # ap, rej, d'))))"

definition putSettings ::
  "app_env \<Rightarrow> string \<Rightarrow> string \<Rightarrow> user \<Rightarrow> string \<Rightarrow> (string \<times> json_scalar) list \<Rightarrow> db \<Rightarrow> settings_reply reply \<times> db" where
  "putSettings e salt iv u i values d =
     (case resolve_app e d u i of
        None \<Rightarrow> (Refused 404 ''not_found'', d)
      | Some (m, _) \<Rightarrow>
          (let (ap, rej, d') = save_settings (ap_crypto e) salt iv u i (am_settings m) values d
           in if ap = [] \<and> rej \<noteq> [] then (Refused 400 ''invalid_values'', d')
              else (Sent (settings_reply_for d' u i m), d')))"

subsection \<open>Key-value storage\<close>

text \<open>The gate of a capability: \<open>None\<close> to go on, otherwise the status of the refusal.\<close>

definition require_permission :: "app_permission \<Rightarrow> app_env \<Rightarrow> db \<Rightarrow> user \<Rightarrow> string \<Rightarrow> nat option" where
  "require_permission p e d u i =
     (case resolve_app e d u i of
        None \<Rightarrow> Some 404
      | Some (m, _) \<Rightarrow> if p \<in> set (am_permissions m) then None else Some 403)"

definition requireStorageApp :: "app_env \<Rightarrow> db \<Rightarrow> user \<Rightarrow> string \<Rightarrow> nat option" where
  "requireStorageApp = require_permission PStorage"

definition requireSystemApp :: "app_env \<Rightarrow> db \<Rightarrow> user \<Rightarrow> string \<Rightarrow> nat option" where
  "requireSystemApp = require_permission PSystem"

definition requireFilesApp :: "app_env \<Rightarrow> db \<Rightarrow> user \<Rightarrow> string \<Rightarrow> nat option" where
  "requireFilesApp = require_permission PFiles"

definition storage_key_ok :: "string \<Rightarrow> bool" where
  "storage_key_ok k \<longleftrightarrow> 1 \<le> length k \<and> length k \<le> 256"

definition getStorageList :: "app_env \<Rightarrow> db \<Rightarrow> user \<Rightarrow> string \<Rightarrow> (string \<times> string) list reply" where
  "getStorageList e d u i =
     (case requireStorageApp e d u i of
        Some code \<Rightarrow> Refused code ''forbidden''
      | None \<Rightarrow> Sent (listAppStorage d i (u_id u)))"

definition getStorage :: "app_env \<Rightarrow> db \<Rightarrow> user \<Rightarrow> string \<Rightarrow> string \<Rightarrow> string option reply" where
  "getStorage e d u i k =
     (case requireStorageApp e d u i of
        Some code \<Rightarrow> Refused code ''forbidden''
      | None \<Rightarrow> if \<not> storage_key_ok k then Refused 400 ''invalid'' else Sent (getAppStorage d i (u_id u) k))"

definition putStorage :: "app_env \<Rightarrow> user \<Rightarrow> string \<Rightarrow> string \<Rightarrow> string \<Rightarrow> db \<Rightarrow> string reply \<times> db" where
  "putStorage e u i k v d =
     (case requireStorageApp e d u i of
        Some code \<Rightarrow> (Refused code ''forbidden'', d)
      | None \<Rightarrow>
          if \<not> storage_key_ok k \<or> length v > 256 * 1024 then (Refused 400 ''invalid'', d)
          else (case setAppStorage i (u_id u) k v d of Inl x \<Rightarrow> (Refused 500 ''server_error'', d) | Inr d' \<Rightarrow> (Sent v, d')))"

definition deleteStorage :: "app_env \<Rightarrow> user \<Rightarrow> string \<Rightarrow> string \<Rightarrow> db \<Rightarrow> unit reply \<times> db" where
  "deleteStorage e u i k d =
     (case requireStorageApp e d u i of
        Some code \<Rightarrow> (Refused code ''forbidden'', d)
      | None \<Rightarrow> if \<not> storage_key_ok k then (Refused 400 ''invalid'', d) else (Sent (), deleteAppStorage i (u_id u) k d))"

subsection \<open>Outbound requests\<close>

definition FETCH_PER_MINUTE :: nat where "FETCH_PER_MINUTE = 120"

type_synonym fetch_calls = "string \<Rightarrow> (millis \<times> nat) option"

definition withinFetchBudget :: "millis \<Rightarrow> string \<Rightarrow> fetch_calls \<Rightarrow> bool \<times> fetch_calls" where
  "withinFetchBudget now i calls =
     (case calls i of
        None \<Rightarrow> (True, calls(i \<mapsto> (now, 1)))
      | Some (windowStart, count) \<Rightarrow>
          if now - windowStart \<ge> 60000 then (True, calls(i \<mapsto> (now, 1)))
          else (Suc count \<le> FETCH_PER_MINUTE, calls(i \<mapsto> (windowStart, Suc count))))"

definition fetch_body_ok :: "fetch_request \<Rightarrow> bool" where
  "fetch_body_ok q \<longleftrightarrow>
     1 \<le> length (fq_url q) \<and> length (fq_url q) \<le> 2048 \<and>
     (case fq_method q of None \<Rightarrow> True | Some m \<Rightarrow> length m \<le> 10) \<and>
     list_all (\<lambda>(n, v). length v \<le> 4096) (fq_headers q) \<and>
     (case fq_body q of None \<Rightarrow> True | Some b \<Rightarrow> length b \<le> 1024 * 1024)"

definition postFetch ::
  "app_env \<Rightarrow> world \<Rightarrow> millis \<Rightarrow> db \<Rightarrow> user \<Rightarrow> string \<Rightarrow> fetch_request \<Rightarrow> fetch_calls \<Rightarrow>
     fetch_response reply \<times> (hop \<times> string) list \<times> fetch_calls" where
  "postFetch e w now d u i q calls =
     (case resolve_app e d u i of
        None \<Rightarrow> (Refused 404 ''not_found'', [], calls)
      | Some (m, _) \<Rightarrow>
          if PFetch \<notin> set (am_permissions m) then (Refused 403 ''forbidden'', [], calls)
          else if am_fetch_hosts m = [] then (Refused 403 ''forbidden'', [], calls)
          else if \<not> fetch_body_ok q then (Refused 400 ''invalid'', [], calls)
          else
            (let (ok, calls') = withinFetchBudget now i calls in
             if \<not> ok then (Refused 429 ''rate_limited'', [], calls')
             else
               (case proxyFetch w q (am_fetch_hosts m) of
                  (Inl x, conns) \<Rightarrow> (Refused 403 ''fetch_denied'', conns, calls')
                | (Inr r, conns) \<Rightarrow> (Sent r, conns, calls'))))"

subsection \<open>Scheduled tasks\<close>

definition task_ok :: "upsert_task \<Rightarrow> bool" where
  "task_ok q \<longleftrightarrow>
     1 \<le> length (js_trim (ut_name q)) \<and> length (js_trim (ut_name q)) \<le> 64 \<and>
     MIN_INTERVAL_SECONDS \<le> ut_interval q \<and> ut_interval q \<le> MAX_INTERVAL_SECONDS \<and>
     (case ut_action q of
        NotifyAction title body level \<Rightarrow>
          1 \<le> length (js_trim title) \<and> length (js_trim title) \<le> 200 \<and>
          (case body of None \<Rightarrow> True | Some b \<Rightarrow> length b \<le> 1000) \<and>
          (case level of None \<Rightarrow> True | Some l \<Rightarrow> l \<in> set LEVELS)
      | FetchAction u meth headers storeAs \<Rightarrow>
          1 \<le> length u \<and> length u \<le> 2048 \<and> (case meth of None \<Rightarrow> True | Some m \<Rightarrow> length m \<le> 10) \<and>
          1 \<le> length storeAs \<and> length storeAs \<le> 256)"

definition trimmed_task :: "upsert_task \<Rightarrow> upsert_task" where
  "trimmed_task q =
     q\<lparr>ut_name := js_trim (ut_name q),
       ut_action := (case ut_action q of
           NotifyAction title body level \<Rightarrow> NotifyAction (js_trim title) body level
         | a \<Rightarrow> a)\<rparr>"

definition gateSchedule :: "app_env \<Rightarrow> db \<Rightarrow> user \<Rightarrow> string \<Rightarrow> scheduled_action option \<Rightarrow> nat option" where
  "gateSchedule e d u i action =
     (case resolve_app e d u i of
        None \<Rightarrow> Some 404
      | Some (m, _) \<Rightarrow>
          (let held = set (am_permissions m) in
           if PSchedule \<notin> held then Some 403
           else
             (case action of
                Some (NotifyAction _ _ _) \<Rightarrow> if PNotifications \<notin> held then Some 403 else None
              | Some (FetchAction _ _ _ _) \<Rightarrow> if PFetch \<notin> held \<or> PStorage \<notin> held then Some 403 else None
              | None \<Rightarrow> None)))"

definition getSchedule :: "app_env \<Rightarrow> db \<Rightarrow> user \<Rightarrow> string \<Rightarrow> task list reply" where
  "getSchedule e d u i =
     (case gateSchedule e d u i None of
        Some code \<Rightarrow> Refused code ''forbidden''
      | None \<Rightarrow> Sent (listTasks d i (u_id u)))"

text \<open>The body carries no app and no user: both come from the route.\<close>

definition putSchedule :: "app_env \<Rightarrow> string \<Rightarrow> millis \<Rightarrow> user \<Rightarrow> string \<Rightarrow> upsert_task \<Rightarrow> db \<Rightarrow> task reply \<times> db" where
  "putSchedule e newId now u i body d =
     (if \<not> task_ok body then (Refused 400 ''invalid'', d)
      else
        (let q = (trimmed_task body)\<lparr>ut_app_id := i, ut_user_id := u_id u\<rparr> in
         case gateSchedule e d u i (Some (ut_action q)) of
           Some code \<Rightarrow> (Refused code ''forbidden'', d)
         | None \<Rightarrow>
             if getTask d i (u_id u) (ut_name q) = None \<and> countTasks d i (u_id u) \<ge> MAX_TASKS_PER_APP
             then (Refused 409 ''too_many'', d)
             else (case upsertTask newId now q d of
                     Inl x \<Rightarrow> (Refused 500 ''server_error'', d)
                   | Inr (t, d') \<Rightarrow> (Sent t, d'))))"

definition deleteSchedule :: "app_env \<Rightarrow> user \<Rightarrow> string \<Rightarrow> string \<Rightarrow> db \<Rightarrow> unit reply \<times> db" where
  "deleteSchedule e u i name d =
     (case gateSchedule e d u i None of
        Some code \<Rightarrow> (Refused code ''forbidden'', d)
      | None \<Rightarrow> (let (ok, d') = deleteTask i (u_id u) name d in (if ok then Sent () else Refused 404 ''not_found'', d')))"

end
