(* ===== verification/AppFiles.thy ===== *)
theory AppFiles
  imports AppRoutes
begin

text \<open>
  Files through apps (\<open>apps/api/src/apps/routes.ts\<close>): the private folder an app has per
  user, confined by \<open>resolveAppDataPath\<close> of \<open>apps/framework.ts\<close>, and the user's shared
  folders, which end at \<open>resolveGrant\<close>.  A \<open>PathError\<close> is no \<open>AppError\<close> and becomes 500 here.
\<close>

subsection \<open>The private folder\<close>

definition appDataBase :: "app_env \<Rightarrow> string \<Rightarrow> string \<Rightarrow> string" where
  "appDataBase e appId userId = path_join (path_join (ap_data_dir e) appId) userId"

definition resolveAppDataPath :: "app_env \<Rightarrow> string \<Rightarrow> string \<Rightarrow> string \<Rightarrow> path_error + string" where
  "resolveAppDataPath e appId userId vpath =
     (if CHR 0x00 \<in> set vpath then Inl InvalidPath
      else
        (let base = appDataBase e appId userId;
             clean = normalizeVirtual vpath;
             real = path_resolve base [''.'' @ clean]
         in if real \<noteq> base \<and> \<not> starts_with real (base @ ''/'') then Inl Escapes else Inr real))"

definition with_files_app ::
  "app_env \<Rightarrow> db \<Rightarrow> user \<Rightarrow> string \<Rightarrow> string \<Rightarrow> fs \<Rightarrow> (string \<Rightarrow> 'a reply \<times> fs) \<Rightarrow> 'a reply \<times> fs" where
  "with_files_app e d u i vpath f k =
     (case requireFilesApp e d u i of
        Some code \<Rightarrow> (Refused code ''forbidden'', f)
      | None \<Rightarrow>
          (case resolveAppDataPath e i (u_id u) vpath of
             Inl x \<Rightarrow> (Refused 400 ''bad_path'', f)
           | Inr real \<Rightarrow> k real))"

definition query_path :: "string \<Rightarrow> string option \<Rightarrow> string" where
  "query_path fallback q = (case q of None \<Rightarrow> fallback | Some p \<Rightarrow> p)"

definition app_entries :: "app_env \<Rightarrow> fs \<Rightarrow> string \<Rightarrow> file_entry list" where
  "app_entries e f real =
     order_asc (\<lambda>x. if fe_is_dir x then 0 else 1 :: nat)
       (order_asc (\<lambda>x. ap_collate e (fe_name x))
          (List.map_filter (\<lambda>name. map_option (entry_of name) (fs_get f (segs_of real @ [name]))) (fs_children f (segs_of real))))"

definition getAppFiles :: "app_env \<Rightarrow> db \<Rightarrow> user \<Rightarrow> string \<Rightarrow> string option \<Rightarrow> fs \<Rightarrow> file_entry list reply \<times> fs" where
  "getAppFiles e d u i q f =
     with_files_app e d u i (query_path ''/'' q) f
       (\<lambda>real. (if lstat f real \<noteq> Some DirNode then Sent [] else Sent (app_entries e f real), f))"

definition MAX_TEXT_BYTES :: nat where "MAX_TEXT_BYTES = 4 * 1024 * 1024"

definition getAppContent :: "app_env \<Rightarrow> db \<Rightarrow> user \<Rightarrow> string \<Rightarrow> string option \<Rightarrow> fs \<Rightarrow> string option reply \<times> fs" where
  "getAppContent e d u i q f =
     with_files_app e d u i (query_path '''' q) f
       (\<lambda>real. (case lstat f real of
                  None \<Rightarrow> Sent None
                | Some DirNode \<Rightarrow> Refused 400 ''is_dir''
                | Some (FileNode c) \<Rightarrow> if length c > MAX_TEXT_BYTES then Refused 413 ''too_large'' else Sent (Some c), f))"

text \<open>A write creates the missing folders above it first; what was created stays when the write fails.\<close>

definition write_below :: "string \<Rightarrow> string \<Rightarrow> fs \<Rightarrow> (bool \<times> fs)" where
  "write_below real content f =
     (case mkdir_recursive (dirname real) f of
        None \<Rightarrow> (False, f)
      | Some g \<Rightarrow> (case writeFile real content g of None \<Rightarrow> (False, g) | Some h \<Rightarrow> (True, h)))"

text \<open>The path is resolved after the body is checked.\<close>

definition putAppFile :: "app_env \<Rightarrow> db \<Rightarrow> user \<Rightarrow> string \<Rightarrow> string option \<Rightarrow> string \<Rightarrow> fs \<Rightarrow> string reply \<times> fs" where
  "putAppFile e d u i q content f =
     (if requireFilesApp e d u i = None \<and> length content > 1024 * 1024 then (Refused 400 ''invalid'', f)
      else with_files_app e d u i (query_path '''' q) f
        (\<lambda>real. (let (ok, g) = write_below real content f in (if ok then Sent content else Refused 500 ''server_error'', g))))"

definition postAppMkdir :: "app_env \<Rightarrow> db \<Rightarrow> user \<Rightarrow> string \<Rightarrow> string \<Rightarrow> fs \<Rightarrow> unit reply \<times> fs" where
  "postAppMkdir e d u i path f =
     (if requireFilesApp e d u i = None \<and> path = '''' then (Refused 400 ''invalid'', f)
      else with_files_app e d u i path f
        (\<lambda>real. case mkdir_recursive real f of None \<Rightarrow> (Refused 500 ''server_error'', f) | Some g \<Rightarrow> (Sent (), g)))"

definition deleteAppFiles :: "app_env \<Rightarrow> db \<Rightarrow> user \<Rightarrow> string \<Rightarrow> string option \<Rightarrow> fs \<Rightarrow> unit reply \<times> fs" where
  "deleteAppFiles e d u i q f =
     with_files_app e d u i (query_path '''' q) f (\<lambda>real. (Sent (), rm_recursive real f))"

subsection \<open>Bytes\<close>

definition sendBytes :: "fs \<Rightarrow> string option \<Rightarrow> string \<Rightarrow> string \<Rightarrow> sent_file reply" where
  "sendBytes f rangeHeader real name =
     (case lstat f real of
        Some (FileNode content) \<Rightarrow>
          (let total = int (length content);
               file = \<lparr>sf_name = name,
                       sf_content_type = (case mimeOf name of None \<Rightarrow> ''application/octet-stream'' | Some m \<Rightarrow> m),
                       sf_inline = False, sf_status = 200, sf_start = 0, sf_length = total, sf_body = content\<rparr>
           in case serve_range total rangeHeader of
                Whole \<Rightarrow> Sent file
              | Unsatisfiable \<Rightarrow> Refused 416 ''''
              | Partial start end' \<Rightarrow>
                  Sent (file\<lparr>sf_status := 206, sf_start := start, sf_length := end' - start + 1,
                             sf_body := take (nat (end' - start + 1)) (drop (nat start) content)\<rparr>))
      | _ \<Rightarrow> Refused 404 ''not_found'')"

text \<open>
  \<open>receiveBytes\<close>: the upload goes to a temporary name beside the target and is renamed into
  place; \<open>up_truncated\<close> is the multipart limit.
\<close>

definition receiveBytes :: "string \<Rightarrow> upload_part option \<Rightarrow> string \<Rightarrow> nat option \<Rightarrow> fs \<Rightarrow> nat reply \<times> fs" where
  "receiveBytes rnd part real limitBytes f =
     (case part of
        None \<Rightarrow> (Refused 400 ''upload_failed'', f)
      | Some p \<Rightarrow>
          (case mkdir_recursive (dirname real) f of
             None \<Rightarrow> (Refused 500 ''server_error'', f)
           | Some g \<Rightarrow>
               (let temp = real @ ''.part-'' @ take 8 rnd in
                case writeFile temp (up_content p) g of
                  None \<Rightarrow> (Refused 500 ''server_error'', rm_recursive temp g)
                | Some h \<Rightarrow>
                    if (case limitBytes of None \<Rightarrow> False | Some l \<Rightarrow> length (up_content p) > l) \<or> up_truncated p
                    then (Refused 413 ''upload_failed'', rm_recursive temp h)
                    else (case rename temp real h of
                            None \<Rightarrow> (Refused 500 ''server_error'', rm_recursive temp h)
                          | Some k \<Rightarrow> (Sent (length (up_content p)), k)))))"

definition MAX_APP_FILE_BYTES :: nat where "MAX_APP_FILE_BYTES = 512 * 1024 * 1024"

definition postAppUpload ::
  "app_env \<Rightarrow> string \<Rightarrow> db \<Rightarrow> user \<Rightarrow> string \<Rightarrow> string option \<Rightarrow> upload_part option \<Rightarrow> fs \<Rightarrow> nat reply \<times> fs" where
  "postAppUpload e rnd d u i q part f =
     (if requireFilesApp e d u i = None \<and> query_path '''' q = '''' then (Refused 400 ''invalid'', f)
      else with_files_app e d u i (query_path '''' q) f
        (\<lambda>real. receiveBytes rnd part real (Some MAX_APP_FILE_BYTES) f))"

definition or_download :: "string \<Rightarrow> string" where
  "or_download name = (if name = '''' then ''download'' else name)"

definition getAppRaw ::
  "app_env \<Rightarrow> db \<Rightarrow> user \<Rightarrow> string \<Rightarrow> string option \<Rightarrow> string option \<Rightarrow> fs \<Rightarrow> sent_file reply \<times> fs" where
  "getAppRaw e d u i q rangeHeader f =
     with_files_app e d u i (query_path '''' q) f
       (\<lambda>real. (sendBytes f rangeHeader real (or_download (basename (query_path '''' q))), f))"

subsection \<open>Grants\<close>

definition getUserGrants :: "app_env \<Rightarrow> db \<Rightarrow> user \<Rightarrow> (app_grant \<times> string \<times> string \<times> bool) list" where
  "getUserGrants e d u =
     map (\<lambda>(g, a). let found = lookupApp (ap_parse e) (ap_crypto e) d a
                   in (g, a, (case found of None \<Rightarrow> a | Some (m, _) \<Rightarrow> am_name m), found \<noteq> None))
       (listAllGrantsForUser d (u_id u))"

definition deleteUserGrant :: "app_env \<Rightarrow> user \<Rightarrow> string \<Rightarrow> db \<Rightarrow> (app_grant \<times> string \<times> string \<times> bool) list \<times> db" where
  "deleteUserGrant e u handle d = (let d' = snd (revokeGrantForUser (u_id u) handle d) in (getUserGrants e d' u, d'))"

definition getShareGrants :: "app_env \<Rightarrow> db \<Rightarrow> user \<Rightarrow> string \<Rightarrow> app_grant list reply" where
  "getShareGrants e d u i =
     (case resolve_app e d u i of None \<Rightarrow> Refused 404 ''not_found'' | Some _ \<Rightarrow> Sent (listGrants d i (u_id u)))"

definition postShareGrant ::
  "app_env \<Rightarrow> string \<Rightarrow> millis \<Rightarrow> user \<Rightarrow> string \<Rightarrow> string \<Rightarrow> grant_type \<Rightarrow> grant_mode \<Rightarrow> db \<Rightarrow> app_grant list reply \<times> db" where
  "postShareGrant e newId now u i path ty mode d =
     (case resolve_app e d u i of
        None \<Rightarrow> (Refused 404 ''not_found'', d)
      | Some _ \<Rightarrow>
          if path = '''' \<or> length path > 4096 then (Refused 400 ''invalid'', d)
          else if \<not> can_read d u path then (Refused 403 ''forbidden'', d)
          else
            (let m = (if mode = ReadWrite \<and> can_write d u path then ReadWrite else Read);
                 d' = snd (grantPath newId now i (u_id u) path ty m d)
             in (Sent (listGrants d' i (u_id u)), d')))"

definition deleteShareGrant :: "app_env \<Rightarrow> user \<Rightarrow> string \<Rightarrow> string \<Rightarrow> db \<Rightarrow> app_grant list reply \<times> db" where
  "deleteShareGrant e u i handle d =
     (case resolve_app e d u i of
        None \<Rightarrow> (Refused 404 ''not_found'', d)
      | Some _ \<Rightarrow> (let d' = snd (revokeGrant i (u_id u) handle d) in (Sent (listGrants d' i (u_id u)), d')))"

subsection \<open>The user's shared folders\<close>

definition sharePermissions :: "app_env \<Rightarrow> db \<Rightarrow> user \<Rightarrow> string \<Rightarrow> (bool \<times> bool) option" where
  "sharePermissions e d u i =
     (case resolve_app e d u i of
        None \<Rightarrow> None
      | Some (m, _) \<Rightarrow>
          (let write = (PSharesWrite \<in> set (am_permissions m))
           in Some (write \<or> PSharesRead \<in> set (am_permissions m), write)))"

definition resolveShareRequest ::
  "app_env \<Rightarrow> millis \<Rightarrow> user \<Rightarrow> string \<Rightarrow> string option \<Rightarrow> string option \<Rightarrow> db \<Rightarrow> resolved_path option \<times> db" where
  "resolveShareRequest e now u i handle path d =
     (case sharePermissions e d u i of
        None \<Rightarrow> (None, d)
      | Some (read, write) \<Rightarrow> resolveGrant now u i handle path read write d)"

record share_entry =
  se_entry :: file_entry
  se_writable :: bool

definition share_children :: "app_env \<Rightarrow> db \<Rightarrow> user \<Rightarrow> resolved_path \<Rightarrow> string \<Rightarrow> fs \<Rightarrow> share_entry list" where
  "share_children e d u target real f =
     order_asc (\<lambda>x. if fe_is_dir (se_entry x) then 0 else 1 :: nat)
       (order_asc (\<lambda>x. ap_collate e (fe_name (se_entry x)))
          (List.map_filter (\<lambda>name.
               let child = rp_path target @ ''/'' @ name in
               if \<not> can_read d u child then None
               else map_option (\<lambda>n. \<lparr>se_entry = entry_of name n, se_writable = (rp_write target \<and> can_write d u child)\<rparr>)
                      (fs_get f (segs_of real @ [name])))
            (fs_children f (segs_of real))))"

definition getShareList ::
  "app_env \<Rightarrow> millis \<Rightarrow> user \<Rightarrow> string \<Rightarrow> string option \<Rightarrow> string option \<Rightarrow> db \<Rightarrow> fs \<Rightarrow>
     (string \<times> share_entry list \<times> bool) reply \<times> db" where
  "getShareList e now u i handle path d f =
     (case resolveShareRequest e now u i handle path d of
        (None, d') \<Rightarrow> (Refused 403 ''forbidden'', d')
      | (Some target, d') \<Rightarrow>
          if rp_path target = ''/'' then
            (let names = accessibleShareNames (ap_collate e) d' u in
             if list_ex (\<lambda>n. case resolveSafe (ap_config e) d' (''/'' @ n) of Inl x \<Rightarrow> True | Inr real \<Rightarrow> False) names
             then (Refused 500 ''server_error'', d')
             else (Sent (''/'', map (\<lambda>n. \<lparr>se_entry = dir_entry n, se_writable = can_write d' u (''/'' @ n)\<rparr>) names, False), d'))
          else
            (case resolveSafe (ap_config e) d' (rp_path target) of
               Inl x \<Rightarrow> (Refused 500 ''server_error'', d')
             | Inr real \<Rightarrow>
                 if lstat f real \<noteq> Some DirNode then (Refused 404 ''not_found'', d')
                 else (Sent (rp_path target, share_children e d' u target real f, rp_write target), d')))"

definition getShareContent ::
  "app_env \<Rightarrow> millis \<Rightarrow> user \<Rightarrow> string \<Rightarrow> string option \<Rightarrow> string option \<Rightarrow> db \<Rightarrow> fs \<Rightarrow> string option reply \<times> db" where
  "getShareContent e now u i handle path d f =
     (case resolveShareRequest e now u i handle path d of
        (None, d') \<Rightarrow> (Refused 403 ''forbidden'', d')
      | (Some target, d') \<Rightarrow>
          (case resolveSafe (ap_config e) d' (rp_path target) of
             Inl x \<Rightarrow> (Refused 500 ''server_error'', d')
           | Inr real \<Rightarrow>
               (case lstat f real of
                  Some (FileNode c) \<Rightarrow>
                    (if length c > MAX_TEXT_BYTES then Refused 413 ''too_large'' else Sent (Some c), d')
                | _ \<Rightarrow> (Sent None, d'))))"

text \<open>The four routes that write: the target, the right to write, the route's own check, then the change.\<close>

definition with_writable ::
  "app_env \<Rightarrow> millis \<Rightarrow> user \<Rightarrow> string \<Rightarrow> string option \<Rightarrow> string option \<Rightarrow> (resolved_path \<Rightarrow> (nat \<times> string) option) \<Rightarrow>
     (string \<Rightarrow> fs \<Rightarrow> 'a reply \<times> fs) \<Rightarrow> db \<Rightarrow> fs \<Rightarrow> 'a reply \<times> db \<times> fs" where
  "with_writable e now u i handle path check change d f =
     (case resolveShareRequest e now u i handle path d of
        (None, d') \<Rightarrow> (Refused 403 ''forbidden'', d', f)
      | (Some target, d') \<Rightarrow>
          if \<not> rp_write target then (Refused 403 ''read_only'', d', f)
          else
            (case check target of
               Some (code, err) \<Rightarrow> (Refused code err, d', f)
             | None \<Rightarrow>
                 (case resolveSafe (ap_config e) d' (rp_path target) of
                    Inl x \<Rightarrow> (Refused 500 ''server_error'', d', f)
                  | Inr real \<Rightarrow> (let (r, g) = change real f in (r, d', g)))))"

definition putShareContent ::
  "app_env \<Rightarrow> millis \<Rightarrow> user \<Rightarrow> string \<Rightarrow> string option \<Rightarrow> string option \<Rightarrow> string \<Rightarrow> db \<Rightarrow> fs \<Rightarrow> unit reply \<times> db \<times> fs" where
  "putShareContent e now u i handle path content =
     with_writable e now u i handle path
       (\<lambda>target. if length content > MAX_TEXT_BYTES then Some (400, ''invalid'') else None)
       (\<lambda>real f. case writeFile real content f of None \<Rightarrow> (Refused 500 ''server_error'', f) | Some g \<Rightarrow> (Sent (), g))"

definition postShareMkdir ::
  "app_env \<Rightarrow> millis \<Rightarrow> user \<Rightarrow> string \<Rightarrow> string option \<Rightarrow> string \<Rightarrow> db \<Rightarrow> fs \<Rightarrow> unit reply \<times> db \<times> fs" where
  "postShareMkdir e now u i handle path d f =
     (if path = '''' \<or> length path > 4096 then (Refused 400 ''invalid'', d, f)
      else with_writable e now u i handle (Some path) (\<lambda>target. None)
        (\<lambda>real f. case mkdir_recursive real f of None \<Rightarrow> (Refused 500 ''server_error'', f) | Some g \<Rightarrow> (Sent (), g)) d f)"

definition deleteShareContent ::
  "app_env \<Rightarrow> millis \<Rightarrow> user \<Rightarrow> string \<Rightarrow> string option \<Rightarrow> string option \<Rightarrow> db \<Rightarrow> fs \<Rightarrow> unit reply \<times> db \<times> fs" where
  "deleteShareContent e now u i handle path =
     with_writable e now u i handle path
       (\<lambda>target. if isShareRoot (rp_path target) then Some (403, ''forbidden'') else None)
       (\<lambda>real f. (Sent (), rm_recursive real f))"

definition postShareUpload ::
  "app_env \<Rightarrow> string \<Rightarrow> millis \<Rightarrow> user \<Rightarrow> string \<Rightarrow> string option \<Rightarrow> string option \<Rightarrow> upload_part option \<Rightarrow>
     db \<Rightarrow> fs \<Rightarrow> nat reply \<times> db \<times> fs" where
  "postShareUpload e rnd now u i handle path part =
     with_writable e now u i handle path
       (\<lambda>target. if isShareRoot (rp_path target) then Some (400, ''invalid'') else None)
       (\<lambda>real f. receiveBytes rnd part real None f)"

definition getShareRaw ::
  "app_env \<Rightarrow> millis \<Rightarrow> user \<Rightarrow> string \<Rightarrow> string option \<Rightarrow> string option \<Rightarrow> string option \<Rightarrow> db \<Rightarrow> fs \<Rightarrow> sent_file reply \<times> db" where
  "getShareRaw e now u i handle path rangeHeader d f =
     (case resolveShareRequest e now u i handle path d of
        (None, d') \<Rightarrow> (Refused 403 ''forbidden'', d')
      | (Some target, d') \<Rightarrow>
          (case resolveSafe (ap_config e) d' (rp_path target) of
             Inl x \<Rightarrow> (Refused 500 ''server_error'', d')
           | Inr real \<Rightarrow> (sendBytes f rangeHeader real (or_download (basename (rp_path target))), d')))"

end
