(* ===== verification/Packages.thy ===== *)
theory Packages
  imports AppFiles "HOL-Library.Monad_Syntax"
begin

text \<open>
  Packages of apps (\<open>apps/api/src/apps/framework.ts\<close>): the checks a \<open>.onpkg\<close> archive has to
  pass, its signature, and how a checked package is put in place and removed again.  The
  zip decoder, the text decoder and the public-key operations are parameters; the sizes
  the archive declares are read from its bytes here, as the code does, before any of it
  is unpacked.
\<close>

record package_env =
  pe_apps_dir :: string
  pe_unzip :: "string \<Rightarrow> (string \<times> string) list option"
  pe_decode :: "string \<Rightarrow> string"
  pe_base64 :: "string \<Rightarrow> string"
  pe_sha256 :: "string \<Rightarrow> string"
  pe_sha256_hex :: "string \<Rightarrow> string"
  pe_verify :: "string \<Rightarrow> string \<Rightarrow> string \<Rightarrow> bool option"

datatype package_error = NotAPackage | TooManyFiles | CorruptDirectory | Zip64 | UnpacksTooLarge | Unreadable
  | EmptyPackage | NoManifest | ManifestNotJson | BadManifest | ReservedId | MissingEntry | UnsafeFilePath

subsection \<open>Declared sizes\<close>

definition MAX_ENTRIES :: nat where "MAX_ENTRIES = 2000"
definition MAX_TOTAL_BYTES :: nat where "MAX_TOTAL_BYTES = 64 * 1024 * 1024"

definition le_value :: "string \<Rightarrow> nat" where
  "le_value bs = foldr (\<lambda>c n. code_unit c + 256 * n) bs 0"

definition getUint16 :: "string \<Rightarrow> nat \<Rightarrow> nat" where
  "getUint16 buf i = le_value (take 2 (drop i buf))"

definition getUint32 :: "string \<Rightarrow> nat \<Rightarrow> nat" where
  "getUint32 buf i = le_value (take 4 (drop i buf))"

text \<open>The last end-of-directory signature with room for its record, at most 65535 bytes back.\<close>

definition find_eocd :: "string \<Rightarrow> nat option" where
  "find_eocd buf =
     (if length buf < 22 then None
      else find (\<lambda>i. getUint32 buf i = 0x06054b50) (rev [length buf - 22 - 65535 ..< Suc (length buf - 22)]))"

fun check_entries :: "string \<Rightarrow> nat \<Rightarrow> nat \<Rightarrow> nat \<Rightarrow> package_error option" where
  "check_entries buf 0 off acc = None"
| "check_entries buf (Suc n) off acc =
     (if off + 46 > length buf \<or> getUint32 buf off \<noteq> 0x02014b50 then Some CorruptDirectory
      else
        (let uncompressed = getUint32 buf (off + 24) in
         if uncompressed = 0xFFFFFFFF then Some Zip64
         else if acc + uncompressed > MAX_TOTAL_BYTES then Some UnpacksTooLarge
         else check_entries buf n
           (off + 46 + getUint16 buf (off + 28) + getUint16 buf (off + 30) + getUint16 buf (off + 32))
           (acc + uncompressed)))"

definition checkUncompressedSize :: "string \<Rightarrow> package_error option" where
  "checkUncompressedSize buf =
     (case find_eocd buf of
        None \<Rightarrow> Some NotAPackage
      | Some eocd \<Rightarrow>
          (let count = getUint16 buf (eocd + 10) in
           if count > MAX_ENTRIES then Some TooManyFiles
           else check_entries buf count (getUint32 buf (eocd + 16)) 0))"

subsection \<open>The manifest\<close>

text \<open>The pieces of the schema: each takes the member, if it is there, and returns what it parses to.\<close>

definition demand :: "bool \<Rightarrow> unit option" where
  "demand b = (if b then Some () else None)"

definition z_text :: "bool \<Rightarrow> nat \<Rightarrow> nat \<Rightarrow> json option \<Rightarrow> string option" where
  "z_text trimmed lo hi j =
     (case j of
        Some (JStr s) \<Rightarrow>
          (let t = (if trimmed then js_trim s else s) in if lo \<le> length t \<and> length t \<le> hi then Some t else None)
      | _ \<Rightarrow> None)"

definition z_or :: "'a \<Rightarrow> (json option \<Rightarrow> 'a option) \<Rightarrow> json option \<Rightarrow> 'a option" where
  "z_or fallback p j = (case j of None \<Rightarrow> Some fallback | Some v \<Rightarrow> p (Some v))"

definition z_maybe :: "(json option \<Rightarrow> 'a option) \<Rightarrow> json option \<Rightarrow> 'a option option" where
  "z_maybe p j = (case j of None \<Rightarrow> Some None | Some v \<Rightarrow> map_option Some (p (Some v)))"

definition z_list :: "nat \<Rightarrow> (json option \<Rightarrow> 'a option) \<Rightarrow> json option \<Rightarrow> 'a list option" where
  "z_list limit p j =
     (case j of
        Some (JArr js) \<Rightarrow> if length js \<le> limit then those (map (\<lambda>v. p (Some v)) js) else None
      | _ \<Rightarrow> None)"

definition z_int :: "json option \<Rightarrow> int option" where
  "z_int j = (case j of Some (JNum i) \<Rightarrow> Some i | _ \<Rightarrow> None)"

definition z_bool :: "json option \<Rightarrow> bool option" where
  "z_bool j = (case j of Some (JBool b) \<Rightarrow> Some b | _ \<Rightarrow> None)"

definition z_enum :: "(string \<times> 'a) list \<Rightarrow> json option \<Rightarrow> 'a option" where
  "z_enum table j = (case j of Some (JStr s) \<Rightarrow> map_of table s | _ \<Rightarrow> None)"

definition rel_path_ok :: "string \<Rightarrow> bool" where
  "rel_path_ok s \<longleftrightarrow> s \<noteq> '''' \<and> is_alnum (hd s) \<and> list_all (\<lambda>c. is_alnum c \<or> c \<in> set ''._/-'') s \<and>
     ''..'' \<notin> set (split_on slash s)"

definition relPath :: "json option \<Rightarrow> string option" where
  "relPath j = do { s \<leftarrow> z_text True 1 128 j; demand (rel_path_ok s); Some s }"

definition gradient_ok :: "string \<Rightarrow> bool" where
  "gradient_ok s \<longleftrightarrow> list_all (\<lambda>c. is_alnum c \<or> js_space c \<or> c \<in> set ''/[]#%.-'') s"

definition setting_key_ok :: "string \<Rightarrow> bool" where
  "setting_key_ok s \<longleftrightarrow> s \<noteq> '''' \<and> is_alnum (hd s) \<and> \<not> is_digit (hd s) \<and>
     list_all (\<lambda>c. is_alnum c \<or> c \<in> set ''_.-'') s"

definition z_scalar :: "json option \<Rightarrow> json_scalar option" where
  "z_scalar j =
     (case j of
        Some (JStr s) \<Rightarrow> if length s \<le> 2048 then Some (JsonString s) else None
      | Some (JNum i) \<Rightarrow> Some (JsonNumber i)
      | Some (JBool b) \<Rightarrow> Some (JsonBool b)
      | _ \<Rightarrow> None)"

definition z_option :: "json option \<Rightarrow> string option" where
  "z_option j =
     do { v \<leftarrow> z_text False 0 120 (Option.bind j (\<lambda>o'. jget o' ''value''));
          z_text True 1 80 (Option.bind j (\<lambda>o'. jget o' ''label'')); Some v }"

definition z_setting :: "json option \<Rightarrow> setting_field option" where
  "z_setting j =
     (let member = (\<lambda>k. Option.bind j (\<lambda>o'. jget o' k)) in
      do { key \<leftarrow> z_text True 1 48 (member ''key''); demand (setting_key_ok key);
           z_text True 1 80 (member ''label'');
           ty \<leftarrow> z_enum [(''text'', SText), (''number'', SNumber), (''boolean'', SBoolean), (''select'', SSelect)] (member ''type'');
           scope \<leftarrow> z_or ScopeUser (z_enum [(''user'', ScopeUser), (''admin'', ScopeAdmin)]) (member ''scope'');
           z_maybe (z_text True 0 240) (member ''description'');
           fallback \<leftarrow> z_maybe z_scalar (member ''default'');
           options \<leftarrow> z_maybe (z_list 50 z_option) (member ''options'');
           lo \<leftarrow> z_maybe z_int (member ''min'');
           hi \<leftarrow> z_maybe z_int (member ''max'');
           secret \<leftarrow> z_or False z_bool (member ''secret'');
           z_maybe (z_text True 0 80) (member ''placeholder'');
           Some \<lparr>sf_key = key, sf_type = ty, sf_scope = scope, sf_default = fallback, sf_options = options,
                 sf_min = lo, sf_max = hi, sf_secret = secret\<rparr> })"

definition default_fits :: "setting_field \<Rightarrow> bool" where
  "default_fits f =
     (case sf_default f of
        None \<Rightarrow> True
      | Some (JsonNumber i) \<Rightarrow> sf_type f = SNumber
      | Some (JsonBool b) \<Rightarrow> sf_type f = SBoolean
      | Some (JsonString s) \<Rightarrow>
          sf_type f = SText \<or> sf_type f = SSelect \<and> (case sf_options f of None \<Rightarrow> False | Some vs \<Rightarrow> s \<in> set vs)
      | Some JsonOther \<Rightarrow> False)"

definition setting_consistent :: "setting_field \<Rightarrow> bool" where
  "setting_consistent f \<longleftrightarrow>
     (if sf_type f = SSelect then sf_options f \<noteq> None \<and> sf_options f \<noteq> Some [] else sf_options f = None \<or> sf_options f = Some []) \<and>
     (sf_type f = SNumber \<or> sf_min f = None \<and> sf_max f = None) \<and>
     (case (sf_min f, sf_max f) of (Some lo, Some hi) \<Rightarrow> lo \<le> hi | _ \<Rightarrow> True) \<and>
     (\<not> sf_secret f \<or> sf_type f = SText) \<and> default_fits f"

definition MANIFEST_PERMISSIONS :: "(string \<times> app_permission) list" where
  "MANIFEST_PERMISSIONS =
     map (\<lambda>p. (permission_text p, p)) [PNotifications, PStorage, PUser, PFiles, PSystem, PFetch, PSchedule]"

definition CATEGORIES :: "(string \<times> string) list" where
  "CATEGORIES = map (\<lambda>s. (s, s)) [''system'', ''utilities'', ''media'', ''productivity'', ''developer'']"

definition z_window :: "json option \<Rightarrow> unit option" where
  "z_window j =
     (let within = (\<lambda>k lo hi. do { i \<leftarrow> z_int (Option.bind j (\<lambda>o'. jget o' k)); demand (lo \<le> i \<and> i \<le> hi) }) in
      do { within ''defaultWidth'' 240 4000; within ''defaultHeight'' 180 4000;
           within ''minWidth'' 200 4000; within ''minHeight'' 150 4000;
           z_bool (Option.bind j (\<lambda>o'. jget o' ''resizable'')); Some () })"

definition z_host :: "json option \<Rightarrow> string option" where
  "z_host j = do { s \<leftarrow> z_text True 0 253 j; Some (js_lower s) }"

definition manifest_consistent :: "app_manifest \<Rightarrow> bool" where
  "manifest_consistent m \<longleftrightarrow>
     (PFetch \<in> set (am_permissions m) \<longleftrightarrow> am_fetch_hosts m \<noteq> []) \<and>
     distinct (map sf_key (am_settings m)) \<and> list_all setting_consistent (am_settings m) \<and>
     list_all isValidHostPattern (am_fetch_hosts m)"

text \<open>The schema: the manifest as it will be registered, not yet signed, and the publisher's key.\<close>

definition manifestSchema :: "json \<Rightarrow> (app_manifest \<times> string option) option" where
  "manifestSchema j =
     do { demand (jget j ''manifestVersion'' = Some (JNum 1));
          i \<leftarrow> z_text False 2 64 (jget j ''id''); demand (dev_id_ok i);
          name \<leftarrow> z_text True 1 64 (jget j ''name'');
          version \<leftarrow> z_text True 1 32 (jget j ''version'');
          z_or '''' (z_text False 0 64) (jget j ''author'');
          z_or '''' (z_text False 0 280) (jget j ''description'');
          relPath (jget j ''icon'');
          gradient \<leftarrow> z_or '''' (z_text False 0 128) (jget j ''iconGradient''); demand (gradient_ok gradient);
          z_or ''utilities'' (z_enum CATEGORIES) (jget j ''category'');
          entry \<leftarrow> relPath (jget j ''entry'');
          role \<leftarrow> z_or User (z_enum [(''admin'', Admin), (''user'', User)]) (jget j ''minRole'');
          key \<leftarrow> z_maybe (z_text False 0 4096) (jget j ''publisherKey'');
          permissions \<leftarrow> z_or [] (\<lambda>v. case v of Some (JArr js) \<Rightarrow> z_list (length js) (z_enum MANIFEST_PERMISSIONS) v | _ \<Rightarrow> None) (jget j ''permissions'');
          hosts \<leftarrow> z_or [] (z_list 10 z_host) (jget j ''fetchHosts'');
          z_or [] (z_list 8 relPath) (jget j ''screenshots'');
          settings \<leftarrow> z_or [] (z_list 30 z_setting) (jget j ''settings'');
          z_or () z_window (jget j ''window'');
          let m = \<lparr>am_id = i, am_name = name, am_kind = ''external'', am_min_role = role, am_version = Some version,
                   am_entry = Some entry, am_permissions = permissions, am_signed = False, am_fingerprint = None,
                   am_fetch_hosts = hosts, am_settings = settings, am_dev_url = None\<rparr>;
          demand (manifest_consistent m);
          Some (m, key) }"

subsection \<open>The signature\<close>

text \<open>
  What is hashed: for every file but the signature, in the order of the names, the name,
  a line feed, the hash of the content and a line feed.
\<close>

definition signed_names :: "(string \<times> string) list \<Rightarrow> string list" where
  "signed_names es = sort (filter (\<lambda>n. n \<noteq> ''SIGNATURE'' \<and> \<not> ends_with n ''/'') (map fst es))"

definition digest_line :: "(string \<Rightarrow> string) \<Rightarrow> (string \<times> string) list \<Rightarrow> string \<Rightarrow> string" where
  "digest_line hex es n = n @ [CHR 0x0A] @ hex (the (map_of es n)) @ [CHR 0x0A]"

definition digest_input :: "(string \<Rightarrow> string) \<Rightarrow> (string \<times> string) list \<Rightarrow> string" where
  "digest_input hex es = concat (map (digest_line hex es) (signed_names es))"

definition canonicalDigest :: "package_env \<Rightarrow> (string \<times> string) list \<Rightarrow> string" where
  "canonicalDigest e es = pe_sha256 e (digest_input (pe_sha256_hex e) es)"

text \<open>\<open>None\<close> of the verifier is an exception: a key that does not decode, for instance.\<close>

definition verifyPackage :: "package_env \<Rightarrow> (string \<times> string) list \<Rightarrow> string option \<Rightarrow> bool \<times> string option" where
  "verifyPackage e es publisherKey =
     (case (map_of es ''SIGNATURE'', publisherKey) of
        (Some sig, Some key) \<Rightarrow>
          (let der = pe_base64 e key;
               signature = pe_base64 e (js_trim (pe_decode e sig))
           in if key \<noteq> '''' \<and> pe_verify e der (canonicalDigest e es) signature = Some True
              then (True, Some (pe_sha256_hex e der)) else (False, None))
      | _ \<Rightarrow> (False, None))"

definition toAppManifest :: "app_manifest \<Rightarrow> bool \<times> string option \<Rightarrow> app_manifest" where
  "toAppManifest m = (\<lambda>(signed, fingerprint). m\<lparr>am_signed := signed, am_fingerprint := fingerprint\<rparr>)"

subsection \<open>Validation\<close>

definition RESERVED_IDS :: "string list" where
  "RESERVED_IDS = map am_id BUILTIN_APPS @ map fst CATALOG"

definition safeJoin :: "string \<Rightarrow> string \<Rightarrow> string option" where
  "safeJoin base entry =
     (let dest = path_resolve base [entry] in
      if dest \<noteq> base \<and> \<not> starts_with dest (base @ ''/'') then None else Some dest)"

record validated_package =
  vp_manifest :: app_manifest
  vp_writes :: "(string \<times> string) list"
  vp_app_dir :: string

definition unpack_entries :: "(string \<times> string) list \<Rightarrow> (string \<times> string) list" where
  "unpack_entries files = filter (\<lambda>(n, c). \<not> ends_with n ''/'') files"

definition check_unpacked :: "(string \<times> string) list \<Rightarrow> package_error option" where
  "check_unpacked entries =
     (if entries = [] then Some EmptyPackage
      else if length entries > MAX_ENTRIES then Some TooManyFiles
      else if sum_list (map (length \<circ> snd) entries) > MAX_TOTAL_BYTES then Some UnpacksTooLarge
      else None)"

definition read_manifest :: "package_env \<Rightarrow> (string \<times> string) list \<Rightarrow> package_error + app_manifest \<times> string option" where
  "read_manifest e files =
     (case map_of files ''opennas-app.json'' of
        None \<Rightarrow> Inl NoManifest
      | Some raw \<Rightarrow>
          (case json_parse (pe_decode e raw) of
             None \<Rightarrow> Inl ManifestNotJson
           | Some j \<Rightarrow> (case manifestSchema j of None \<Rightarrow> Inl BadManifest | Some x \<Rightarrow> Inr x)))"

definition validatePackage :: "package_env \<Rightarrow> string \<Rightarrow> package_error + validated_package" where
  "validatePackage e buf =
     (case checkUncompressedSize buf of
        Some x \<Rightarrow> Inl x
      | None \<Rightarrow>
          (case pe_unzip e buf of
             None \<Rightarrow> Inl Unreadable
           | Some files \<Rightarrow>
               (let entries = unpack_entries files in
                case check_unpacked entries of
                  Some x \<Rightarrow> Inl x
                | None \<Rightarrow>
                    (case read_manifest e files of
                       Inl x \<Rightarrow> Inl x
                     | Inr (m, key) \<Rightarrow>
                         if am_id m \<in> set RESERVED_IDS then Inl ReservedId
                         else if map_of files (the (am_entry m)) = None then Inl MissingEntry
                         else
                           (let appDir = path_join (pe_apps_dir e) (am_id m) in
                            case those (map (\<lambda>(n, c). map_option (\<lambda>dest. (dest, c)) (safeJoin appDir n)) entries) of
                              None \<Rightarrow> Inl UnsafeFilePath
                            | Some writes \<Rightarrow>
                                Inr \<lparr>vp_manifest = toAppManifest m (verifyPackage e files key), vp_writes = writes,
                                     vp_app_dir = appDir\<rparr>)))))"

subsection \<open>In place and away\<close>

text \<open>What was written before a failing call stays.\<close>

fun write_all :: "(string \<times> string) list \<Rightarrow> fs \<Rightarrow> bool \<times> fs" where
  "write_all [] f = (True, f)"
| "write_all ((dest, content) # ws) f =
     (let (ok, g) = write_below dest content f in if ok then write_all ws g else (False, g))"

definition commitPackage ::
  "millis \<Rightarrow> validated_package \<Rightarrow> string option \<Rightarrow> db \<Rightarrow> fs \<Rightarrow> app_manifest option \<times> db \<times> fs" where
  "commitPackage now pkg sourceRepo d f =
     (let m = vp_manifest pkg;
          (ok, g) = write_all (vp_writes pkg) (rm_recursive (vp_app_dir pkg) f)
      in if \<not> ok then (None, d, g)
         else (Some m, snd (pruneUnknownSettings (am_id m) (am_settings m) (upsertInstalledApp now m sourceRepo d)), g))"

definition uninstallApp :: "package_env \<Rightarrow> app_env \<Rightarrow> string \<Rightarrow> db \<Rightarrow> fs \<Rightarrow> db \<times> fs" where
  "uninstallApp e ae i d f =
     (removeInstalledApp i d,
      rm_recursive (path_join (ap_data_dir ae) i) (rm_recursive (path_join (pe_apps_dir e) i) f))"

end
