(* ===== verification/Staging.thy ===== *)
theory Staging
  imports Packages
begin

text \<open>
  Installing with consent: \<open>apps/api/src/apps/staging.ts\<close> and the routes of
  \<open>apps/routes.ts\<close> that install, approve, remove and manage apps.  Every route here has
  passed \<open>requireAdmin\<close>.  The staged packages are the module's map in insertion order.
\<close>

record pending_install =
  pi_token :: string
  pi_app_id :: string
  pi_name :: string
  pi_version :: string
  pi_permissions :: "app_permission list"
  pi_new_permissions :: "app_permission list"
  pi_is_update :: bool
  pi_signed :: bool
  pi_fingerprint :: "string option"
  pi_verified :: bool
  pi_fetch_hosts :: "string list"
  pi_expires_at :: millis

record staged =
  sg_pkg :: validated_package
  sg_pending :: pending_install
  sg_expires_at :: millis
  sg_source_repo :: "string option"

type_synonym staging = "(string \<times> staged) list"

definition STAGED_TTL_MS :: millis where "STAGED_TTL_MS = 5 * 60 * 1000"
definition MAX_STAGED :: nat where "MAX_STAGED = 5"

definition prune_staged :: "millis \<Rightarrow> staging \<Rightarrow> staging" where
  "prune_staged now st = filter (\<lambda>(t, s). now < sg_expires_at s) st"

definition discardStaged :: "string \<Rightarrow> staging \<Rightarrow> bool \<times> staging" where
  "discardStaged token st = (map_of st token \<noteq> None, filter (\<lambda>(t, s). t \<noteq> token) st)"

definition discardStagedFor :: "string \<Rightarrow> staging \<Rightarrow> staging" where
  "discardStagedFor appId st = filter (\<lambda>(t, s). pi_app_id (sg_pending s) \<noteq> appId) st"

definition grantedPermissions :: "db \<Rightarrow> string \<Rightarrow> app_permission list" where
  "grantedPermissions d i =
     (case getInstalledApp d i of None \<Rightarrow> [] | Some r \<Rightarrow> am_permissions (app_manifest_json r))"

text \<open>\<open>token\<close> and \<open>expiresAt\<close> are filled in when the package is staged.\<close>

definition reviewPackage :: "crypto \<Rightarrow> db \<Rightarrow> validated_package \<Rightarrow> bool \<times> pending_install" where
  "reviewPackage cr d pkg =
     (let m = vp_manifest pkg;
          new = filter (\<lambda>p. p \<notin> set (grantedPermissions d (am_id m))) (am_permissions m);
          verified = (am_signed m \<and> isTrusted cr d (am_fingerprint m))
      in (new \<noteq> [] \<or> \<not> verified,
          \<lparr>pi_token = '''', pi_app_id = am_id m, pi_name = am_name m,
           pi_version = (case am_version m of None \<Rightarrow> ''0.0.0'' | Some v \<Rightarrow> v),
           pi_permissions = am_permissions m, pi_new_permissions = new,
           pi_is_update = (getInstalledApp d (am_id m) \<noteq> None), pi_signed = am_signed m,
           pi_fingerprint = am_fingerprint m, pi_verified = verified, pi_fetch_hosts = am_fetch_hosts m,
           pi_expires_at = 0\<rparr>))"

text \<open>Drop the one that expires first until there is room.\<close>

definition oldest_token :: "staging \<Rightarrow> string" where
  "oldest_token st = fst (hd (order_asc (\<lambda>(t, s). sg_expires_at s) st))"

lemma oldest_token_in: "st \<noteq> [] \<Longrightarrow> oldest_token st \<in> fst ` set st"
proof -
  assume "st \<noteq> []"
  then have "order_asc (\<lambda>(t, s). sg_expires_at s) st \<noteq> []"
    using set_order_asc [of "\<lambda>(t, s). sg_expires_at s" st] by (metis set_empty)
  then have "hd (order_asc (\<lambda>(t, s). sg_expires_at s) st) \<in> set st" using hd_in_set set_order_asc by metis
  then show ?thesis by (simp add: oldest_token_def)
qed

function make_room :: "staging \<Rightarrow> staging" where
  "make_room st =
     (if length st \<ge> MAX_STAGED then make_room (filter (\<lambda>(t, s). t \<noteq> oldest_token st) st) else st)"
  by auto

termination
proof (relation "measure length")
  fix st :: staging
  assume "length st \<ge> MAX_STAGED"
  then have "oldest_token st \<in> fst ` set st" by (intro oldest_token_in) (auto simp: MAX_STAGED_def)
  then have "\<exists>x \<in> set st. \<not> (case x of (t, s) \<Rightarrow> t \<noteq> oldest_token st)" by auto
  then show "(filter (\<lambda>(t, s). t \<noteq> oldest_token st) st, st) \<in> measure length"
    by (auto intro: length_filter_less)
qed simp

declare make_room.simps [simp del]

definition stagePackage ::
  "string \<Rightarrow> millis \<Rightarrow> validated_package \<Rightarrow> pending_install \<Rightarrow> string option \<Rightarrow> staging \<Rightarrow> pending_install \<times> staging" where
  "stagePackage token now pkg details sourceRepo st =
     (let room = make_room (prune_staged now st);
          pending = details\<lparr>pi_token := token, pi_expires_at := now + STAGED_TTL_MS\<rparr>;
          entry = \<lparr>sg_pkg = pkg, sg_pending = pending, sg_expires_at = now + STAGED_TTL_MS, sg_source_repo = sourceRepo\<rparr>
      in (pending, room @ [(token, entry)]))"

definition takeStaged :: "string \<Rightarrow> millis \<Rightarrow> staging \<Rightarrow> staged option \<times> staging" where
  "takeStaged token now st =
     (let live = prune_staged now st in
      case map_of live token of
        None \<Rightarrow> (None, live)
      | Some s \<Rightarrow> (Some s, filter (\<lambda>(t, x). t \<noteq> token) live))"

subsection \<open>The pipeline\<close>

text \<open>What the install routes work on.\<close>

record app_server =
  as_db :: db
  as_fs :: fs
  as_staged :: staging

datatype install_outcome = Installed app_manifest | Pending pending_install | InstallCrashed

definition commit_on :: "millis \<Rightarrow> validated_package \<Rightarrow> string option \<Rightarrow> app_server \<Rightarrow> app_manifest option \<times> app_server" where
  "commit_on now pkg sourceRepo s =
     (let (m, d, f) = commitPackage now pkg sourceRepo (as_db s) (as_fs s) in (m, s\<lparr>as_db := d, as_fs := f\<rparr>))"

definition prepareInstall ::
  "package_env \<Rightarrow> crypto \<Rightarrow> string \<Rightarrow> millis \<Rightarrow> string \<Rightarrow> string option \<Rightarrow> app_server \<Rightarrow>
     (package_error + install_outcome) \<times> app_server" where
  "prepareInstall e cr token now buf sourceRepo s =
     (case validatePackage e buf of
        Inl x \<Rightarrow> (Inl x, s)
      | Inr pkg \<Rightarrow>
          (let (needsConsent, details) = reviewPackage cr (as_db s) pkg in
           if \<not> needsConsent then
             (let (m, s') = commit_on now pkg sourceRepo s
              in (Inr (case m of None \<Rightarrow> InstallCrashed | Some x \<Rightarrow> Installed x), s'))
           else
             (let (pending, st) = stagePackage token now pkg details sourceRepo (as_staged s)
              in (Inr (Pending pending), s\<lparr>as_staged := st\<rparr>))))"

subsection \<open>Routes\<close>

definition outcome_reply :: "package_error + install_outcome \<Rightarrow> install_outcome reply" where
  "outcome_reply r =
     (case r of
        Inl x \<Rightarrow> Refused 400 ''bad_package''
      | Inr InstallCrashed \<Rightarrow> Refused 500 ''install_failed''
      | Inr done \<Rightarrow> Sent done)"

definition beginInstall ::
  "package_env \<Rightarrow> crypto \<Rightarrow> string \<Rightarrow> millis \<Rightarrow> string \<Rightarrow> app_server \<Rightarrow> install_outcome reply \<times> app_server" where
  "beginInstall e cr token now buf s =
     (let (r, s') = prepareInstall e cr token now buf None s in (outcome_reply r, s'))"

definition postInstall ::
  "package_env \<Rightarrow> crypto \<Rightarrow> string \<Rightarrow> millis \<Rightarrow> upload_part option \<Rightarrow> app_server \<Rightarrow> install_outcome reply \<times> app_server" where
  "postInstall e cr token now part s =
     (case part of
        None \<Rightarrow> (Refused 400 ''no_file'', s)
      | Some p \<Rightarrow>
          if up_truncated p then (Refused 413 ''too_large'', s) else beginInstall e cr token now (up_content p) s)"

definition postInstallConfirm :: "string \<Rightarrow> millis \<Rightarrow> app_server \<Rightarrow> app_manifest reply \<times> app_server" where
  "postInstallConfirm token now s =
     (if token = '''' \<or> length token > 128 then (Refused 400 ''invalid'', s)
      else
        (case takeStaged token now (as_staged s) of
           (None, st) \<Rightarrow> (Refused 410 ''expired'', s\<lparr>as_staged := st\<rparr>)
         | (Some x, st) \<Rightarrow>
             (let (m, s') = commit_on now (sg_pkg x) (sg_source_repo x) (s\<lparr>as_staged := st\<rparr>)
              in (case m of None \<Rightarrow> Refused 500 ''install_failed'' | Some y \<Rightarrow> Sent y, s'))))"

definition postInstallCancel :: "string \<Rightarrow> app_server \<Rightarrow> bool reply \<times> app_server" where
  "postInstallCancel token s =
     (if token = '''' \<or> length token > 128 then (Refused 400 ''invalid'', s)
      else (let (ok, st) = discardStaged token (as_staged s) in (Sent ok, s\<lparr>as_staged := st\<rparr>)))"

definition deleteApp :: "package_env \<Rightarrow> app_env \<Rightarrow> string \<Rightarrow> app_server \<Rightarrow> unit reply \<times> app_server" where
  "deleteApp e ae i s =
     (if getInstalledApp (as_db s) i = None then (Refused 404 ''not_found'', s)
      else
        (let (d1, f) = uninstallApp e ae i (as_db s) (as_fs s);
             d2 = snd (deleteTasksForApp i d1);
             d3 = revokeAllForApp i d2
         in (Sent (), \<lparr>as_db = forgetApp i d3, as_fs = f, as_staged = discardStagedFor i (as_staged s)\<rparr>)))"

record managed_app =
  ma_manifest :: app_manifest
  ma_enabled :: bool
  ma_installed_at :: millis
  ma_verified :: bool

definition getManage :: "crypto \<Rightarrow> db \<Rightarrow> managed_app list" where
  "getManage cr d =
     map (\<lambda>r. let m = app_manifest_json r in
            \<lparr>ma_manifest = m, ma_enabled = app_enabled r, ma_installed_at = app_installed_at r,
             ma_verified = (am_signed m \<and> isTrusted cr d (am_fingerprint m))\<rparr>)
       (listInstalledApps d)"

definition postTrust :: "crypto \<Rightarrow> string \<Rightarrow> bool \<Rightarrow> db \<Rightarrow> bool reply \<times> db" where
  "postTrust cr i trusted d =
     (case getInstalledApp d i of
        None \<Rightarrow> (Refused 404 ''not_found'', d)
      | Some r \<Rightarrow>
          (case am_fingerprint (app_manifest_json r) of
             Some fp \<Rightarrow>
               if \<not> am_signed (app_manifest_json r) \<or> fp = '''' then (Refused 400 ''unsigned'', d)
               else (Sent trusted, setTrusted cr fp trusted d)
           | None \<Rightarrow> (Refused 400 ''unsigned'', d)))"

definition postEnabled :: "string \<Rightarrow> bool \<Rightarrow> db \<Rightarrow> bool reply \<times> db" where
  "postEnabled i enabled d =
     (if getInstalledApp d i = None then (Refused 404 ''not_found'', d) else (Sent enabled, setAppEnabled i enabled d))"

text \<open>A development app as the request states it; the body's lengths are checked after trimming.\<close>

definition dev_body_ok :: "dev_app \<Rightarrow> bool" where
  "dev_body_ok a \<longleftrightarrow> 2 \<le> length (dv_id a) \<and> length (dv_id a) \<le> 64 \<and> 1 \<le> length (dv_name a) \<and> length (dv_name a) \<le> 64 \<and>
     1 \<le> length (dv_url a) \<and> length (dv_url a) \<le> 255 \<and> length (dv_permissions a) \<le> length APP_PERMISSIONS"

definition putDev :: "app_env \<Rightarrow> dev_app list \<Rightarrow> db \<Rightarrow> dev_app list reply \<times> db" where
  "putDev ae apps d =
     (let body = map (\<lambda>a. a\<lparr>dv_id := js_trim (dv_id a), dv_name := js_trim (dv_name a), dv_url := js_trim (dv_url a)\<rparr>) apps in
      if length body > MAX_DEV_APPS \<or> \<not> list_all dev_body_ok body then (Refused 400 ''invalid'', d)
      else if \<not> list_all (\<lambda>a. isValidDevUrl (ap_parse ae) (strip_slashes (dv_url a))) body then (Refused 400 ''bad_url'', d)
      else if \<not> list_all (\<lambda>a. getInstalledApp d (js_lower (dv_id a)) = None) body then (Refused 409 ''id_taken'', d)
      else
        (let (saved, d') = saveDevApps (ap_parse ae) (ap_crypto ae)
               (map (\<lambda>a. a\<lparr>dv_id := js_lower (dv_id a), dv_url := strip_slashes (dv_url a)\<rparr>) body) d
         in (Sent saved, d')))"

end
