(* ===== verification/Repos.thy ===== *)
theory Repos
  imports Staging
begin

text \<open>
  App repositories: the list of \<open>apps/api/src/apps/repos.ts\<close> and the client of
  \<open>apps/api/src/apps/repo.ts\<close> with its merged catalogue, update check and one-click
  installs.  What a repository answers is the parameter \<open>re_fetch\<close>: the status and the body
  of a request, or nothing when it cannot be reached.
\<close>

record repo_env =
  re_pkg :: package_env
  re_parse :: "string \<Rightarrow> url option"
  re_host :: "string \<Rightarrow> string option"
  re_fetch :: "string \<Rightarrow> (nat \<times> string) option"
  re_crypto :: crypto
  re_collate :: "string \<Rightarrow> string"

subsection \<open>\<open>repos.ts\<close>\<close>

record app_repo =
  ar_id :: string
  ar_url :: string
  ar_name :: string
  ar_enabled :: bool

definition DEFAULT_REPO :: string where "DEFAULT_REPO = ''https://repo.opennas.eu''"
definition MAX_REPOS :: nat where "MAX_REPOS = 8"

definition normalizeUrl :: "string \<Rightarrow> string" where
  "normalizeUrl u = strip_slashes (js_trim u)"

definition repoIdFor :: "repo_env \<Rightarrow> string \<Rightarrow> string" where
  "repoIdFor e u = take 12 (pe_sha256_hex (re_pkg e) (normalizeUrl u))"

definition isValidRepoUrl :: "repo_env \<Rightarrow> string \<Rightarrow> bool" where
  "isValidRepoUrl e u \<longleftrightarrow>
     (starts_with (js_lower u) ''http://'' \<or> starts_with (js_lower u) ''https://'') \<and>
     (case re_parse e u of None \<Rightarrow> False | Some v \<Rightarrow> url_hostname v \<noteq> '''')"

definition coerce_repo :: "repo_env \<Rightarrow> json \<Rightarrow> app_repo option" where
  "coerce_repo e raw =
     (let u = normalizeUrl (string_member raw ''url'' '''') in
      if \<not> isValidRepoUrl e u then None
      else Some
        \<lparr>ar_id = (case jget raw ''id'' of Some (JStr s) \<Rightarrow> if s = '''' then repoIdFor e u else s | _ \<Rightarrow> repoIdFor e u),
         ar_url = u, ar_name = (case jget raw ''name'' of Some (JStr s) \<Rightarrow> s | _ \<Rightarrow> ''''),
         ar_enabled = (jget raw ''enabled'' \<noteq> Some (JBool False))\<rparr>)"

fun distinct_urls :: "string list \<Rightarrow> app_repo list \<Rightarrow> app_repo list" where
  "distinct_urls seen [] = []"
| "distinct_urls seen (r # rs) =
     (if ar_url r \<in> set seen then distinct_urls seen rs else r # distinct_urls (ar_url r # seen) rs)"

definition dedupe :: "app_repo list \<Rightarrow> app_repo list" where
  "dedupe rs = take MAX_REPOS (distinct_urls [] rs)"

definition stored_repos :: "repo_env \<Rightarrow> string \<Rightarrow> app_repo list" where
  "stored_repos e raw =
     (case json_parse raw of Some (JArr js) \<Rightarrow> List.map_filter (coerce_repo e) js | _ \<Rightarrow> [])"

definition listRepos :: "repo_env \<Rightarrow> db \<Rightarrow> app_repo list" where
  "listRepos e d =
     (let repos = stored_repos e (getSettingOr (re_crypto e) d ''app_repos'' '''') in
      if repos \<noteq> [] then dedupe repos
      else
        (let legacy = normalizeUrl (getSettingOr (re_crypto e) d ''app_repo_url'' DEFAULT_REPO);
             u = (if isValidRepoUrl e legacy then legacy else DEFAULT_REPO)
         in [\<lparr>ar_id = repoIdFor e u, ar_url = u, ar_name = '''', ar_enabled = True\<rparr>]))"

definition repo_json :: "app_repo \<Rightarrow> json" where
  "repo_json r = JObj [(''id'', JStr (ar_id r)), (''url'', JStr (ar_url r)), (''name'', JStr (ar_name r)), (''enabled'', JBool (ar_enabled r))]"

definition store_repos :: "repo_env \<Rightarrow> app_repo list \<Rightarrow> db \<Rightarrow> db" where
  "store_repos e rs d = setSetting (re_crypto e) '''' '''' ''app_repos'' (stringify (JArr (map repo_json rs))) d"

definition saveRepos :: "repo_env \<Rightarrow> app_repo list \<Rightarrow> db \<Rightarrow> app_repo list \<times> db" where
  "saveRepos e repos d =
     (let clean = dedupe (map (\<lambda>r. r\<lparr>ar_url := normalizeUrl (ar_url r), ar_id := repoIdFor e (ar_url r)\<rparr>) repos);
          d' = store_repos e clean d;
          primary = (case find ar_enabled clean of Some r \<Rightarrow> Some r | None \<Rightarrow> (case clean of [] \<Rightarrow> None | r # _ \<Rightarrow> Some r))
      in (clean, case primary of None \<Rightarrow> d' | Some r \<Rightarrow> setSetting (re_crypto e) '''' '''' ''app_repo_url'' (ar_url r) d'))"

definition enabledRepos :: "repo_env \<Rightarrow> db \<Rightarrow> app_repo list" where
  "enabledRepos e d = filter ar_enabled (listRepos e d)"

definition getRepo :: "repo_env \<Rightarrow> db \<Rightarrow> string \<Rightarrow> app_repo option" where
  "getRepo e d i = find (\<lambda>r. ar_id r = i) (listRepos e d)"

definition noteRepoName :: "repo_env \<Rightarrow> string \<Rightarrow> string \<Rightarrow> db \<Rightarrow> db" where
  "noteRepoName e i name d =
     (if name = '''' then d
      else
        (case getRepo e d i of
           None \<Rightarrow> d
         | Some r \<Rightarrow>
             if ar_name r = name then d
             else store_repos e (map (\<lambda>x. if x = r then x\<lparr>ar_name := name\<rparr> else x) (listRepos e d)) d))"

definition repoLabel :: "repo_env \<Rightarrow> app_repo \<Rightarrow> string" where
  "repoLabel e r =
     (if ar_name r \<noteq> '''' then ar_name r else case re_host e (ar_url r) of None \<Rightarrow> ar_url r | Some h \<Rightarrow> h)"

subsection \<open>The catalogue\<close>

datatype repo_error = RepoError nat string

record repo_app =
  ra_id :: string
  ra_repo_id :: string
  ra_repo_name :: string
  ra_name :: string
  ra_version :: string
  ra_description :: string
  ra_category :: string
  ra_author :: string
  ra_icon :: string
  ra_icon_gradient :: string
  ra_signed :: bool
  ra_fingerprint :: "string option"
  ra_permissions :: "app_permission list"
  ra_installed :: bool

fun json_truthy :: "json \<Rightarrow> bool" where
  "json_truthy JNull = False"
| "json_truthy (JBool b) = b"
| "json_truthy (JNum i) = (i \<noteq> 0)"
| "json_truthy (JStr s) = (s \<noteq> '''')"
| "json_truthy _ = True"

definition member_truthy :: "json \<Rightarrow> string \<Rightarrow> bool" where
  "member_truthy j k = (case jget j k of None \<Rightarrow> False | Some v \<Rightarrow> json_truthy v)"

definition toRepoApp :: "repo_env \<Rightarrow> app_repo \<Rightarrow> string list \<Rightarrow> json \<Rightarrow> repo_app option" where
  "toRepoApp e repo installed raw =
     (let i = string_member raw ''id'' '''' in
      if \<not> dev_id_ok i then None
      else Some
        \<lparr>ra_id = i, ra_repo_id = ar_id repo, ra_repo_name = repoLabel e repo, ra_name = string_member raw ''name'' i,
         ra_version = string_member raw ''version'' '''', ra_description = string_member raw ''description'' '''',
         ra_category = string_member raw ''category'' ''utilities'', ra_author = string_member raw ''author'' '''',
         ra_icon = string_member raw ''icon'' '''',
         ra_icon_gradient = string_member raw ''iconGradient'' ''from-slate-400 to-slate-600'',
         ra_signed = member_truthy raw ''signed'',
         ra_fingerprint = (if member_truthy raw ''publisherFingerprint'' then Some (string_member raw ''publisherFingerprint'' '''') else None),
         ra_permissions = (case jget raw ''permissions'' of
             Some (JArr ps) \<Rightarrow> List.map_filter (\<lambda>p. case p of JStr s \<Rightarrow> permission_of_text s | _ \<Rightarrow> None) ps
           | _ \<Rightarrow> []),
         ra_installed = (i \<in> set installed)\<rparr>)"

text \<open>One repository: its apps, its name and whether it answered.  A null entry throws like a refused connection.\<close>

record loaded =
  ld_apps :: "repo_app list"
  ld_name :: string
  ld_reached :: bool

definition not_loaded :: loaded where
  "not_loaded = \<lparr>ld_apps = [], ld_name = '''', ld_reached = False\<rparr>"

definition loadOne :: "repo_env \<Rightarrow> app_repo \<Rightarrow> string list \<Rightarrow> loaded" where
  "loadOne e repo installed =
     (case re_fetch e (ar_url repo @ ''/v1/catalog'') of
        None \<Rightarrow> not_loaded
      | Some (status, body) \<Rightarrow>
          if status < 200 \<or> 300 \<le> status then not_loaded
          else
            (case json_parse body of
               None \<Rightarrow> not_loaded
             | Some j \<Rightarrow>
                 (let apps = (case jget j ''apps'' of Some (JArr js) \<Rightarrow> js | _ \<Rightarrow> []) in
                  if j = JNull \<or> JNull \<in> set apps then not_loaded
                  else \<lparr>ld_apps = List.map_filter (toRepoApp e repo installed) apps,
                        ld_name = string_member j ''repository'' '''', ld_reached = True\<rparr>)))"

record repo_source =
  rs_id :: string
  rs_name :: string
  rs_url :: string
  rs_reachable :: bool
  rs_app_count :: nat
  rs_shadowed :: nat

text \<open>The first repository to offer an id keeps it.\<close>

fun claim_apps :: "string list \<Rightarrow> repo_app list \<Rightarrow> repo_app list" where
  "claim_apps claimed [] = []"
| "claim_apps claimed (a # as) =
     (if ra_id a \<in> set claimed then claim_apps claimed as else a # claim_apps (ra_id a # claimed) as)"

fun merge_sources :: "repo_env \<Rightarrow> string list \<Rightarrow> (app_repo \<times> loaded) list \<Rightarrow> repo_app list \<times> repo_source list" where
  "merge_sources e claimed [] = ([], [])"
| "merge_sources e claimed ((repo, l) # rest) =
     (let mine = claim_apps claimed (ld_apps l);
          (apps, sources) = merge_sources e (map ra_id mine @ claimed) rest
      in (mine @ apps,
          \<lparr>rs_id = ar_id repo, rs_name = (if ld_name l = '''' then repoLabel e repo else ld_name l), rs_url = ar_url repo,
           rs_reachable = ld_reached l, rs_app_count = length mine, rs_shadowed = length (ld_apps l) - length mine\<rparr> # sources))"

record catalog =
  ct_repository :: string
  ct_url :: string
  ct_apps :: "repo_app list"
  ct_sources :: "repo_source list"

definition loadCatalog :: "repo_env \<Rightarrow> db \<Rightarrow> (repo_error + catalog) \<times> db" where
  "loadCatalog e d =
     (let repos = enabledRepos e d in
      if repos = [] then (Inl (RepoError 400 ''no_repos''), d)
      else
        (let installed = map (\<lambda>r. am_id (app_manifest_json r)) (listInstalledApps d);
             results = map (\<lambda>r. (r, loadOne e r installed)) repos;
             d' = fold (\<lambda>(r, l). noteRepoName e (ar_id r) (ld_name l)) results d;
             (apps, sources) = merge_sources e [] results
         in if list_all (\<lambda>s. \<not> rs_reachable s) sources then (Inl (RepoError 502 ''repo_unreachable''), d')
            else
              (let primary = (case find rs_reachable sources of Some s \<Rightarrow> s | None \<Rightarrow> hd sources)
               in (Inr \<lparr>ct_repository = rs_name primary, ct_url = rs_url primary,
                        ct_apps = order_asc (\<lambda>a. re_collate e (ra_name a)) apps, ct_sources = sources\<rparr>, d'))))"

subsection \<open>Downloads\<close>

text \<open>The status of the answer is looked at before its size; a package over the limit ends the search.\<close>

fun try_download :: "repo_env \<Rightarrow> string \<Rightarrow> repo_error \<Rightarrow> app_repo list \<Rightarrow> repo_error + string \<times> string" where
  "try_download e i err [] = Inl err"
| "try_download e i err (r # rs) =
     (case re_fetch e (ar_url r @ ''/v1/apps/'' @ i @ ''/download'') of
        None \<Rightarrow> try_download e i (RepoError 502 ''repo_unreachable'') rs
      | Some (status, body) \<Rightarrow>
          if status < 200 \<or> 300 \<le> status then try_download e i (RepoError 404 ''not_found'') rs
          else if length body > 64 * 1024 * 1024 then Inl (RepoError 413 ''too_large'')
          else Inr (body, ar_id r))"

definition downloadPackage :: "repo_env \<Rightarrow> db \<Rightarrow> string \<Rightarrow> string option \<Rightarrow> repo_error + string \<times> string" where
  "downloadPackage e d i repoId =
     (let pinned = (case repoId of None \<Rightarrow> None | Some r \<Rightarrow> if r = '''' then None else getRepo e d r);
          candidates = (case pinned of Some r \<Rightarrow> if ar_enabled r then [r] else enabledRepos e d | None \<Rightarrow> enabledRepos e d)
      in if candidates = [] then Inl (RepoError 400 ''no_repos'')
         else try_download e i (RepoError 502 ''repo_unreachable'') candidates)"

end
