(* ===== verification/Updates.thy ===== *)
theory Updates
  imports Repos
begin

text \<open>
  Updates of apps: the version order, the cached check and the ways to apply an update of
  \<open>apps/api/src/apps/repo.ts\<close>, among them the background run that installs on its own, and
  the routes below \<open>/apps/repo\<close>, all of which have passed \<open>requireAdmin\<close>.
\<close>

subsection \<open>Versions\<close>

text \<open>One dotted number, if there is one.\<close>

definition dotted_number :: "string \<Rightarrow> nat \<times> string" where
  "dotted_number s =
     (case s of
        c # t \<Rightarrow> if c = CHR ''.'' \<and> takeWhile is_digit t \<noteq> '''' then (decimal (takeWhile is_digit t), dropWhile is_digit t) else (0, s)
      | [] \<Rightarrow> (0, s))"

definition line_end :: "char \<Rightarrow> bool" where
  "line_end c \<longleftrightarrow> code_unit c = 10 \<or> code_unit c = 13"

definition parse_version :: "string \<Rightarrow> ((nat \<times> nat \<times> nat) \<times> string) option" where
  "parse_version v =
     (let s = js_trim v;
          s = (if starts_with s ''v'' then tl s else s);
          major = takeWhile is_digit s;
          (minor, r1) = dotted_number (dropWhile is_digit s);
          (patch, r2) = (if r1 = dropWhile is_digit s then (0, r1) else dotted_number r1)
      in if major = '''' then None
         else
           (case r2 of
              [] \<Rightarrow> Some ((decimal major, minor, patch), '''')
            | c # pre \<Rightarrow>
                if (c = CHR ''-'' \<or> c = CHR ''+'') \<and> list_all (\<lambda>x. \<not> line_end x) pre
                then Some ((decimal major, minor, patch), pre) else None))"

definition compare_pre :: "string \<Rightarrow> string \<Rightarrow> int" where
  "compare_pre p q =
     (if p = q then 0 else if p = '''' then 1 else if q = '''' then - 1 else if p < q then - 1 else 1)"

definition compareVersions :: "string \<Rightarrow> string \<Rightarrow> int" where
  "compareVersions a b =
     (case (parse_version a, parse_version b) of
        (Some ((a1, a2, a3), p), Some ((b1, b2, b3), q)) \<Rightarrow>
          if a1 \<noteq> b1 then int a1 - int b1
          else if a2 \<noteq> b2 then int a2 - int b2
          else if a3 \<noteq> b3 then int a3 - int b3
          else compare_pre p q
      | _ \<Rightarrow> 0)"

subsection \<open>The check\<close>

record app_update =
  up_id :: string
  up_name :: string
  up_installed_version :: string
  up_available_version :: string
  up_new_permissions :: "app_permission list"
  up_signed :: bool

record update_check =
  uc_at :: millis
  uc_success_at :: "millis option"
  uc_updates :: "app_update list"
  uc_reachable :: bool

definition CHECK_TTL_MS :: millis where "CHECK_TTL_MS = 15 * 60 * 1000"
definition FAIL_TTL_MS :: millis where "FAIL_TTL_MS = 60 * 1000"

definition update_of :: "repo_app list \<Rightarrow> installed_app_row \<Rightarrow> app_update option" where
  "update_of apps r =
     (case find (\<lambda>a. ra_id a = app_id r) apps of
        None \<Rightarrow> None
      | Some remote \<Rightarrow>
          if ra_version remote = '''' then None
          else if (case app_source_repo r of None \<Rightarrow> False | Some src \<Rightarrow> src \<noteq> '''' \<and> ra_repo_id remote \<noteq> src) then None
          else if compareVersions (ra_version remote) (app_version r) \<le> 0 then None
          else
            (let m = app_manifest_json r in
             Some \<lparr>up_id = app_id r, up_name = (if ra_name remote = '''' then am_name m else ra_name remote),
               up_installed_version = app_version r, up_available_version = ra_version remote,
               up_new_permissions = filter (\<lambda>p. p \<notin> set (am_permissions m)) (ra_permissions remote),
               up_signed = ra_signed remote\<rparr>))"

text \<open>An unreachable repository keeps what the last check found.\<close>

definition fresh_check :: "repo_env \<Rightarrow> millis \<Rightarrow> update_check option \<Rightarrow> db \<Rightarrow> update_check \<times> db" where
  "fresh_check e now lastCheck d =
     (case loadCatalog e d of
        (Inl err, d') \<Rightarrow>
          (\<lparr>uc_at = now, uc_success_at = Option.bind lastCheck uc_success_at,
            uc_updates = (case lastCheck of None \<Rightarrow> [] | Some c \<Rightarrow> uc_updates c), uc_reachable = False\<rparr>, d')
      | (Inr cat, d') \<Rightarrow>
          (\<lparr>uc_at = now, uc_success_at = Some now,
            uc_updates = List.map_filter (update_of (ct_apps cat)) (listInstalledApps d'), uc_reachable = True\<rparr>, d'))"

definition checkForUpdates ::
  "repo_env \<Rightarrow> millis \<Rightarrow> bool \<Rightarrow> update_check option \<Rightarrow> db \<Rightarrow> update_check \<times> db" where
  "checkForUpdates e now force lastCheck d =
     (case lastCheck of
        Some c \<Rightarrow>
          if \<not> force \<and> now - uc_at c < (if uc_reachable c then CHECK_TTL_MS else FAIL_TTL_MS) then (c, d)
          else fresh_check e now lastCheck d
      | None \<Rightarrow> fresh_check e now lastCheck d)"

definition autoUpdateEnabled :: "crypto \<Rightarrow> db \<Rightarrow> bool" where
  "autoUpdateEnabled cr d \<longleftrightarrow> getSettingOr cr d ''app_auto_update'' ''false'' = ''true''"

subsection \<open>Applying an update\<close>

datatype update_outcome = Updated string string string | NeedsApproval pending_install

datatype update_error = FromRepo repo_error | FromPackage package_error | UpdateCrashed

definition applyUpdate ::
  "repo_env \<Rightarrow> string \<Rightarrow> millis \<Rightarrow> string \<Rightarrow> app_server \<Rightarrow> (update_error + update_outcome) \<times> app_server" where
  "applyUpdate e token now i s =
     (let source = (case getInstalledApp (as_db s) i of None \<Rightarrow> None | Some r \<Rightarrow> app_source_repo r) in
      case downloadPackage e (as_db s) i source of
        Inl err \<Rightarrow> (Inl (FromRepo err), s)
      | Inr (buf, repoId) \<Rightarrow>
          (case validatePackage (re_pkg e) buf of
             Inl x \<Rightarrow> (Inl (FromPackage x), s)
           | Inr pkg \<Rightarrow>
               (let (needsConsent, details) = reviewPackage (re_crypto e) (as_db s) pkg in
                if needsConsent \<and> pi_new_permissions details \<noteq> [] then
                  (let (pending, st) = stagePackage token now pkg details None (as_staged s)
                   in (Inr (NeedsApproval pending), s\<lparr>as_staged := st\<rparr>))
                else
                  (case commit_on now pkg (Some repoId) s of
                     (None, s') \<Rightarrow> (Inl UpdateCrashed, s')
                   | (Some m, s') \<Rightarrow>
                       (Inr (Updated (am_id m) (am_name m) (case am_version m of None \<Rightarrow> ''0.0.0'' | Some v \<Rightarrow> v)), s')))))"

text \<open>One after the other; \<open>tokens\<close> supplies the token of a staged update.\<close>

fun apply_updates ::
  "repo_env \<Rightarrow> (string \<Rightarrow> string) \<Rightarrow> millis \<Rightarrow> string list \<Rightarrow> app_server \<Rightarrow>
     (string \<times> (update_error + update_outcome)) list \<times> app_server" where
  "apply_updates e tokens now [] s = ([], s)"
| "apply_updates e tokens now (i # is) s =
     (let (r, s1) = applyUpdate e (tokens i) now i s;
          (rs, s2) = apply_updates e tokens now is s1
      in ((i, r) # rs, s2))"

subsection \<open>The background run\<close>

definition update_note :: "app_update \<Rightarrow> update_error + update_outcome \<Rightarrow> new_notification option" where
  "update_note u r =
     (case r of
        Inr (NeedsApproval p) \<Rightarrow>
          Some \<lparr>nn_user_id = '''', nn_level = Some ''warning'',
            nn_title = up_name u @ '' v'' @ up_available_version u @ '' needs your approval'',
            nn_body = Some (''The update asks for new permissions ('' @ join '', '' (map permission_text (pi_new_permissions p)) @
               ''), so it wasn'' @ [CHR 0x27] @ ''t installed automatically. Review it in App Center.''),
            nn_app_id = Some ''app-center'', nn_dedupe_key = Some (''app-update-consent:'' @ up_id u)\<rparr>
      | Inr (Updated i name version) \<Rightarrow>
          Some \<lparr>nn_user_id = '''', nn_level = Some ''success'', nn_title = name @ '' updated to v'' @ version,
            nn_body = Some (''Automatically updated from v'' @ up_installed_version u @ ''.''),
            nn_app_id = Some ''app-center'', nn_dedupe_key = None\<rparr>
      | Inl x \<Rightarrow> None)"

definition updates_note :: "app_update list \<Rightarrow> new_notification" where
  "updates_note us =
     \<lparr>nn_user_id = '''', nn_level = Some ''info'',
      nn_title = (if length us = 1 then ''An app update is available'' else js_nat (length us) @ '' app updates are available''),
      nn_body = Some (join '', '' (map (\<lambda>u. up_name u @ '' v'' @ up_available_version u) us)),
      nn_app_id = Some ''app-center'', nn_dedupe_key = Some ''app-updates-available''\<rparr>"

definition tell_admins :: "(string \<Rightarrow> string list) \<Rightarrow> millis \<Rightarrow> listeners \<Rightarrow> string \<Rightarrow> new_notification \<Rightarrow> db \<Rightarrow> db" where
  "tell_admins ids now ls key n d =
     (case notifyAdmins (ids key) now ls n d of Inl x \<Rightarrow> d | Inr (count, sent, d') \<Rightarrow> d')"

fun auto_updates ::
  "repo_env \<Rightarrow> (string \<Rightarrow> string) \<Rightarrow> (string \<Rightarrow> string list) \<Rightarrow> listeners \<Rightarrow> millis \<Rightarrow> app_update list \<Rightarrow> app_server \<Rightarrow> app_server" where
  "auto_updates e tokens ids ls now [] s = s"
| "auto_updates e tokens ids ls now (u # us) s =
     (let (r, s1) = applyUpdate e (tokens (up_id u)) now (up_id u) s;
          s2 = (case update_note u r of None \<Rightarrow> s1 | Some n \<Rightarrow> s1\<lparr>as_db := tell_admins ids now ls (up_id u) n (as_db s1)\<rparr>)
      in auto_updates e tokens ids ls now us s2)"

definition run_update_checker ::
  "repo_env \<Rightarrow> (string \<Rightarrow> string) \<Rightarrow> (string \<Rightarrow> string list) \<Rightarrow> listeners \<Rightarrow> millis \<Rightarrow> update_check option \<Rightarrow> app_server \<Rightarrow>
     update_check \<times> app_server" where
  "run_update_checker e tokens ids ls now lastCheck s =
     (let (check, d1) = checkForUpdates e now True lastCheck (as_db s);
          s1 = s\<lparr>as_db := d1\<rparr>
      in if \<not> uc_reachable check \<or> uc_updates check = [] then (check, s1)
         else if \<not> autoUpdateEnabled (re_crypto e) d1
           then (check, s1\<lparr>as_db := tell_admins ids now ls ''app-updates-available'' (updates_note (uc_updates check)) d1\<rparr>)
         else
           (let s2 = auto_updates e tokens ids ls now (uc_updates check) s1;
                (check', d3) = checkForUpdates e now True (Some check) (as_db s2)
            in (check', s2\<lparr>as_db := d3\<rparr>)))"

subsection \<open>Routes\<close>

definition primary_url :: "repo_env \<Rightarrow> db \<Rightarrow> string" where
  "primary_url e d = (case enabledRepos e d of [] \<Rightarrow> DEFAULT_REPO | r # _ \<Rightarrow> ar_url r)"

definition getRepos :: "repo_env \<Rightarrow> db \<Rightarrow> app_repo list \<times> string" where
  "getRepos e d = (listRepos e d, primary_url e d)"

record repo_body =
  rb_url :: string
  rb_name :: "string option"
  rb_enabled :: "bool option"

definition repo_body_ok :: "repo_body \<Rightarrow> bool" where
  "repo_body_ok b \<longleftrightarrow> 1 \<le> length (js_trim (rb_url b)) \<and> length (js_trim (rb_url b)) \<le> 255 \<and>
     (case rb_name b of None \<Rightarrow> True | Some n \<Rightarrow> length (js_trim n) \<le> 64)"

definition putRepos ::
  "repo_env \<Rightarrow> repo_body list \<Rightarrow> update_check option \<Rightarrow> db \<Rightarrow> (app_repo list \<times> string) reply \<times> update_check option \<times> db" where
  "putRepos e body lastCheck d =
     (if body = [] \<or> length body > MAX_REPOS \<or> \<not> list_all repo_body_ok body then (Refused 400 ''invalid'', lastCheck, d)
      else if \<not> list_all (\<lambda>b. isValidRepoUrl e (normalizeUrl (js_trim (rb_url b)))) body then (Refused 400 ''invalid_url'', lastCheck, d)
      else if list_all (\<lambda>b. rb_enabled b = Some False) body then (Refused 400 ''none_enabled'', lastCheck, d)
      else
        (let (saved, d') = saveRepos e
               (map (\<lambda>b. let u = normalizeUrl (js_trim (rb_url b)) in
                  \<lparr>ar_id = repoIdFor e u, ar_url = u, ar_name = (case rb_name b of None \<Rightarrow> '''' | Some n \<Rightarrow> js_trim n),
                   ar_enabled = (rb_enabled b \<noteq> Some False)\<rparr>) body) d
         in (Sent (saved, primary_url e d'), None, d')))"

definition getCatalog :: "repo_env \<Rightarrow> db \<Rightarrow> catalog reply \<times> db" where
  "getCatalog e d =
     (case loadCatalog e d of
        (Inl (RepoError status code), d') \<Rightarrow> (Refused status code, d')
      | (Inr cat, d') \<Rightarrow> (Sent cat, d'))"

text \<open>The address of an image: always below a configured repository.\<close>

definition repo_id_ok :: "string \<Rightarrow> bool" where
  "repo_id_ok r \<longleftrightarrow> length r = 12 \<and> list_all (\<lambda>c. is_digit c \<or> 97 \<le> code_unit c \<and> code_unit c \<le> 102) r"

definition asset_url :: "repo_env \<Rightarrow> db \<Rightarrow> string option \<Rightarrow> string \<Rightarrow> nat option \<Rightarrow> string option" where
  "asset_url e d repo app shot =
     (case (case repo of Some r \<Rightarrow> getRepo e d r | None \<Rightarrow> (case enabledRepos e d of [] \<Rightarrow> None | r # _ \<Rightarrow> Some r)) of
        None \<Rightarrow> None
      | Some r \<Rightarrow> Some (ar_url r @ ''/v1/apps/'' @ app @ ''/'' @
          (case shot of None \<Rightarrow> ''icon'' | Some n \<Rightarrow> ''screenshot/'' @ js_nat n)))"

definition getAsset :: "repo_env \<Rightarrow> db \<Rightarrow> string option \<Rightarrow> string \<Rightarrow> nat option \<Rightarrow> string reply" where
  "getAsset e d repo app shot =
     (if \<not> dev_id_ok app \<or> (case shot of None \<Rightarrow> False | Some n \<Rightarrow> n > 20) \<or> (case repo of None \<Rightarrow> False | Some r \<Rightarrow> \<not> repo_id_ok r)
      then Refused 400 ''invalid''
      else
        (case asset_url e d repo app shot of
           None \<Rightarrow> Refused 404 ''not_found''
         | Some u \<Rightarrow>
             (case re_fetch e u of
                None \<Rightarrow> Refused 502 ''repo_unreachable''
              | Some (status, body) \<Rightarrow> if status < 200 \<or> 300 \<le> status then Refused 404 ''not_found'' else Sent body)))"

definition postRepoInstall ::
  "repo_env \<Rightarrow> string \<Rightarrow> millis \<Rightarrow> string \<Rightarrow> string option \<Rightarrow> update_check option \<Rightarrow> app_server \<Rightarrow>
     install_outcome reply \<times> update_check option \<times> app_server" where
  "postRepoInstall e token now i repo lastCheck s =
     (if \<not> dev_id_ok i \<or> (case repo of None \<Rightarrow> False | Some r \<Rightarrow> \<not> repo_id_ok r) then (Refused 400 ''invalid'', lastCheck, s)
      else
        (case downloadPackage e (as_db s) i repo of
           Inl (RepoError status code) \<Rightarrow> (Refused status code, lastCheck, s)
         | Inr (buf, fromRepo) \<Rightarrow>
             (let (r, s') = prepareInstall (re_pkg e) (re_crypto e) token now buf (Some fromRepo) s
              in (outcome_reply r, case r of Inr (Installed m) \<Rightarrow> None | _ \<Rightarrow> lastCheck, s'))))"

definition getUpdates :: "repo_env \<Rightarrow> millis \<Rightarrow> bool \<Rightarrow> update_check option \<Rightarrow> db \<Rightarrow> (update_check \<times> bool) \<times> db" where
  "getUpdates e now refresh lastCheck d =
     (let (check, d') = checkForUpdates e now refresh lastCheck d in ((check, autoUpdateEnabled (re_crypto e) d'), d'))"

definition putUpdatesAuto :: "crypto \<Rightarrow> bool \<Rightarrow> db \<Rightarrow> bool reply \<times> db" where
  "putUpdatesAuto cr enabled d =
     (Sent enabled, setSetting cr '''' '''' ''app_auto_update'' (if enabled then ''true'' else ''false'') d)"

definition postUpdatesApply ::
  "repo_env \<Rightarrow> (string \<Rightarrow> string) \<Rightarrow> millis \<Rightarrow> string list option \<Rightarrow> update_check option \<Rightarrow> app_server \<Rightarrow>
     (string \<times> (update_error + update_outcome)) list reply \<times> update_check option \<times> app_server" where
  "postUpdatesApply e tokens now ids lastCheck s =
     (if (case ids of None \<Rightarrow> False | Some is \<Rightarrow> length is > 64 \<or> \<not> list_all dev_id_ok is)
      then (Refused 400 ''invalid'', lastCheck, s)
      else
        (let (check, d1) = checkForUpdates e now True lastCheck (as_db s);
             s1 = s\<lparr>as_db := d1\<rparr>;
             targets = filter (\<lambda>u. case ids of None \<Rightarrow> True | Some is \<Rightarrow> up_id u \<in> set is) (uc_updates check)
         in if \<not> uc_reachable check then (Refused 502 ''repo_unreachable'', Some check, s1)
            else if targets = [] then (Refused 404 ''no_updates'', Some check, s1)
            else
              (let (rs, s2) = apply_updates e tokens now (map up_id targets) s1;
                   (check', d3) = checkForUpdates e now True (Some check) (as_db s2)
               in (Sent rs, Some check', s2\<lparr>as_db := d3\<rparr>))))"

end
