(* ===== verification/AppProps.thy ===== *)
theory AppProps
  imports AppFiles FileProps
begin

text \<open>
  What an app can reach: the composition of the access check, the grants, the manifest's
  permissions and the path resolution, for the routes of \<open>apps/routes.ts\<close>.
\<close>

subsection \<open>Grants\<close>

text \<open>A stored path is normalised, an id names one grant, and no app holds more than 32 per user.\<close>

definition grants_ok :: "grant_row list \<Rightarrow> bool" where
  "grants_ok t \<longleftrightarrow> keyed grn_id t \<and> list_all (\<lambda>r. normalizeVirtual (grn_path r) = grn_path r) t \<and>
     (\<forall>a u. sql_count (held_by a u) t \<le> MAX_GRANTS_PER_APP)"

lemma normalize_idem [simp]: "normalizeVirtual (normalizeVirtual p) = normalizeVirtual p"
  by (metis normalizeVirtual_segments virtualSegments_normalize)

lemma below_root:
  assumes "normalizeVirtual root = root"
    and "normalizeVirtual p = root \<or> starts_with (normalizeVirtual p) (if root = ''/'' then ''/'' else root @ ''/'')"
  shows "prefix (virtualSegments root) (virtualSegments p)"
proof -
  have abs: "root = abs_path (virtualSegments root)" using assms(1) by (metis normalizeVirtual_segments)
  show ?thesis
  proof (cases "virtualSegments root = []")
    case False
    then have "root \<noteq> ''/''" using assms(1) normalizeVirtual_root [of root] by simp
    then have "normalizeVirtual p = root \<or> starts_with (abs_path (virtualSegments p)) (abs_path (virtualSegments root) @ ''/'')"
      using assms(2) abs normalizeVirtual_segments [of p] by simp
    then show ?thesis
      using starts_with_abs [OF plain_virtualSegments plain_virtualSegments False, of p] virtualSegments_normalize [of p]
      by (auto simp: strict_prefix_def)
  qed simp
qed

lemma resolveGrant_Some:
  assumes "list_all (\<lambda>r. normalizeVirtual (grn_path r) = grn_path r) (db_grants d)"
    and "resolveGrant now u a handle path hasRead hasWrite d = (Some t, d')"
  shows "can_read d u (rp_path t) \<and> (rp_write t \<longrightarrow> can_write d u (rp_path t)) \<and> normalizeVirtual (rp_path t) = rp_path t \<and>
    d' = d\<lparr>db_grants := db_grants d'\<rparr> \<and>
    (if (case handle of None \<Rightarrow> False | Some h \<Rightarrow> h \<noteq> '''')
     then \<exists>r \<in> set (db_grants d). handle = Some (grn_id r) \<and> held_by a (u_id u) r \<and>
        prefix (virtualSegments (grn_path r)) (virtualSegments (rp_path t)) \<and> (rp_write t \<longrightarrow> grn_mode r = ReadWrite)
     else hasRead \<and> (rp_write t \<longrightarrow> hasWrite))"
proof (cases "case handle of None \<Rightarrow> False | Some h \<Rightarrow> h \<noteq> ''''")
  case True
  then obtain h where h: "handle = Some h" by (cases handle) auto
  from assms(2) True h obtain r where r: "sql_get (\<lambda>r. grn_id r = h \<and> held_by a (u_id u) r) (db_grants d) = Some r"
    by (auto simp: resolveGrant_def Let_def split: option.splits if_splits)
  let ?q = "grn_path r @ ''/'' @ (case path of None \<Rightarrow> '''' | Some p \<Rightarrow> p)"
  have t: "rp_path t = normalizeVirtual ?q"
    and pinned: "normalizeVirtual ?q = grn_path r \<or> starts_with (normalizeVirtual ?q) (if grn_path r = ''/'' then ''/'' else grn_path r @ ''/'')"
    and rights: "can_read d u (rp_path t)" "rp_write t \<longrightarrow> can_write d u (rp_path t) \<and> grn_mode r = ReadWrite"
    and d': "d' = d\<lparr>db_grants := db_grants d'\<rparr>"
    using assms(2) True h r
    by (auto simp: resolveGrant_def Let_def simp del: can_read_normalize can_write_normalize split: if_splits)
  have row: "r \<in> set (db_grants d)" "grn_id r = h" "held_by a (u_id u) r" using sql_get_SomeD [OF r] by auto
  then have "prefix (virtualSegments (grn_path r)) (virtualSegments ?q)"
    using assms(1) pinned below_root [of "grn_path r" ?q] by (auto simp: list_all_iff)
  then show ?thesis using row rights d' t True h by auto
qed (use assms(2) in \<open>auto simp: resolveGrant_def Let_def split: if_splits option.splits\<close>)

lemma share_request_granted:
  assumes "grants_ok (db_grants d)" and "resolveShareRequest e now u a handle path d = (Some t, d')"
  shows "canUseApp d u a \<and> can_read d u (rp_path t) \<and> (rp_write t \<longrightarrow> can_write d u (rp_path t)) \<and>
    (if (case handle of None \<Rightarrow> False | Some h \<Rightarrow> h \<noteq> '''')
     then \<exists>r \<in> set (db_grants d). handle = Some (grn_id r) \<and> held_by a (u_id u) r \<and>
        prefix (virtualSegments (grn_path r)) (virtualSegments (rp_path t)) \<and> (rp_write t \<longrightarrow> grn_mode r = ReadWrite)
     else \<exists>m dev. resolve_app e d u a = Some (m, dev) \<and> (PSharesWrite \<in> set (am_permissions m) \<or>
        PSharesRead \<in> set (am_permissions m) \<and> \<not> rp_write t))"
proof -
  from assms(2) obtain m dev where app: "resolve_app e d u a = Some (m, dev)"
    and run: "resolveGrant now u a handle path (PSharesWrite \<in> set (am_permissions m) \<or> PSharesRead \<in> set (am_permissions m))
      (PSharesWrite \<in> set (am_permissions m)) d = (Some t, d')"
    by (auto simp: resolveShareRequest_def sharePermissions_def Let_def split: option.splits)
  have "canUseApp d u a" using app by (auto simp: resolveApp_def split: option.splits if_splits)
  moreover have "list_all (\<lambda>r. normalizeVirtual (grn_path r) = grn_path r) (db_grants d)" using assms(1) by (simp add: grants_ok_def)
  ultimately show ?thesis using resolveGrant_Some [OF _ run] app by auto
qed

text \<open>
  C11. An app never outranks the person using it.  When a request to the shared folders
  resolves, the user may use the app and may read the path, and may write it when the app
  may; with a handle the path lies in the folder that very user gave that very app,
  whatever dot-dot segments were sent, and writing needs a grant for writing; without
  one the manifest holds the permission.
\<close>

theorem app_requests_stay_granted:
  assumes "grants_ok (db_grants d)" and "resolveShareRequest e now u a handle path d = (Some t, d')"
  shows "canUseApp d u a \<and> can_read d u (rp_path t) \<and> (rp_write t \<longrightarrow> can_write d u (rp_path t)) \<and>
    (if (case handle of None \<Rightarrow> False | Some h \<Rightarrow> h \<noteq> '''')
     then \<exists>r \<in> set (db_grants d). handle = Some (grn_id r) \<and> held_by a (u_id u) r \<and>
        prefix (virtualSegments (grn_path r)) (virtualSegments (rp_path t)) \<and> (rp_write t \<longrightarrow> grn_mode r = ReadWrite)
     else \<exists>m dev. resolve_app e d u a = Some (m, dev) \<and> (PSharesWrite \<in> set (am_permissions m) \<or>
        PSharesRead \<in> set (am_permissions m) \<and> \<not> rp_write t))"
  by (rule share_request_granted [OF assms])

lemma resolveGrant_db: "resolveGrant now u a handle path hasRead hasWrite d = (r, d') \<Longrightarrow> d' = d\<lparr>db_grants := db_grants d'\<rparr>"
  by (auto simp: resolveGrant_def Let_def split: if_splits option.splits)

lemma share_request_db: "resolveShareRequest e now u a handle path d = (r, d') \<Longrightarrow> d' = d\<lparr>db_grants := db_grants d'\<rparr>"
  by (auto simp: resolveShareRequest_def dest: resolveGrant_db split: option.splits)

subsection \<open>Writes\<close>

abbreviation file_env_of :: "app_env \<Rightarrow> db \<Rightarrow> user \<Rightarrow> file_env" where
  "file_env_of e d u \<equiv> \<lparr>en_cfg = ap_config e, en_db = d, en_user = u, en_zip = (\<lambda>es. ''''), en_unzip = (\<lambda>z. None)\<rparr>"

text \<open>The folder of every share exists.\<close>

definition shares_there :: "config \<Rightarrow> db \<Rightarrow> fs \<Rightarrow> bool" where
  "shares_there cfg d f \<longleftrightarrow> list_all (\<lambda>row. fs_get f (share_segs cfg row) = Some DirNode) (db_shares d)"

text \<open>What a route does at a path below a share's folder stays below that folder.\<close>

definition stays_below :: "(string list \<Rightarrow> bool) \<Rightarrow> fs \<Rightarrow> (string \<Rightarrow> fs \<Rightarrow> 'a reply \<times> fs) \<Rightarrow> bool" where
  "stays_below P f change \<longleftrightarrow>
     (\<forall>ds segs. plain (ds @ segs) \<longrightarrow> ds \<noteq> [] \<longrightarrow> P segs \<longrightarrow> fs_get f ds = Some DirNode \<longrightarrow>
        changes_in (below ds) f (snd (change (abs_path (ds @ segs)) f)) \<and> fs_ok (snd (change (abs_path (ds @ segs)) f)))"

lemma stays_belowD:
  "stays_below P f change \<Longrightarrow> plain (ds @ segs) \<Longrightarrow> ds \<noteq> [] \<Longrightarrow> P segs \<Longrightarrow> fs_get f ds = Some DirNode \<Longrightarrow>
   changes_in (below ds) f (snd (change (abs_path (ds @ segs)) f)) \<and> fs_ok (snd (change (abs_path (ds @ segs)) f))"
  by (simp add: stays_below_def)

lemma grants_update_lookups [simp]:
  "getShareRowByName (d\<lparr>db_grants := g\<rparr>) n = getShareRowByName d n"
  "groupIdsForUser (d\<lparr>db_grants := g\<rparr>) u = groupIdsForUser d u"
  "applyFolderAcls (d\<lparr>db_grants := g\<rparr>) s p u gs l = applyFolderAcls d s p u gs l"
  "shareBaseReal cfg (d\<lparr>db_grants := g\<rparr>) n = shareBaseReal cfg d n"
  by (simp_all add: getShareRowByName_def groupIdsForUser_def applyFolderAcls_def shareBaseReal_def Let_def cong: option.case_cong if_cong)

lemma grants_update_level [simp]: "level_at (d\<lparr>db_grants := g\<rparr>) u share rest = level_at d u share rest"
  by (simp add: level_at_def effectiveAccessForShareId_def Let_def)

lemma grants_update_access [simp]:
  "can_read (d\<lparr>db_grants := g\<rparr>) u p = can_read d u p" "can_write (d\<lparr>db_grants := g\<rparr>) u p = can_write d u p"
  "resolveSafe cfg (d\<lparr>db_grants := g\<rparr>) p = resolveSafe cfg d p"
  by (simp_all add: can_read_def can_write_def pathAccess_eq resolveSafe_def cong: option.case_cong list.case_cong if_cong)

lemma with_writable_confined:
  fixes change :: "string \<Rightarrow> fs \<Rightarrow> 'a reply \<times> fs"
  assumes "fs_ok f" and "roots_apart (ap_config e) d" and "shares_there (ap_config e) d f" and "grants_ok (db_grants d)"
    and "stays_below P f change"
    and "\<And>target name segs. check target = None \<Longrightarrow> virtualSegments (rp_path target) = name # segs \<Longrightarrow> P segs"
  shows "confined (file_env_of e d u) f (snd (snd (with_writable e now u a handle path check change d f)))"
proof -
  have "confined (file_env_of e d u) f (snd (change real f))"
    if run: "resolveShareRequest e now u a handle path d = (Some t, d')" and w: "rp_write t" and c: "check t = None"
      and r: "resolveSafe (ap_config e) d' (rp_path t) = Inr real" for t d' real
  proof -
    have may: "can_write d u (rp_path t)" using share_request_granted [OF assms(4) run] w by blast
    have "d' = d\<lparr>db_grants := db_grants d'\<rparr>" using share_request_db [OF run] .
    then have "resolveSafe (ap_config e) d (rp_path t) = Inr real" using r by (metis grants_update_access(3))
    from resolved [OF assms(2) this] obtain row segs where s: "row \<in> set (db_shares d)"
      "virtualSegments (rp_path t) = shr_name row # segs" "real = abs_path (share_segs (ap_config e) row @ segs)"
      "plain (share_segs (ap_config e) row @ segs)" "share_segs (ap_config e) row \<noteq> []" by metis
    let ?S = "share_segs (ap_config e) row"
    have "fs_get f ?S = Some DirNode" using assms(3) s(1) by (simp add: shares_there_def list_all_iff)
    then have "changes_in (below ?S) f (snd (change real f)) \<and> fs_ok (snd (change real f))"
      unfolding s(3) by (intro stays_belowD [OF assms(5) s(4,5) assms(6) [OF c s(2)]])
    moreover have "below ?S \<subseteq> {q. writable_share (file_env_of e d u) q}"
      by (rule writable_below [of row _ "rp_path t" segs]) (use s may in simp_all)
    ultimately show ?thesis by (intro confinedI [of _ ?S]) simp_all
  qed
  then show ?thesis using assms(1)
    by (cases "resolveShareRequest e now u a handle path d")
      (auto simp: with_writable_def case_prod_beta confined_refl split: option.splits sum.splits)
qed

lemma stays_write: "fs_ok f \<Longrightarrow> stays_below P f (\<lambda>real f. case writeFile real c f of
    None \<Rightarrow> (Refused n x, f) | Some g \<Rightarrow> (Sent y, g))"
  by (auto simp: stays_below_def below_def writeFile_ok split: option.splits intro!: changes_mono [OF writeFile_changes])

lemma stays_mkdir:
  assumes "fs_ok f"
  shows "stays_below P f (\<lambda>real f. case mkdir_recursive real f of None \<Rightarrow> (Refused n x, f) | Some g \<Rightarrow> (Sent y, g))"
  unfolding stays_below_def
proof (intro allI impI)
  fix ds segs :: "string list"
  assume "plain (ds @ segs)" "fs_get f ds = Some DirNode"
  then show "changes_in (below ds) f (snd (case mkdir_recursive (abs_path (ds @ segs)) f of
        None \<Rightarrow> (Refused n x, f) | Some g \<Rightarrow> (Sent y, g))) \<and>
      fs_ok (snd (case mkdir_recursive (abs_path (ds @ segs)) f of None \<Rightarrow> (Refused n x, f) | Some g \<Rightarrow> (Sent y, g)))"
    using mkdir_recursive_changes [OF assms, of ds "abs_path (ds @ segs)"] mkdir_recursive_ok [OF assms] assms
    by (cases "mkdir_recursive (abs_path (ds @ segs)) f") simp_all
qed

lemma stays_rm: "fs_ok f \<Longrightarrow> stays_below P f (\<lambda>real f. (Sent y, rm_recursive real f))"
  by (auto simp: stays_below_def rm_ok below_def dest: append_prefixD intro!: changes_mono [OF rm_changes])

text \<open>An upload writes beside its target and renames: both lie in the target's folder.\<close>

lemma temp_name:
  assumes "plain (ps @ [n])" and "CHR ''/'' \<notin> set x" and "length x > 2"
  shows "abs_path (ps @ [n]) @ x = abs_path (ps @ [n @ x])" and "plain (ps @ [n @ x])"
proof -
  have "join ''/'' (ps @ [n]) @ x = join ''/'' (ps @ [n @ x])" for ps :: "string list"
    by (induction ps rule: induct_list012) simp_all
  then show "abs_path (ps @ [n]) @ x = abs_path (ps @ [n @ x])" by (simp add: abs_path_def)
  have "n @ x \<noteq> ''''" "n @ x \<noteq> ''.''" "n @ x \<noteq> ''..''" using assms(3) by (auto dest: arg_cong [of _ _ length])
  then show "plain (ps @ [n @ x])" using assms(1,2) by (simp add: plain_segment_def)
qed

lemma grows_changes: "grows ds f g \<Longrightarrow> changes_in (below ds) f g \<and> fs_ok g"
  by (simp add: grows_def)

lemma receiveBytes_below:
  assumes "fs_ok f" and "plain (ds @ ms @ [n])" and "ds \<noteq> []" and "fs_get f ds = Some DirNode" and "CHR ''/'' \<notin> set rnd"
  shows "changes_in (below ds) f (snd (receiveBytes rnd part (abs_path (ds @ ms @ [n])) lim f)) \<and>
    fs_ok (snd (receiveBytes rnd part (abs_path (ds @ ms @ [n])) lim f))"
proof -
  define real where "real = abs_path (ds @ ms @ [n])"
  define temp where "temp = real @ ''.part-'' @ take 8 rnd"
  have "CHR ''/'' \<notin> set (''.part-'' @ take 8 rnd)" using assms(5) by (auto dest: in_set_takeD)
  note name = temp_name [of "ds @ ms" n, OF _ this]
  have segs: "segs_of temp = ds @ ms @ [n @ ''.part-'' @ take 8 rnd]" "segs_of real = ds @ ms @ [n]" "segs_of (dirname real) = ds @ ms"
    using name assms(2) by (simp_all add: temp_def real_def butlast_append)
  have made: "grows ds f g" if "mkdir_recursive (dirname real) f = Some g" for g
    by (rule mkdir_grows [OF assms(1,4) _ that]) (simp add: segs)
  have written: "grows ds f h" if "mkdir_recursive (dirname real) f = Some g" "writeFile temp c g = Some h" for g h c
    using made [OF that(1)] writeFile_grows [OF _ _ _ that(2), of ds] segs by (auto simp: grows_def intro: changes_trans)
  have inside: "below (segs_of temp) \<subseteq> below ds" "below (segs_of real) \<subseteq> below ds"
    using segs by (auto simp: below_def dest: append_prefixD)
  have gone: "changes_in (below ds) f (rm_recursive temp h) \<and> fs_ok (rm_recursive temp h)" if "grows ds f h" for h
  proof -
    have "changes_in (below ds) h (rm_recursive temp h)" by (rule changes_mono [OF rm_changes inside(1)])
    then show ?thesis using that rm_ok [of h temp] segs(1) by (auto simp: grows_def intro: changes_trans)
  qed
  have moved: "changes_in (below ds) f k \<and> fs_ok k" if "grows ds f h" "rename temp real h = Some k" for h k
  proof -
    have "changes_in (below ds) h k" using rename_changes [OF that(2)] inside by (auto intro: changes_mono)
    then show ?thesis using that(1) rename_ok [OF _ that(2)] by (auto simp: grows_def intro: changes_trans)
  qed
  have run: "receiveBytes rnd part real lim f =
      (case part of None \<Rightarrow> (Refused 400 ''upload_failed'', f)
       | Some p \<Rightarrow>
          (case mkdir_recursive (dirname real) f of None \<Rightarrow> (Refused 500 ''server_error'', f)
           | Some g \<Rightarrow>
               (case writeFile temp (up_content p) g of None \<Rightarrow> (Refused 500 ''server_error'', rm_recursive temp g)
                | Some h \<Rightarrow>
                    if (case lim of None \<Rightarrow> False | Some l \<Rightarrow> length (up_content p) > l) \<or> up_truncated p
                    then (Refused 413 ''upload_failed'', rm_recursive temp h)
                    else (case rename temp real h of None \<Rightarrow> (Refused 500 ''server_error'', rm_recursive temp h)
                          | Some k \<Rightarrow> (Sent (length (up_content p)), k)))))"
    by (simp only: receiveBytes_def Let_def temp_def)
  show ?thesis unfolding real_def [symmetric] run
    using assms(1) gone [OF made] gone [OF written] moved [OF written] by (simp split: option.split)
qed

lemma stays_receive:
  assumes "fs_ok f" and "CHR ''/'' \<notin> set rnd"
  shows "stays_below (\<lambda>segs. segs \<noteq> []) f (\<lambda>real f. receiveBytes rnd part real lim f)"
  unfolding stays_below_def
proof (intro allI impI)
  fix ds segs :: "string list"
  assume "plain (ds @ segs)" "ds \<noteq> []" "segs \<noteq> []" "fs_get f ds = Some DirNode"
  moreover from this obtain ms n where "segs = ms @ [n]" by (metis rev_exhaust)
  ultimately show "changes_in (below ds) f (snd (receiveBytes rnd part (abs_path (ds @ segs)) lim f)) \<and>
      fs_ok (snd (receiveBytes rnd part (abs_path (ds @ segs)) lim f))"
    using receiveBytes_below [OF assms(1) _ _ _ assms(2), of ds ms n] by simp
qed

datatype app_write = AppPut "string option" string | AppMkdir string | AppDelete "string option"
  | AppUpload string "string option" "upload_part option"

fun app_write_step :: "app_env \<Rightarrow> millis \<Rightarrow> user \<Rightarrow> string \<Rightarrow> string option \<Rightarrow> app_write \<Rightarrow> db \<Rightarrow> fs \<Rightarrow> fs" where
  "app_write_step e now u a h (AppPut path c) d f = snd (snd (putShareContent e now u a h path c d f))"
| "app_write_step e now u a h (AppMkdir path) d f = snd (snd (postShareMkdir e now u a h path d f))"
| "app_write_step e now u a h (AppDelete path) d f = snd (snd (deleteShareContent e now u a h path d f))"
| "app_write_step e now u a h (AppUpload rnd path part) d f = snd (snd (postShareUpload e rnd now u a h path part d f))"

text \<open>
  C12. Whatever an app sends to the routes that write to shared folders, the tree changes
  only inside shares in which the signed-in user may write, and stays a tree, also when a
  write fails half-way.
\<close>

theorem app_writes_confined:
  assumes "fs_ok f" and "roots_apart (ap_config e) d" and "shares_there (ap_config e) d f" and "grants_ok (db_grants d)"
    and "\<And>rnd path part. w = AppUpload rnd path part \<Longrightarrow> CHR ''/'' \<notin> set rnd"
  shows "confined (file_env_of e d u) f (app_write_step e now u a h w d f)"
proof (cases w)
  case (AppPut path c)
  show ?thesis unfolding AppPut app_write_step.simps putShareContent_def
    by (rule with_writable_confined [OF assms(1-4) stays_write [OF assms(1), of "\<lambda>_. True"] TrueI])
next
  case (AppMkdir path)
  have "confined (file_env_of e d u) f (snd (snd (with_writable e now u a h (Some path) (\<lambda>target. None)
      (\<lambda>real f. case mkdir_recursive real f of None \<Rightarrow> (Refused 500 ''server_error'', f) | Some g \<Rightarrow> (Sent (), g)) d f)))"
    by (rule with_writable_confined [OF assms(1-4) stays_mkdir [OF assms(1), of "\<lambda>_. True"] TrueI])
  then show ?thesis unfolding AppMkdir app_write_step.simps postShareMkdir_def using assms(1) by (simp add: confined_refl)
next
  case (AppDelete path)
  show ?thesis unfolding AppDelete app_write_step.simps deleteShareContent_def
    by (rule with_writable_confined [OF assms(1-4) stays_rm [OF assms(1), of "\<lambda>_. True"] TrueI])
next
  case (AppUpload rnd path part)
  show ?thesis
    unfolding AppUpload app_write_step.simps postShareUpload_def
    by (intro with_writable_confined [OF assms(1-4) stays_receive [OF assms(1) assms(5) [OF AppUpload]]])
      (auto simp: isShareRoot_def split: if_splits)
qed

subsection \<open>Grants stay bounded\<close>

lemma stalest_held: "stalest a u t = Some r \<Longrightarrow> r \<in> set t \<and> held_by a u r"
proof -
  assume "stalest a u t = Some r"
  then obtain rs where "order_asc last_touched (filter (held_by a u) t) = r # rs" by (auto simp: stalest_def split: list.splits)
  then have "r \<in> set (order_asc last_touched (filter (held_by a u) t))" by simp
  then show ?thesis by simp
qed

lemma stalest_exists: "0 < sql_count (held_by a u) t \<Longrightarrow> stalest a u t \<noteq> None"
proof -
  assume "0 < sql_count (held_by a u) t"
  then have "order_asc last_touched (filter (held_by a u) t) \<noteq> []"
    by (metis length_greater_0_conv length_order_asc sql_count_def)
  then show ?thesis by (auto simp: stalest_def split: list.splits)
qed

text \<open>At the limit the stalest grant goes: there is room for the new one.\<close>

definition kept_grants :: "string \<Rightarrow> string \<Rightarrow> grant_row list \<Rightarrow> grant_row list" where
  "kept_grants a u t =
     (if sql_count (held_by a u) t \<ge> MAX_GRANTS_PER_APP
      then (case stalest a u t of None \<Rightarrow> t | Some old \<Rightarrow> sql_delete (\<lambda>r. grn_id r = grn_id old) t) else t)"

lemma count_delete_present:
  assumes "r \<in> set t" and "P r" and "Q r"
  shows "sql_count P (sql_delete Q t) < sql_count P t"
  using assms
proof (induction t)
  case (Cons x t)
  then show ?case using sql_count_delete_le [of P Q t] by auto
qed simp

lemma kept_room:
  assumes "grants_ok t"
  shows "sql_count (held_by a u) (kept_grants a u t) < MAX_GRANTS_PER_APP"
proof (cases "sql_count (held_by a u) t \<ge> MAX_GRANTS_PER_APP")
  case True
  then have "0 < sql_count (held_by a u) t" by (simp add: MAX_GRANTS_PER_APP_def)
  then obtain old where old: "stalest a u t = Some old" using stalest_exists by blast
  from count_delete_present [of old t "held_by a u" "\<lambda>r. grn_id r = grn_id old"] stalest_held [OF old]
  have "sql_count (held_by a u) (sql_delete (\<lambda>r. grn_id r = grn_id old) t) < sql_count (held_by a u) t" by simp
  moreover have "sql_count (held_by a u) t \<le> MAX_GRANTS_PER_APP" using assms by (simp add: grants_ok_def)
  ultimately show ?thesis using True old by (simp add: kept_grants_def)
qed (simp add: kept_grants_def)

lemma kept_subset: "set (kept_grants a u t) \<subseteq> set t" and kept_le: "sql_count P (kept_grants a u t) \<le> sql_count P t"
  and kept_keyed: "keyed grn_id t \<Longrightarrow> keyed grn_id (kept_grants a u t)"
  by (auto simp: kept_grants_def sql_count_delete_le split: option.splits)

lemma grants_delete: "grants_ok t \<Longrightarrow> grants_ok (sql_delete P t)"
  by (auto simp: grants_ok_def list_all_iff intro: order_trans [OF sql_count_delete_le])

lemma grants_update:
  assumes "grants_ok t" and "\<And>r. grn_id (g r) = grn_id r \<and> grn_app_id (g r) = grn_app_id r \<and>
    grn_user_id (g r) = grn_user_id r \<and> grn_path (g r) = grn_path r"
  shows "grants_ok (sql_update P g t)"
proof -
  have "sql_count (held_by a u) (sql_update P g t) = sql_count (held_by a u) t" for a u
    by (rule sql_count_update) (simp add: held_by_def assms(2))
  moreover have "keyed grn_id (sql_update P g t)" using assms by (intro keyed_update) (simp_all add: grants_ok_def)
  ultimately show ?thesis using assms by (auto simp: grants_ok_def list_all_iff)
qed

lemma grantPath_ok:
  assumes "grants_ok (db_grants d)" and "newId \<notin> grn_id ` set (db_grants d)"
  shows "grants_ok (db_grants (snd (grantPath newId now a u path ty m d)))"
proof (cases "sql_get (\<lambda>r. held_by a u r \<and> grn_path r = normalizeVirtual path) (db_grants d)")
  case (Some r)
  then show ?thesis using assms(1) by (simp add: grantPath_def Let_def grants_update)
next
  case None
  let ?row = "\<lparr>grn_id = newId, grn_app_id = a, grn_user_id = u, grn_path = normalizeVirtual path, grn_type = ty,
    grn_mode = m, grn_created_at = now, grn_last_used_at = None\<rparr>"
  have rows: "db_grants (snd (grantPath newId now a u path ty m d)) = kept_grants a u (db_grants d) @ [?row]"
    using None by (simp add: grantPath_def kept_grants_def Let_def)
  have "keyed grn_id (kept_grants a u (db_grants d) @ [?row])"
    using assms kept_subset [of a u "db_grants d"] kept_keyed [of "db_grants d" a u]
    by (intro keyed_snoc) (auto simp: grants_ok_def)
  moreover have "sql_count (held_by b v) (kept_grants a u (db_grants d) @ [?row]) \<le> MAX_GRANTS_PER_APP" for b v
  proof (cases "b = a \<and> v = u")
    case True
    then show ?thesis using kept_room [OF assms(1), of a u] by (simp add: held_by_def)
  next
    case False
    then have "\<not> held_by b v ?row" by (auto simp: held_by_def)
    then show ?thesis using assms(1) kept_le [of "held_by b v" a u "db_grants d"] by (auto simp: grants_ok_def intro: order_trans)
  qed
  ultimately show ?thesis using assms(1) kept_subset [of a u "db_grants d"]
    unfolding rows by (auto simp: grants_ok_def list_all_iff)
qed

lemma revokes_ok:
  assumes "grants_ok (db_grants d)"
  shows "grants_ok (db_grants (snd (revokeGrant a u h d)))" and "grants_ok (db_grants (snd (revokeGrantForUser u h d)))"
    and "grants_ok (db_grants (revokeAllForApp a d))"
  using assms by (simp_all add: revokeGrant_def revokeGrantForUser_def revokeAllForApp_def grants_delete)

lemma resolveGrant_ok:
  "grants_ok (db_grants d) \<Longrightarrow> resolveGrant now u a h p hr hw d = (r, d') \<Longrightarrow> grants_ok (db_grants d')"
  by (auto simp: resolveGrant_def Let_def grants_update split: if_splits option.splits)

interpretation own_grants: owned_rows db_grants grn_id grn_user_id revokeGrantForUser
  by unfold_locales (auto simp: revokeGrantForUser_def sql_exists_iff)

datatype grant_op = GrantOp string millis string string string grant_type grant_mode
  | UseOp millis user string "string option" "string option" bool bool
  | RevokeOp string string string | RevokeOwnOp string string | RevokeAppOp string

fun grant_step :: "grant_op \<Rightarrow> db \<Rightarrow> db" where
  "grant_step (GrantOp i now a u p ty m) d = snd (grantPath i now a u p ty m d)"
| "grant_step (UseOp now u a h p hr hw) d = snd (resolveGrant now u a h p hr hw d)"
| "grant_step (RevokeOp a u h) d = snd (revokeGrant a u h d)"
| "grant_step (RevokeOwnOp u h) d = snd (revokeGrantForUser u h d)"
| "grant_step (RevokeAppOp a) d = revokeAllForApp a d"

text \<open>The ids \<open>randomUUID\<close> draws are new.\<close>

fun new_ids :: "grant_op list \<Rightarrow> db \<Rightarrow> bool" where
  "new_ids [] d = True"
| "new_ids (q # qs) d =
     ((case q of GrantOp i _ _ _ _ _ _ \<Rightarrow> i \<notin> grn_id ` set (db_grants d) | _ \<Rightarrow> True) \<and> new_ids qs (grant_step q d))"

lemma grant_step_ok:
  assumes "grants_ok (db_grants d)" and "new_ids (q # qs) d"
  shows "grants_ok (db_grants (grant_step q d))"
proof (cases q)
  case (UseOp now u a h p hr hw)
  then show ?thesis using resolveGrant_ok [OF assms(1) prod.collapse [symmetric]] by simp
qed (use assms in \<open>auto simp: grantPath_ok revokes_ok\<close>)

text \<open>
  The grants an app collects stay few and normalised: whatever is picked, used and
  revoked, in any order and by anybody, no app ever holds more than 32 folders of one
  user, an id names one grant and every stored path is normalised.
\<close>

theorem grants_stay_bounded:
  assumes "grants_ok (db_grants d)" and "new_ids qs d"
  shows "grants_ok (db_grants (fold grant_step qs d))"
  using assms
proof (induction qs arbitrary: d)
  case (Cons q qs)
  then show ?case using grant_step_ok [OF Cons.prems] by simp
qed simp

subsection \<open>The private folder\<close>

lemma normalizeVirtual_no_nul: "CHR 0x00 \<notin> set v \<Longrightarrow> normalizeVirtual v = abs_path (virtualSegments v)"
  by (rule normalizeVirtual_segments)

lemma resolve_dot_abs:
  assumes "plain bs" and "plain ss"
  shows "path_resolve (abs_path bs) [''.'' @ abs_path ss] = abs_path (bs @ ss)"
proof (cases "ss = []")
  case True
  have "split_on slash ''./'' = [''.'', '''']" by code_simp
  moreover have "\<not> is_absolute ''./''" by (simp add: is_absolute_def starts_with_def)
  ultimately show ?thesis using True assms(1) by (simp add: abs_path_def [of "[]"] path_resolve_one norm_segments_id)
next
  case False
  have "''.'' @ abs_path ss = ''./'' @ join ''/'' ss" by (simp add: abs_path_def)
  then show ?thesis using resolve_below [OF assms False] by simp
qed

lemma sandbox_path:
  assumes "ap_data_dir e = abs_path ds" and "plain (ds @ [a, u])" and "CHR 0x00 \<notin> set v"
  shows "resolveAppDataPath e a u v = Inr (abs_path (ds @ [a, u] @ virtualSegments v))"
proof -
  have base: "appDataBase e a u = abs_path (ds @ [a, u])"
    using assms(1,2) path_join_plain(1) [of ds a] path_join_plain(1) [of "ds @ [a]" u] by (simp add: appDataBase_def)
  let ?r = "path_resolve (abs_path (ds @ [a, u])) [''.'' @ normalizeVirtual v]"
  have real: "?r = abs_path (ds @ [a, u] @ virtualSegments v)"
    using resolve_dot_abs [OF assms(2) plain_virtualSegments, of v] by (simp add: normalizeVirtual_segments)
  have "plain ((ds @ [a, u]) @ virtualSegments v)" using assms(2) plain_virtualSegments [of v] by auto
  then have "?r = abs_path (ds @ [a, u]) \<or> starts_with ?r (abs_path (ds @ [a, u]) @ ''/'')"
    unfolding real using starts_with_abs [of "ds @ [a, u] @ virtualSegments v" "ds @ [a, u]"] assms(2)
    by (cases "virtualSegments v") (auto simp: strict_prefix_def)
  then have "resolveAppDataPath e a u v = Inr ?r" using assms(3) unfolding resolveAppDataPath_def Let_def base by argo
  then show ?thesis unfolding real .
qed

text \<open>The folder of one app and user, and the folder of the app above it, which a write may create.\<close>

definition sandbox :: "string list \<Rightarrow> string \<Rightarrow> string \<Rightarrow> string list set" where
  "sandbox ds a u = insert (ds @ [a]) (below (ds @ [a, u]))"

lemma sandbox_mkdir:
  assumes "fs_ok f" and "fs_get f ds = Some DirNode" and "mkdir_recursive r f = Some g"
    and "segs_of r = ds @ [a] \<or> prefix (ds @ [a, u]) (segs_of r)"
  shows "changes_in (sandbox ds a u) f g"
proof (rule changes_inI, rule ccontr)
  fix q
  assume out: "q \<notin> sandbox ds a u" and ne: "fs_get g q \<noteq> fs_get f q"
  then have q: "prefix q (segs_of r)" "fs_get f q = None"
    using mkdir_steps_get [of "prefixes (segs_of r)" f g q] assms(3) by (auto simp: mkdir_recursive_def split: if_splits)
  have "\<not> prefix q ds" using fs_ok_prefix [OF assms(1), of q ds] assms(2) q(2) by (cases "q = ds") auto
  moreover have "prefix ds (segs_of r)" using assms(4) by (auto dest: append_prefixD)
  ultimately have "strict_prefix ds q" using q(1) prefix_same_cases by (auto simp: strict_prefix_def)
  then obtain x xs where x: "q = ds @ x # xs" by (auto elim: strict_prefixE')
  then have "x = a" using q(1) assms(4) by (auto simp: prefix_def)
  then have "xs \<noteq> []" using out x by (auto simp: sandbox_def)
  then have "prefix (ds @ [a, u]) q" using q(1) assms(4) x \<open>x = a\<close> by (cases xs) (auto simp: prefix_def)
  then show False using out by (simp add: sandbox_def below_def)
qed

text \<open>
  An app's own files are its own: for every path an app names, dot-dot segments
  included, saving, creating a folder and deleting change nothing outside the folder of
  this app and this user, so no app reaches another app's files, another user's or
  anything else of the system.
\<close>

theorem app_files_stay_private:
  assumes "fs_ok f" and "ap_data_dir e = abs_path ds" and "plain (ds @ [a, u_id u])" and "fs_get f ds = Some DirNode"
  shows "changes_in (sandbox ds a (u_id u)) f (snd (putAppFile e d u a q c f)) \<and>
    changes_in (sandbox ds a (u_id u)) f (snd (postAppMkdir e d u a p f)) \<and>
    changes_in (sandbox ds a (u_id u)) f (snd (deleteAppFiles e d u a q f))"
proof -
  let ?S = "sandbox ds a (u_id u)"
  let ?real = "\<lambda>v. abs_path (ds @ [a, u_id u] @ virtualSegments v)"
  have pl: "plain (ds @ [a, u_id u] @ virtualSegments v)" for v using assms(3) plain_virtualSegments [of v] by auto
  have seg: "segs_of (?real v) = ds @ [a, u_id u] @ virtualSegments v" for v using pl by simp
  have up: "segs_of (dirname (?real v)) = ds @ [a] \<or> prefix (ds @ [a, u_id u]) (segs_of (dirname (?real v)))" for v
  proof (cases "virtualSegments v = []")
    case False
    have "plain (ds @ [a, u_id u] @ butlast (virtualSegments v))" using pl [of v] by (auto dest: in_set_butlastD)
    then have "segs_of (dirname (?real v)) = ds @ [a, u_id u] @ butlast (virtualSegments v)"
      using pl [of v] False by (simp add: butlast_append)
    then show ?thesis by (simp add: prefix_def)
  qed (use pl [of v] in \<open>simp add: butlast_append\<close>)
  have in_S: "segs_of (?real v) \<in> ?S" "below (segs_of (?real v)) \<subseteq> ?S" for v
    using seg [of v] by (auto simp: sandbox_def below_def prefix_def)
  have made: "changes_in ?S f g" if "mkdir_recursive (?real v) f = Some g" for v g
    by (rule sandbox_mkdir [OF assms(1,4) that]) (unfold seg, simp add: prefix_def)
  have put: "changes_in ?S g h" if "writeFile (?real v) c g = Some h" for v g h
    using changes_mono [OF writeFile_changes [OF that], of ?S] in_S(1) [of v] by blast
  have wrote: "changes_in ?S f (snd (write_below (?real v) c f))" for v
    using sandbox_mkdir [OF assms(1,4) _ up, of v] put [of v]
    unfolding write_below_def by (auto split: option.splits intro: changes_trans)
  have gone: "changes_in ?S f (rm_recursive (?real v) f)" for v by (rule changes_mono [OF rm_changes in_S(2)])
  note path = sandbox_path [OF assms(2,3)]
  have at: "changes_in ?S f (snd (with_files_app e d u a v f k))" if "CHR 0x00 \<notin> set v \<Longrightarrow> changes_in ?S f (snd (k (?real v)))" for v k
    using that path [of v] by (auto simp: with_files_app_def resolveAppDataPath_def split: option.splits sum.splits)
  show ?thesis
    unfolding putAppFile_def postAppMkdir_def deleteAppFiles_def
    using wrote made gone by (auto simp: case_prod_beta intro!: at split: option.split)
qed

end
