(* ===== verification/AppSamples.thy ===== *)
theory AppSamples
  imports AppProps
begin

text \<open>
  A small server with one installed app, for the witnesses of the theorems about apps, and
  what a user who may not use an app can learn about it.
\<close>

subsection \<open>A server with an app\<close>

definition sample_manifest :: app_manifest where
  "sample_manifest = (host_app ''external'' ''clock'' ''Clock'' User)
     \<lparr>am_permissions := [PNotifications, PStorage, PFiles, PFetch, PSchedule, PSharesWrite],
      am_fetch_hosts := [''api.example.com'']\<rparr>"

definition sample_grant :: grant_row where
  "sample_grant = \<lparr>grn_id = ''h1'', grn_app_id = ''clock'', grn_user_id = ''u1'', grn_path = ''/media'', grn_type = GrantDir,
     grn_mode = Read, grn_created_at = 0, grn_last_used_at = None\<rparr>"

definition sample_task :: task_row where
  "sample_task = \<lparr>tsk_id = ''t1'', tsk_app_id = ''clock'', tsk_user_id = ''u1'', tsk_name = ''tick'', tsk_interval_sec = 900,
     tsk_action = stringify (action_json (NotifyAction ''Tick'' None None)), tsk_enabled = True, tsk_next_run_at = 50,
     tsk_last_run_at = None, tsk_last_status = None, tsk_last_error = None, tsk_created_at = 0\<rparr>"

definition sample_app_db :: db where
  "sample_app_db = sample_nas\<lparr>db_installed_apps :=
       [\<lparr>app_id = ''clock'', app_version = ''1.0.0'', app_manifest_json = sample_manifest, app_enabled = True,
         app_installed_at = 0, app_source_repo = None\<rparr>],
     db_grants := [sample_grant], db_tasks := [sample_task]\<rparr>"

definition sample_app_env :: app_env where
  "sample_app_env = \<lparr>ap_parse = (\<lambda>s. None), ap_crypto = sample_crypto, ap_config = sample_config,
     ap_data_dir = ''/srv'', ap_collate = (\<lambda>s. s)\<rparr>"

definition sample_world :: world where
  "sample_world = \<lparr>w_parse = (\<lambda>b s. None), w_lookup = (\<lambda>n h. None), w_send = (\<lambda>n h a. None)\<rparr>"

definition sample_runner :: runner where
  "sample_runner = \<lparr>rn_now = 100, rn_ids = (\<lambda>t. ''n-'' @ t), rn_listeners = (\<lambda>u. []), rn_world = sample_world\<rparr>"

definition sample_field :: setting_field where
  "sample_field = \<lparr>sf_key = ''hours'', sf_type = SNumber, sf_scope = ScopeUser, sf_default = Some (JsonNumber 24),
     sf_options = None, sf_min = Some 12, sf_max = Some 24, sf_secret = False\<rparr>"

lemma sample_grants_ok: "grants_ok (db_grants sample_app_db)"
proof -
  have "normalizeVirtual ''/media'' = ''/media''" by code_simp
  then show ?thesis by (simp add: grants_ok_def sample_app_db_def sample_grant_def keyed_def sql_count_def MAX_GRANTS_PER_APP_def)
qed

subsection \<open>Witnesses\<close>

theorem setting_read_back_witness:
  "resolve_setting (setAppSetting sample_crypto '''' '''' ''clock'' sample_field ''u1'' (JsonNumber 12) sample_app_db)
     ''clock'' ''u1'' sample_field = JsonNumber 12"
proof -
  have "settings_ok (db_app_settings sample_app_db)"
    by (simp add: settings_ok_def sample_app_db_def sample_nas_def empty_db_def keyed_def)
  moreover have "no_blank ''u1''" by code_simp
  moreover have "coerceValue sample_field (JsonNumber 12) = Some (JsonNumber 12)" by code_simp
  moreover have "\<not> sf_secret sample_field" by code_simp
  ultimately show ?thesis
    using setting_read_back [where d = sample_app_db and u = "''u1''" and w = "''u1''" and f = sample_field] by blast
qed

theorem notifications_bounded_witness:
  "history_ok (db_notifications (fold notification_step
     [NCreate ''n1'' 5 (reminder (toTask sample_task) ''Tick'' None None), NReadAll 6 ''u1'',
      NCreate ''n2'' 7 (reminder (toTask sample_task) ''Tick'' None None)] sample_app_db))"
  by (rule notifications_bounded)
    (simp_all add: sample_app_db_def sample_nas_def empty_db_def history_ok_def keyed_def sql_count_def)

theorem backlog_shrinks_witness:
  "sql_count (due 100) (db_tasks (snd (snd (runDueTasks sample_runner sample_app_db)))) \<le>
     sql_count (due 100) (db_tasks sample_app_db) - 25"
proof -
  have "tasks_ok sample_app_db" by (simp add: tasks_ok_def sample_app_db_def sample_task_def keyed_def)
  from backlog_shrinks [OF this, of sample_runner] show ?thesis by (simp add: sample_runner_def)
qed

theorem upsert_rearms_only_changes_witness:
  "\<exists>t d'. upsertTask ''t2'' 200 \<lparr>ut_app_id = ''clock'', ut_user_id = ''u1'', ut_name = ''tick'', ut_interval = 900,
     ut_action = NotifyAction ''Tock'' None None, ut_enabled = None\<rparr> sample_app_db = Inr (t, d') \<and>
     tk_next_run_at t = 50 \<and> tk_action t = Some (NotifyAction ''Tock'' None None)"
proof -
  let ?q = "\<lparr>ut_app_id = ''clock'', ut_user_id = ''u1'', ut_name = ''tick'', ut_interval = 900,
     ut_action = NotifyAction ''Tock'' None None, ut_enabled = None\<rparr>"
  have "isl (upsertTask ''t2'' 200 ?q sample_app_db) = False" by code_simp
  then obtain t d' where up: "upsertTask ''t2'' 200 ?q sample_app_db = Inr (t, d')"
    by (cases "upsertTask ''t2'' 200 ?q sample_app_db") auto
  have old: "map_option (\<lambda>t. (tk_interval t, tk_next_run_at t)) (getTask sample_app_db ''clock'' ''u1'' ''tick'') = Some (900, 50)"
    by code_simp
  then obtain o' where "getTask sample_app_db ''clock'' ''u1'' ''tick'' = Some o'" "tk_interval o' = 900" "tk_next_run_at o' = 50"
    by auto
  with upsert_rearms_only_changes [OF up] up show ?thesis by simp
qed

theorem app_requests_stay_granted_witness:
  "\<exists>t d'. resolveShareRequest sample_app_env 9 (toUser sample_user) ''clock'' (Some ''h1'') (Some ''a/../b'') sample_app_db = (Some t, d') \<and>
     rp_path t = ''/media/b'' \<and> prefix [''media''] (virtualSegments (rp_path t)) \<and> can_read sample_app_db (toUser sample_user) ''/media/b''"
proof -
  let ?r = "resolveShareRequest sample_app_env 9 (toUser sample_user) ''clock'' (Some ''h1'') (Some ''a/../b'') sample_app_db"
  have "map_option rp_path (fst ?r) = Some ''/media/b''" by code_simp
  then obtain t d' where req: "?r = (Some t, d')" and path: "rp_path t = ''/media/b''" by (cases ?r) auto
  have "virtualSegments ''/media'' = [''media'']" by code_simp
  then show ?thesis using app_requests_stay_granted [OF sample_grants_ok req] req path
    by (auto simp: sample_app_db_def sample_grant_def)
qed

lemma sample_shares_there: "shares_there sample_config sample_app_db sample_fs"
  by code_simp

theorem app_writes_confined_witness:
  "confined (file_env_of sample_app_env sample_app_db (toUser sample_user)) sample_fs
     (app_write_step sample_app_env 9 (toUser sample_user) ''clock'' None (AppPut (Some ''/media/b'') ''text'') sample_app_db sample_fs)"
proof -
  have "roots_apart sample_config sample_app_db"
    using sample_roots_apart by (simp add: roots_apart_def sample_app_db_def)
  moreover have "ap_config sample_app_env = sample_config" by (simp add: sample_app_env_def)
  ultimately show ?thesis
    using app_writes_confined [of sample_fs sample_app_env sample_app_db "AppPut (Some ''/media/b'') ''text''"]
      sample_fs_ok sample_shares_there sample_grants_ok by simp
qed

theorem grants_stay_bounded_witness:
  "grants_ok (db_grants (fold grant_step
     [GrantOp ''h2'' 5 ''clock'' ''u1'' ''/vault/../media/x/'' GrantDir ReadWrite,
      UseOp 6 (toUser sample_user) ''clock'' (Some ''h1'') (Some ''..'') False False, RevokeAppOp ''other''] sample_app_db))"
  by (rule grants_stay_bounded [OF sample_grants_ok]) (simp add: sample_app_db_def sample_grant_def)

theorem app_files_stay_private_witness:
  "changes_in (sandbox [''srv''] ''clock'' ''u1'') sample_fs
     (snd (putAppFile sample_app_env sample_app_db (toUser sample_user) ''clock'' (Some ''../../files/media/x'') ''text'' sample_fs))"
proof -
  have "ap_data_dir sample_app_env = abs_path [''srv'']" by code_simp
  moreover have "plain ([''srv''] @ [''clock'', u_id (toUser sample_user)])" by code_simp
  moreover have "fs_get sample_fs [''srv''] = Some DirNode" by code_simp
  moreover have "u_id (toUser sample_user) = ''u1''" by code_simp
  ultimately show ?thesis using app_files_stay_private [OF sample_fs_ok, of sample_app_env "[''srv'']" "''clock''" "toUser sample_user"] by simp
qed

subsection \<open>What a user who may not use an app learns\<close>

lemma not_resolved:
  assumes "\<not> canUseApp d u i \<or> lookupApp (ap_parse e) (ap_crypto e) d i = None"
  shows "resolve_app e d u i = None"
  using assms by (auto simp: resolveApp_def split: option.split)

lemma share_request_unresolved: "resolve_app e d u i = None \<Longrightarrow> resolveShareRequest e now u i handle path d = (None, d)"
  by (simp add: resolveShareRequest_def sharePermissions_def)

lemma with_writable_unresolved:
  "resolve_app e d u i = None \<Longrightarrow> with_writable e now u i handle path check change d f = (Refused 403 ''forbidden'', d, f)"
  by (simp add: with_writable_def share_request_unresolved)

lemmas route_defs = getSettings_def putSettings_def requireStorageApp_def requireFilesApp_def require_permission_def
  getStorageList_def getStorage_def putStorage_def deleteStorage_def postFetch_def gateSchedule_def getSchedule_def
  putSchedule_def deleteSchedule_def with_files_app_def getAppFiles_def getAppContent_def getAppRaw_def putAppFile_def
  postAppMkdir_def deleteAppFiles_def postAppUpload_def getShareGrants_def postShareGrant_def deleteShareGrant_def
  getShareList_def getShareContent_def getShareRaw_def putShareContent_def postShareMkdir_def deleteShareContent_def
  postShareUpload_def share_request_unresolved with_writable_unresolved



text \<open>
  Neither the switch that disables an app nor the role its manifest asks for is looked at
  when a route resolves the app: both only shape the launcher's list and the scheduler.
\<close>

lemma disabled_app_still_answers:
  "resolve_app e (setAppEnabled i enabled d) u j = resolve_app e d u j"
proof -
  have same: "sql_get (\<lambda>r. app_id r = j) (sql_update (\<lambda>r. app_id r = i) (app_enabled_update (\<lambda>_. enabled)) t) =
      map_option (\<lambda>r. if app_id r = i then app_enabled_update (\<lambda>_. enabled) r else r) (sql_get (\<lambda>r. app_id r = j) t)" for t
    by (induction t) (auto simp: sql_get_def)
  have "lookupApp (ap_parse e) (ap_crypto e) (setAppEnabled i enabled d) j = lookupApp (ap_parse e) (ap_crypto e) d j"
    by (auto simp: lookupApp_def getInstalledApp_def same setAppEnabled_def devManifests_def listDevApps_def getSettingOr_def
        getSetting_def settingRow_def split: option.split)
  moreover have "canUseApp (setAppEnabled i enabled d) u j = canUseApp d u j"
    by (simp add: canUseApp_def isAppsRestricted_def userRow_def setAppEnabled_def)
  ultimately show ?thesis by (simp add: resolveApp_def split: option.split)
qed

text \<open>
  An app that was handed a folder inside a share may delete that very folder: only a
  share's own folder is spared.
\<close>

definition sample_folder_db :: db where
  "sample_folder_db = sample_app_db\<lparr>db_grants := [sample_grant\<lparr>grn_path := ''/media/a'', grn_mode := ReadWrite\<rparr>]\<rparr>"

lemma granted_folder_deleted:
  "fst (deleteShareContent sample_app_env 9 (toUser sample_user) ''clock'' (Some ''h1'') None sample_folder_db sample_fs) = Sent () \<and>
   fs_get (snd (snd (deleteShareContent sample_app_env 9 (toUser sample_user) ''clock'' (Some ''h1'') None sample_folder_db sample_fs)))
     [''srv'', ''files'', ''media'', ''a''] = None"
  by code_simp

subsection \<open>The number of tasks\<close>

definition tasks_capped :: "db \<Rightarrow> bool" where
  "tasks_capped d \<longleftrightarrow> (\<forall>a u. countTasks d a u \<le> MAX_TASKS_PER_APP)"

lemma count_upsert:
  assumes "\<And>r. P r \<Longrightarrow> Q (f r) = Q r" and "Q new \<Longrightarrow> sql_get P t \<noteq> None \<or> sql_count Q t < n" and "sql_count Q t \<le> n"
  shows "sql_count Q (sql_upsert P f new t) \<le> n"
proof (cases "sql_exists P t")
  case True
  then show ?thesis using sql_count_update [of P Q f t] assms(1,3) by (simp add: sql_upsert_def)
next
  case False
  then show ?thesis using assms(2,3)
    by (auto simp: sql_upsert_def sql_exists_def sql_get_def list_ex_iff find_None_iff)
qed

lemma putSchedule_capped:
  assumes "tasks_capped d"
  shows "tasks_capped (snd (putSchedule e newId now u i body d))"
proof -
  let ?q = "(trimmed_task body)\<lparr>ut_app_id := i, ut_user_id := u_id u\<rparr>"
  have "tasks_capped d'" if "upsertTask newId now ?q d = Inr (t, d')"
    and free: "getTask d i (u_id u) (ut_name ?q) \<noteq> None \<or> countTasks d i (u_id u) < MAX_TASKS_PER_APP" for t d'
  proof -
    have d': "d' = d\<lparr>db_tasks := sql_upsert (task_key i (u_id u) (ut_name ?q)) (registered_again now ?q) (new_task_row newId now ?q) (db_tasks d)\<rparr>"
      using that(1) by (auto simp: upsertTask_def with_user_def Let_def split: if_splits)
    have "sql_count (task_of a v) (db_tasks d') \<le> MAX_TASKS_PER_APP" for a v
      unfolding d' using assms free
      by (auto intro!: count_upsert simp: tasks_capped_def countTasks_def getTask_def registered_again_def task_of_def new_task_row_def)
    then show ?thesis by (simp add: tasks_capped_def countTasks_def)
  qed
  then show ?thesis using assms
    by (auto simp: putSchedule_def Let_def not_le split: option.split sum.split)
qed

end
