(* ===== verification/InstallProps.thy ===== *)
theory InstallProps
  imports Updates AppSamples "HOL-Library.Product_Lexorder"
begin

text \<open>
  What installing, updating and removing apps guarantees: consent, confinement to the
  app's own folder, what a signature covers, the order of versions, and that removing an
  app forgets it.
\<close>

subsection \<open>Versions\<close>

text \<open>A release ranks above its pre-releases, which are ordered by their text.\<close>

definition version_rank :: "(nat \<times> nat \<times> nat) \<times> string \<Rightarrow> (nat \<times> nat \<times> nat) \<times> bool \<times> string" where
  "version_rank v = (fst v, snd v = '''', snd v)"

lemma compare_pre_rank:
  "(0 < compare_pre p q \<longleftrightarrow> (q = '''', q) < (p = '''', p)) \<and> (compare_pre p q = 0 \<longleftrightarrow> p = q)"
  by (auto simp: compare_pre_def less_prod_def less_bool_def)

text \<open>On versions that parse, the comparison the update check uses is the total order by major, minor and
  patch number, in which a version with no suffix comes after every pre-release of the same numbers and two
  suffixes compare as texts; it is zero exactly when the two versions are the same.\<close>

theorem compare_versions_order:
  assumes "parse_version a = Some v" and "parse_version b = Some w"
  shows "(0 < compareVersions a b \<longleftrightarrow> version_rank w < version_rank v) \<and>
    (compareVersions a b = 0 \<longleftrightarrow> v = w) \<and> (compareVersions a b < 0 \<longleftrightarrow> version_rank v < version_rank w)"
proof -
  obtain a1 a2 a3 p where v: "v = ((a1, a2, a3), p)" by (metis prod_cases3 surj_pair)
  obtain b1 b2 b3 q where w: "w = ((b1, b2, b3), q)" by (metis prod_cases3 surj_pair)
  show ?thesis
  proof (cases "(a1, a2, a3) = (b1, b2, b3)")
    case True
    then show ?thesis using assms compare_pre_rank [of p q] compare_pre_rank [of q p]
      by (auto simp: compareVersions_def version_rank_def v w compare_pre_def)
  next
    case False
    then show ?thesis using assms
      by (cases "a1 = b1"; cases "a2 = b2") (auto simp: compareVersions_def version_rank_def v w)
  qed
qed

lemma compare_versions_order_witness:
  "0 < compareVersions ''1.10'' ''v1.9.2'' \<and> compareVersions ''2.0.0-rc.1'' ''2.0.0'' < 0"
proof -
  have "parse_version ''1.10'' = Some ((1, 10, 0), '''')" "parse_version ''v1.9.2'' = Some ((1, 9, 2), '''')"
    "parse_version ''2.0.0-rc.1'' = Some ((2, 0, 0), ''rc.1'')" "parse_version ''2.0.0'' = Some ((2, 0, 0), '''')" by code_simp+
  then show ?thesis
    using compare_versions_order [of "''1.10''" "((1, 10, 0), '''')" "''v1.9.2''" "((1, 9, 2), '''')"]
      compare_versions_order [of "''2.0.0-rc.1''" "((2, 0, 0), ''rc.1'')" "''2.0.0''" "((2, 0, 0), '''')"]
    by (simp add: version_rank_def less_prod_def)
qed

subsection \<open>Consent\<close>

datatype install_step = Upload string millis "upload_part option"
  | RepoInstall "string \<Rightarrow> (nat \<times> string) option" string millis string "string option"
  | UpdateApp "string \<Rightarrow> (nat \<times> string) option" string millis string
  | Confirm string millis | Cancel string | Remove string | Enable string bool | Trust string bool

fun run_install :: "repo_env \<Rightarrow> app_env \<Rightarrow> install_step \<Rightarrow> app_server \<Rightarrow> app_server" where
  "run_install e ae (Upload token now part) s = snd (postInstall (re_pkg e) (re_crypto e) token now part s)"
| "run_install e ae (RepoInstall net token now i repo) s =
     snd (snd (postRepoInstall (e\<lparr>re_fetch := net\<rparr>) token now i repo None s))"
| "run_install e ae (UpdateApp net token now i) s = snd (applyUpdate (e\<lparr>re_fetch := net\<rparr>) token now i s)"
| "run_install e ae (Confirm token now) s = snd (postInstallConfirm token now s)"
| "run_install e ae (Cancel token) s = snd (postInstallCancel token s)"
| "run_install e ae (Remove i) s = snd (deleteApp (re_pkg e) ae i s)"
| "run_install e ae (Enable i on) s = s\<lparr>as_db := snd (postEnabled i on (as_db s))\<rparr>"
| "run_install e ae (Trust i on) s = s\<lparr>as_db := snd (postTrust (re_crypto e) i on (as_db s))\<rparr>"

text \<open>What the administrator is shown is what the staged package asks for.\<close>

definition shown_ok :: "staged \<Rightarrow> bool" where
  "shown_ok x \<longleftrightarrow> pi_app_id (sg_pending x) = am_id (vp_manifest (sg_pkg x)) \<and>
     pi_permissions (sg_pending x) = am_permissions (vp_manifest (sg_pkg x)) \<and>
     pi_fetch_hosts (sg_pending x) = am_fetch_hosts (vp_manifest (sg_pkg x))"

definition staging_ok :: "staging \<Rightarrow> bool" where
  "staging_ok st \<longleftrightarrow> list_all (\<lambda>(t, x). shown_ok x) st"

lemma staging_ok_filter [simp]: "staging_ok st \<Longrightarrow> staging_ok (filter P st)"
  by (auto simp: staging_ok_def list_all_iff)

lemma staging_ok_room [simp]: "staging_ok st \<Longrightarrow> staging_ok (make_room st)"
  by (induction st rule: make_room.induct) (subst make_room.simps, simp)

lemma review_shown:
  "reviewPackage cr d pkg = (c, details) \<Longrightarrow>
     pi_app_id details = am_id (vp_manifest pkg) \<and> pi_permissions details = am_permissions (vp_manifest pkg) \<and>
     pi_fetch_hosts details = am_fetch_hosts (vp_manifest pkg) \<and>
     pi_new_permissions details = filter (\<lambda>p. p \<notin> set (grantedPermissions d (am_id (vp_manifest pkg)))) (am_permissions (vp_manifest pkg))"
  by (auto simp: reviewPackage_def Let_def)

lemma staging_ok_stage [simp]:
  "reviewPackage cr d pkg = (c, details) \<Longrightarrow> staging_ok st \<Longrightarrow> staging_ok (snd (stagePackage token now pkg details src st))"
proof -
  assume "reviewPackage cr d pkg = (c, details)" and st: "staging_ok st"
  then have "shown_ok \<lparr>sg_pkg = pkg, sg_pending = details\<lparr>pi_token := token, pi_expires_at := now + STAGED_TTL_MS\<rparr>,
      sg_expires_at = now + STAGED_TTL_MS, sg_source_repo = src\<rparr>" using review_shown by (auto simp: shown_ok_def)
  moreover have "staging_ok (make_room (prune_staged now st))" using st by (simp add: prune_staged_def)
  ultimately show ?thesis by (simp add: stagePackage_def Let_def staging_ok_def)
qed

lemma granted_other [simp]:
  "grantedPermissions (removeInstalledApp i d) j = (if j = i then [] else grantedPermissions d j)"
  by (cases "j = i") (simp_all add: grantedPermissions_def getInstalledApp_def removeInstalledApp_def sql_get_delete_other)

lemma commit_granted:
  "grantedPermissions (as_db (snd (commit_on now pkg src s))) i =
     (if fst (commit_on now pkg src s) \<noteq> None \<and> i = am_id (vp_manifest pkg) then am_permissions (vp_manifest pkg)
      else grantedPermissions (as_db s) i)"
  by (auto simp: commit_on_def commitPackage_def Let_def grantedPermissions_def getInstalledApp_def upsertInstalledApp_def
      pruneUnknownSettings_def sql_get_upsert sql_get_upsert_other case_prod_beta split: option.split)

text \<open>Without an approval no app holds a permission it did not hold before.\<close>

definition no_wider :: "app_server \<Rightarrow> app_server \<Rightarrow> bool" where
  "no_wider s s' \<longleftrightarrow> (\<forall>i. set (grantedPermissions (as_db s') i) \<subseteq> set (grantedPermissions (as_db s) i)) \<and>
     (staging_ok (as_staged s) \<longrightarrow> staging_ok (as_staged s'))"

lemma no_wider_same [simp]: "grantedPermissions (as_db s') = grantedPermissions (as_db s) \<Longrightarrow> as_staged s' = as_staged s \<Longrightarrow> no_wider s s'"
  by (simp add: no_wider_def)

lemma commit_staged [simp]: "as_staged (snd (commit_on now pkg src s)) = as_staged s"
  by (simp add: commit_on_def Let_def case_prod_beta)

lemma commit_no_wider:
  assumes "reviewPackage cr (as_db s) pkg = (c, details)" and "pi_new_permissions details = []"
  shows "no_wider s (snd (commit_on now pkg src s))"
  using assms(2) review_shown [OF assms(1)] by (auto simp: no_wider_def commit_granted filter_empty_conv)

lemma review_no_consent: "reviewPackage cr d pkg = (False, details) \<Longrightarrow> pi_new_permissions details = []"
  by (auto simp: reviewPackage_def Let_def)

lemma prepare_no_wider: "no_wider s (snd (prepareInstall e cr token now buf src s))"
proof (cases "validatePackage e buf")
  case (Inr pkg)
  obtain c details where r: "reviewPackage cr (as_db s) pkg = (c, details)" by (metis surj_pair)
  show ?thesis
  proof (cases c)
    case False
    then show ?thesis
      using commit_no_wider [OF r, of now src] review_no_consent [of cr "as_db s" pkg details] r Inr
      by (simp add: prepareInstall_def case_prod_beta)
  next
    case True
    then show ?thesis
      using r Inr staging_ok_stage [OF r, of "as_staged s" token now src]
      by (auto simp: prepareInstall_def no_wider_def case_prod_beta)
  qed
qed (simp add: prepareInstall_def)

lemma update_no_wider: "no_wider s (snd (applyUpdate e token now i s))"
proof -
  have "no_wider s (snd (let (needsConsent, details) = reviewPackage (re_crypto e) (as_db s) pkg in
          if needsConsent \<and> pi_new_permissions details \<noteq> [] then
            (let (pending, st) = stagePackage token now pkg details None (as_staged s)
             in (Inr (NeedsApproval pending), s\<lparr>as_staged := st\<rparr>))
          else
            (case commit_on now pkg (Some repoId) s of
               (None, s') \<Rightarrow> (Inl UpdateCrashed, s')
             | (Some m, s') \<Rightarrow>
                 (Inr (Updated (am_id m) (am_name m) (case am_version m of None \<Rightarrow> ''0.0.0'' | Some v \<Rightarrow> v)), s'))))"
    for pkg repoId
  proof -
    obtain c details where r: "reviewPackage (re_crypto e) (as_db s) pkg = (c, details)" by (metis surj_pair)
    show ?thesis
    proof (cases "pi_new_permissions details = []")
      case True
      then show ?thesis using commit_no_wider [OF r True, of now "Some repoId"] r
        by (simp add: case_prod_beta split: option.split)
    next
      case False
      then have c using review_no_consent r by (cases c) auto
      then show ?thesis using r False staging_ok_stage [OF r, of "as_staged s" token now None]
        by (auto simp: no_wider_def case_prod_beta)
    qed
  qed
  then show ?thesis
    by (simp add: applyUpdate_def Let_def split: sum.split prod.split)
qed

lemma granted_frame [simp]:
  "grantedPermissions (setAppEnabled i on d) = grantedPermissions d"
  "grantedPermissions (setSetting cr salt iv k v d) = grantedPermissions d"
  "grantedPermissions (snd (deleteTasksForApp i d)) = grantedPermissions d"
  "grantedPermissions (revokeAllForApp i d) = grantedPermissions d"
  "grantedPermissions (forgetApp i d) = grantedPermissions d"
proof -
  have "map_option app_manifest_json (sql_get (\<lambda>r. app_id r = j) (sql_update (\<lambda>r. app_id r = i) (app_enabled_update (\<lambda>_. on)) t)) =
      map_option app_manifest_json (sql_get (\<lambda>r. app_id r = j) t)" for j t
    by (induction t) auto
  then have same: "map_option app_manifest_json (getInstalledApp (setAppEnabled i on d) j) = map_option app_manifest_json (getInstalledApp d j)" for j
    by (simp add: getInstalledApp_def setAppEnabled_def)
  have manifest: "grantedPermissions d' j = (case map_option app_manifest_json (getInstalledApp d' j) of None \<Rightarrow> [] | Some m \<Rightarrow> am_permissions m)" for d' j
    by (simp add: grantedPermissions_def split: option.split)
  show "grantedPermissions (setAppEnabled i on d) = grantedPermissions d"
    by (rule ext) (simp only: manifest same)
qed (simp_all add: grantedPermissions_def getInstalledApp_def setSetting_def deleteTasksForApp_def revokeAllForApp_def forgetApp_def Let_def fun_eq_iff)

lemma delete_no_wider: "no_wider s (snd (deleteApp e ae i s))"
  by (auto simp: no_wider_def deleteApp_def uninstallApp_def Let_def discardStagedFor_def)

lemma confirm_step:
  assumes "postInstallConfirm token now s = (r, s')" and "staging_ok (as_staged s)"
  shows "staging_ok (as_staged s') \<and>
    (\<forall>i p. p \<in> set (grantedPermissions (as_db s') i) \<and> p \<notin> set (grantedPermissions (as_db s) i) \<longrightarrow>
      (\<exists>x. (token, x) \<in> set (as_staged s) \<and> now < sg_expires_at x \<and> pi_app_id (sg_pending x) = i \<and>
        p \<in> set (pi_permissions (sg_pending x))))"
proof (cases "fst (takeStaged token now (as_staged s))")
  case None
  then show ?thesis using assms
    by (auto simp: postInstallConfirm_def takeStaged_def prune_staged_def Let_def split: if_splits option.splits)
next
  case (Some x)
  then have x: "(token, x) \<in> set (as_staged s)" "now < sg_expires_at x" "shown_ok x"
    using assms(2) by (auto simp: takeStaged_def prune_staged_def Let_def staging_ok_def list_all_iff split: option.splits dest!: map_of_SomeD)
  have st: "staging_ok (snd (takeStaged token now (as_staged s)))"
    using assms(2) by (simp add: takeStaged_def prune_staged_def Let_def split: option.split)
  let ?t = "s\<lparr>as_staged := snd (takeStaged token now (as_staged s))\<rparr>"
  have "s' = s \<or> s' = snd (commit_on now (sg_pkg x) (sg_source_repo x) ?t)"
    using assms(1) Some by (auto simp: postInstallConfirm_def case_prod_beta Let_def split: if_splits option.splits prod.splits)
  then show ?thesis using x st assms(2) by (auto simp: commit_granted shown_ok_def split: if_splits)
qed

lemma step_no_wider: "(\<And>token now. q \<noteq> Confirm token now) \<Longrightarrow> no_wider s (run_install e ae q s)"
  using prepare_no_wider update_no_wider delete_no_wider
  by (cases q) (auto simp: postInstall_def beginInstall_def postRepoInstall_def postInstallCancel_def discardStaged_def
      postEnabled_def postTrust_def setTrusted_def Let_def case_prod_beta no_wider_def split: option.split sum.split repo_error.split)

lemma step_staging:
  assumes "staging_ok (as_staged s)"
  shows "staging_ok (as_staged (run_install e ae q s))"
proof (cases "\<exists>token now. q = Confirm token now")
  case True
  then show ?thesis using confirm_step assms by (metis prod.collapse run_install.simps(4))
next
  case False
  then show ?thesis using step_no_wider [of q s e ae] assms by (auto simp: no_wider_def)
qed

lemma run_staging: "staging_ok (as_staged s) \<Longrightarrow> staging_ok (as_staged (fold (run_install e ae) qs s))"
  by (induction qs arbitrary: s) (simp_all add: step_staging)

text \<open>
  C16. No app gains a permission unless an administrator approved it: whatever is uploaded,
  installed from repositories, updated, removed, trusted and switched before, and whatever
  the repositories answer, when a step leaves an app with a permission it did not have,
  that step confirms a staged package that had not expired, and what the administrator
  was shown for it named this app and this permission.
\<close>

theorem permissions_need_approval:
  assumes "as_staged s0 = []" and "s = fold (run_install e ae) qs s0"
    and "p \<in> set (grantedPermissions (as_db (run_install e ae q s)) i)" and "p \<notin> set (grantedPermissions (as_db s) i)"
  shows "\<exists>token now x. q = Confirm token now \<and> (token, x) \<in> set (as_staged s) \<and> now < sg_expires_at x \<and>
    pi_app_id (sg_pending x) = i \<and> p \<in> set (pi_permissions (sg_pending x))"
proof -
  have st: "staging_ok (as_staged s)" using run_staging [of s0 e ae qs] assms(1,2) by (simp add: staging_ok_def)
  obtain token now where q: "q = Confirm token now"
    using step_no_wider [of q s e ae] assms(3,4) by (auto simp: no_wider_def)
  then show ?thesis using confirm_step [OF prod.collapse [symmetric] st, of token now] assms(3,4) by auto
qed

subsection \<open>A sample package\<close>

definition sample_manifest_json :: json where
  "sample_manifest_json = JObj [(''manifestVersion'', JNum 1), (''id'', JStr ''timer''), (''name'', JStr ''Timer''),
     (''version'', JStr ''1.0.0''), (''icon'', JStr ''icon.png''), (''entry'', JStr ''index.html''),
     (''permissions'', JArr [JStr ''storage''])]"

definition sample_manifest_text :: string where
  "sample_manifest_text = stringify sample_manifest_json"

definition sample_archive :: string where
  "sample_archive = [CHR 0x50, CHR 0x4B, CHR 0x05, CHR 0x06] @ replicate 18 (CHR 0x00)"

definition sample_package_env :: package_env where
  "sample_package_env = \<lparr>pe_apps_dir = ''/srv/files'',
     pe_unzip = (\<lambda>b. Some [(''opennas-app.json'', sample_manifest_text), (''index.html'', ''<p>'')]),
     pe_decode = (\<lambda>s. s), pe_base64 = (\<lambda>s. s), pe_sha256 = (\<lambda>s. s), pe_sha256_hex = (\<lambda>s. s), pe_verify = (\<lambda>k c s. Some False)\<rparr>"

definition sample_repo_env :: repo_env where
  "sample_repo_env = \<lparr>re_pkg = sample_package_env, re_parse = (\<lambda>s. None), re_host = (\<lambda>s. None), re_fetch = (\<lambda>s. None),
     re_crypto = sample_crypto, re_collate = (\<lambda>s. s)\<rparr>"

definition sample_server :: app_server where
  "sample_server = \<lparr>as_db = sample_app_db, as_fs = sample_fs, as_staged = []\<rparr>"

lemma sample_size: "checkUncompressedSize sample_archive = None"
proof -
  have "getUint32 sample_archive 0 = 0x06054b50" by (simp add: getUint32_def le_value_def sample_archive_def code_unit_def)
  moreover have "getUint16 sample_archive 10 = 0"
    by (simp add: getUint16_def le_value_def sample_archive_def code_unit_def eval_nat_numeral)
  moreover have "length sample_archive = 22" by (simp add: sample_archive_def)
  ultimately show ?thesis by (simp add: checkUncompressedSize_def find_eocd_def)
qed

lemma sample_schema:
  "map_option (\<lambda>x. (am_id (fst x), am_permissions (fst x), am_entry (fst x), snd x)) (manifestSchema sample_manifest_json) = Some (''timer'', [PStorage], Some ''index.html'', None)"
  by code_simp

lemma sample_writes:
  "fst (write_all [(''/srv/files/timer/opennas-app.json'', c), (''/srv/files/timer/index.html'', c')] (rm_recursive ''/srv/files/timer'' sample_fs))"
  by code_simp

lemma sample_valid:
  obtains pkg where "validatePackage sample_package_env sample_archive = Inr pkg" and "am_id (vp_manifest pkg) = ''timer''"
    and "am_permissions (vp_manifest pkg) = [PStorage]" and "am_signed (vp_manifest pkg) = False" and "vp_app_dir pkg = ''/srv/files/timer''"
    and "vp_writes pkg = [(''/srv/files/timer/opennas-app.json'', sample_manifest_text), (''/srv/files/timer/index.html'', ''<p>'')]"
proof -
  obtain m key where schema: "manifestSchema sample_manifest_json = Some (m, key)"
    and m: "am_id m = ''timer''" "am_permissions m = [PStorage]" "am_entry m = Some ''index.html''" "key = None"
    using sample_schema by auto
  have "read_manifest sample_package_env [(''opennas-app.json'', sample_manifest_text), (''index.html'', ''<p>'')] = Inr (m, key)"
    unfolding read_manifest_def by (simp add: sample_package_env_def sample_manifest_text_def json_roundtrip schema)
  moreover have "unpack_entries [(''opennas-app.json'', t), (''index.html'', ''<p>'')] = [(''opennas-app.json'', t), (''index.html'', ''<p>'')]" for t
    by (simp add: unpack_entries_def ends_with_def)
  moreover have "length sample_manifest_text < 1000" by code_simp
  then have "check_unpacked [(''opennas-app.json'', sample_manifest_text), (''index.html'', ''<p>'')] = None"
    by (simp add: check_unpacked_def MAX_ENTRIES_def MAX_TOTAL_BYTES_def)
  moreover have "''timer'' \<notin> set RESERVED_IDS" by code_simp
  moreover have "path_join ''/srv/files'' ''timer'' = ''/srv/files/timer''" by code_simp
  moreover have "safeJoin ''/srv/files/timer'' ''opennas-app.json'' = Some ''/srv/files/timer/opennas-app.json''"
    "safeJoin ''/srv/files/timer'' ''index.html'' = Some ''/srv/files/timer/index.html''" by code_simp+
  ultimately show ?thesis
    using m that sample_size
    by (simp add: validatePackage_def sample_package_env_def toAppManifest_def verifyPackage_def Let_def)
qed

theorem permissions_need_approval_witness:
  "\<exists>x. (''tok'', x) \<in> set (as_staged (run_install sample_repo_env sample_app_env
       (Upload ''tok'' 5 (Some \<lparr>up_filename = ''timer.onpkg'', up_content = sample_archive, up_truncated = False\<rparr>)) sample_server)) \<and>
     pi_app_id (sg_pending x) = ''timer'' \<and> PStorage \<in> set (pi_permissions (sg_pending x))"
proof -
  let ?up = "Upload ''tok'' 5 (Some \<lparr>up_filename = ''timer.onpkg'', up_content = sample_archive, up_truncated = False\<rparr>)"
  let ?s = "fold (run_install sample_repo_env sample_app_env) [?up] sample_server"
  obtain pkg where v: "validatePackage sample_package_env sample_archive = Inr pkg" and pkg: "am_id (vp_manifest pkg) = ''timer''"
    "am_permissions (vp_manifest pkg) = [PStorage]" "am_signed (vp_manifest pkg) = False" "vp_app_dir pkg = ''/srv/files/timer''"
    "vp_writes pkg = [(''/srv/files/timer/opennas-app.json'', sample_manifest_text), (''/srv/files/timer/index.html'', ''<p>'')]"
    by (rule sample_valid)
  let ?x = "\<lparr>sg_pkg = pkg, sg_pending = (snd (reviewPackage sample_crypto sample_app_db pkg))\<lparr>pi_token := ''tok'', pi_expires_at := 300005\<rparr>,
      sg_expires_at = 300005, sg_source_repo = None\<rparr>"
  have env: "re_pkg sample_repo_env = sample_package_env" "re_crypto sample_repo_env = sample_crypto"
    by (simp_all add: sample_repo_env_def)
  have "fst (reviewPackage sample_crypto sample_app_db pkg)" using pkg(3) by (simp add: reviewPackage_def Let_def)
  then have s: "?s = sample_server\<lparr>as_staged := [(''tok'', ?x)]\<rparr>"
    using v by (simp add: env postInstall_def beginInstall_def prepareInstall_def sample_server_def case_prod_beta stagePackage_def
        make_room.simps MAX_STAGED_def prune_staged_def STAGED_TTL_MS_def Let_def)
  have none: "grantedPermissions sample_app_db ''timer'' = []" by code_simp
  have "fst (commitPackage 6 pkg None sample_app_db sample_fs) \<noteq> None"
    using sample_writes pkg(4,5) by (simp add: commitPackage_def Let_def case_prod_beta)
  then have new: "grantedPermissions (as_db (run_install sample_repo_env sample_app_env (Confirm ''tok'' 6) ?s)) ''timer'' = [PStorage]"
    unfolding s using commit_granted [of 6 pkg None "sample_server\<lparr>as_staged := []\<rparr>" "''timer''"] pkg(1,2)
    by (simp add: postInstallConfirm_def takeStaged_def prune_staged_def case_prod_beta commit_on_def sample_server_def)
  have old: "PStorage \<notin> set (grantedPermissions (as_db ?s) ''timer'')" unfolding s by (simp add: none sample_server_def)
  have "as_staged sample_server = []" by (simp add: sample_server_def)
  then have "\<exists>token now x. Confirm ''tok'' 6 = Confirm token now \<and> (token, x) \<in> set (as_staged ?s) \<and> now < sg_expires_at x \<and>
      pi_app_id (sg_pending x) = ''timer'' \<and> PStorage \<in> set (pi_permissions (sg_pending x))"
    by (rule permissions_need_approval [OF _ refl _ old]) (simp only: new list.set insert_iff simp_thms)
  then show ?thesis by auto
qed

subsection \<open>Removing an app\<close>

text \<open>
  Removing an app forgets it: afterwards it is not installed, nobody has storage,
  settings, tasks, granted folders or allowed access left for it, no package of it waits
  for approval and nothing is left in its two folders, while the tables keep every row of
  another app and nothing outside the two folders changes.
\<close>

theorem uninstall_forgets:
  assumes "deleteApp e ae i s = (Sent (), s')" and "j \<noteq> i"
  shows "getInstalledApp (as_db s') i = None \<and> listAppStorage (as_db s') i u = [] \<and> listTasks (as_db s') i u = [] \<and>
    listGrants (as_db s') i u = [] \<and> i \<notin> aps_app_id ` set (db_app_settings (as_db s')) \<and>
    i \<notin> aac_app_id ` set (db_app_access (as_db s')) \<and> i \<notin> (\<lambda>x. pi_app_id (sg_pending (snd x))) ` set (as_staged s') \<and>
    {q \<in> below (segs_of (path_join (pe_apps_dir e) i)) \<union> below (segs_of (path_join (ap_data_dir ae) i)). fs_get (as_fs s') q \<noteq> None} = {} \<and>
    changes_in (below (segs_of (path_join (pe_apps_dir e) i)) \<union> below (segs_of (path_join (ap_data_dir ae) i))) (as_fs s) (as_fs s') \<and>
    getInstalledApp (as_db s') j = getInstalledApp (as_db s) j \<and> listAppStorage (as_db s') j u = listAppStorage (as_db s) j u \<and>
    listTasks (as_db s') j u = listTasks (as_db s) j u \<and> listGrants (as_db s') j u = listGrants (as_db s) j u"
proof -
  let ?code = "path_join (pe_apps_dir e) i" and ?data = "path_join (ap_data_dir ae) i"
  have s': "s' = \<lparr>as_db = forgetApp i (revokeAllForApp i (snd (deleteTasksForApp i (removeInstalledApp i (as_db s))))),
      as_fs = rm_recursive ?data (rm_recursive ?code (as_fs s)), as_staged = discardStagedFor i (as_staged s)\<rparr>"
    using assms(1) by (auto simp: deleteApp_def uninstallApp_def Let_def split: if_splits)
  have files: "changes_in (below (segs_of ?code) \<union> below (segs_of ?data)) (as_fs s) (as_fs s')"
    unfolding s' by simp (rule changes_trans; rule changes_mono [OF rm_changes], simp)
  have "{q \<in> below (segs_of ?code) \<union> below (segs_of ?data). fs_get (as_fs s') q \<noteq> None} = {}"
    by (auto simp: s' rm_recursive_def below_def fs_get_drop_tree)
  moreover have "filter (task_of i u) (sql_delete (\<lambda>r. tsk_app_id r = i) t) = []"
      "filter (task_of j u) (sql_delete (\<lambda>r. tsk_app_id r = i) t) = filter (task_of j u) t" for t
    using assms(2) by (auto simp: task_of_def sql_delete_def filter_empty_conv intro!: filter_cong)
  moreover have "filter (held_by i u) (sql_delete (\<lambda>r. grn_app_id r = i) t) = []"
      "filter (held_by j u) (sql_delete (\<lambda>r. grn_app_id r = i) t) = filter (held_by j u) t" for t
    using assms(2) by (auto simp: held_by_def sql_delete_def filter_empty_conv intro!: filter_cong)
  moreover have "listAppStorage (as_db s') i u = []" "listAppStorage (as_db s') j u = listAppStorage (as_db s) j u"
    using assms(2) by (auto simp: s' forgetApp_def revokeAllForApp_def deleteTasksForApp_def removeInstalledApp_def
        listAppStorage_def sql_delete_def filter_empty_conv intro!: arg_cong [where f = "map _"] filter_cong)
  moreover have "order_asc tsk_name [] = []" "order_desc grn_created_at [] = []" by (simp_all add: order_asc_def order_desc_def)
  ultimately show ?thesis
    using files assms(2)
    by (auto simp: s' forgetApp_def revokeAllForApp_def deleteTasksForApp_def removeInstalledApp_def discardStagedFor_def
        getInstalledApp_def listTasks_def listGrants_def sql_get_delete_other)
qed

theorem uninstall_forgets_witness:
  "\<exists>s'. deleteApp sample_package_env sample_app_env ''clock'' sample_server = (Sent (), s') \<and>
     getInstalledApp (as_db s') ''clock'' = None \<and> listTasks (as_db s') ''clock'' ''u1'' = [] \<and> listGrants (as_db s') ''clock'' ''u1'' = []"
proof -
  have "fst (deleteApp sample_package_env sample_app_env ''clock'' sample_server) = Sent ()"
    by (simp add: deleteApp_def sample_server_def sample_app_db_def getInstalledApp_def case_prod_beta)
  then obtain s' where "deleteApp sample_package_env sample_app_env ''clock'' sample_server = (Sent (), s')" by (metis prod.collapse)
  then show ?thesis using uninstall_forgets [of sample_package_env sample_app_env "''clock''" sample_server s' "''notes''" "''u1''"] by auto
qed

subsection \<open>An app's own folder\<close>

lemma mkdir_new_below:
  assumes "fs_ok f" and "fs_get f ds = Some DirNode" and "mkdir_recursive r f = Some g" and "prefix (ds @ [x]) (segs_of r) \<or> segs_of r = ds"
  shows "changes_in (below (ds @ [x])) f g"
proof (rule changes_inI, rule ccontr)
  fix q
  assume out: "q \<notin> below (ds @ [x])" and ne: "fs_get g q \<noteq> fs_get f q"
  then have q: "prefix q (segs_of r)" "fs_get f q = None"
    using mkdir_steps_get [of "prefixes (segs_of r)" f g q] assms(3) by (auto simp: mkdir_recursive_def split: if_splits)
  have "\<not> prefix q ds" using fs_ok_prefix [OF assms(1), of q ds] assms(2) q(2) by (cases "q = ds") auto
  moreover have "prefix q ds \<or> prefix (ds @ [x]) q"
    using assms(4) q(1) prefix_same_cases [of q "segs_of r" "ds @ [x]"] by (auto simp: prefix_snoc)
  ultimately show False using out by (simp add: below_def)
qed

lemma write_below_grows:
  assumes "fs_ok f" and "fs_get f ds = Some DirNode" and "plain ss" and "prefix (ds @ [x]) ss"
  shows "changes_in (below (ds @ [x])) f (snd (write_below (abs_path ss) c f)) \<and> fs_ok (snd (write_below (abs_path ss) c f))"
proof -
  obtain us where us: "ss = ds @ [x] @ us" using assms(4) by (auto simp: prefix_def)
  have "plain (butlast ss)" using assms(3) by (auto dest: in_set_butlastD)
  then have dir: "segs_of (dirname (abs_path ss)) = butlast ss" using assms(3) by simp
  have up: "prefix (ds @ [x]) (segs_of (dirname (abs_path ss))) \<or> segs_of (dirname (abs_path ss)) = ds"
    unfolding dir by (cases us rule: rev_cases) (simp_all add: us butlast_append)
  have "segs_of (abs_path ss) \<in> below (ds @ [x])" using assms(3,4) by (simp add: below_def)
  then have put: "changes_in (below (ds @ [x])) g h" if "writeFile (abs_path ss) c g = Some h" for g h
    using changes_mono [OF writeFile_changes [OF that]] by blast
  show ?thesis
    using mkdir_new_below [OF assms(1,2) _ up] mkdir_recursive_ok [OF assms(1)] put
    by (auto simp: write_below_def assms(1) split: option.splits intro: changes_trans writeFile_ok)
qed

lemma write_all_below:
  assumes "fs_ok f" and "fs_get f ds = Some DirNode" and "list_all (\<lambda>(r, c). \<exists>ss. r = abs_path ss \<and> plain ss \<and> prefix (ds @ [x]) ss) ws"
  shows "changes_in (below (ds @ [x])) f (snd (write_all ws f)) \<and> fs_ok (snd (write_all ws f))"
  using assms
proof (induction ws arbitrary: f)
  case (Cons w ws)
  obtain r c where w: "w = (r, c)" by force
  then obtain ss where r: "r = abs_path ss" "plain ss" "prefix (ds @ [x]) ss" using Cons.prems(3) by auto
  let ?g = "snd (write_below r c f)"
  have g: "changes_in (below (ds @ [x])) f ?g" "fs_ok ?g" using write_below_grows [OF Cons.prems(1,2) r(2,3)] r(1) by auto
  have "ds \<notin> below (ds @ [x])" by (auto simp: below_def dest: prefix_length_le)
  then have "fs_get ?g ds = Some DirNode" using g(1) Cons.prems(2) by (metis changes_in_def)
  then show ?case using Cons.IH [OF g(2)] Cons.prems(3) g w by (auto simp: case_prod_beta intro: changes_trans)
qed simp

lemma dev_id_plain: "dev_id_ok i \<Longrightarrow> plain_segment i"
proof -
  have "\<not> is_alnum (CHR ''/'')" "\<not> is_alnum (CHR ''.'')" by code_simp+
  then show "dev_id_ok i \<Longrightarrow> plain_segment i" by (auto simp: dev_id_ok_def plain_segment_def list_all_iff)
qed

text \<open>What a checked package is.\<close>

lemma validatePackage_Inr:
  assumes "validatePackage e buf = Inr pkg"
  obtains files m key where "pe_unzip e buf = Some files" and "read_manifest e files = Inr (m, key)"
    and "vp_manifest pkg = toAppManifest m (verifyPackage e files key)" and "am_id m \<notin> set RESERVED_IDS"
    and "checkUncompressedSize buf = None" and "check_unpacked (unpack_entries files) = None"
    and "vp_app_dir pkg = path_join (pe_apps_dir e) (am_id m)"
    and "those (map (\<lambda>(n, c). map_option (\<lambda>dest. (dest, c)) (safeJoin (vp_app_dir pkg) n)) (unpack_entries files)) = Some (vp_writes pkg)"
  using assms by (auto simp: validatePackage_def Let_def split: option.splits sum.splits prod.splits if_splits)

lemma those_map: "those (map f xs) = Some ys \<longleftrightarrow> map f xs = map Some ys"
  by (induction xs arbitrary: ys) (auto simp: Cons_eq_map_conv split: option.splits)

lemma z_list_Some:
  assumes "z_list n p j = Some xs" and "x \<in> set xs"
  shows "\<exists>v. p (Some v) = Some x"
proof -
  obtain js where "those (map (\<lambda>v. p (Some v)) js) = Some xs"
    using assms(1) by (auto simp: z_list_def split: option.splits json.splits if_splits)
  then have "set (map (\<lambda>v. p (Some v)) js) = Some ` set xs" by (simp add: those_map flip: set_map)
  then show ?thesis using assms(2) by (metis (mono_tags, lifting) image_eqI image_iff set_map)
qed

lemma z_enum_Some: "z_enum t j = Some x \<Longrightarrow> x \<in> snd ` set t"
  by (auto simp: z_enum_def image_iff split: option.splits json.splits dest!: map_of_SomeD) force

lemma manifestSchema_Some:
  assumes "manifestSchema j = Some (m, key)"
  shows "dev_id_ok (am_id m) \<and> manifest_consistent m \<and> set (am_permissions m) \<subseteq> snd ` set MANIFEST_PERMISSIONS"
proof -
  have "set ps \<subseteq> snd ` set MANIFEST_PERMISSIONS"
    if "z_or [] (\<lambda>v. case v of Some (JArr js) \<Rightarrow> z_list (length js) (z_enum MANIFEST_PERMISSIONS) v | _ \<Rightarrow> None) (jget j ''permissions'') = Some ps"
    for ps
    using that z_list_Some [of _ "z_enum MANIFEST_PERMISSIONS" _ ps] z_enum_Some [of MANIFEST_PERMISSIONS]
    by (fastforce simp: z_or_def split: option.splits json.splits)
  then show ?thesis using assms by (auto simp: manifestSchema_def demand_def Let_def bind_eq_Some_conv split: if_splits)
qed

lemma safeJoin_below:
  assumes "safeJoin (abs_path ds) n = Some dest" and "plain ds" and "ds \<noteq> []"
  shows "\<exists>ss. dest = abs_path ss \<and> plain ss \<and> prefix ds ss"
proof -
  have dest: "dest = path_resolve (abs_path ds) [n]" "dest = abs_path ds \<or> starts_with dest (abs_path ds @ ''/'')"
    using assms(1) by (auto simp: safeJoin_def Let_def split: if_splits)
  obtain ss where "plain ss" "dest = abs_path ss" using path_resolve_plain dest(1) by blast
  then show ?thesis using extract_dest [OF assms(2,3) dest] by auto
qed

lemma joined_contents:
  "map (\<lambda>(n, c). map_option (\<lambda>dest. (dest, c)) (g n)) es = map Some ws \<Longrightarrow> map snd ws = map snd es"
proof (induction es arbitrary: ws)
  case (Cons x es)
  obtain n c where x: "x = (n, c)" by force
  obtain w ws' where ws: "ws = w # ws'" using Cons.prems by (cases ws) auto
  then have "map_option (\<lambda>dest. (dest, c)) (g n) = Some w" and "map snd ws' = map snd es"
    using Cons.prems Cons.IH [of ws'] x by auto
  then show ?case using x ws by auto
qed simp

text \<open>
  C17. A package stays in its folder: an archive that passes the checks unpacks to at most
  2000 files and 64 megabytes, none of them outside the folder of its app; putting it in
  place, also when that fails half-way, changes nothing else in the tree; and its manifest
  takes no reserved id, asks only for permissions of the list, and names valid hosts
  exactly when it asks for the network.
\<close>

theorem packages_stay_in_their_folder:
  assumes "validatePackage e buf = Inr pkg" and "pe_apps_dir e = abs_path ds" and "plain ds"
    and "fs_ok f" and "fs_get f ds = Some DirNode"
  shows "changes_in (below (ds @ [am_id (vp_manifest pkg)])) f (snd (snd (commitPackage now pkg src d f))) \<and>
    fs_ok (snd (snd (commitPackage now pkg src d f))) \<and>
    am_id (vp_manifest pkg) \<notin> set RESERVED_IDS \<and> manifest_consistent (vp_manifest pkg) \<and>
    set (am_permissions (vp_manifest pkg)) \<subseteq> snd ` set MANIFEST_PERMISSIONS \<and>
    length (vp_writes pkg) \<le> 2000 \<and> sum_list (map (length \<circ> snd) (vp_writes pkg)) \<le> 64 * 1024 * 1024"
proof -
  obtain files m key where read: "read_manifest e files = Inr (m, key)"
    and vp: "vp_manifest pkg = toAppManifest m (verifyPackage e files key)" and free: "am_id m \<notin> set RESERVED_IDS"
    and small: "check_unpacked (unpack_entries files) = None" and dir: "vp_app_dir pkg = path_join (pe_apps_dir e) (am_id m)"
    and ws: "those (map (\<lambda>(n, c). map_option (\<lambda>dest. (dest, c)) (safeJoin (vp_app_dir pkg) n)) (unpack_entries files)) = Some (vp_writes pkg)"
    using validatePackage_Inr [OF assms(1)] by metis
  obtain j where "manifestSchema j = Some (m, key)" using read by (auto simp: read_manifest_def split: option.splits)
  note schema = manifestSchema_Some [OF this]
  have same: "am_id (vp_manifest pkg) = am_id m" "am_permissions (vp_manifest pkg) = am_permissions m"
    "manifest_consistent (vp_manifest pkg) = manifest_consistent m"
    by (simp_all add: vp toAppManifest_def manifest_consistent_def case_prod_beta)
  have pl: "plain (ds @ [am_id m])" using assms(3) dev_id_plain schema by simp
  then have appdir: "vp_app_dir pkg = abs_path (ds @ [am_id m])" using path_join_plain(1) [of ds "am_id m"] by (simp add: dir assms(2))
  have map: "map (\<lambda>(n, c). map_option (\<lambda>dest. (dest, c)) (safeJoin (vp_app_dir pkg) n)) (unpack_entries files) = map Some (vp_writes pkg)"
    using ws by (simp add: those_map)
  have below: "list_all (\<lambda>(r, c). \<exists>ss. r = abs_path ss \<and> plain ss \<and> prefix (ds @ [am_id m]) ss) (vp_writes pkg)"
  proof (clarsimp simp: list_all_iff)
    fix r c
    assume "(r, c) \<in> set (vp_writes pkg)"
    then have "Some (r, c) \<in> set (map Some (vp_writes pkg))" by simp
    then have "Some (r, c) \<in> (\<lambda>(n, c). map_option (\<lambda>dest. (dest, c)) (safeJoin (vp_app_dir pkg) n)) ` set (unpack_entries files)"
      unfolding map [symmetric] by simp
    then obtain n c' where "Some (r, c) = map_option (\<lambda>dest. (dest, c')) (safeJoin (vp_app_dir pkg) n)" by auto
    then have "safeJoin (vp_app_dir pkg) n = Some r" by (cases "safeJoin (vp_app_dir pkg) n") auto
    then show "\<exists>ss. r = abs_path ss \<and> plain ss \<and> prefix (ds @ [am_id m]) ss"
      using safeJoin_below [of "ds @ [am_id m]" n r] pl by (simp add: appdir)
  qed
  have contents: "map snd (vp_writes pkg) = map snd (unpack_entries files)" by (rule joined_contents [OF map])
  then have "length (vp_writes pkg) = length (unpack_entries files)" by (metis length_map)
  moreover have "sum_list (map (length \<circ> snd) (vp_writes pkg)) = sum_list (map (length \<circ> snd) (unpack_entries files))"
    using contents by (metis map_map)
  ultimately have sizes: "length (vp_writes pkg) \<le> 2000 \<and> sum_list (map (length \<circ> snd) (vp_writes pkg)) \<le> 64 * 1024 * 1024"
    using small by (simp add: check_unpacked_def MAX_ENTRIES_def MAX_TOTAL_BYTES_def split: if_splits)
  let ?g = "rm_recursive (vp_app_dir pkg) f"
  have segs: "segs_of (vp_app_dir pkg) = ds @ [am_id m]" using pl by (simp add: appdir)
  have g: "changes_in (below (ds @ [am_id m])) f ?g" "fs_ok ?g" using rm_changes [of "vp_app_dir pkg" f] rm_ok [OF assms(4)] segs by auto
  have "ds \<notin> below (ds @ [am_id m])" by (auto simp: below_def dest: prefix_length_le)
  then have "fs_get ?g ds = Some DirNode" using g(1) assms(5) by (metis changes_in_def)
  note written = write_all_below [OF g(2) this below]
  have "snd (snd (commitPackage now pkg src d f)) = snd (write_all (vp_writes pkg) ?g)"
    by (simp add: commitPackage_def Let_def case_prod_beta)
  then show ?thesis using written g(1) sizes free schema same by (auto intro: changes_trans)
qed

theorem packages_stay_in_their_folder_witness:
  "\<exists>pkg. validatePackage sample_package_env sample_archive = Inr pkg \<and>
     changes_in (below [''srv'', ''files'', ''timer'']) sample_fs (snd (snd (commitPackage 6 pkg None sample_app_db sample_fs))) \<and>
     length (vp_writes pkg) = 2"
proof -
  obtain pkg where v: "validatePackage sample_package_env sample_archive = Inr pkg" and pkg: "am_id (vp_manifest pkg) = ''timer''"
    "vp_writes pkg = [(''/srv/files/timer/opennas-app.json'', sample_manifest_text), (''/srv/files/timer/index.html'', ''<p>'')]"
    by (rule sample_valid)
  have "pe_apps_dir sample_package_env = abs_path [''srv'', ''files'']" by code_simp
  moreover have "plain [''srv'', ''files'']" "fs_get sample_fs [''srv'', ''files''] = Some DirNode" by code_simp+
  ultimately show ?thesis
    using packages_stay_in_their_folder [OF v _ _ sample_fs_ok, of "[''srv'', ''files'']" 6 None sample_app_db] v pkg by simp
qed

subsection \<open>What a signature covers\<close>

lemma split_at_line:
  "CHR 0x0A \<notin> set a \<Longrightarrow> CHR 0x0A \<notin> set b \<Longrightarrow> a @ CHR 0x0A # r = b @ CHR 0x0A # r' \<longleftrightarrow> a = b \<and> r = r'"
proof (induction a arbitrary: b)
  case Nil
  then show ?case by (cases b) auto
next
  case (Cons c a)
  then show ?case by (cases b) auto
qed

lemma lines_inj:
  assumes "\<And>n. n \<in> set ns \<union> set ns' \<Longrightarrow> CHR 0x0A \<notin> set n" and "\<And>n. CHR 0x0A \<notin> set (h n)" and "\<And>n. CHR 0x0A \<notin> set (h' n)"
    and "concat (map (\<lambda>n. n @ [CHR 0x0A] @ h n @ [CHR 0x0A]) ns) = concat (map (\<lambda>n. n @ [CHR 0x0A] @ h' n @ [CHR 0x0A]) ns')"
  shows "ns = ns' \<and> (\<forall>n \<in> set ns. h n = h' n)"
  using assms(1,4)
proof (induction ns arbitrary: ns')
  case Nil
  then show ?case by (cases ns') auto
next
  case (Cons n ns)
  then obtain n' ms where ns': "ns' = n' # ms" by (cases ns') auto
  have "n @ CHR 0x0A # (h n @ CHR 0x0A # concat (map (\<lambda>n. n @ [CHR 0x0A] @ h n @ [CHR 0x0A]) ns)) =
      n' @ CHR 0x0A # (h' n' @ CHR 0x0A # concat (map (\<lambda>n. n @ [CHR 0x0A] @ h' n @ [CHR 0x0A]) ms))"
    using Cons.prems(2) ns' by simp
  then have "n = n'" "h n = h' n'"
    and "concat (map (\<lambda>n. n @ [CHR 0x0A] @ h n @ [CHR 0x0A]) ns) = concat (map (\<lambda>n. n @ [CHR 0x0A] @ h' n @ [CHR 0x0A]) ms)"
    using split_at_line Cons.prems(1) ns' assms(2,3) by auto
  then show ?case using Cons.IH [of ms] Cons.prems(1) ns' by auto
qed

text \<open>
  C28. A signature covers the whole package: two packages with the same digest, so with the
  same valid signatures, have the same files with the same contents, provided the hash
  has no collision among them and no file name contains a line feed.
\<close>

theorem signature_covers_files:
  assumes "canonicalDigest e es = canonicalDigest e es'"
    and "pe_sha256 e (digest_input (pe_sha256_hex e) es) = pe_sha256 e (digest_input (pe_sha256_hex e) es') \<Longrightarrow>
      digest_input (pe_sha256_hex e) es = digest_input (pe_sha256_hex e) es'"
    and "inj_on (pe_sha256_hex e) (snd ` set es \<union> snd ` set es')" and "\<And>c. CHR 0x0A \<notin> set (pe_sha256_hex e c)"
    and "\<And>n. n \<in> fst ` set es \<union> fst ` set es' \<Longrightarrow> CHR 0x0A \<notin> set n"
    and "n \<noteq> ''SIGNATURE''" and "\<not> ends_with n ''/''"
  shows "map_of es n = map_of es' n"
proof -
  let ?h = "\<lambda>es n. pe_sha256_hex e (the (map_of es n))"
  have line: "digest_line (pe_sha256_hex e) xs = (\<lambda>n. n @ [CHR 0x0A] @ ?h xs n @ [CHR 0x0A])" for xs
    by (rule ext) (simp add: digest_line_def)
  have names: "signed_names es = signed_names es' \<and> (\<forall>n \<in> set (signed_names es). ?h es n = ?h es' n)"
  proof (rule lines_inj)
    show "concat (map (\<lambda>n. n @ [CHR 0x0A] @ ?h es n @ [CHR 0x0A]) (signed_names es)) =
        concat (map (\<lambda>n. n @ [CHR 0x0A] @ ?h es' n @ [CHR 0x0A]) (signed_names es'))"
      using assms(1,2) by (simp add: canonicalDigest_def digest_input_def line)
  qed (use assms(4,5) in \<open>auto simp: signed_names_def\<close>)
  have in_names: "n \<in> set (signed_names xs) \<longleftrightarrow> n \<in> fst ` set xs" for xs using assms(6,7) by (auto simp: signed_names_def)
  show ?thesis
  proof (cases "n \<in> set (signed_names es)")
    case True
    then obtain c c' where "map_of es n = Some c" "map_of es' n = Some c'"
      using names in_names [of es] in_names [of es'] by (metis map_of_eq_None_iff option.exhaust)
    then show ?thesis using names True inj_onD [OF assms(3), of c c'] by (force dest: map_of_SomeD)
  next
    case False
    then have "n \<notin> fst ` set es" "n \<notin> fst ` set es'" using names in_names [of es] in_names [of es'] by simp_all
    then have "map_of es n = None" "map_of es' n = None" by (simp_all add: map_of_eq_None_iff)
    then show ?thesis by simp
  qed
qed

definition hashing_env :: package_env where
  "hashing_env = sample_package_env\<lparr>pe_sha256_hex := \<lambda>c. concat (map hex_pair c)\<rparr>"

lemma signature_covers_files_witness:
  "map_of [(''a'', ''x''), (''b'', ''y'')] ''b'' = map_of [(''b'', ''y''), (''a'', ''x'')] ''b''"
proof (rule signature_covers_files [where e = hashing_env])
  show "canonicalDigest hashing_env [(''a'', ''x''), (''b'', ''y'')] = canonicalDigest hashing_env [(''b'', ''y''), (''a'', ''x'')]"
    by (simp add: canonicalDigest_def digest_input_def digest_line_def signed_names_def ends_with_def)
  have hashing: "pe_sha256_hex hashing_env = (\<lambda>c. concat (map hex_pair c))" by (simp add: hashing_env_def)
  have "inj_on (\<lambda>c. concat (map hex_pair c)) A" for A by (rule inj_on_inverseI [where g = unhex]) simp
  then show "inj_on (pe_sha256_hex hashing_env)
      (snd ` set [(''a'', ''x''), (''b'', ''y'')] \<union> snd ` set [(''b'', ''y''), (''a'', ''x'')])"
    by (simp only: hashing)
  show "CHR 0x0A \<notin> set (pe_sha256_hex hashing_env c)" for c
  proof -
    have "\<not> is_alnum (CHR 0x0A)" by code_simp
    then have "CHR 0x0A \<noteq> hex_upper n" for n using hex_upper_alnum by metis
    then show ?thesis by (auto simp: hashing_env_def hex_pair_def)
  qed
qed (auto simp: hashing_env_def sample_package_env_def ends_with_def)

text \<open>With a line feed in a name, two files become one without changing the digest.\<close>

lemma line_feed_merges_files:
  "canonicalDigest e [(''a'', x), (''b'', y)] =
     canonicalDigest e [(''a'' @ [CHR 0x0A] @ pe_sha256_hex e x @ [CHR 0x0A] @ ''b'', y)]"
  by (simp add: canonicalDigest_def digest_input_def digest_line_def signed_names_def ends_with_def)

end
