(* ===== verification/Services.thy ===== *)
theory Services
  imports Shares FileSystem Secrets Json
begin

text \<open>
  The file-sharing daemons (\<open>services/services.ts\<close>): their stored settings and the
  configuration files generated from the shares, with the settings route of
  \<open>admin/routes.ts\<close>.  Writing a file is returned as a pair of its path and its content,
  \<open>None\<close> for a file that is removed; that a write can fail is left to the caller.
\<close>

subsection \<open>Settings\<close>

record services_config =
  sc_smb_enabled :: bool
  sc_workgroup :: string
  sc_server_string :: string
  sc_allow_guest :: bool
  sc_nfs_enabled :: bool
  sc_allowed_networks :: string
  sc_afp_enabled :: bool

definition DEFAULT_SERVICES :: services_config where
  "DEFAULT_SERVICES = \<lparr>sc_smb_enabled = False, sc_workgroup = ''WORKGROUP'', sc_server_string = ''OpenNAS'',
     sc_allow_guest = False, sc_nfs_enabled = False, sc_allowed_networks = '''', sc_afp_enabled = False\<rparr>"

definition services_json :: "services_config \<Rightarrow> json" where
  "services_json c = JObj
     [(''smb'', JObj [(''enabled'', JBool (sc_smb_enabled c)), (''workgroup'', JStr (sc_workgroup c)),
        (''serverString'', JStr (sc_server_string c)), (''allowGuest'', JBool (sc_allow_guest c))]),
      (''nfs'', JObj [(''enabled'', JBool (sc_nfs_enabled c)), (''allowedNetworks'', JStr (sc_allowed_networks c))]),
      (''afp'', JObj [(''enabled'', JBool (sc_afp_enabled c))])]"

text \<open>
  A member that is missing keeps its default.  Only \<open>setServicesConfig\<close> writes the setting,
  so members have their types; another type is read as missing.
\<close>

definition bool_member :: "json option \<Rightarrow> string \<Rightarrow> bool \<Rightarrow> bool" where
  "bool_member j k fb = (case Option.bind j (\<lambda>o'. jget o' k) of Some (JBool b) \<Rightarrow> b | _ \<Rightarrow> fb)"

definition text_member :: "json option \<Rightarrow> string \<Rightarrow> string \<Rightarrow> string" where
  "text_member j k fb = (case Option.bind j (\<lambda>o'. jget o' k) of Some (JStr s) \<Rightarrow> s | _ \<Rightarrow> fb)"

definition services_of_json :: "json \<Rightarrow> services_config" where
  "services_of_json j =
     (let smb = jget j ''smb''; nfs = jget j ''nfs''; afp = jget j ''afp''; d = DEFAULT_SERVICES in
      \<lparr>sc_smb_enabled = bool_member smb ''enabled'' (sc_smb_enabled d), sc_workgroup = text_member smb ''workgroup'' (sc_workgroup d),
       sc_server_string = text_member smb ''serverString'' (sc_server_string d), sc_allow_guest = bool_member smb ''allowGuest'' (sc_allow_guest d),
       sc_nfs_enabled = bool_member nfs ''enabled'' (sc_nfs_enabled d), sc_allowed_networks = text_member nfs ''allowedNetworks'' (sc_allowed_networks d),
       sc_afp_enabled = bool_member afp ''enabled'' (sc_afp_enabled d)\<rparr>)"

definition getServicesConfig :: "crypto \<Rightarrow> db \<Rightarrow> services_config" where
  "getServicesConfig cr d =
     (case getSetting cr d ''services'' of
        None \<Rightarrow> DEFAULT_SERVICES
      | Some raw \<Rightarrow>
          if raw = '''' then DEFAULT_SERVICES
          else (case json_parse raw of
                  None \<Rightarrow> DEFAULT_SERVICES
                | Some j \<Rightarrow> if j = JNull then DEFAULT_SERVICES else services_of_json j))"

record services_patch =
  sv_smb_enabled :: "bool option"
  sv_workgroup :: "string option"
  sv_server_string :: "string option"
  sv_allow_guest :: "bool option"
  sv_nfs_enabled :: "bool option"
  sv_allowed_networks :: "string option"
  sv_afp_enabled :: "bool option"

definition merge_services :: "services_config \<Rightarrow> services_patch \<Rightarrow> services_config" where
  "merge_services c p =
     \<lparr>sc_smb_enabled = or_keep (sv_smb_enabled p) (sc_smb_enabled c), sc_workgroup = or_keep (sv_workgroup p) (sc_workgroup c),
      sc_server_string = or_keep (sv_server_string p) (sc_server_string c), sc_allow_guest = or_keep (sv_allow_guest p) (sc_allow_guest c),
      sc_nfs_enabled = or_keep (sv_nfs_enabled p) (sc_nfs_enabled c), sc_allowed_networks = or_keep (sv_allowed_networks p) (sc_allowed_networks c),
      sc_afp_enabled = or_keep (sv_afp_enabled p) (sc_afp_enabled c)\<rparr>"

definition setServicesConfig :: "crypto \<Rightarrow> services_patch \<Rightarrow> db \<Rightarrow> services_config \<times> db" where
  "setServicesConfig cr p d =
     (let c = merge_services (getServicesConfig cr d) p in (c, setSetting cr '''' '''' ''services'' (stringify (services_json c)) d))"

subsection \<open>\<open>smb.conf\<close>\<close>

record services_env =
  se_config :: config
  se_share_owner :: string
  se_generated_dir :: string
  se_smb_conf_path :: string
  se_exports_path :: string
  se_avahi_path :: string

definition shareBasePath :: "config \<Rightarrow> share \<Rightarrow> string" where
  "shareBasePath cfg s =
     (case sh_volume s of
        Some v \<Rightarrow> posix_normalize (cfg_volumes_root cfg @ ''/'' @ v @ ''/'' @ sh_name s)
      | None \<Rightarrow> posix_normalize (cfg_files_root cfg @ ''/'' @ sh_name s))"

definition yes_no :: "bool \<Rightarrow> string" where
  "yes_no b = (if b then ''yes'' else ''no'')"

definition smb_global :: "services_config \<Rightarrow> string list" where
  "smb_global c =
     [''# Generated by OpenNAS - do not edit by hand.'', ''[global]'',
      ''   workgroup = '' @ (if sc_workgroup c = '''' then ''WORKGROUP'' else sc_workgroup c),
      ''   server string = '' @ (if sc_server_string c = '''' then ''OpenNAS'' else sc_server_string c),
      ''   security = user'', ''   map to guest = '' @ (if sc_allow_guest c then ''Bad User'' else ''Never''),
      ''   ea support = yes'', ''   vfs objects = catia fruit streams_xattr'', ''   fruit:aapl = yes'',
      ''   fruit:metadata = stream'', ''   fruit:model = MacSamba'', ''   fruit:posix_rename = yes'',
      ''   fruit:veto_appledouble = no'', ''   fruit:wipe_intentionally_left_blank_rfork = yes'',
      ''   fruit:delete_empty_adfiles = yes'', '''']"

definition smb_writers :: "share \<Rightarrow> string list" where
  "smb_writers s = map sp_username (filter (\<lambda>p. sp_level p = ReadWriteAccess) (sh_permissions s)) @
     map (\<lambda>g. ''@'' @ sg_name g) (filter (\<lambda>g. sg_level g = ReadWriteAccess) (sh_group_permissions s))"

definition smb_readers :: "share \<Rightarrow> string list" where
  "smb_readers s = map sp_username (sh_permissions s) @ map (\<lambda>g. ''@'' @ sg_name g) (sh_group_permissions s)"

definition valid_users :: "share \<Rightarrow> string list" where
  "valid_users s = (if sh_guest_access s \<noteq> NoAccess then smb_readers s @ [''nobody''] else smb_readers s)"

definition write_list :: "share \<Rightarrow> string list" where
  "write_list s = (if sh_guest_access s = ReadWriteAccess then smb_writers s @ [''nobody''] else smb_writers s)"

definition list_line :: "string \<Rightarrow> string list \<Rightarrow> string" where
  "list_line key names = (if names \<noteq> [] then key @ '' = '' @ join '' '' names else key @ '' ='')"

definition recycle_lines :: "string list" where
  "recycle_lines =
     [''   recycle:repository = .recycle/%U'', ''   recycle:keeptree = yes'', ''   recycle:versions = yes'',
      ''   recycle:exclude = *.tmp|*.temp|*.o|*.obj|~$*|*.~??'', ''   recycle:exclude_dir = /tmp|/cache'',
      ''   recycle:touch = no'', ''   recycle:directory_mode = 0775'']"

definition time_machine_lines :: "share \<Rightarrow> string list" where
  "time_machine_lines s =
     (if sh_time_machine s \<and> sh_guest_access s = NoAccess
      then ''   fruit:time machine = yes'' #
        (if sh_quota_bytes s > 0
         then [''   fruit:time machine max size = '' @ js_nat (nat (sh_quota_bytes s) div 1024) @ ''K''] else [])
      else [])"

definition smb_section :: "services_env \<Rightarrow> share \<Rightarrow> string list" where
  "smb_section e s =
     [''['' @ sh_name s @ '']'', ''   path = '' @ shareBasePath (se_config e) s,
      (if sh_comment s \<noteq> '''' then ''   comment = '' @ sh_comment s else ''   comment =''),
      ''   browseable = '' @ yes_no (sh_browseable s), ''   read only = yes'',
      ''   guest ok = '' @ yes_no (sh_guest_access s \<noteq> NoAccess),
      list_line ''   valid users'' (valid_users s), list_line ''   write list'' (write_list s)] @
     (if se_share_owner e \<noteq> ''''
      then [''   force user = '' @ se_share_owner e, ''   force group = '' @ se_share_owner e] else []) @
     [''   vfs objects = '' @ join '' '' ([''catia'', ''fruit'', ''streams_xattr''] @ (if sh_recycle_enabled s then [''recycle''] else []))] @
     (if sh_recycle_enabled s then recycle_lines else []) @ time_machine_lines s @
     [''   create mask = 0664'', ''   directory mask = 0775'', '''']"

definition generateSmbConf :: "services_env \<Rightarrow> services_config \<Rightarrow> share list \<Rightarrow> string" where
  "generateSmbConf e c shares =
     join [CHR 0x0A] (smb_global c @ concat (map (smb_section e) (filter sh_smb_enabled shares)))"

subsection \<open>\<open>/etc/exports\<close>\<close>

definition exportOptions :: "string \<Rightarrow> bool \<Rightarrow> string" where
  "exportOptions level rootSquash =
     join '','' [level, ''sync'', ''no_subtree_check'', (if rootSquash then ''root_squash'' else ''no_root_squash'')]"

definition fallback_clients :: "services_config \<Rightarrow> string list" where
  "fallback_clients c =
     (let nets = filter (\<lambda>n. n \<noteq> '''' \<and> isValidNfsClient n)
            (map js_trim (split_on (CHR '','') (if sc_allowed_networks c = '''' then ''*'' else sc_allowed_networks c)))
      in if nets \<noteq> [] then nets else [''*''])"

definition client_spec :: "string \<Rightarrow> string \<Rightarrow> bool \<Rightarrow> string" where
  "client_spec client level rootSquash = client @ ''('' @ exportOptions level rootSquash @ '')''"

definition export_specs :: "services_config \<Rightarrow> share \<Rightarrow> string list" where
  "export_specs c s =
     (let rules = filter (\<lambda>r. isValidNfsClient (nr_network r)) (sh_nfs_rules s);
          inherited = (if sh_guest_access s = ReadWriteAccess then ''rw'' else ''ro'')
      in if rules \<noteq> [] then map (\<lambda>r. client_spec (nr_network r) (nr_level r) (nr_root_squash r)) rules
         else map (\<lambda>n. client_spec n inherited True) (fallback_clients c))"

definition export_line :: "services_env \<Rightarrow> services_config \<Rightarrow> share \<Rightarrow> string" where
  "export_line e c s = shareBasePath (se_config e) s @ ''    '' @ join '' '' (export_specs c s)"

definition generateExports :: "services_env \<Rightarrow> services_config \<Rightarrow> share list \<Rightarrow> string" where
  "generateExports e c shares =
     join [CHR 0x0A] (''# Generated by OpenNAS - do not edit by hand.'' #
       map (export_line e c) (filter (\<lambda>s. sh_nfs_enabled s \<and> export_specs c s \<noteq> []) shares)) @ [CHR 0x0A]"

subsection \<open>The Time Machine advertisement\<close>

definition escapeXml :: "string \<Rightarrow> string" where
  "escapeXml v = concat (map (\<lambda>ch.
     if ch = CHR 0x26 then ''&amp;'' else if ch = CHR 0x3C then ''&lt;''
     else if ch = CHR 0x3E then ''&gt;'' else if ch = CHR 0x22 then ''&quot;'' else [ch]) v)"

definition time_machine_targets :: "services_config \<Rightarrow> share list \<Rightarrow> share list" where
  "time_machine_targets c shares =
     (if sc_smb_enabled c
      then filter (\<lambda>s. sh_time_machine s \<and> sh_smb_enabled s \<and> sh_guest_access s = NoAccess) shares else [])"

definition disk_record :: "nat \<times> share \<Rightarrow> string" where
  "disk_record x = ''    <txt-record>dk'' @ js_nat (fst x) @ ''=adVN='' @ escapeXml (sh_name (snd x)) @ '',adVF=0x82</txt-record>''"

definition avahi_head :: "string list" where
  "avahi_head =
     (let q = [CHR 0x22]; a = [CHR 0x27] in
      [''<?xml version='' @ q @ ''1.0'' @ q @ '' standalone='' @ a @ ''no'' @ a @ ''?><!--*-nxml-*-->'',
       ''<!DOCTYPE service-group SYSTEM '' @ q @ ''avahi-service.dtd'' @ q @ ''>'', ''<!--'',
       ''  Generated by OpenNAS - do not edit by hand.'', ''  Rewritten whenever shares or file services change.'', ''-->'',
       ''<service-group>'', ''  <name replace-wildcards='' @ q @ ''yes'' @ q @ ''>%h</name>'', ''  <service>'',
       ''    <type>_adisk._tcp</type>'',
       ''    <!-- _adisk carries no connection of its own; macOS reads the records and'',
       ''         then connects over SMB. Port 9 (discard) is the convention. -->'',
       ''    <port>9</port>'', ''    <txt-record>sys=waMa=0,adVF=0x100</txt-record>''])"

definition generateTimeMachineAvahi :: "services_config \<Rightarrow> share list \<Rightarrow> string" where
  "generateTimeMachineAvahi c shares =
     (let targets = time_machine_targets c shares in
      if targets = [] then ''''
      else join [CHR 0x0A]
        (avahi_head @ map disk_record (enumerate 0 targets) @ [''  </service>'', ''</service-group>'', '''']))"

subsection \<open>Writing the files\<close>

definition applyGeneratedConfigs :: "crypto \<Rightarrow> services_env \<Rightarrow> db \<Rightarrow> (string \<times> string option) list" where
  "applyGeneratedConfigs cr e d =
     (let c = getServicesConfig cr d; shares = listShares d;
          smbConf = generateSmbConf e c shares; exports = generateExports e c shares;
          timeMachine = generateTimeMachineAvahi c shares;
          advert = (if timeMachine \<noteq> '''' then Some timeMachine else None)
      in [(path_join (se_generated_dir e) ''smb.conf'', Some smbConf), (path_join (se_generated_dir e) ''exports'', Some exports)] @
         (if se_smb_conf_path e \<noteq> '''' then [(se_smb_conf_path e, Some smbConf)] else []) @
         (if se_exports_path e \<noteq> '''' then [(se_exports_path e, Some exports)] else []) @
         [(path_join (se_generated_dir e) ''opennas-timemachine.service'', advert)] @
         (if se_avahi_path e \<noteq> '''' then [(se_avahi_path e, advert)] else []))"

text \<open>\<open>there\<close> tells which files exist.\<close>

definition detectDaemons :: "(string \<Rightarrow> bool) \<Rightarrow> bool \<times> bool \<times> bool" where
  "detectDaemons there =
     (list_ex there [''/usr/sbin/smbd'', ''/usr/bin/smbd'', ''/usr/local/sbin/smbd''],
      list_ex there [''/usr/sbin/rpc.nfsd'', ''/proc/fs/nfsd'', ''/usr/sbin/exportfs''],
      list_ex there [''/usr/sbin/afpd'', ''/usr/bin/afpd'', ''/usr/sbin/netatalk'', ''/usr/bin/netatalk''])"

record services_reply =
  sy_config :: services_config
  sy_smb_conf :: string
  sy_exports :: string
  sy_daemons :: "bool \<times> bool \<times> bool"

definition buildServicesResponse :: "crypto \<Rightarrow> services_env \<Rightarrow> (string \<Rightarrow> bool) \<Rightarrow> db \<Rightarrow> services_reply" where
  "buildServicesResponse cr e there d =
     (let c = getServicesConfig cr d; shares = listShares d in
      \<lparr>sy_config = c, sy_smb_conf = generateSmbConf e c shares, sy_exports = generateExports e c shares,
       sy_daemons = detectDaemons there\<rparr>)"

text \<open>What an administration handler asks of the host, in order.\<close>

datatype host_effect = WriteConfigs "(string \<times> string option) list" | ReloadFileServices | ApplyServiceStates bool bool bool
  | SyncShareGroup string "string list" | RemoveShareGroup string | SetShareQuota string string nat int | EnableQuotas string

definition putServices ::
  "crypto \<Rightarrow> services_env \<Rightarrow> (string \<Rightarrow> bool) \<Rightarrow> services_patch \<Rightarrow> db \<Rightarrow> services_reply reply \<times> db \<times> host_effect list" where
  "putServices cr e there p d =
     (let within = (\<lambda>n t. case t of None \<Rightarrow> True | Some s \<Rightarrow> length s \<le> n) in
      if \<not> (within 64 (sv_workgroup p) \<and> within 128 (sv_server_string p) \<and> within 255 (sv_allowed_networks p))
      then (Refused 400 ''invalid'', d, [])
      else
        (let (next', d1) = setServicesConfig cr p d
         in (Sent (buildServicesResponse cr e there d1), d1,
             [WriteConfigs (applyGeneratedConfigs cr e d1),
              ApplyServiceStates (sc_smb_enabled next') (sc_nfs_enabled next') (sc_afp_enabled next'), ReloadFileServices])))"

end
