(* ===== verification/AdminShares.thy ===== *)
theory AdminShares
  imports Services Acls AuthRoutes
begin

text \<open>
  Administration of shared folders, their quotas, folder rules and export rules, and of
  groups: the routes of \<open>admin/routes.ts\<close>.  A handler returns its reply, the new state and
  what it asks of the host, in order; a constraint that fails makes SQLite throw, which
  is status 500 with the earlier statements kept.
\<close>

text \<open>
  What the handlers read of the host; \<open>he_quota_enabled\<close> is the status once quotas were
  switched on.
\<close>

record quota_status =
  qs_supported :: bool
  qs_active :: bool

record host_env =
  he_services :: services_env
  he_crypto :: crypto
  he_volumes :: "string list"
  he_quota :: "string \<Rightarrow> quota_status"
  he_quota_enabled :: "string \<Rightarrow> quota_status"
  he_quota_used :: "string \<Rightarrow> nat \<Rightarrow> int option"
  he_set_quota :: "string \<Rightarrow> string \<Rightarrow> nat \<Rightarrow> int \<Rightarrow> bool"
  he_enable_quotas :: "string \<Rightarrow> bool"

definition regenerate :: "host_env \<Rightarrow> db \<Rightarrow> host_effect list" where
  "regenerate e d = [WriteConfigs (applyGeneratedConfigs (he_crypto e) (he_services e) d)]"

definition regenerate_reload :: "host_env \<Rightarrow> db \<Rightarrow> host_effect list" where
  "regenerate_reload e d = regenerate e d @ [ReloadFileServices]"

subsection \<open>Shares\<close>

definition label_ok :: "string \<Rightarrow> bool" where
  "label_ok v \<longleftrightarrow> v \<noteq> '''' \<and> list_all (\<lambda>c. is_alnum c \<or> c \<in> set ''_-'') v"

definition folderSize :: "fs \<Rightarrow> string \<Rightarrow> nat" where
  "folderSize f real =
     sum_list (map (\<lambda>n. case lstat f (path_join real n) of Some (FileNode c) \<Rightarrow> length c | _ \<Rightarrow> 0) (fs_children f (segs_of real)))"

definition withQuotaUsage :: "host_env \<Rightarrow> share \<Rightarrow> share \<times> int option" where
  "withQuotaUsage e s =
     (s, case (sh_volume s, sh_quota_project_id s) of
           (Some v, Some (Suc n)) \<Rightarrow> he_quota_used e v (Suc n)
         | _ \<Rightarrow> None)"

definition getShares :: "host_env \<Rightarrow> db \<Rightarrow> fs \<Rightarrow> ((share \<times> int option) \<times> nat) list" where
  "getShares e d f = map (\<lambda>s. (withQuotaUsage e s, folderSize f (shareBasePath (se_config (he_services e)) s))) (listShares d)"

definition share_schema_ok :: "create_share_input \<Rightarrow> bool" where
  "share_schema_ok b \<longleftrightarrow> trimmed_between 1 64 (csi_name b) \<and>
     (case csi_comment b of None \<Rightarrow> True | Some c \<Rightarrow> length c \<le> 255) \<and> (case csi_volume b of None \<Rightarrow> True | Some v \<Rightarrow> label_ok v)"

definition postShare ::
  "host_env \<Rightarrow> string \<Rightarrow> millis \<Rightarrow> create_share_input \<Rightarrow> db \<Rightarrow> fs \<Rightarrow> share reply \<times> db \<times> fs \<times> host_effect list" where
  "postShare e newId now b d f =
     (if \<not> share_schema_ok b then (Refused 400 ''invalid'', d, f, [])
      else
        (case validateName (js_trim (csi_name b)) of
           Inl x \<Rightarrow> (Refused 400 ''bad_name'', d, f, [])
         | Inr name \<Rightarrow>
             if getShareRowByName d name \<noteq> None then (Refused 409 ''exists'', d, f, [])
             else if (case csi_volume b of None \<Rightarrow> False | Some v \<Rightarrow> v \<notin> set (he_volumes e)) then (Refused 400 ''bad_volume'', d, f, [])
             else
               (case createShare newId now (b\<lparr>csi_name := name\<rparr>) d of
                  Inl x \<Rightarrow> (Refused 500 ''internal'', d, f, [])
                | Inr (s, d1) \<Rightarrow>
                    (case mkdir_recursive (shareBasePath (se_config (he_services e)) s) f of
                       None \<Rightarrow> (Refused 500 ''mkdir_failed'', deleteShare (sh_id s) d1, f, [])
                     | Some g \<Rightarrow> (Sent s, d1, g, regenerate_reload e d1)))))"

text \<open>Push a stored cap down to the file system; \<open>Some\<close> is a warning for the reply.\<close>

datatype quota_warning = ShareGone | NoDataVolume | QuotasUnsupported | QuotasOff | QuotaFailed

definition applyShareQuota :: "host_env \<Rightarrow> string \<Rightarrow> db \<Rightarrow> quota_warning option \<times> db \<times> host_effect list" where
  "applyShareQuota e i d =
     (case getShareById d i of
        None \<Rightarrow> (Some ShareGone, d, [])
      | Some s \<Rightarrow>
          (case sh_volume s of
             None \<Rightarrow> (Some NoDataVolume, d, [])
           | Some v \<Rightarrow>
               if \<not> qs_supported (he_quota e v) then (Some QuotasUnsupported, d, [])
               else if \<not> qs_active (he_quota e v) then (Some QuotasOff, d, [])
               else
                 (let (projectId, d1) = ensureQuotaProjectId i d
                  in (if he_set_quota e v (sh_name s) projectId (sh_quota_bytes s) then None else Some QuotaFailed, d1,
                      [SetShareQuota v (sh_name s) projectId (sh_quota_bytes s)]))))"

record share_changes =
  sgc_fields :: update_share_fields
  sgc_permissions :: "(string \<times> string) list option"
  sgc_groups :: "(string \<times> string) list option"

definition changes_ok :: "share_changes \<Rightarrow> bool" where
  "changes_ok b \<longleftrightarrow>
     (case usf_comment (sgc_fields b) of None \<Rightarrow> True | Some c \<Rightarrow> length c \<le> 255) \<and>
     (case usf_quota_bytes (sgc_fields b) of None \<Rightarrow> True | Some q \<Rightarrow> 0 \<le> q \<and> q \<le> 1024 ^ 5) \<and>
     (case sgc_permissions b of None \<Rightarrow> True | Some ps \<Rightarrow> list_all (\<lambda>(u, l). l = ''ro'' \<or> l = ''rw'') ps) \<and>
     (case sgc_groups b of None \<Rightarrow> True | Some ps \<Rightarrow> list_all (\<lambda>(g, l). l = ''ro'' \<or> l = ''rw'') ps)"

definition opt_sql :: "('a \<Rightarrow> db \<Rightarrow> sql_error + db) \<Rightarrow> 'a option \<Rightarrow> db \<Rightarrow> sql_error + db" where
  "opt_sql g x d = (case x of None \<Rightarrow> Inr d | Some v \<Rightarrow> g v d)"

definition patchShare ::
  "host_env \<Rightarrow> string \<Rightarrow> share_changes \<Rightarrow> db \<Rightarrow>
     ((share \<times> int option) option \<times> quota_warning option) reply \<times> db \<times> host_effect list" where
  "patchShare e i b d =
     (if getShareById d i = None then (Refused 404 ''not_found'', d, [])
      else if \<not> changes_ok b then (Refused 400 ''invalid'', d, [])
      else if (case sgc_groups b of None \<Rightarrow> False | Some gs \<Rightarrow> list_ex (\<lambda>(g, l). getGroupById d g = None) gs)
      then (Refused 400 ''bad_group'', d, [])
      else
        (let d1 = updateShare i (sgc_fields b) d in
         case opt_sql (setPermissions i) (sgc_permissions b) d1 of
           Inl x \<Rightarrow> (Refused 500 ''internal'', d1, [])
         | Inr d2 \<Rightarrow>
             (case opt_sql (setGroupPermissions i) (sgc_groups b) d2 of
                Inl x \<Rightarrow> (Refused 500 ''internal'', d2, [])
              | Inr d3 \<Rightarrow>
                  (let (warning, d4, fx) =
                         (if usf_quota_bytes (sgc_fields b) = None then (None, d3, []) else applyShareQuota e i d3)
                   in (Sent (map_option (withQuotaUsage e) (getShareById d4 i), warning), d4, fx @ regenerate_reload e d4)))))"

definition deleteShareRoute :: "host_env \<Rightarrow> string \<Rightarrow> db \<Rightarrow> unit reply \<times> db \<times> host_effect list" where
  "deleteShareRoute e i d =
     (if getShareById d i = None then (Refused 404 ''not_found'', d, [])
      else (let d1 = deleteShare i d in (Sent (), d1, regenerate_reload e d1)))"

definition getQuotas :: "host_env \<Rightarrow> (string \<times> quota_status) list" where
  "getQuotas e = map (\<lambda>v. (v, he_quota e v)) (he_volumes e)"

definition postQuotaEnable :: "host_env \<Rightarrow> string \<Rightarrow> (string \<times> quota_status) reply \<times> host_effect list" where
  "postQuotaEnable e v =
     (if \<not> label_ok v then (Refused 400 ''invalid'', [])
      else if \<not> qs_supported (he_quota e v) then (Refused 400 ''unsupported'', [])
      else (if he_enable_quotas e v then Sent (v, he_quota_enabled e v) else Refused 500 ''failed'', [EnableQuotas v]))"

subsection \<open>Export rules\<close>

definition postNfsRule ::
  "host_env \<Rightarrow> string \<Rightarrow> millis \<Rightarrow> string \<Rightarrow> string \<Rightarrow> string \<Rightarrow> bool option \<Rightarrow> db \<Rightarrow> nfs_rule list reply \<times> db \<times> host_effect list" where
  "postNfsRule e newId now i network level rootSquash d =
     (if getShareById d i = None then (Refused 404 ''not_found'', d, [])
      else if \<not> trimmed_between 1 255 network \<or> level \<noteq> ''ro'' \<and> level \<noteq> ''rw'' then (Refused 400 ''invalid'', d, [])
      else if \<not> isValidNfsClient (js_trim network) then (Refused 400 ''bad_client'', d, [])
      else
        (case setNfsRule newId now \<lparr>sni_share_id = i, sni_network = js_trim network, sni_level = level,
               sni_root_squash = (rootSquash \<noteq> Some False)\<rparr> d of
           Inl x \<Rightarrow> (Refused 500 ''internal'', d, [])
         | Inr (None, d1) \<Rightarrow> (Refused 409 ''too_many'', d1, [])
         | Inr (Some rule, d1) \<Rightarrow> (Sent (listNfsRules d1 i), d1, regenerate e d1)))"

definition deleteNfsRuleRoute :: "host_env \<Rightarrow> string \<Rightarrow> string \<Rightarrow> db \<Rightarrow> nfs_rule list reply \<times> db \<times> host_effect list" where
  "deleteNfsRuleRoute e i ruleId d =
     (if getShareById d i = None then (Refused 404 ''not_found'', d, [])
      else (let d1 = snd (deleteNfsRule i ruleId d) in (Sent (listNfsRules d1 i), d1, regenerate e d1)))"

subsection \<open>Folder rules\<close>

definition getShareAcls :: "string \<Rightarrow> db \<Rightarrow> folder_acl list reply \<times> db" where
  "getShareAcls i d =
     (if getShareById d i = None then (Refused 404 ''not_found'', d)
      else (let d1 = snd (pruneOrphanAcls d) in (Sent (listAcls d1 i), d1)))"

definition subject_exists :: "db \<Rightarrow> string \<Rightarrow> string \<Rightarrow> bool" where
  "subject_exists d type subjectId =
     (if type = ''user'' then getUserById d subjectId \<noteq> None else getGroupById d subjectId \<noteq> None)"

definition postShareAcl ::
  "host_env \<Rightarrow> string \<Rightarrow> millis \<Rightarrow> set_acl_input \<Rightarrow> fs \<Rightarrow> db \<Rightarrow> folder_acl reply \<times> db" where
  "postShareAcl e newId now inp f d =
     (case getShareById d (sai_share_id inp) of
        None \<Rightarrow> (Refused 404 ''not_found'', d)
      | Some s \<Rightarrow>
          if sai_path inp = '''' \<or> length (sai_path inp) > 1024 \<or> sai_subject_id inp = '''' \<or>
             sai_subject_type inp \<noteq> ''user'' \<and> sai_subject_type inp \<noteq> ''group''
          then (Refused 400 ''invalid'', d)
          else if \<not> subject_exists d (sai_subject_type inp) (sai_subject_id inp) then (Refused 400 ''bad_subject'', d)
          else
            (case normalizeAclPath (sai_path inp) of
               None \<Rightarrow> (Refused 400 ''bad_path'', d)
             | Some path \<Rightarrow>
                 if path = '''' then (Refused 400 ''root_path'', d)
                 else if lstat f (path_join (shareBasePath (se_config (he_services e)) s) path) \<noteq> Some DirNode
                 then (Refused 400 ''no_folder'', d)
                 else
                   (case setAcl newId now (inp\<lparr>sai_path := path\<rparr>) d of
                      Inl x \<Rightarrow> (Refused 500 ''internal'', d)
                    | Inr (a, d1) \<Rightarrow> (Sent a, d1))))"

definition deleteShareAcl :: "string \<Rightarrow> string \<Rightarrow> db \<Rightarrow> unit reply \<times> db" where
  "deleteShareAcl i aclId d =
     (if getShareById d i = None then (Refused 404 ''not_found'', d)
      else (case deleteAcl i aclId d of (found, d1) \<Rightarrow> if found then (Sent (), d1) else (Refused 404 ''not_found'', d1)))"

subsection \<open>Groups\<close>

definition getGroup :: "db \<Rightarrow> string \<Rightarrow> (group \<times> group_member list) reply" where
  "getGroup d i = (case getGroupById d i of None \<Rightarrow> Refused 404 ''not_found'' | Some g \<Rightarrow> Sent (g, listMembers d i))"

definition postGroup ::
  "string \<Rightarrow> millis \<Rightarrow> string \<Rightarrow> string option \<Rightarrow> db \<Rightarrow> group reply \<times> db \<times> host_effect list" where
  "postGroup newId now name description d =
     (let n = js_trim name in
      if \<not> trimmed_between 2 32 name \<or> \<not> list_all username_char n \<or>
         (case description of None \<Rightarrow> False | Some t \<Rightarrow> length (js_trim t) > 255)
      then (Refused 400 ''invalid'', d, [])
      else if getGroupByName d n \<noteq> None then (Refused 409 ''exists'', d, [])
      else if getUserByUsername d n \<noteq> None then (Refused 409 ''name_taken'', d, [])
      else
        (case createGroup newId now n (case description of None \<Rightarrow> '''' | Some t \<Rightarrow> js_trim t) d of
           Inl x \<Rightarrow> (Refused 500 ''internal'', d, [])
         | Inr (g, d1) \<Rightarrow> (Sent g, d1, [SyncShareGroup (g_name g) []])))"

definition patchGroup ::
  "host_env \<Rightarrow> string \<Rightarrow> string option \<Rightarrow> string list option \<Rightarrow> db \<Rightarrow>
     (group option \<times> group_member list) reply \<times> db \<times> host_effect list" where
  "patchGroup e i description members d =
     (case getGroupById d i of
        None \<Rightarrow> (Refused 404 ''not_found'', d, [])
      | Some g \<Rightarrow>
          if (case description of None \<Rightarrow> False | Some t \<Rightarrow> length (js_trim t) > 255) \<or>
             (case members of None \<Rightarrow> False | Some us \<Rightarrow> length us > 500)
          then (Refused 400 ''invalid'', d, [])
          else if (case members of None \<Rightarrow> False | Some us \<Rightarrow> list_ex (\<lambda>u. getUserById d u = None) us)
          then (Refused 400 ''bad_member'', d, [])
          else
            (case opt_sql (setMembers i) members d of
               Inl x \<Rightarrow> (Refused 500 ''internal'', d, [])
             | Inr d1 \<Rightarrow>
                 (case opt_sql (\<lambda>t. updateGroup i None (Some (js_trim t))) description d1 of
                    Inl x \<Rightarrow> (Refused 500 ''internal'', d1, [])
                  | Inr d2 \<Rightarrow>
                      (Sent (getGroupById d2 i, listMembers d2 i), d2,
                       SyncShareGroup (g_name g) (usernamesInGroup d2 i) # regenerate_reload e d2))))"

definition deleteGroupRoute :: "host_env \<Rightarrow> string \<Rightarrow> db \<Rightarrow> unit reply \<times> db \<times> host_effect list" where
  "deleteGroupRoute e i d =
     (case getGroupById d i of
        None \<Rightarrow> (Refused 404 ''not_found'', d, [])
      | Some g \<Rightarrow> (let d1 = deleteGroup i d in (Sent (), d1, RemoveShareGroup (g_name g) # regenerate_reload e d1)))"

end
