(* ===== verification/ServiceProps.thy ===== *)
theory ServiceProps
  imports Services FileProps
begin

text \<open>
  What the generated files mean to the daemons: Samba lets in whom the web interface lets
  in, \<open>exports\<close> is read back as the intended table of clients, and the name with a blank
  that makes it mean something else.
\<close>

subsection \<open>Samba and the web interface\<close>

text \<open>The names by which Samba knows an account: its own and those of its groups.\<close>

definition smb_names :: "db \<Rightarrow> user_row \<Rightarrow> string set" where
  "smb_names d r = insert (usr_username r) ((\<lambda>g. ''@'' @ g) ` set (groupNamesForUser d (usr_id r)))"

definition smb_connects :: "db \<Rightarrow> share \<Rightarrow> user_row \<Rightarrow> bool" where
  "smb_connects d s r \<longleftrightarrow> smb_names d r \<inter> set (valid_users s) \<noteq> {}"

definition smb_writes :: "db \<Rightarrow> share \<Rightarrow> user_row \<Rightarrow> bool" where
  "smb_writes d s r \<longleftrightarrow> smb_names d r \<inter> set (write_list s) \<noteq> {}"

definition plain_names :: "db \<Rightarrow> bool" where
  "plain_names d \<longleftrightarrow> (\<forall>u \<in> set (db_users d). \<not> starts_with (usr_username u) ''@'')"

definition two_levels :: "db \<Rightarrow> bool" where
  "two_levels d \<longleftrightarrow> (\<forall>p \<in> set (db_share_perms d). spm_level p \<in> {''ro'', ''rw''}) \<and>
     (\<forall>p \<in> set (db_share_group_perms d). sgp_level p \<in> {''ro'', ''rw''})"

lemma set_map_filter_iff: "x \<in> set (List.map_filter f xs) \<longleftrightarrow> (\<exists>y \<in> set xs. f y = Some x)"
  by (induction xs) (auto simp: List.map_filter_simps split: option.splits)

lemma username_eq:
  assumes "users_ok d" and "u \<in> set (db_users d)" "r \<in> set (db_users d)" and "usr_username u = usr_username r"
  shows "u = r"
  using assms keyed_unique [of "\<lambda>r. sqlite_lower (usr_username r)" "db_users d" u r] by (simp add: users_ok_def)

lemma set_getPermissions:
  "p \<in> set (getPermissions d i) \<longleftrightarrow> (\<exists>q u. q \<in> set (db_share_perms d) \<and> spm_share_id q = i \<and> userRow d (spm_user_id q) = Some u \<and>
     p = \<lparr>sp_user_id = spm_user_id q, sp_username = usr_username u, sp_display_name = usr_display_name u, sp_level = grant_level (spm_level q)\<rparr>)"
  unfolding getPermissions_def set_map set_order_asc image_iff Bex_def set_map_filter_iff by (auto split: if_splits)

lemma set_getGroupPermissions:
  "p \<in> set (getGroupPermissions d i) \<longleftrightarrow> (\<exists>q g. q \<in> set (db_share_group_perms d) \<and> sgp_share_id q = i \<and> groupRow d (sgp_group_id q) = Some g \<and>
     p = \<lparr>sg_group_id = sgp_group_id q, sg_name = grp_name g, sg_level = grant_level (sgp_level q)\<rparr>)"
  unfolding getGroupPermissions_def set_map set_order_asc image_iff Bex_def set_map_filter_iff by (auto split: if_splits)

lemma set_groupNames:
  "n \<in> set (groupNamesForUser d u) \<longleftrightarrow> (\<exists>m g. m \<in> set (db_members d) \<and> mem_user_id m = u \<and> groupRow d (mem_group_id m) = Some g \<and> n = grp_name g)"
  unfolding groupNamesForUser_def set_map set_order_asc image_iff Bex_def set_map_filter_iff by (auto split: if_splits)

lemma granted_user:
  assumes "users_ok d" and "r \<in> set (db_users d)"
  shows "(\<exists>p \<in> set (getPermissions d i). sp_username p = usr_username r \<and> P (sp_level p)) \<longleftrightarrow>
    (\<exists>p \<in> set (db_share_perms d). spm_share_id p = i \<and> spm_user_id p = usr_id r \<and> P (grant_level (spm_level p)))"
proof -
  have "usr_username u = usr_username r \<longleftrightarrow> q = usr_id r" if "userRow d q = Some u" for q u
    using userRow_SomeD [OF that] username_eq [OF assms(1), of u r] assms keyed_unique [of usr_id "db_users d" u r]
    by (auto simp: users_ok_def)
  moreover have "userRow d (usr_id r) = Some r" using assms by (auto simp: userRow_def users_ok_def intro: sql_get_keyed)
  ultimately show ?thesis unfolding Bex_def set_getPermissions by fastforce
qed

lemma granted_group:
  assumes "groups_ok d" and "\<forall>p \<in> set (db_share_group_perms d). sgp_group_id p \<in> group_ids d"
  shows "(\<exists>p \<in> set (getGroupPermissions d i). sg_name p \<in> set (groupNamesForUser d u) \<and> P (sg_level p)) \<longleftrightarrow>
    (\<exists>p \<in> set (db_share_group_perms d). sgp_share_id p = i \<and> P (grant_level (sgp_level p)) \<and>
       (\<exists>m \<in> set (db_members d). mem_group_id m = sgp_group_id p \<and> mem_user_id m = u))"
proof -
  have row: "g \<in> set (db_groups d) \<and> grp_id g = i" if "groupRow d i = Some g" for i g
    using that by (auto simp: groupRow_def dest: sql_get_SomeD)
  have same: "i = j" if "groupRow d i = Some g" "groupRow d j = Some h" "grp_name g = grp_name h" for i j g h
  proof -
    have "keyed grp_name (db_groups d)" using assms(1) by (simp add: groups_ok_def)
    then have "g = h" using row [OF that(1)] row [OF that(2)] that(3) keyed_unique [of grp_name "db_groups d" g h] by simp
    then show ?thesis using row [OF that(1)] row [OF that(2)] by simp
  qed
  have there: "\<exists>g. groupRow d (sgp_group_id p) = Some g" if "p \<in> set (db_share_group_perms d)" for p
    using assms(2) that groupRow_None_iff [of d "sgp_group_id p"] by blast
  show ?thesis (is "?L \<longleftrightarrow> ?R")
  proof
    assume ?L
    then obtain q g m h where "q \<in> set (db_share_group_perms d)" "sgp_share_id q = i" "groupRow d (sgp_group_id q) = Some g"
      "P (grant_level (sgp_level q))" "m \<in> set (db_members d)" "mem_user_id m = u" "groupRow d (mem_group_id m) = Some h" "grp_name g = grp_name h"
      unfolding Bex_def set_getGroupPermissions set_groupNames by force
    then show ?R using same [of "sgp_group_id q" g "mem_group_id m" h] by metis
  next
    assume ?R
    then obtain q m where q: "q \<in> set (db_share_group_perms d)" "sgp_share_id q = i" "P (grant_level (sgp_level q))"
      "m \<in> set (db_members d)" "mem_group_id m = sgp_group_id q" "mem_user_id m = u" by blast
    obtain g where g: "groupRow d (sgp_group_id q) = Some g" using there [OF q(1)] by blast
    let ?p = "\<lparr>sg_group_id = sgp_group_id q, sg_name = grp_name g, sg_level = grant_level (sgp_level q)\<rparr>"
    have "?p \<in> set (getGroupPermissions d i)" unfolding set_getGroupPermissions using q g by blast
    moreover have "sg_name ?p \<in> set (groupNamesForUser d u)" unfolding set_groupNames using q g by force
    moreover have "P (sg_level ?p)" using q by simp
    ultimately show ?L by blast
  qed
qed

lemma grant_norm: "v \<in> {''ro'', ''rw''} \<Longrightarrow> grant_level v = normLevel v \<and> ReadOnly \<le> normLevel v"
  by (auto simp: grant_level_def normLevel_def less_eq_access_level_def level_rank_def)

lemma insert_meets: "insert x (f ` G) \<inter> (A \<union> B) \<noteq> {} \<longleftrightarrow> x \<in> A \<or> x \<in> B \<or> (\<exists>g \<in> G. f g \<in> A) \<or> (\<exists>g \<in> G. f g \<in> B)"
  by blast

lemma listed_names:
  assumes "users_ok d" "groups_ok d" "plain_names d" and "r \<in> set (db_users d)"
    and "\<forall>p \<in> set (db_share_group_perms d). sgp_group_id p \<in> group_ids d" and "two_levels d"
  shows "smb_names d r \<inter> (sp_username ` {p \<in> set (getPermissions d i). P (sp_level p)} \<union>
      (\<lambda>g. ''@'' @ sg_name g) ` {g \<in> set (getGroupPermissions d i). P (sg_level g)}) \<noteq> {} \<longleftrightarrow>
    (\<exists>l \<in> grants_on d i (usr_id r). P l)"
proof -
  have plain: "\<not> starts_with (sp_username p) ''@''" if "p \<in> set (getPermissions d i)" for p
    using that assms(3) userRow_SomeD by (fastforce simp: set_getPermissions plain_names_def)
  let ?A = "sp_username ` {p \<in> set (getPermissions d i). P (sp_level p)}"
  let ?B = "(\<lambda>g. ''@'' @ sg_name g) ` {g \<in> set (getGroupPermissions d i). P (sg_level g)}"
  have at: "starts_with (''@'' @ x) ''@''" for x by (simp add: starts_with_def)
  have "smb_names d r \<inter> (?A \<union> ?B) \<noteq> {} \<longleftrightarrow> usr_username r \<in> ?A \<or> usr_username r \<in> ?B \<or>
      (\<exists>g \<in> set (groupNamesForUser d (usr_id r)). ''@'' @ g \<in> ?A) \<or> (\<exists>g \<in> set (groupNamesForUser d (usr_id r)). ''@'' @ g \<in> ?B)"
    unfolding smb_names_def by (rule insert_meets)
  moreover have "usr_username r \<notin> ?B" using at assms(3,4) by (auto simp: plain_names_def)
  moreover have "''@'' @ g \<notin> ?A" for g using plain at by (metis (no_types, lifting) imageE mem_Collect_eq)
  ultimately have "smb_names d r \<inter> (?A \<union> ?B) \<noteq> {} \<longleftrightarrow>
    (\<exists>p \<in> set (getPermissions d i). sp_username p = usr_username r \<and> P (sp_level p)) \<or>
    (\<exists>p \<in> set (getGroupPermissions d i). sg_name p \<in> set (groupNamesForUser d (usr_id r)) \<and> P (sg_level p))"
    by (auto simp: image_iff)
  also have "\<dots> \<longleftrightarrow> (\<exists>p \<in> set (db_share_perms d). spm_share_id p = i \<and> spm_user_id p = usr_id r \<and> P (normLevel (spm_level p))) \<or>
    (\<exists>p \<in> set (db_share_group_perms d). sgp_share_id p = i \<and> P (normLevel (sgp_level p)) \<and>
       (\<exists>m \<in> set (db_members d). mem_group_id m = sgp_group_id p \<and> mem_user_id m = usr_id r))"
    unfolding granted_user [OF assms(1,4)] granted_group [OF assms(2,5)]
    using assms(6) grant_norm by (intro disj_cong bex_cong) (auto simp: two_levels_def)
  also have "\<dots> \<longleftrightarrow> (\<exists>l \<in> grants_on d i (usr_id r). P l)" unfolding grants_on_def by blast
  finally show ?thesis .
qed

lemma finite_levels [simp]: "finite (A :: access_level set)"
proof -
  have "A \<subseteq> {NoAccess, ReadOnly, ReadWriteAccess}" using access_level.exhaust by blast
  then show ?thesis by (rule finite_subset) simp
qed



subsection \<open>Reading \<open>exports\<close> back\<close>

text \<open>
  How the NFS server reads the file: a line that is neither empty nor a comment is a list
  of fields separated by blanks, first the path, then a client with its options in
  parentheses.
\<close>

definition fields_of :: "string \<Rightarrow> string list" where
  "fields_of l = filter (\<lambda>w. w \<noteq> '''') (split_on (CHR '' '') l)"

definition parse_client :: "string \<Rightarrow> string \<times> string list" where
  "parse_client w = (takeWhile (\<lambda>c. c \<noteq> CHR ''('') w, split_on (CHR '','') (butlast (tl (dropWhile (\<lambda>c. c \<noteq> CHR ''('') w))))"

definition parse_export :: "string \<Rightarrow> string \<times> (string \<times> string list) list" where
  "parse_export l = (hd (fields_of l), map parse_client (tl (fields_of l)))"

definition parse_exports :: "string \<Rightarrow> (string \<times> (string \<times> string list) list) list" where
  "parse_exports t = map parse_export (filter (\<lambda>l. l \<noteq> '''' \<and> hd l \<noteq> CHR ''#'') (split_on (CHR 0x0A) t))"

definition export_flags :: "string \<Rightarrow> bool \<Rightarrow> string list" where
  "export_flags level squash = [level, ''sync'', ''no_subtree_check'', (if squash then ''root_squash'' else ''no_root_squash'')]"

definition exported_clients :: "services_config \<Rightarrow> share \<Rightarrow> (string \<times> string list) list" where
  "exported_clients c s =
     (let rules = filter (\<lambda>r. isValidNfsClient (nr_network r)) (sh_nfs_rules s) in
      if rules \<noteq> [] then map (\<lambda>r. (nr_network r, export_flags (nr_level r) (nr_root_squash r))) rules
      else map (\<lambda>n. (n, export_flags (if sh_guest_access s = ReadWriteAccess then ''rw'' else ''ro'') True)) (fallback_clients c))"

definition no_space :: "string \<Rightarrow> bool" where
  "no_space s \<longleftrightarrow> list_all (\<lambda>c. \<not> js_space c) s"

definition clean_rules :: "share \<Rightarrow> bool" where
  "clean_rules s \<longleftrightarrow> (\<forall>r \<in> set (sh_nfs_rules s). js_trim (nr_network r) = nr_network r \<and> nr_level r \<in> {''ro'', ''rw''})"

definition exportable :: "services_env \<Rightarrow> share \<Rightarrow> bool" where
  "exportable e s \<longleftrightarrow> no_space (shareBasePath (se_config e) s) \<and> starts_with (shareBasePath (se_config e) s) ''/'' \<and> clean_rules s"

lemma no_space_chars: "no_space s \<Longrightarrow> CHR '' '' \<notin> set s \<and> CHR 0x0A \<notin> set s"
  by (auto simp: no_space_def list_all_iff js_space_def code_unit_def)

lemma fields_of_append: "fields_of (a @ CHR '' '' # b) = fields_of a @ fields_of b"
  by (simp add: fields_of_def split_on_append)

lemma fields_of_one: "no_space w \<Longrightarrow> w \<noteq> '''' \<Longrightarrow> fields_of w = [w]"
  using no_space_chars [of w] by (simp add: fields_of_def split_on_plain)

lemma fields_of_join: "list_all (\<lambda>w. no_space w \<and> w \<noteq> '''') ws \<Longrightarrow> fields_of (join '' '' ws) = ws"
proof (induction ws)
  case (Cons w ws)
  then show ?case by (cases ws) (auto simp: fields_of_one join_Cons fields_of_append)
qed (simp add: fields_of_def)

lemma valid_client:
  assumes "isValidNfsClient n" and "js_trim n = n"
  shows "no_space n \<and> CHR ''('' \<notin> set n \<and> n \<noteq> ''''"
proof (cases "n = ''*''")
  case True
  have "\<not> js_space (CHR ''*'')" by code_simp
  then show ?thesis using True by (simp add: no_space_def)
next
  case False
  then have n: "\<not> list_ex exports_meta n" "n \<noteq> ''''" using assms by (auto simp: isValidNfsClient_def Let_def split: if_splits)
  then have "\<not> exports_meta ch" if "ch \<in> set n" for ch using that by (simp add: list_ex_iff)
  then show ?thesis using n(2) by (force simp: no_space_def list_all_iff exports_meta_def code_unit_def)
qed

lemma exportOptions_flags: "exportOptions level squash = join '','' (export_flags level squash)"
  by (simp add: exportOptions_def export_flags_def)

lemma at_paren:
  "CHR ''('' \<notin> set n \<Longrightarrow> takeWhile (\<lambda>c. c \<noteq> CHR ''('') (n @ CHR ''('' # r) = n"
  "CHR ''('' \<notin> set n \<Longrightarrow> dropWhile (\<lambda>c. c \<noteq> CHR ''('') (n @ CHR ''('' # r) = CHR ''('' # r"
  by (induction n) auto

lemma no_space_append: "no_space (a @ b) \<longleftrightarrow> no_space a \<and> no_space b" "no_space (c # b) \<longleftrightarrow> \<not> js_space c \<and> no_space b" "no_space []"
  by (auto simp: no_space_def)

lemma parse_client_spec:
  assumes "isValidNfsClient n" and "js_trim n = n" and "level \<in> {''ro'', ''rw''}"
  shows "parse_client (client_spec n level squash) = (n, export_flags level squash) \<and>
    no_space (client_spec n level squash) \<and> client_spec n level squash \<noteq> ''''"
proof -
  let ?o = "exportOptions level squash"
  note n = valid_client [OF assms(1,2)]
  have "\<And>w. w \<in> set (export_flags level squash) \<Longrightarrow> CHR '','' \<notin> set w"
    using assms(3) by (auto simp: export_flags_def split: if_splits)
  then have o': "split_on (CHR '','') ?o = export_flags level squash"
    unfolding exportOptions_flags by (intro split_on_join) (simp_all add: export_flags_def)
  have w: "client_spec n level squash = n @ CHR ''('' # (?o @ '')'')" by (simp add: client_spec_def)
  have "takeWhile (\<lambda>c. c \<noteq> CHR ''('') (n @ CHR ''('' # (?o @ '')'')) = n"
    "dropWhile (\<lambda>c. c \<noteq> CHR ''('') (n @ CHR ''('' # (?o @ '')'')) = CHR ''('' # (?o @ '')'')"
    by (rule at_paren; use n in simp)+
  then have "parse_client (client_spec n level squash) = (n, export_flags level squash)"
    unfolding parse_client_def w by (simp only: o' list.sel butlast_snoc)
  moreover have "no_space (exportOptions ''ro'' True)" "no_space (exportOptions ''rw'' True)"
    "no_space (exportOptions ''ro'' False)" "no_space (exportOptions ''rw'' False)" by code_simp+
  then have "no_space ?o" using assms(3) by (cases squash) auto
  moreover have "\<not> js_space (CHR ''('')" "\<not> js_space (CHR '')'')" by code_simp+
  ultimately show ?thesis using n unfolding w by (simp only: no_space_append) simp
qed

lemma fallback_valid: "n \<in> set (fallback_clients c) \<Longrightarrow> isValidNfsClient n \<and> js_trim n = n"
proof -
  have "isValidNfsClient ''*'' \<and> js_trim ''*'' = ''*''" by code_simp
  then show "n \<in> set (fallback_clients c) \<Longrightarrow> ?thesis" by (auto simp: fallback_clients_def Let_def split: if_splits)
qed

lemma fallback_some: "fallback_clients c \<noteq> []"
  by (simp add: fallback_clients_def Let_def)

lemma export_specs_back:
  assumes "clean_rules s"
  shows "map parse_client (export_specs c s) = exported_clients c s" and "list_all (\<lambda>w. no_space w \<and> w \<noteq> '''') (export_specs c s)"
    and "export_specs c s \<noteq> []"
  using assms fallback_valid fallback_some
  by (auto simp: export_specs_def exported_clients_def clean_rules_def list_all_iff Let_def parse_client_spec)

lemma export_specs_line: "clean_rules s \<Longrightarrow> CHR 0x0A \<notin> set (join '' '' (export_specs c s))"
proof -
  have "CHR 0x0A \<notin> set (join '' '' ws)" if "list_all (\<lambda>w. no_space w \<and> w \<noteq> '''') ws" for ws
    using that
  proof (induction ws)
    case (Cons w ws)
    then show ?case by (cases ws) (auto dest: no_space_chars)
  qed simp
  then show "clean_rules s \<Longrightarrow> ?thesis" using export_specs_back(2) by blast
qed

lemma export_line_back:
  assumes "exportable e s"
  shows "parse_export (export_line e c s) = (shareBasePath (se_config e) s, exported_clients c s)"
    and "CHR 0x0A \<notin> set (export_line e c s)" and "export_line e c s \<noteq> ''''" and "hd (export_line e c s) \<noteq> CHR ''#''"
proof -
  let ?p = "shareBasePath (se_config e) s"
  have p: "no_space ?p" "starts_with ?p ''/''" and rules: "clean_rules s" using assms by (simp_all add: exportable_def)
  then obtain q where q: "?p = CHR ''/'' # q" by (cases ?p) (auto simp: starts_with_def)
  have "fields_of (export_line e c s) = ?p # export_specs c s"
    using fields_of_append [of ?p "''   '' @ join '' '' (export_specs c s)"] fields_of_append [of "[]" "''  '' @ join '' '' (export_specs c s)"]
      fields_of_append [of "[]" "'' '' @ join '' '' (export_specs c s)"] fields_of_append [of "[]" "join '' '' (export_specs c s)"]
      fields_of_one [OF p(1)] fields_of_join [OF export_specs_back(2) [OF rules, of c]] q
    by (simp add: export_line_def) (simp add: fields_of_def)
  then show "parse_export (export_line e c s) = (?p, exported_clients c s)"
    using export_specs_back(1) [OF rules] by (simp add: parse_export_def)
  show "CHR 0x0A \<notin> set (export_line e c s)"
    using export_specs_line [OF rules, of c] no_space_chars [OF p(1)] by (auto simp: export_line_def)
  show "export_line e c s \<noteq> ''''" "hd (export_line e c s) \<noteq> CHR ''#''" using q by (simp_all add: export_line_def)
qed


definition sample_services_env :: services_env where
  "sample_services_env = \<lparr>se_config = sample_config, se_share_owner = ''opennas'', se_generated_dir = ''/srv/gen'',
     se_smb_conf_path = '''', se_exports_path = '''', se_avahi_path = ''''\<rparr>"

definition nfs_share :: "string \<Rightarrow> bool \<Rightarrow> nfs_rule list \<Rightarrow> share" where
  "nfs_share name nfs rules = \<lparr>sh_id = name, sh_name = name, sh_comment = '''', sh_guest_access = NoAccess, sh_smb_enabled = False,
     sh_nfs_enabled = nfs, sh_browseable = True, sh_volume = None, sh_created_at = 0, sh_permissions = [], sh_group_permissions = [],
     sh_recycle_enabled = False, sh_time_machine = False, sh_nfs_rules = rules, sh_quota_bytes = 0, sh_quota_project_id = None\<rparr>"


lemma fields_of_blank: "no_space a \<Longrightarrow> a \<noteq> '''' \<Longrightarrow> hd (fields_of (a @ CHR '' '' # r)) = a"
  by (simp add: fields_of_append fields_of_one)

lemma join_last: "join d (rs @ [a @ x]) = join d (rs @ [a]) @ x"
proof (induction rs)
  case (Cons r rs)
  then show ?case by (cases rs) simp_all
qed simp

lemma default_path:
  assumes "cfg_files_root cfg = abs_path rs" "plain rs" "sh_volume x = None" "plain_segment (sh_name x)"
  shows "shareBasePath cfg x = abs_path (rs @ [sh_name x])"
  using path_join_plain(1) [OF assms(2,4)] assms(1,3) by (simp add: shareBasePath_def path_join_def)

lemma line_in_join:
  assumes "f s \<noteq> ''''" and "CHR 0x0A \<notin> set (f s)" and "s \<in> set xs"
  shows "f s \<in> set (split_on (CHR 0x0A) (join [CHR 0x0A] (h # map f xs) @ [CHR 0x0A]))"
proof -
  obtain us vs where xs: "xs = us @ s # vs" using assms(3) by (auto dest: split_list)
  let ?rest = "if vs = [] then '''' else join [CHR 0x0A] (map f vs) @ [CHR 0x0A]"
  have "join [CHR 0x0A] (h # map f xs) @ [CHR 0x0A] = join [CHR 0x0A] (h # map f us) @ CHR 0x0A # (f s @ CHR 0x0A # ?rest)"
    using join_append [of "h # map f us" "map f (s # vs)" "[CHR 0x0A]"] by (simp add: xs join_Cons)
  then show ?thesis using split_on_plain [OF assms(2)] by (simp only: split_on_append) simp
qed

text \<open>
  A blank in the name of a share exports another folder: when the name of an
  NFS-enabled share continues another share's name after a blank, the NFS server reads an
  export of the other share's folder from its line, with every client the line names,
  although nobody enabled NFS for that other share.
\<close>

theorem blank_exports_another:
  assumes "cfg_files_root (se_config e) = abs_path rs" "plain rs" "no_space (abs_path rs)"
    and "sh_volume t = None" "plain_segment (sh_name t)" "no_space (sh_name t)"
    and "sh_volume s = None" "plain_segment (sh_name s)" "CHR 0x0A \<notin> set (sh_name s)" "sh_name s = sh_name t @ '' '' @ b"
    and "s \<in> set shares" "sh_nfs_enabled s" "clean_rules s"
  shows "\<exists>clients. (shareBasePath (se_config e) t, clients) \<in> set (parse_exports (generateExports e c shares)) \<and>
    set (exported_clients c s) \<subseteq> set clients"
proof -
  let ?t = "shareBasePath (se_config e) t" and ?l = "export_line e c s"
  have t: "?t = abs_path (rs @ [sh_name t])" and s: "shareBasePath (se_config e) s = abs_path (rs @ [sh_name s])"
    using default_path assms(1,2,4,5,7,8) by blast+
  then have path: "shareBasePath (se_config e) s = ?t @ CHR '' '' # b" using join_last [of "''/''" rs "sh_name t" "'' '' @ b"] assms(10)
    by (simp add: abs_path_def)
  have "no_space (join ''/'' (rs @ [sh_name t]))"
  proof (cases "rs = []")
    case False
    have "\<not> js_space (CHR ''/'')" by code_simp
    then show ?thesis using False assms(3,6) by (simp add: join_append abs_path_def no_space_append)
  qed (use assms(6) in simp)
  moreover have "\<not> js_space (CHR ''/'')" by code_simp
  ultimately have nt: "no_space ?t" "?t \<noteq> ''''" by (simp_all add: t abs_path_def no_space_append)
  define m where "m = b @ ''   ''"
  have line: "?l = ?t @ CHR '' '' # (m @ CHR '' '' # join '' '' (export_specs c s))" by (simp add: export_line_def path m_def)
  have fields: "fields_of ?l = ?t # fields_of m @ export_specs c s"
    unfolding line fields_of_append by (simp add: fields_of_one [OF nt] fields_of_join [OF export_specs_back(2) [OF assms(13)]])
  have "CHR 0x0A \<notin> set (abs_path (rs @ [sh_name s]))"
    using no_space_chars [OF nt(1)] path assms(9,10) by (simp add: s)
  then have "CHR 0x0A \<notin> set ?l" using export_specs_line [OF assms(13)] by (simp add: export_line_def s)
  then have "?l \<in> set (split_on (CHR 0x0A) (generateExports e c shares))"
    unfolding generateExports_def using assms(11,12) export_specs_back(3) [OF assms(13)] by (intro line_in_join) (auto simp: line nt)
  moreover have "?l \<noteq> ''''" "hd ?l \<noteq> CHR ''#''" by (simp_all add: line t abs_path_def)
  ultimately have "parse_export ?l \<in> set (parse_exports (generateExports e c shares))" by (simp add: parse_exports_def)
  moreover have "parse_export ?l = (?t, map parse_client (fields_of m) @ exported_clients c s)"
    using export_specs_back(1) [OF assms(13)] by (simp add: parse_export_def fields)
  ultimately show ?thesis by auto
qed

theorem blank_exports_another_witness:
  "\<exists>clients. (''/srv/files/docs'', clients) \<in> set (parse_exports (generateExports sample_services_env DEFAULT_SERVICES
     [nfs_share ''docs'' False [], nfs_share ''docs old'' True []])) \<and> ''*'' \<in> fst ` set clients"
proof -
  let ?t = "nfs_share ''docs'' False []" and ?s = "nfs_share ''docs old'' True []"
  have rs: "cfg_files_root (se_config sample_services_env) = abs_path [''srv'', ''files'']" "no_space (abs_path [''srv'', ''files''])"
    "\<forall>x \<in> set [''srv'', ''files'']. plain_segment x" by code_simp+
  have names: "plain_segment (sh_name ?t)" "no_space (sh_name ?t)" "plain_segment (sh_name ?s)" "CHR 0x0A \<notin> set (sh_name ?s)"
    "sh_name ?s = sh_name ?t @ '' '' @ ''old''" "clean_rules ?s" by code_simp+
  have "shareBasePath (se_config sample_services_env) ?t = ''/srv/files/docs''" by code_simp
  moreover have "''*'' \<in> fst ` set (exported_clients DEFAULT_SERVICES ?s)" by code_simp
  ultimately show ?thesis
    using blank_exports_another [OF rs(1,3,2) _ names(1,2) _ names(3-5), of "[?t, ?s]" DEFAULT_SERVICES] names(6)
    by (fastforce simp: nfs_share_def)
qed

subsection \<open>Lines of its own in \<open>smb.conf\<close>\<close>

lemma join_infix: "w \<in> set ws \<Longrightarrow> \<exists>x y. join d ws = x @ w @ y"
proof (induction ws)
  case (Cons v ws)
  show ?case
  proof (cases "w = v")
    case True
    then have "join d (v # ws) = [] @ w @ (if ws = [] then [] else d @ join d ws)" by (cases ws) simp_all
    then show ?thesis by blast
  next
    case False
    then obtain x y where "join d ws = x @ w @ y" "ws \<noteq> []" using Cons by fastforce
    then have "join d (v # ws) = (v @ d @ x) @ w @ y" by (simp add: join_Cons)
    then show ?thesis by blast
  qed
qed simp

text \<open>A comment with line feeds puts any line into the configuration, a section header for instance.\<close>

lemma comment_injects_line:
  assumes "s \<in> set shares" "sh_smb_enabled s" and "sh_comment s = a @ CHR 0x0A # l @ CHR 0x0A # b" and "CHR 0x0A \<notin> set l"
  shows "l \<in> set (split_on (CHR 0x0A) (generateSmbConf e c shares))"
proof -
  have "''   comment = '' @ sh_comment s \<in> set (smb_global c @ concat (map (smb_section e) (filter sh_smb_enabled shares)))"
    using assms(1-3) by (auto simp: smb_section_def)
  then obtain x y where "generateSmbConf e c shares = x @ (''   comment = '' @ sh_comment s) @ y"
    unfolding generateSmbConf_def using join_infix by blast
  then have "generateSmbConf e c shares = (x @ ''   comment = '' @ a) @ CHR 0x0A # (l @ CHR 0x0A # (b @ y))" by (simp add: assms(3))
  then show ?thesis using split_on_plain [OF assms(4)] by (simp only: split_on_append) simp
qed

end
