(* ===== verification/AdminUsers.thy ===== *)
theory AdminUsers
  imports AuthRoutes Apps OidcProvider UserGroups FilePaths
begin

text \<open>
  Administration of accounts: the user, access and policy routes of \<open>admin/routes.ts\<close> and
  the breach check of \<open>auth/hibp.ts\<close>.  The routes run behind \<open>requireAdmin\<close>; \<open>me\<close> is the
  account that asks.  Calls to the root helper are returned as a list, in their order.
\<close>

subsection \<open>\<open>auth/hibp.ts\<close>\<close>

text \<open>
  \<open>sha1\<close> is the hash of a password in capital hexadecimal digits, \<open>range\<close> the service: \<open>None\<close>
  when it cannot be reached or refuses, otherwise its text.  A count is read by \<open>Number\<close>.
\<close>

fun range_count :: "string \<Rightarrow> string list \<Rightarrow> nat" where
  "range_count wanted [] = 0"
| "range_count wanted (l # ls) =
     (case split_on (CHR '':'') (js_trim l) of
        found # count # _ \<Rightarrow>
          if found = wanted then (if count \<noteq> '''' \<and> list_all is_digit count then decimal count else 0)
          else range_count wanted ls
      | [found] \<Rightarrow> if found = wanted then 0 else range_count wanted ls
      | [] \<Rightarrow> range_count wanted ls)"

definition checkPwned :: "(string \<Rightarrow> string) \<Rightarrow> (string \<Rightarrow> string option) \<Rightarrow> string \<Rightarrow> nat option" where
  "checkPwned sha1 range' password =
     (let h = sha1 password in
      map_option (\<lambda>text. range_count (drop 5 h) (split_on (CHR 0x0A) text)) (range' (take 5 h)))"

definition blockPwnedEnabled :: "crypto \<Rightarrow> db \<Rightarrow> bool" where
  "blockPwnedEnabled cr d \<longleftrightarrow> getSettingOr cr d ''password_block_pwned'' ''false'' = ''true''"

text \<open>Whether the password is known, and whether that blocks it.\<close>

definition screenPassword ::
  "crypto \<Rightarrow> (string \<Rightarrow> string) \<Rightarrow> (string \<Rightarrow> string option) \<Rightarrow> db \<Rightarrow> string \<Rightarrow> bool \<times> bool" where
  "screenPassword cr sha1 range' d password =
     (let pwned = (case checkPwned sha1 range' password of None \<Rightarrow> False | Some n \<Rightarrow> n > 0)
      in (pwned, blockPwnedEnabled cr d \<and> pwned))"

subsection \<open>Accounts\<close>

datatype host_call = SyncShareUser string string | RemoveShareUser string

definition appsRestricted :: "db \<Rightarrow> user \<Rightarrow> bool" where
  "appsRestricted d u \<longleftrightarrow> u_role u \<noteq> Admin \<and> isAppsRestricted d (u_id u)"

definition getUsers :: "db \<Rightarrow> millis \<Rightarrow> (admin_user_row \<times> bool) list" where
  "getUsers d now = map (\<lambda>u. (u, appsRestricted d (aur_user u))) (listUsers d now)"

record create_user_body =
  cub_username :: string
  cub_display_name :: string
  cub_email :: "string option"
  cub_role :: user_role
  cub_password :: string
  cub_temporary :: bool

text \<open>\<open>email_ok\<close> is Zod's notion of an address.\<close>

definition createSchema :: "(string \<Rightarrow> bool) \<Rightarrow> create_user_body \<Rightarrow> create_user_body option" where
  "createSchema email_ok b =
     (let email = (case cub_email b of None \<Rightarrow> None | Some m \<Rightarrow> if m = '''' then None else Some m) in
      if trimmed_between 2 32 (cub_username b) \<and> list_all username_char (js_trim (cub_username b)) \<and>
         trimmed_between 1 64 (cub_display_name b) \<and> (case email of None \<Rightarrow> True | Some m \<Rightarrow> email_ok m) \<and>
         8 \<le> length (cub_password b) \<and> length (cub_password b) \<le> 256
      then Some (b\<lparr>cub_username := js_trim (cub_username b), cub_display_name := js_trim (cub_display_name b), cub_email := email\<rparr>)
      else None)"

definition postUser ::
  "crypto \<Rightarrow> (string \<Rightarrow> bool) \<Rightarrow> (string \<Rightarrow> bool \<times> bool) \<Rightarrow> string \<Rightarrow> string \<Rightarrow> millis \<Rightarrow> create_user_body \<Rightarrow> db \<Rightarrow>
     user reply \<times> db \<times> host_call list" where
  "postUser cr email_ok screen newId salt now b d =
     (case createSchema email_ok b of
        None \<Rightarrow> (Refused 400 ''invalid'', d, [])
      | Some p \<Rightarrow>
          if getUserByUsername d (cub_username p) \<noteq> None then (Refused 409 ''exists'', d, [])
          else if validatePasswordStrength (cub_password p) \<noteq> None then (Refused 400 ''weak_password'', d, [])
          else if snd (screen (cub_password p)) then (Refused 400 ''breached_password'', d, [])
          else
            (case createUser newId now \<lparr>cui_username = cub_username p, cui_display_name = cub_display_name p,
                   cui_email = cub_email p, cui_role = cub_role p, cui_source = None,
                   cui_password_hash = Some (hashPassword cr salt (cub_password p))\<rparr> d of
               Inl e \<Rightarrow> (Refused 500 ''internal'', d, [])
             | Inr (u, d1) \<Rightarrow>
                 (let d2 = setPasswordPwned (u_id u) (fst (screen (cub_password p))) d1;
                      d3 = (if cub_temporary p then setMustChangePassword (u_id u) True d2 else d2)
                  in (Sent u, d3, [SyncShareUser (u_username u) (cub_password p)]))))"

definition updateSchema :: "(string \<Rightarrow> bool) \<Rightarrow> update_user_fields \<Rightarrow> update_user_fields option" where
  "updateSchema email_ok f =
     (let email = map_option (\<lambda>m. case m of None \<Rightarrow> None | Some t \<Rightarrow> if t = '''' then None else Some t) (uuf_email f) in
      if (case uuf_display_name f of None \<Rightarrow> True | Some n \<Rightarrow> trimmed_between 1 64 n) \<and>
         (case email of Some (Some m) \<Rightarrow> email_ok m | _ \<Rightarrow> True)
      then Some (f\<lparr>uuf_display_name := map_option js_trim (uuf_display_name f), uuf_email := email\<rparr>)
      else None)"

definition patchUser ::
  "(string \<Rightarrow> bool) \<Rightarrow> string \<Rightarrow> string \<Rightarrow> update_user_fields \<Rightarrow> db \<Rightarrow> user option reply \<times> db" where
  "patchUser email_ok me i body d =
     (case getUserById d i of
        None \<Rightarrow> (Refused 404 ''not_found'', d)
      | Some target \<Rightarrow>
          (case updateSchema email_ok body of
             None \<Rightarrow> (Refused 400 ''invalid'', d)
           | Some f \<Rightarrow>
               (let demoting = (uuf_role f = Some User \<or> uuf_disabled f = Some True) in
                if u_role target = Admin \<and> demoting \<and> countAdmins d (Some i) = 0 then (Refused 400 ''last_admin'', d)
                else if me = i \<and> uuf_disabled f = Some True then (Refused 400 ''self'', d)
                else
                  (let d1 = updateUser i f d;
                       d2 = (if uuf_disabled f = Some True then deleteAllForUser i d1 else d1)
                   in (Sent (getUserById d2 i), d2)))))"

definition postUserPassword ::
  "crypto \<Rightarrow> (string \<Rightarrow> bool \<times> bool) \<Rightarrow> string \<Rightarrow> string \<Rightarrow> string \<Rightarrow> bool option \<Rightarrow> db \<Rightarrow> bool reply \<times> db \<times> host_call list" where
  "postUserPassword cr screen salt i password temporary d =
     (case getUserById d i of
        None \<Rightarrow> (Refused 404 ''not_found'', d, [])
      | Some target \<Rightarrow>
          if length password < 8 \<or> length password > 256 then (Refused 400 ''weak_password'', d, [])
          else if snd (screen password) then (Refused 400 ''breached_password'', d, [])
          else
            (let temp = (temporary \<noteq> Some False);
                 d1 = setPasswordHash i (hashPassword cr salt password) d;
                 d2 = setPasswordPwned i (fst (screen password)) d1
             in (Sent temp, setMustChangePassword i temp d2, [SyncShareUser (u_username target) password])))"

definition deleteUserTotp :: "crypto \<Rightarrow> string \<Rightarrow> db \<Rightarrow> unit reply \<times> db" where
  "deleteUserTotp cr i d =
     (if getUserById d i = None then (Refused 404 ''not_found'', d)
      else if \<not> totpEnabled cr d i then (Refused 400 ''not_enabled'', d)
      else (Sent (), clearMfaTickets i (disableTotp i d)))"

definition deleteUserRoute :: "string \<Rightarrow> string \<Rightarrow> db \<Rightarrow> unit reply \<times> db \<times> host_call list" where
  "deleteUserRoute me i d =
     (case getUserById d i of
        None \<Rightarrow> (Refused 404 ''not_found'', d, [])
      | Some target \<Rightarrow>
          if i = me then (Refused 400 ''self'', d, [])
          else if u_role target = Admin \<and> countAdmins d (Some i) = 0 then (Refused 400 ''last_admin'', d, [])
          else (Sent (), deleteUser i d, [RemoveShareUser (u_username target)]))"

subsection \<open>The apps of a user\<close>

record app_access_reply =
  aar_user_id :: string
  aar_restricted :: bool
  aar_app_ids :: "string list"
  aar_available :: "(string \<times> string) list"
  aar_always :: "string list"

definition app_access_of :: "(string \<Rightarrow> url option) \<Rightarrow> crypto \<Rightarrow> db \<Rightarrow> user \<Rightarrow> app_access_reply" where
  "app_access_of parse cr d u =
     \<lparr>aar_user_id = u_id u, aar_restricted = appsRestricted d u, aar_app_ids = allowedAppIds d (u_id u),
      aar_available = map (\<lambda>a. (am_id a, am_name a)) (appsForRole parse cr d (u_role u)), aar_always = ALWAYS_AVAILABLE\<rparr>"

definition getUserApps :: "(string \<Rightarrow> url option) \<Rightarrow> crypto \<Rightarrow> db \<Rightarrow> string \<Rightarrow> app_access_reply reply" where
  "getUserApps parse cr d i =
     (case getUserById d i of None \<Rightarrow> Refused 404 ''not_found'' | Some u \<Rightarrow> Sent (app_access_of parse cr d u))"

definition putUserApps ::
  "(string \<Rightarrow> url option) \<Rightarrow> crypto \<Rightarrow> string \<Rightarrow> bool \<Rightarrow> string list \<Rightarrow> db \<Rightarrow> app_access_reply reply \<times> db" where
  "putUserApps parse cr i restricted appIds d =
     (case getUserById d i of
        None \<Rightarrow> (Refused 404 ''not_found'', d)
      | Some u \<Rightarrow>
          if length appIds > 200 \<or> \<not> list_all (\<lambda>a. 1 \<le> length a \<and> length a \<le> 64) appIds then (Refused 400 ''invalid'', d)
          else if u_role u = Admin \<and> restricted then (Refused 400 ''admin_unrestrictable'', d)
          else (let d1 = setAppAccess i restricted appIds d in (Sent (app_access_of parse cr d1 u), d1)))"

subsection \<open>Automatic sign-in\<close>

datatype ineligible = IsAdmin | IsDisabled | UsesTotp | HasTemporaryPassword

definition autologinIneligibility :: "crypto \<Rightarrow> db \<Rightarrow> user \<Rightarrow> ineligible option" where
  "autologinIneligibility cr d u =
     (if u_role u = Admin then Some IsAdmin
      else if isUserDisabled d (u_id u) then Some IsDisabled
      else if totpEnabled cr d (u_id u) then Some UsesTotp
      else if mustChangePassword d (u_id u) then Some HasTemporaryPassword
      else None)"

definition autologinPayload :: "crypto \<Rightarrow> db \<Rightarrow> millis \<Rightarrow> autologin_config \<times> (user \<times> ineligible option) list" where
  "autologinPayload cr d now =
     (autologinConfig cr d, map (\<lambda>r. (aur_user r, autologinIneligibility cr d (aur_user r))) (listUsers d now))"

definition autologin_refusal :: "crypto \<Rightarrow> db \<Rightarrow> string option \<Rightarrow> string list \<Rightarrow> (nat \<times> string) option" where
  "autologin_refusal cr d userId networks =
     (case userId of
        None \<Rightarrow> Some (400, ''no_user'')
      | Some i \<Rightarrow>
          (case getUserById d i of
             None \<Rightarrow> Some (404, ''not_found'')
           | Some u \<Rightarrow>
               if autologinIneligibility cr d u \<noteq> None then Some (400, ''not_eligible'')
               else if \<not> list_all isValidCidr networks then Some (400, ''bad_network'')
               else if networks = [] then Some (400, ''no_networks'')
               else None))"

definition putAutologin ::
  "crypto \<Rightarrow> millis \<Rightarrow> bool \<Rightarrow> string option \<Rightarrow> string list \<Rightarrow> db \<Rightarrow>
     (autologin_config \<times> (user \<times> ineligible option) list) reply \<times> db" where
  "putAutologin cr now enabled userId nets d =
     (let networks = map js_trim nets in
      if length networks > 16 \<or> \<not> list_all (trimmed_between 1 64) nets \<or>
         (case userId of None \<Rightarrow> False | Some i \<Rightarrow> i = '''' \<or> length i > 64)
      then (Refused 400 ''invalid'', d)
      else
        (case (if enabled then autologin_refusal cr d userId networks else None) of
           Some (status, code) \<Rightarrow> (Refused status code, d)
         | None \<Rightarrow>
             (let d1 = setAutologinConfig cr \<lparr>al_enabled = enabled, al_user_id = userId, al_networks = networks\<rparr> d;
                  d2 = snd (deleteAutologinSessions d1)
              in (Sent (autologinPayload cr d2 now), d2))))"

subsection \<open>The account policy\<close>

definition readPolicy :: "crypto \<Rightarrow> db \<Rightarrow> bool \<times> bool" where
  "readPolicy cr d = (blockPwnedEnabled cr d, requirePasskeyEnabled cr d)"

text \<open>The first setting is stored even when the second is refused.\<close>

definition putPolicy :: "crypto \<Rightarrow> string \<Rightarrow> bool option \<Rightarrow> bool option \<Rightarrow> db \<Rightarrow> (bool \<times> bool) reply \<times> db" where
  "putPolicy cr me blockPwned requirePasskey d =
     (let bool_text = (\<lambda>b. if b then ''true'' else ''false'');
          d1 = (case blockPwned of None \<Rightarrow> d | Some b \<Rightarrow> setSetting cr '''' '''' ''password_block_pwned'' (bool_text b) d)
      in case requirePasskey of
           None \<Rightarrow> (Sent (readPolicy cr d1), d1)
         | Some r \<Rightarrow>
             if r \<and> countCredentialsByUser d1 me = 0 then (Refused 400 ''no_passkey'', d1)
             else (let d2 = setSetting cr '''' '''' ''require_passkey'' (bool_text r) d1 in (Sent (readPolicy cr d2), d2)))"

subsection \<open>Clients of the identity provider\<close>

definition issuerUrl :: "crypto \<Rightarrow> string \<Rightarrow> string \<Rightarrow> db \<Rightarrow> string" where
  "issuerUrl cr protocol host d =
     (let s = strip_slashes (getSettingOr cr d ''oidc_issuer'' '''') in
      if s = '''' then protocol @ ''://'' @ host else s)"

definition getClients :: "crypto \<Rightarrow> string \<Rightarrow> string \<Rightarrow> db \<Rightarrow> client_record list \<times> string" where
  "getClients cr protocol host d = (listClients d, issuerUrl cr protocol host d)"

definition postClient ::
  "crypto \<Rightarrow> (string \<Rightarrow> bool) \<Rightarrow> string \<Rightarrow> string \<Rightarrow> millis \<Rightarrow> string \<Rightarrow> string list \<Rightarrow> string list option \<Rightarrow> db \<Rightarrow>
     (client_record option \<times> string) reply \<times> db" where
  "postClient cr url_ok fresh secret now name redirectUris scopes d =
     (if \<not> trimmed_between 1 64 name \<or> redirectUris = [] \<or> length redirectUris > 10 \<or>
         \<not> list_all (\<lambda>u. url_ok u \<and> length u \<le> 512) redirectUris \<or>
         (case scopes of None \<Rightarrow> False | Some ss \<Rightarrow> \<not> set ss \<subseteq> set SUPPORTED_SCOPES)
      then (Refused 400 ''invalid'', d)
      else
        (let wanted = ''openid'' # (case scopes of None \<Rightarrow> [''profile'', ''email''] | Some ss \<Rightarrow> ss) in
         case createClient cr fresh secret (js_trim name) redirectUris (rev (remdups (rev wanted))) now d of
           Inl e \<Rightarrow> (Refused 500 ''internal'', d)
         | Inr (r, d1) \<Rightarrow> (Sent r, d1)))"

definition deleteClientRoute :: "string \<Rightarrow> db \<Rightarrow> unit reply \<times> db" where
  "deleteClientRoute i d =
     (case deleteClient i d of (found, d1) \<Rightarrow> if found then (Sent (), d1) else (Refused 404 ''not_found'', d1))"

definition putIssuer :: "crypto \<Rightarrow> (string \<Rightarrow> bool) \<Rightarrow> string \<Rightarrow> string \<Rightarrow> string \<Rightarrow> db \<Rightarrow> string reply \<times> db" where
  "putIssuer cr url_ok protocol host issuer d =
     (if issuer \<noteq> '''' \<and> (\<not> url_ok issuer \<or> length issuer > 255) then (Refused 400 ''invalid'', d)
      else
        (let d1 = setSetting cr '''' '''' ''oidc_issuer'' (strip_slashes issuer) d
         in (Sent (issuerUrl cr protocol host d1), d1)))"

end
