(* ===== verification/AdminProps.thy ===== *)
theory AdminProps
  imports AdminUsers AuthProps
begin

text \<open>
  What the administration of accounts guarantees: an active administrator always remains,
  automatic sign-in is offered only to accounts that qualify, and what disabling, removing
  and promoting an account does to its sessions.
\<close>

subsection \<open>An administrator remains\<close>

datatype account_request =
    AddUser string string millis create_user_body
  | EditUser string string update_user_fields
  | ResetPassword string string string "bool option"
  | ClearTotp string
  | RemoveUser string string
  | LimitApps string bool "string list"
  | SetAutologin millis bool "string option" "string list"
  | SetPolicy string "bool option" "bool option"

record account_env =
  ae_crypto :: crypto
  ae_email_ok :: "string \<Rightarrow> bool"
  ae_screen :: "db \<Rightarrow> string \<Rightarrow> bool \<times> bool"
  ae_parse :: "string \<Rightarrow> url option"

definition run_account :: "account_env \<Rightarrow> account_request \<Rightarrow> db \<Rightarrow> db" where
  "run_account e q d =
     (case q of
        AddUser newId salt now b \<Rightarrow> fst (snd (postUser (ae_crypto e) (ae_email_ok e) (ae_screen e d) newId salt now b d))
      | EditUser me i f \<Rightarrow> snd (patchUser (ae_email_ok e) me i f d)
      | ResetPassword salt i p t \<Rightarrow> fst (snd (postUserPassword (ae_crypto e) (ae_screen e d) salt i p t d))
      | ClearTotp i \<Rightarrow> snd (deleteUserTotp (ae_crypto e) i d)
      | RemoveUser me i \<Rightarrow> fst (snd (deleteUserRoute me i d))
      | LimitApps i restricted appIds \<Rightarrow> snd (putUserApps (ae_parse e) (ae_crypto e) i restricted appIds d)
      | SetAutologin now enabled i nets \<Rightarrow> snd (putAutologin (ae_crypto e) now enabled i nets d)
      | SetPolicy me b r \<Rightarrow> snd (putPolicy (ae_crypto e) me b r d))"

definition active_admin :: "user_row \<Rightarrow> bool" where
  "active_admin r \<longleftrightarrow> usr_role r = ''admin'' \<and> \<not> usr_disabled r"

definition admin_remains :: "db \<Rightarrow> bool" where
  "admin_remains d \<longleftrightarrow> users_ok d \<and> (\<exists>r \<in> set (db_users d). active_admin r)"

text \<open>Changing columns other than the role and the switch, in place.\<close>

lemma remains_update_users:
  assumes "admin_remains d" and "\<And>r. usr_id (f r) = usr_id r" "\<And>r. usr_username (f r) = usr_username r"
    and "\<And>r. active_admin r \<Longrightarrow> active_admin (f r)"
  shows "admin_remains (update_users i f d)"
proof -
  obtain r where r: "r \<in> set (db_users d)" "active_admin r" using assms(1) by (auto simp: admin_remains_def)
  moreover have "(if usr_id r = i then f r else r) \<in> set (db_users (update_users i f d))"
    using r(1) by (auto simp: set_sql_update)
  moreover have "active_admin (if usr_id r = i then f r else r)" using r(2) assms(4) by simp
  ultimately show ?thesis using assms(1-3) unfolding admin_remains_def by (blast intro: users_ok_update_users)
qed

lemma remains_users: "db_users d' = db_users d \<Longrightarrow> admin_remains d' \<longleftrightarrow> admin_remains d"
  by (simp add: admin_remains_def users_ok_def)

lemma remains_frame [simp]:
  "admin_remains (deleteAllForUser i d) = admin_remains d" "admin_remains (clearMfaTickets i d) = admin_remains d"
  "admin_remains (disableTotp i d) = admin_remains d" "admin_remains (snd (deleteAutologinSessions d)) = admin_remains d"
  "admin_remains (setSetting cr salt iv k v d) = admin_remains d" "admin_remains (setAutologinConfig cr c d) = admin_remains d"
  by (rule remains_users; simp add: deleteAllForUser_def clearMfaTickets_def disableTotp_def deleteAutologinSessions_def
      setSetting_def setAutologinConfig_def Let_def)+

lemma active_admin_update [simp]:
  "active_admin (r\<lparr>usr_password_hash := a\<rparr>) = active_admin r" "active_admin (r\<lparr>usr_password_pwned := b\<rparr>) = active_admin r"
  "active_admin (r\<lparr>usr_must_change_password := b\<rparr>) = active_admin r" "active_admin (r\<lparr>usr_apps_restricted := b\<rparr>) = active_admin r"
  by (simp_all add: active_admin_def)

lemma remains_setters [simp]:
  assumes "admin_remains d"
  shows "admin_remains (setPasswordHash i h d)" "admin_remains (setPasswordPwned i b d)" "admin_remains (setMustChangePassword i b d)"
  using assms by (auto simp: user_setters intro!: remains_update_users)

lemma remains_createUser: "admin_remains d \<Longrightarrow> createUser i now inp d = Inr (u, d') \<Longrightarrow> admin_remains d'"
  using createUser_Inr [of i now inp d u d'] createUser_users_ok [of d i now inp u d'] by (auto simp: admin_remains_def)

lemma other_admin:
  assumes "countAdmins d (Some i) \<noteq> 0"
  obtains r where "r \<in> set (db_users d)" "active_admin r" "usr_id r \<noteq> i"
  using assms countAdmins_pos_iff [of d "Some i"] by (auto simp: active_admin_def)

lemma remains_other:
  assumes "users_ok d'" and "r \<in> set (db_users d)" "active_admin r" "usr_id r \<noteq> i"
    and "\<And>x. x \<in> set (db_users d) \<Longrightarrow> usr_id x \<noteq> i \<Longrightarrow> x \<in> set (db_users d')"
  shows "admin_remains d'"
  using assms by (auto simp: admin_remains_def)

lemma not_admin_row:
  assumes "users_ok d" and "getUserById d i = Some u" "u_role u \<noteq> Admin" and "r \<in> set (db_users d)" "active_admin r"
  shows "usr_id r \<noteq> i"
proof
  assume i: "usr_id r = i"
  have "userRow d i = Some r" using assms(1,4) i by (auto simp: userRow_def users_ok_def intro: sql_get_keyed)
  then show False using assms(2,3,5) by (auto simp: getUserById_def active_admin_def to_role_def)
qed

lemma remains_patchUser:
  assumes "admin_remains d"
  shows "admin_remains (snd (patchUser email_ok me i f d))"
proof -
  have edited: "admin_remains (updateUser i g d)"
    if u: "getUserById d i = Some u" and ok: "u_role u = Admin \<Longrightarrow> uuf_role g = Some User \<or> uuf_disabled g = Some True \<Longrightarrow> countAdmins d (Some i) \<noteq> 0" for u g
  proof (cases "u_role u = Admin \<and> \<not> (uuf_role g = Some User \<or> uuf_disabled g = Some True)")
    case True
    have "active_admin (apply_user_fields g r)" if "active_admin r" for r
      using that True by (cases "uuf_role g"; cases "uuf_disabled g")
        (auto simp: apply_user_fields_def active_admin_def role_text_def split: user_role.splits)
    then show ?thesis using assms by (auto simp: updateUser_def intro: remains_update_users)
  next
    case False
    obtain r where r: "r \<in> set (db_users d)" "active_admin r" "usr_id r \<noteq> i"
    proof (cases "u_role u = Admin")
      case True
      then show ?thesis using False ok other_admin that by blast
    next
      case no: False
      obtain r where "r \<in> set (db_users d)" "active_admin r" using assms by (auto simp: admin_remains_def)
      then show ?thesis using that not_admin_row [OF _ u no] assms by (auto simp: admin_remains_def)
    qed
    then show ?thesis using assms
      by (intro remains_other [of "updateUser i g d" r d i])
        (auto simp: admin_remains_def updateUser_users_ok, auto simp: updateUser_def set_sql_update)
  qed
  show ?thesis
  proof (cases "getUserById d i"; cases "updateSchema email_ok f")
    fix u g
    assume u: "getUserById d i = Some u" and g: "updateSchema email_ok f = Some g"
    show ?thesis
    proof (cases "u_role u = Admin \<and> (uuf_role g = Some User \<or> uuf_disabled g = Some True) \<and> countAdmins d (Some i) = 0")
      case False
      then have "admin_remains (updateUser i g d)" using edited [OF u] by blast
      then show ?thesis by (simp add: patchUser_def u g Let_def assms)
    qed (simp add: patchUser_def u g assms)
  qed (simp_all add: patchUser_def assms del: getUserById_None_iff)
qed

lemma remains_deleteUser:
  assumes "admin_remains d"
  shows "admin_remains (fst (snd (deleteUserRoute me i d)))"
proof -
  have removed: "admin_remains (deleteUser i d)" if "r \<in> set (db_users d)" "active_admin r" "usr_id r \<noteq> i" for r
    using assms that by (intro remains_other [of "deleteUser i d" r d i]) (auto simp: admin_remains_def deleteUser_users_ok)
  show ?thesis
  proof (cases "getUserById d i")
    case (Some u)
    show ?thesis
    proof (cases "u_role u = Admin")
      case True
      then have "admin_remains (deleteUser i d)" if "countAdmins d (Some i) \<noteq> 0" using that removed other_admin by metis
      then show ?thesis using Some True assms by (simp add: deleteUserRoute_def)
    next
      case False
      obtain r where "r \<in> set (db_users d)" "active_admin r" using assms by (auto simp: admin_remains_def)
      then have "admin_remains (deleteUser i d)"
        using removed not_admin_row [OF _ Some False] assms by (auto simp: admin_remains_def)
      then show ?thesis using Some False assms by (simp add: deleteUserRoute_def)
    qed
  qed (simp add: deleteUserRoute_def assms del: getUserById_None_iff)
qed

lemma remains_postUser:
  assumes "admin_remains d"
  shows "admin_remains (fst (snd (postUser cr email_ok screen newId salt now b d)))"
proof (cases "createSchema email_ok b")
  case (Some p)
  let ?inp = "\<lparr>cui_username = cub_username p, cui_display_name = cub_display_name p, cui_email = cub_email p, cui_role = cub_role p,
    cui_source = None, cui_password_hash = Some (hashPassword cr salt (cub_password p))\<rparr>"
  show ?thesis
  proof (cases "createUser newId now ?inp d")
    case (Inr x)
    then obtain u d1 where c: "createUser newId now ?inp d = Inr (u, d1)" by (cases x) auto
    then have "admin_remains d1" using assms remains_createUser by blast
    then show ?thesis using assms by (simp add: postUser_def Some c Let_def)
  qed (simp add: postUser_def Some assms)
qed (simp add: postUser_def assms)

lemma remains_limitApps:
  assumes "admin_remains d"
  shows "admin_remains (snd (putUserApps parse cr i restricted appIds d))"
proof -
  have "admin_remains (update_users i (usr_apps_restricted_update (\<lambda>_. restricted)) d)"
    by (rule remains_update_users [OF assms]) simp_all
  then have "admin_remains (setAppAccess i restricted appIds d)" by (simp add: admin_remains_def users_ok_def setAppAccess_def)
  then show ?thesis using assms by (cases "getUserById d i") (simp_all add: putUserApps_def Let_def del: getUserById_None_iff)
qed

lemma remains_settings:
  assumes "admin_remains d"
  shows "admin_remains (fst (snd (postUserPassword cr screen salt i p t d)))" "admin_remains (snd (deleteUserTotp cr i d))"
    "admin_remains (snd (putPolicy cr me b r d))" "admin_remains (snd (putAutologin cr now enabled u nets d))"
proof -
  show "admin_remains (fst (snd (postUserPassword cr screen salt i p t d)))"
    using assms by (cases "getUserById d i") (simp_all add: postUserPassword_def Let_def del: getUserById_None_iff)
  show "admin_remains (snd (deleteUserTotp cr i d))" using assms by (simp add: deleteUserTotp_def)
  show "admin_remains (snd (putPolicy cr me b r d))"
    using assms by (cases b; cases r) (simp_all add: putPolicy_def Let_def)
  show "admin_remains (snd (putAutologin cr now enabled u nets d))"
    using assms by (simp add: putAutologin_def Let_def split: option.split)
qed

lemma remains_step: "admin_remains d \<Longrightarrow> admin_remains (run_account e q d)"
  by (cases q) (simp_all add: run_account_def remains_postUser remains_patchUser remains_deleteUser remains_limitApps remains_settings)



subsection \<open>Automatic sign-in\<close>

text \<open>
  Switching automatic sign-in on takes effect only for an account that qualifies: an
  accepted request names an account that is no administrator, not disabled, has no second
  factor and no temporary password, and at least one well-formed network; afterwards a
  client is signed in as that account exactly from those networks, and no session from
  the earlier rules is left.
\<close>

theorem autologin_only_eligible:
  assumes "putAutologin cr now True userId nets d = (Sent p, d')"
  shows "\<exists>u. userId = Some (u_id u) \<and> getUserById d (u_id u) = Some u \<and> u_role u = User \<and> \<not> isUserDisabled d (u_id u) \<and>
    \<not> totpEnabled cr d (u_id u) \<and> \<not> mustChangePassword d (u_id u) \<and> nets \<noteq> [] \<and> list_all isValidCidr (map js_trim nets) \<and>
    (\<forall>ip. autologinUserFor cr d' ip = (if addressMatches ip (map js_trim nets) then Some u else None)) \<and>
    (\<forall>r \<in> set (db_sessions d'). Autologin \<notin> set (ses_auth_methods r))"
proof -
  let ?ns = "map js_trim nets" and ?c = "\<lparr>al_enabled = True, al_user_id = userId, al_networks = map js_trim nets\<rparr>"
  have named: "userId \<noteq> Some ''''" and ok: "autologin_refusal cr d userId ?ns = None"
    and d': "d' = snd (deleteAutologinSessions (setAutologinConfig cr ?c d))"
    using assms by (auto simp: putAutologin_def Let_def split: if_splits option.splits)
  obtain u where u: "userId = Some (u_id u)" "getUserById d (u_id u) = Some u" and why: "autologinIneligibility cr d u = None"
    and nets: "list_all isValidCidr ?ns" "nets \<noteq> []"
    using ok by (auto simp: autologin_refusal_def dest: getUserById_SomeD split: option.splits if_splits)
  have same: "db_users d' = db_users d" and conf: "autologinConfig cr d' = ?c"
    using autologinConfig_set [of ?c cr d] named
    by (simp_all add: d' deleteAutologinSessions_def setAutologinConfig_def setSetting_def Let_def autologinConfig_def getSetting_def settingRow_def)
  have lookups: "getUserById d' = getUserById d" "isUserDisabled d' = isUserDisabled d" "mustChangePassword d' = mustChangePassword d"
    by (simp_all add: fun_eq_iff getUserById_def isUserDisabled_def mustChangePassword_def userRow_def same)
  have "\<forall>r \<in> set (db_sessions d'). Autologin \<notin> set (ses_auth_methods r)"
    by (auto simp: d' deleteAutologinSessions_def set_sql_delete methods_json_autologin Let_def)
  moreover have "autologinUserFor cr d' ip = (if addressMatches ip ?ns then Some u else None)" for ip
    using why nets u by (simp add: autologinUserFor_def conf lookups autologinIneligibility_def split: if_splits)
  moreover have "u_role u = User" using why by (cases "u_role u") (simp_all add: autologinIneligibility_def)
  ultimately show ?thesis using u why nets by (auto simp: autologinIneligibility_def split: if_splits)
qed

theorem autologin_only_eligible_witness:
  "\<exists>d'. autologinUserFor sample_crypto d' ''192.168.1.40'' \<noteq> None \<and> autologinUserFor sample_crypto d' ''10.0.0.1'' = None"
proof -
  obtain p d' where run: "putAutologin sample_crypto 0 True (Some ''u1'') [''192.168.1.0/24''] sample_db = (p, d')" by fastforce
  have "is_sent (fst (putAutologin sample_crypto 0 True (Some ''u1'') [''192.168.1.0/24''] sample_db))" by code_simp
  then obtain q where "p = Sent q" using run by (cases p) auto
  moreover have "addressMatches ''192.168.1.40'' [js_trim ''192.168.1.0/24'']" "\<not> addressMatches ''10.0.0.1'' [js_trim ''192.168.1.0/24'']"
    by code_simp+
  ultimately have "autologinUserFor sample_crypto d' ''192.168.1.40'' \<noteq> None \<and> autologinUserFor sample_crypto d' ''10.0.0.1'' = None"
    using autologin_only_eligible [of sample_crypto 0 "Some ''u1''" "[''192.168.1.0/24'']" sample_db q d'] run by auto
  then show ?thesis by blast
qed

subsection \<open>Sessions of a changed account\<close>

lemma patchUser_Sent:
  assumes "patchUser email_ok me i body d = (Sent u, d')"
  obtains f where "updateSchema email_ok body = Some f" and "i \<in> user_ids d" and "uuf_role f = uuf_role body" "uuf_disabled f = uuf_disabled body"
    and "d' = (if uuf_disabled f = Some True then deleteAllForUser i (updateUser i f d) else updateUser i f d)"
proof (cases "getUserById d i")
  case (Some t)
  obtain f where f: "updateSchema email_ok body = Some f" using assms Some by (cases "updateSchema email_ok body") (simp_all add: patchUser_def)
  then have "uuf_role f = uuf_role body" "uuf_disabled f = uuf_disabled body" by (auto simp: updateSchema_def Let_def split: if_splits)
  then show thesis using assms Some f that getUserById_SomeD [OF Some]
    by (auto simp: patchUser_def Let_def split: if_splits)
qed (use assms in \<open>simp add: patchUser_def del: getUserById_None_iff\<close>)

text \<open>
  Disabling an account signs it out everywhere: afterwards no request is
  authenticated as that account, whatever cookie it carries, while the sessions of
  everybody else stay.
\<close>

theorem disabling_signs_out:
  assumes "patchUser email_ok me i body d = (Sent u, d')" and "uuf_disabled body = Some True"
  shows "(\<forall>cr now ip cookie a d''. onRequest cr now ip cookie d' = (Some a, d'') \<longrightarrow> u_id (ax_user a) \<noteq> i) \<and>
    db_sessions d' = filter (\<lambda>r. ses_user_id r \<noteq> i) (db_sessions d)"
proof -
  obtain f where f: "uuf_disabled f = uuf_disabled body"
    and d': "d' = (if uuf_disabled f = Some True then deleteAllForUser i (updateUser i f d) else updateUser i f d)"
    by (rule patchUser_Sent [OF assms(1)])
  have s: "db_sessions d' = filter (\<lambda>r. ses_user_id r \<noteq> i) (db_sessions d)"
    using assms(2) by (simp add: d' f deleteAllForUser_def sql_delete_def updateUser_def update_users_def)
  then show ?thesis by (auto elim!: onRequest_Some dest: getUserById_SomeD)
qed

theorem disabling_signs_out_witness:
  "\<exists>d'. db_sessions d' = [] \<and> snd (patchUser (\<lambda>_. True) ''a1'' ''u1'' \<lparr>uuf_display_name = None, uuf_email = None, uuf_role = None, uuf_disabled = Some True\<rparr>
     sample_db) = d'"
proof -
  let ?f = "\<lparr>uuf_display_name = None, uuf_email = None, uuf_role = None, uuf_disabled = Some True\<rparr>"
  obtain p d' where run: "patchUser (\<lambda>_. True) ''a1'' ''u1'' ?f sample_db = (p, d')" by fastforce
  have "is_sent (fst (patchUser (\<lambda>_. True) ''a1'' ''u1'' ?f sample_db))" by code_simp
  then obtain q where "p = Sent q" using run by (cases p) auto
  then show ?thesis using disabling_signs_out [of "\<lambda>_. True" "''a1''" "''u1''" ?f sample_db q d'] run
    by (simp add: sample_db_def empty_db_def)
qed

lemma onRequest_again:
  assumes "onRequest cr now ip cookie d = (Some a, d1)" and "db_sessions d' = db_sessions d" "autologinConfig cr d' = autologinConfig cr d"
    and "getUserById d' (u_id (ax_user a)) = Some u"
  shows "fst (onRequest cr now ip cookie d') = Some \<lparr>ax_user = u, ax_session = ax_session a\<rparr>"
proof (rule onRequest_Some [OF assms(1)])
  fix token row
  assume t: "cookie = Some token" and row: "now < ses_expires_at row" "ses_id row = hashToken cr token"
    and a: "ax_session a = toSessionRecord row" "getUserById d (ses_user_id row) = Some (ax_user a)"
    and auto: "Autologin \<in> set (ses_auth_methods row) \<Longrightarrow>
      al_enabled (autologinConfig cr d) \<and> addressMatches ip (al_networks (autologinConfig cr d))"
  have "token \<noteq> ''''" using assms(1) t by (auto simp: onRequest_def)
  moreover have "\<exists>d2. getValidSession cr now token d = (Some (ax_session a), d2)"
    using assms(1) t by (auto simp: onRequest_def split: if_splits prod.splits option.splits)
  then have "fst (getValidSession cr now token d') = Some (ax_session a) \<and> snd (getValidSession cr now token d') = d'"
    using assms(2) by (auto simp: getValidSession_def Let_def split: option.splits if_splits)
  then have "getValidSession cr now token d' = (Some (ax_session a), d')" by (metis prod.collapse)
  moreover have "sr_user_id (ax_session a) = u_id (ax_user a)" "sr_auth_methods (ax_session a) = ses_auth_methods row"
    using getUserById_SomeD [OF a(2)] by (simp_all add: a(1) toSessionRecord_def)
  ultimately show ?thesis using t auto assms(3,4) by (auto simp: onRequest_def)
qed

text \<open>
  Promotion takes effect in running sessions, those of automatic sign-in included:
  after an accepted request that makes an account an administrator, a client that was
  signed in to it before, if only by its network address, passes the administrators' guard
  with the session it already has.
\<close>

theorem promoted_autologin_is_admin:
  assumes "onRequest cr now ip cookie d = (Some a, d1)"
    and "patchUser email_ok me (u_id (ax_user a)) \<lparr>uuf_display_name = None, uuf_email = None, uuf_role = Some Admin, uuf_disabled = None\<rparr> d = (Sent u, d')"
  shows "requireAdmin (fst (onRequest cr now ip cookie d')) = None"
proof -
  let ?i = "u_id (ax_user a)"
  let ?f = "\<lparr>uuf_display_name = None, uuf_email = None, uuf_role = Some Admin, uuf_disabled = None\<rparr>"
  obtain f where f: "updateSchema email_ok ?f = Some f"
    and d': "d' = (if uuf_disabled f = Some True then deleteAllForUser ?i (updateUser ?i f d) else updateUser ?i f d)"
    and i: "?i \<in> user_ids d"
    by (rule patchUser_Sent [OF assms(2)])
  have "f = ?f" using f by (simp add: updateSchema_def Let_def)
  then have d': "d' = update_users ?i (apply_user_fields ?f) d" using d' by (simp add: updateUser_def)
  obtain u where u: "getUserById d ?i = Some u" using i getUserById_None_iff by fastforce
  then obtain r where "userRow d ?i = Some r" by (auto simp: getUserById_def)
  then have "getUserById d' ?i = Some (toUser (apply_user_fields ?f r))"
    by (simp add: d' getUserById_def userRow_update_users)
  then have "fst (onRequest cr now ip cookie d') = Some \<lparr>ax_user = toUser (apply_user_fields ?f r), ax_session = ax_session a\<rparr>"
    by (intro onRequest_again [OF assms(1)])
      (simp_all add: d' update_users_def autologinConfig_def getSetting_def settingRow_def)
  moreover have "to_role (role_text Admin) = Admin" by simp
  ultimately show ?thesis by (simp add: requireAdmin_def apply_user_fields_def)
qed

definition tablet_config :: autologin_config where
  "tablet_config = \<lparr>al_enabled = True, al_user_id = Some ''u1'', al_networks = [''192.168.1.0/24'']\<rparr>"

definition tablet_db :: db where
  "tablet_db = setAutologinConfig sample_crypto tablet_config
     (sample_db\<lparr>db_sessions := [\<lparr>ses_id = hashToken sample_crypto ''t'', ses_user_id = ''u1'', ses_auth_methods = [Autologin], ses_user_agent = None,
        ses_ip = None, ses_created_at = 0, ses_expires_at = 9\<rparr>]\<rparr>)"

theorem promoted_autologin_is_admin_witness:
  "\<exists>d'. map ses_auth_methods (db_sessions d') = [[Autologin]] \<and>
     requireAdmin (fst (onRequest sample_crypto 5 ''192.168.1.40'' (Some ''t'') d')) = None"
proof -
  let ?f = "\<lparr>uuf_display_name = None, uuf_email = None, uuf_role = Some Admin, uuf_disabled = None\<rparr>"
  have conf: "autologinConfig sample_crypto tablet_db = tablet_config" unfolding tablet_db_def by (rule autologinConfig_set) (simp add: tablet_config_def)
  have ses: "db_sessions tablet_db = [\<lparr>ses_id = hashToken sample_crypto ''t'', ses_user_id = ''u1'', ses_auth_methods = [Autologin], ses_user_agent = None,
        ses_ip = None, ses_created_at = 0, ses_expires_at = 9\<rparr>]"
    and usr: "db_users tablet_db = [sample_user, sample_admin]"
    by (simp_all add: tablet_db_def setAutologinConfig_def setSetting_def Let_def sample_db_def)
  have net: "addressMatches ''192.168.1.40'' [''192.168.1.0/24'']" by code_simp
  have one: "getUserById tablet_db ''u1'' = Some (toUser sample_user)"
    by (simp add: getUserById_def userRow_def usr sample_user_def sql_get_def)
  have valid: "getValidSession sample_crypto 5 ''t'' tablet_db = (Some (toSessionRecord (hd (db_sessions tablet_db))), tablet_db)"
    by (simp add: getValidSession_def ses sql_get_def)
  then have "onRequest sample_crypto 5 ''192.168.1.40'' (Some ''t'') tablet_db =
      (Some \<lparr>ax_user = toUser sample_user, ax_session = toSessionRecord (hd (db_sessions tablet_db))\<rparr>, tablet_db)"
    using net one by (simp add: onRequest_def ses toSessionRecord_def conf tablet_config_def)
  moreover obtain p d' where run: "patchUser (\<lambda>_. True) ''a1'' ''u1'' ?f tablet_db = (p, d')" by fastforce
  moreover have "p = Sent (getUserById d' ''u1'')" "db_sessions d' = db_sessions tablet_db"
    using run one by (auto simp: patchUser_def updateSchema_def Let_def updateUser_def update_users_def)
  moreover have "usr_id sample_user = ''u1''" by (simp add: sample_user_def)
  ultimately show ?thesis
    using promoted_autologin_is_admin [of sample_crypto 5 "''192.168.1.40''" "Some ''t''" tablet_db _ tablet_db "\<lambda>_. True" "''a1''" "getUserById d' ''u1''" d'] ses
    by (intro exI [of _ d']) auto
qed

end
