(* ===== verification/ShareProps.thy ===== *)
theory ShareProps
  imports AdminShares ServiceProps AdminProps
begin

text \<open>
  What the administration of shares and groups guarantees: the files of the daemons follow
  every change, creating a share is all or nothing, and where accounts and the daemons
  fall apart.
\<close>

subsection \<open>The daemons' files follow the tables\<close>

datatype share_request =
    PostShare string millis create_share_input
  | PatchShare string share_changes
  | DeleteShare string
  | PostNfsRule string millis string string string "bool option"
  | DeleteNfsRule string string
  | GetAcls string
  | PostAcl string millis set_acl_input
  | DeleteAcl string string
  | PostGroup string millis string "string option"
  | PatchGroup string "string option" "string list option"
  | DeleteGroup string
  | PutServices services_patch

record share_server =
  ss_db :: db
  ss_fs :: fs
  ss_files :: "(string \<times> string option) list"

definition last_files :: "host_effect list \<Rightarrow> (string \<times> string option) list \<Rightarrow> (string \<times> string option) list" where
  "last_files fx w = fold (\<lambda>x w. case x of WriteConfigs fs \<Rightarrow> fs | _ \<Rightarrow> w) fx w"

text \<open>One request: whether it was answered without an internal error, and the state after it.\<close>

definition no_crash :: "'a reply \<Rightarrow> bool" where
  "no_crash r \<longleftrightarrow> (case r of Sent x \<Rightarrow> True | Refused n c \<Rightarrow> n \<noteq> 500)"

fun run_share :: "host_env \<Rightarrow> share_request \<Rightarrow> share_server \<Rightarrow> bool \<times> share_server" where
  "run_share e (PostShare newId now b) s =
     (case postShare e newId now b (ss_db s) (ss_fs s) of (r, d, f, fx) \<Rightarrow>
        (no_crash r, \<lparr>ss_db = d, ss_fs = f, ss_files = last_files fx (ss_files s)\<rparr>))"
| "run_share e (PatchShare i b) s =
     (case patchShare e i b (ss_db s) of (r, d, fx) \<Rightarrow> (no_crash r, s\<lparr>ss_db := d, ss_files := last_files fx (ss_files s)\<rparr>))"
| "run_share e (DeleteShare i) s =
     (case deleteShareRoute e i (ss_db s) of (r, d, fx) \<Rightarrow> (no_crash r, s\<lparr>ss_db := d, ss_files := last_files fx (ss_files s)\<rparr>))"
| "run_share e (PostNfsRule newId now i network level squash) s =
     (case postNfsRule e newId now i network level squash (ss_db s) of (r, d, fx) \<Rightarrow>
        (no_crash r, s\<lparr>ss_db := d, ss_files := last_files fx (ss_files s)\<rparr>))"
| "run_share e (DeleteNfsRule i ruleId) s =
     (case deleteNfsRuleRoute e i ruleId (ss_db s) of (r, d, fx) \<Rightarrow> (no_crash r, s\<lparr>ss_db := d, ss_files := last_files fx (ss_files s)\<rparr>))"
| "run_share e (GetAcls i) s = (case getShareAcls i (ss_db s) of (r, d) \<Rightarrow> (no_crash r, s\<lparr>ss_db := d\<rparr>))"
| "run_share e (PostAcl newId now inp) s =
     (case postShareAcl e newId now inp (ss_fs s) (ss_db s) of (r, d) \<Rightarrow> (no_crash r, s\<lparr>ss_db := d\<rparr>))"
| "run_share e (DeleteAcl i aclId) s = (case deleteShareAcl i aclId (ss_db s) of (r, d) \<Rightarrow> (no_crash r, s\<lparr>ss_db := d\<rparr>))"
| "run_share e (PostGroup newId now name description) s =
     (case postGroup newId now name description (ss_db s) of (r, d, fx) \<Rightarrow>
        (no_crash r, s\<lparr>ss_db := d, ss_files := last_files fx (ss_files s)\<rparr>))"
| "run_share e (PatchGroup i description members) s =
     (case patchGroup e i description members (ss_db s) of (r, d, fx) \<Rightarrow>
        (no_crash r, s\<lparr>ss_db := d, ss_files := last_files fx (ss_files s)\<rparr>))"
| "run_share e (DeleteGroup i) s =
     (case deleteGroupRoute e i (ss_db s) of (r, d, fx) \<Rightarrow> (no_crash r, s\<lparr>ss_db := d, ss_files := last_files fx (ss_files s)\<rparr>))"
| "run_share e (PutServices p) s =
     (case putServices (he_crypto e) (he_services e) (\<lambda>p. False) p (ss_db s) of (r, d, fx) \<Rightarrow>
        (no_crash r, s\<lparr>ss_db := d, ss_files := last_files fx (ss_files s)\<rparr>))"

definition generated :: "host_env \<Rightarrow> db \<Rightarrow> (string \<times> string option) list" where
  "generated e d = applyGeneratedConfigs (he_crypto e) (he_services e) d"

definition group_refs :: "db \<Rightarrow> bool" where
  "group_refs d \<longleftrightarrow> (\<forall>p \<in> set (db_share_group_perms d). sgp_group_id p \<in> group_ids d)"

definition in_step :: "host_env \<Rightarrow> share_server \<Rightarrow> bool" where
  "in_step e s \<longleftrightarrow> ss_files s = generated e (ss_db s) \<and> group_refs (ss_db s)"

lemma last_files_simps [simp]:
  "last_files [] w = w" "last_files (WriteConfigs fs # fx) w = last_files fx fs" "last_files (ReloadFileServices # fx) w = last_files fx w"
  "last_files (ApplyServiceStates x y z # fx) w = last_files fx w"
  "last_files (SyncShareGroup g us # fx) w = last_files fx w" "last_files (RemoveShareGroup g # fx) w = last_files fx w"
  "last_files (SetShareQuota a b c q # fx) w = last_files fx w" "last_files (fx @ gx) w = last_files gx (last_files fx w)"
  by (simp_all add: last_files_def)

lemma last_files_regenerate [simp]:
  "last_files (regenerate e d) w = generated e d" "last_files (regenerate_reload e d) w = generated e d"
  by (simp_all add: regenerate_def regenerate_reload_def generated_def)

text \<open>What the files depend on.\<close>

lemma generated_cong:
  assumes "db_shares d' = db_shares d" "db_share_perms d' = db_share_perms d" "db_users d' = db_users d"
    "db_share_group_perms d' = db_share_group_perms d" "db_nfs_rules d' = db_nfs_rules d" "db_settings d' = db_settings d"
    and "\<And>p. p \<in> set (db_share_group_perms d) \<Longrightarrow> groupRow d' (sgp_group_id p) = groupRow d (sgp_group_id p)"
  shows "generated e d' = generated e d"
proof -
  have "List.map_filter (\<lambda>p. if sgp_share_id p = i then map_option (Pair p) (groupRow d' (sgp_group_id p)) else None) (db_share_group_perms d) =
     List.map_filter (\<lambda>p. if sgp_share_id p = i then map_option (Pair p) (groupRow d (sgp_group_id p)) else None) (db_share_group_perms d)" for i
    using assms(7) by (auto simp: map_filter_def intro!: arg_cong [where f = "map the"] map_cong filter_cong)
  moreover have "userRow d' = userRow d" using assms(3) by (simp add: fun_eq_iff userRow_def)
  ultimately have "toShare d' = toShare d"
    using assms(1-6) by (simp add: toShare_def getPermissions_def getGroupPermissions_def listNfsRules_def fun_eq_iff cong: if_cong)
  moreover have "getServicesConfig (he_crypto e) d' = getServicesConfig (he_crypto e) d"
    using assms(6) by (simp add: getServicesConfig_def getSetting_def settingRow_def)
  ultimately show ?thesis using assms(1) by (simp add: generated_def applyGeneratedConfigs_def listShares_def)
qed

lemma generated_acls [simp]: "generated e (d\<lparr>db_acls := t\<rparr>) = generated e d"
  by (rule generated_cong) (simp_all add: groupRow_def)

lemma group_refs_frame [simp]:
  "group_refs (d\<lparr>db_acls := t\<rparr>) = group_refs d" "group_refs (d\<lparr>db_shares := t1\<rparr>) = group_refs d"
  "group_refs (d\<lparr>db_nfs_rules := t2\<rparr>) = group_refs d" "group_refs (d\<lparr>db_share_perms := t3\<rparr>) = group_refs d"
  "group_refs (d\<lparr>db_members := t4\<rparr>) = group_refs d" "group_refs (d\<lparr>db_settings := t5\<rparr>) = group_refs d"
  by (simp_all add: group_refs_def group_ids_def)

text \<open>Each operation keeps the reference of a group grant to its group.\<close>

lemma refs_insert:
  "insert_group_perms d i ps t = Inr t' \<Longrightarrow> sgp_group_id ` set t \<subseteq> group_ids d \<Longrightarrow> sgp_group_id ` set t' \<subseteq> group_ids d"
proof (induction ps arbitrary: t)
  case (Cons p ps)
  obtain g l where p: "p = (g, l)" by fastforce
  let ?t = "sql_replace (\<lambda>q. sgp_share_id q = i \<and> sgp_group_id q = g)
      \<lparr>sgp_share_id = i, sgp_group_id = g, sgp_level = (if l = ''ro'' then ''ro'' else ''rw'')\<rparr> t"
  have g: "g \<in> group_ids d" and run: "insert_group_perms d i ps ?t = Inr t'"
    using Cons.prems(1) groupRow_None_iff [of d g] by (auto simp: p split: if_splits)
  have "sgp_group_id ` set ?t \<subseteq> group_ids d"
    using Cons.prems(2) g by (auto simp: sql_replace_def set_sql_delete)
  then show ?case using Cons.IH run by blast
qed simp

lemma refs_setGroupPermissions: "setGroupPermissions i ps d = Inr d' \<Longrightarrow> group_refs d \<Longrightarrow> group_refs d'"
  unfolding setGroupPermissions_def
  using refs_insert [of d i ps "sql_delete (\<lambda>p. sgp_share_id p = i) (db_share_group_perms d)"]
  by (cases "insert_group_perms d i ps (sql_delete (\<lambda>p. sgp_share_id p = i) (db_share_group_perms d))")
    (auto simp: group_refs_def group_ids_def set_sql_delete image_subset_iff)

lemma refs_deletes:
  "group_refs d \<Longrightarrow> group_refs (deleteShare i d)" "group_refs d \<Longrightarrow> group_refs (deleteGroup i d)"
  "group_refs d \<Longrightarrow> group_refs (updateShare i f d)" "group_refs d \<Longrightarrow> group_refs (snd (ensureQuotaProjectId i d))"
  by (auto simp: group_refs_def group_ids_def deleteShare_def deleteGroup_def set_sql_delete updateShare_def
      ensureQuotaProjectId_def Let_def split: option.split nat.split)

lemma refs_setPermissions: "setPermissions i ps d = Inr d' \<Longrightarrow> group_refs d' = group_refs d"
  by (cases "insert_perms d i ps (sql_delete (\<lambda>p. spm_share_id p = i) (db_share_perms d))") (auto simp: setPermissions_def)

lemma group_ids_frame [simp]:
  "group_ids (d\<lparr>db_shares := t1\<rparr>) = group_ids d" "group_ids (d\<lparr>db_acls := t2\<rparr>) = group_ids d"
  "group_ids (d\<lparr>db_members := t3\<rparr>) = group_ids d"
  by (simp_all add: group_ids_def)

lemma refs_setMembers: "setMembers i us d = Inr d' \<Longrightarrow> group_refs d' = group_refs d"
  by (auto simp: setMembers_def bind_ok_def split: sum.splits)

lemma refs_updateGroup: "updateGroup i None t d = Inr d' \<Longrightarrow> group_refs d' = group_refs d"
  by (cases t) (auto simp: updateGroup_def Let_def group_refs_def group_ids_def image_sql_update simp del: set_sql_update)

lemma createGroup_in_step:
  assumes "createGroup newId now n t d = Inr (g, d')" and "group_refs d"
  shows "generated e d' = generated e d" and "group_refs d'"
proof -
  let ?row = "\<lparr>grp_id = newId, grp_name = n, grp_description = t, grp_created_at = now\<rparr>"
  have d': "d' = d\<lparr>db_groups := db_groups d @ [?row]\<rparr>" and fresh: "newId \<notin> group_ids d"
    using assms(1) by (auto simp: createGroup_def Let_def group_ids_def sql_exists_iff split: if_splits)
  show "group_refs d'" using assms(2) by (auto simp: d' group_refs_def group_ids_def)
  have "groupRow d' i = groupRow d i" if "i \<in> group_ids d" for i
  proof -
    have "i \<noteq> newId" using that fresh by blast
    then show ?thesis by (simp add: d' groupRow_def sql_get_append split: option.split)
  qed
  then show "generated e d' = generated e d"
    using assms(2) by (intro generated_cong) (auto simp: d' group_refs_def)
qed

lemma refs_opt:
  assumes "opt_sql g x d = Inr d'" and "\<And>v. x = Some v \<Longrightarrow> g v d = Inr d' \<Longrightarrow> group_refs d'" and "group_refs d"
  shows "group_refs d'"
  using assms by (cases x) (auto simp: opt_sql_def)

lemma refs_quota: "group_refs d \<Longrightarrow> applyShareQuota e i d = (w, d', fx) \<Longrightarrow> group_refs d'"
  using refs_deletes(4) [of d i]
  by (auto simp: applyShareQuota_def Let_def split: option.splits prod.splits if_splits)

lemma in_step_regenerated:
  "in_step e \<lparr>ss_db = d, ss_fs = f, ss_files = generated e d\<rparr> = group_refs d"
  by (simp add: in_step_def)

lemma share_step_in_step:
  assumes "in_step e s" and "run_share e r s = (True, t)"
  shows "in_step e t"
proof (cases r)
  case (PostShare newId now b)
  then show ?thesis using assms
    by (auto simp: in_step_def postShare_def no_crash_def createShare_def Let_def split: if_splits sum.splits option.splits)
next
  case (PatchShare i b)
  have refs: "group_refs (ss_db s)" using assms(1) by (simp add: in_step_def)
  show ?thesis
  proof (cases "opt_sql (setPermissions i) (sgc_permissions b) (updateShare i (sgc_fields b) (ss_db s))")
    case (Inr d2)
    have d2: "group_refs d2"
      by (rule refs_opt [OF Inr]) (use refs_setPermissions refs_deletes(3) [OF refs] in blast)+
    show ?thesis
    proof (cases "opt_sql (setGroupPermissions i) (sgc_groups b) d2")
      case inner: (Inr d3)
      have "group_refs d3" by (rule refs_opt [OF inner]) (use refs_setGroupPermissions d2 in blast)+
      then show ?thesis using assms Inr inner PatchShare
        by (auto simp: in_step_def patchShare_def no_crash_def Let_def intro: refs_quota split: if_splits prod.splits)
    qed (use assms Inr PatchShare in \<open>auto simp: in_step_def patchShare_def no_crash_def Let_def split: if_splits\<close>)
  qed (use assms PatchShare in \<open>auto simp: in_step_def patchShare_def no_crash_def Let_def split: if_splits\<close>)
next
  case (DeleteShare i)
  then show ?thesis using assms
    by (auto simp: in_step_def deleteShareRoute_def no_crash_def Let_def refs_deletes split: if_splits)
next
  case (PostNfsRule newId now i network level squash)
  then show ?thesis using assms
    by (auto simp: in_step_def postNfsRule_def setNfsRule_def no_crash_def regenerate_def generated_def bind_ok_def Let_def
        split: if_splits sum.splits option.splits)
next
  case (DeleteNfsRule i ruleId)
  then show ?thesis using assms
    by (auto simp: in_step_def deleteNfsRuleRoute_def deleteNfsRule_def no_crash_def Let_def split: if_splits)
next
  case (GetAcls i)
  then show ?thesis using assms
    by (auto simp: in_step_def getShareAcls_def pruneOrphanAcls_def no_crash_def Let_def split: if_splits)
next
  case (PostAcl newId now inp)
  then show ?thesis using assms
    by (auto simp: in_step_def postShareAcl_def setAcl_def no_crash_def Let_def split: if_splits sum.splits option.splits)
next
  case (DeleteAcl i aclId)
  then show ?thesis using assms
    by (auto simp: in_step_def deleteShareAcl_def deleteAcl_def no_crash_def Let_def split: if_splits)
next
  case (PostGroup newId now name description)
  then show ?thesis using assms createGroup_in_step
    by (auto simp: in_step_def postGroup_def no_crash_def Let_def split: if_splits sum.splits)
next
  case (PatchGroup i description members)
  have refs: "group_refs (ss_db s)" using assms(1) by (simp add: in_step_def)
  have "group_refs d2" if "opt_sql (setMembers i) members (ss_db s) = Inr d1"
      "opt_sql (\<lambda>t. updateGroup i None (Some (js_trim t))) description d1 = Inr d2" for d1 d2
    using refs_opt [OF that(2)] refs_opt [OF that(1)] refs_updateGroup refs_setMembers refs by blast
  then show ?thesis using assms PatchGroup
    by (auto simp: in_step_def patchGroup_def no_crash_def split: if_splits sum.splits option.splits)
next
  case (DeleteGroup i)
  then show ?thesis using assms
    by (auto simp: in_step_def deleteGroupRoute_def no_crash_def Let_def refs_deletes split: if_splits option.splits)
next
  case (PutServices p)
  then show ?thesis using assms
    by (auto simp: in_step_def putServices_def setServicesConfig_def setSetting_def generated_def no_crash_def Let_def
        split: if_splits)
qed

fun serve_shares :: "host_env \<Rightarrow> share_request list \<Rightarrow> share_server \<Rightarrow> share_server option" where
  "serve_shares e [] s = Some s"
| "serve_shares e (r # rs) s = (case run_share e r s of (ok, t) \<Rightarrow> if ok then serve_shares e rs t else None)"

text \<open>
  C21. Through any sequence of requests that create, change or delete shares, export rules,
  folder rules or groups or change the service settings, none of which ended in an internal
  error, the files last written for Samba, NFS and Avahi are the ones generated from the
  tables as they are now.  The routes that do not regenerate (folder rules, a new group) are
  the ones the files do not depend on.
\<close>

theorem configs_follow:
  assumes "in_step e s" and "serve_shares e rs s = Some t"
  shows "in_step e t"
  using assms
proof (induction rs arbitrary: s)
  case (Cons r rs)
  then obtain u where "run_share e r s = (True, u)" "serve_shares e rs u = Some t" by (auto split: prod.splits if_splits)
  then show ?case using Cons.IH share_step_in_step [OF Cons.prems(1)] by blast
qed simp

definition sample_host :: host_env where
  "sample_host = \<lparr>he_services = sample_services_env, he_crypto = sample_crypto, he_volumes = [''tank''],
     he_quota = (\<lambda>v. \<lparr>qs_supported = True, qs_active = True\<rparr>), he_quota_enabled = (\<lambda>v. \<lparr>qs_supported = True, qs_active = True\<rparr>),
     he_quota_used = (\<lambda>v p. Some 0), he_set_quota = (\<lambda>v s p q. True), he_enable_quotas = (\<lambda>v. True)\<rparr>"

definition new_share :: "string \<Rightarrow> create_share_input" where
  "new_share n = \<lparr>csi_name = n, csi_comment = None, csi_guest_access = None, csi_smb_enabled = None, csi_nfs_enabled = Some True,
     csi_browseable = None, csi_volume = None, csi_recycle_enabled = None, csi_time_machine = None\<rparr>"

definition sample_nas_server :: share_server where
  "sample_nas_server = \<lparr>ss_db = sample_db, ss_fs = [([], DirNode)], ss_files = applyGeneratedConfigs sample_crypto sample_services_env sample_db\<rparr>"

definition sample_requests :: "share_request list" where
  "sample_requests = [PostShare ''s1'' 5 (new_share ''docs''), PostGroup ''g1'' 6 ''staff'' None,
     PatchShare ''s1'' \<lparr>sgc_fields = \<lparr>usf_comment = None, usf_guest_access = None, usf_smb_enabled = None, usf_nfs_enabled = None,
        usf_browseable = None, usf_recycle_enabled = None, usf_time_machine = None, usf_quota_bytes = Some 1024\<rparr>,
        sgc_permissions = Some [(''u1'', ''rw'')], sgc_groups = Some [(''g1'', ''ro'')]\<rparr>,
     PatchGroup ''g1'' None (Some [''u1'']), PostNfsRule ''n1'' 7 ''s1'' ''10.0.0.0/8'' ''rw'' None]"

theorem configs_follow_witness:
  "\<exists>t. serve_shares sample_host sample_requests sample_nas_server = Some t \<and> in_step sample_host t \<and> length (db_nfs_rules (ss_db t)) = 1"
proof -
  have "in_step sample_host sample_nas_server"
    by (simp add: in_step_def generated_def sample_nas_server_def sample_host_def group_refs_def sample_db_def empty_db_def)
  moreover have "map_option (\<lambda>t. length (db_nfs_rules (ss_db t))) (serve_shares sample_host sample_requests sample_nas_server) = Some 1"
    by code_simp
  ultimately show ?thesis using configs_follow by (auto simp: map_option_case split: option.splits)
qed

subsection \<open>Creating a share\<close>

definition fresh_share :: "string \<Rightarrow> db \<Rightarrow> bool" where
  "fresh_share i d \<longleftrightarrow> list_all (\<lambda>p. spm_share_id p \<noteq> i) (db_share_perms d) \<and>
     list_all (\<lambda>p. sgp_share_id p \<noteq> i) (db_share_group_perms d) \<and>
     list_all (\<lambda>a. acl_share_id a \<noteq> i) (db_acls d) \<and> list_all (\<lambda>r. nfs_share_id r \<noteq> i) (db_nfs_rules d)"

lemma delete_none: "list_all (\<lambda>r. \<not> P r) t \<Longrightarrow> sql_delete P t = t"
  by (simp add: sql_delete_def list_all_iff)

lemma created_then_deleted:
  assumes "createShare i now inp d = Inr (s, d')" and "fresh_share i d"
  shows "deleteShare (sh_id s) d' = d"
proof -
  have "list_all (\<lambda>r. shr_id r \<noteq> i) (db_shares d)"
    and d': "d' = d\<lparr>db_shares := db_shares d @ [new_share_row i now inp]\<rparr>" and i: "sh_id s = i"
    using assms(1) by (auto simp: createShare_def Let_def sql_exists_iff toShare_def new_share_row_def list_all_iff split: if_splits)
  then have "sql_delete (\<lambda>r. shr_id r = i) (db_shares d @ [new_share_row i now inp]) = db_shares d"
    by (auto simp: sql_delete_def new_share_row_def filter_id_conv list_all_iff)
  then show ?thesis using assms(2) by (simp add: deleteShare_def d' i fresh_share_def delete_none)
qed

text \<open>
  Creating a share is all or nothing: a refusal - a bad name, a name in use, an unknown
  volume, a folder that cannot be made - leaves the tables, the tree and the files of the
  daemons as they were, and success leaves a share of the trimmed name with its folder in
  place, no grant for anybody, and the files generated with it.
\<close>

theorem share_creation_atomic:
  assumes "fresh_share newId d" and "postShare e newId now b d f = (r, d', f', fx)"
  shows "case r of
     Refused n c \<Rightarrow> d' = d \<and> f' = f \<and> fx = []
   | Sent s \<Rightarrow> validateName (js_trim (csi_name b)) = Inr (sh_name s) \<and> getShareRowByName d (sh_name s) = None \<and>
       sh_permissions s = [] \<and> sh_group_permissions s = [] \<and> getShareById d' newId = Some s \<and>
       lstat f' (shareBasePath (se_config (he_services e)) s) = Some DirNode \<and> fx = regenerate_reload e d'"
proof (cases r)
  case (Refused n c)
  then show ?thesis using assms(2) created_then_deleted [OF _ assms(1)]
    by (auto simp: postShare_def split: if_splits sum.splits option.splits)
next
  case (Sent s)
  then obtain name where name: "validateName (js_trim (csi_name b)) = Inr name" "getShareRowByName d name = None"
    and new: "createShare newId now (b\<lparr>csi_name := name\<rparr>) d = Inr (s, d')"
    and dir: "mkdir_recursive (shareBasePath (se_config (he_services e)) s) f = Some f'" and fx: "fx = regenerate_reload e d'"
    using assms(2) by (auto simp: postShare_def split: if_splits sum.splits option.splits)
  have "newId \<notin> shr_id ` set (db_shares d)"
    and d': "d' = d\<lparr>db_shares := db_shares d @ [new_share_row newId now (b\<lparr>csi_name := name\<rparr>)]\<rparr>"
    and s: "s = toShare d' (new_share_row newId now (b\<lparr>csi_name := name\<rparr>))"
    using new by (auto simp: createShare_def Let_def sql_exists_iff split: if_splits)
  then have "getShareById d' newId = Some s"
    by (auto simp: getShareById_def shareRow_def sql_get_append sql_get_None new_share_row_def split: option.split dest!: sql_get_SomeD)
  moreover have "sh_permissions s = []" "sh_group_permissions s = []" "sh_name s = name"
    using assms(1) by (auto simp: s toShare_def getPermissions_def getGroupPermissions_def d' fresh_share_def list_all_iff
        new_share_row_def List.map_filter_def order_asc_def)
  moreover have "lstat f' (shareBasePath (se_config (he_services e)) s) = Some DirNode"
    using dir by (auto simp: mkdir_recursive_def lstat_def intro: mkdir_steps_dirs)
  ultimately show ?thesis using Sent name fx by simp
qed

theorem share_creation_atomic_witness:
  "case postShare sample_host ''s1'' 5 (new_share '' docs '') sample_db [([], DirNode)] of
     (Sent s, d', f', fx) \<Rightarrow> sh_name s = ''docs'' \<and> lstat f' (shareBasePath sample_config s) = Some DirNode
   | _ \<Rightarrow> False"
proof -
  obtain r d' f' fx where run: "postShare sample_host ''s1'' 5 (new_share '' docs '') sample_db [([], DirNode)] = (r, d', f', fx)"
    by (metis prod.exhaust)
  have "fresh_share ''s1'' sample_db" by code_simp
  note atomic = share_creation_atomic [OF this run]
  have "(case fst (postShare sample_host ''s1'' 5 (new_share '' docs '') sample_db [([], DirNode)]) of
      Sent s \<Rightarrow> sh_name s = ''docs'' | Refused n c \<Rightarrow> False)" by code_simp
  then show ?thesis using atomic run by (cases r) (auto simp: sample_host_def sample_services_env_def)
qed

subsection \<open>Accounts and the daemons\<close>

text \<open>Changing an account, disabling it included, changes nothing in who may use a share over SMB.\<close>

lemma updateUser_row:
  "map_option usr_username (userRow (updateUser i f d) u) = map_option usr_username (userRow d u)"
proof -
  have "map_option usr_username (sql_get (\<lambda>r. usr_id r = u) (sql_update (\<lambda>r. usr_id r = i) (apply_user_fields f) t)) =
     map_option usr_username (sql_get (\<lambda>r. usr_id r = u) t)" for t
    by (induction t) (auto simp: apply_user_fields_def)
  then show ?thesis by (simp add: updateUser_def update_users_def userRow_def)
qed

lemma smb_names:
  "set (smb_readers (toShare d row)) = {n. \<exists>q \<in> set (db_share_perms d). spm_share_id q = shr_id row \<and>
      map_option usr_username (userRow d (spm_user_id q)) = Some n} \<union> (\<lambda>g. ''@'' @ sg_name g) ` set (getGroupPermissions d (shr_id row))"
proof -
  have "sp_username ` set (getPermissions d i) = {n. \<exists>q \<in> set (db_share_perms d). spm_share_id q = i \<and>
      map_option usr_username (userRow d (spm_user_id q)) = Some n}" for i
  proof (rule set_eqI)
    fix n
    have "n \<in> sp_username ` set (getPermissions d i) \<longleftrightarrow>
      (\<exists>q u. q \<in> set (db_share_perms d) \<and> spm_share_id q = i \<and> userRow d (spm_user_id q) = Some u \<and> usr_username u = n)"
      unfolding image_iff Bex_def set_getPermissions by (safe; force)
    then show "n \<in> sp_username ` set (getPermissions d i) \<longleftrightarrow> n \<in> {n. \<exists>q \<in> set (db_share_perms d). spm_share_id q = i \<and>
        map_option usr_username (userRow d (spm_user_id q)) = Some n}" by (simp only: mem_Collect_eq Bex_def map_option_eq_Some) blast
  qed
  then show ?thesis by (simp add: smb_readers_def toShare_def)
qed

lemma patchUser_row:
  assumes "patchUser email_ok me i body d = (r, d')"
  obtains f where "d' = d \<or> d' = updateUser i f d \<or> d' = deleteAllForUser i (updateUser i f d)"
  using assms by (auto simp: patchUser_def Let_def split: option.splits if_splits)

theorem disabled_keeps_smb:
  assumes "patchUser email_ok me i body d = (r, d')"
  shows "set (valid_users (toShare d' row)) = set (valid_users (toShare d row))"
proof -
  have sessions: "userRow (deleteAllForUser i e) = userRow e" for e
    by (simp add: deleteAllForUser_def userRow_def fun_eq_iff)
  have names: "map_option usr_username (userRow d' u) = map_option usr_username (userRow d u)" for u
    by (rule patchUser_row [OF assms]) (auto simp: updateUser_row sessions)
  have "db_share_perms d' = db_share_perms d" "db_share_group_perms d' = db_share_group_perms d" "db_groups d' = db_groups d"
    by (rule patchUser_row [OF assms]; auto simp: deleteAllForUser_def updateUser_def update_users_def)+
  then have "set (smb_readers (toShare d' row)) = set (smb_readers (toShare d row))"
    unfolding smb_names names by (simp add: getGroupPermissions_def groupRow_def cong: if_cong)
  then show ?thesis by (simp add: valid_users_def) (simp add: toShare_def)
qed

end
