(* ===== verification/Calendar.thy ===== *)
theory Calendar
  imports JsText
begin

text \<open>
  The part of JavaScript's \<open>Date\<close> the schedules use: instants are milliseconds since 1970,
  and local time is an instant moved by a fixed offset.  A day is counted from 1 January
  1970, a month from January 1970.  Time zones that change their offset are not modelled,
  nor instants before 1970.
\<close>

definition DAY :: int where "DAY = 86400000"

definition leap_year :: "nat \<Rightarrow> bool" where
  "leap_year y \<longleftrightarrow> y mod 4 = 0 \<and> (y mod 100 \<noteq> 0 \<or> y mod 400 = 0)"

definition month_len :: "nat \<Rightarrow> nat" where
  "month_len m =
     (let y = 1970 + m div 12; k = m mod 12 in
      if k = 1 then (if leap_year y then 29 else 28) else if k \<in> {3, 5, 8, 10} then 30 else 31)"

lemma month_len_bounds: "28 \<le> month_len m" "month_len m \<le> 31"
  by (simp_all add: month_len_def Let_def)

fun month_start :: "nat \<Rightarrow> nat" where
  "month_start 0 = 0"
| "month_start (Suc m) = month_start m + month_len m"

text \<open>The month a day lies in and the day's number in it, counted from 0.\<close>

function month_at :: "nat \<Rightarrow> nat \<Rightarrow> nat \<times> nat" where
  "month_at d m = (if d < month_len m then (m, d) else month_at (d - month_len m) (Suc m))"
  by pat_completeness auto
termination
proof (relation "measure fst")
  fix d m :: nat
  assume "\<not> d < month_len m"
  then show "((d - month_len m, Suc m), (d, m)) \<in> measure fst" using month_len_bounds(1) [of m] by simp
qed simp

declare month_at.simps [simp del]

definition week_day :: "nat \<Rightarrow> nat" where
  "week_day d = (d + 4) mod 7"

definition local_day :: "int \<Rightarrow> nat" where
  "local_day l = nat (l div DAY)"

definition at_time :: "nat \<Rightarrow> int \<Rightarrow> int \<Rightarrow> int" where
  "at_time d hour minute = int d * DAY + hour * 3600000 + minute * 60000"

text \<open>\<open>toISOString\<close>, for the years 1970 to 9999.\<close>

definition iso_string :: "int \<Rightarrow> string" where
  "iso_string t =
     (let (m, e) = month_at (nat (t div DAY)) 0; r = nat (t mod DAY); two = (\<lambda>n. pad_start 2 (CHR ''0'') (js_nat n)) in
      pad_start 4 (CHR ''0'') (js_nat (1970 + m div 12)) @ ''-'' @ two (m mod 12 + 1) @ ''-'' @ two (e + 1) @ ''T'' @
      two (r div 3600000) @ '':'' @ two (r div 60000 mod 60) @ '':'' @ two (r div 1000 mod 60) @ ''.'' @
      pad_start 3 (CHR ''0'') (js_nat (r mod 1000)) @ ''Z'')"

subsection \<open>Lemmas\<close>

lemma month_start_mono: "m \<le> k \<Longrightarrow> month_start m \<le> month_start k"
  by (rule lift_Suc_mono_le [of month_start]) simp_all

lemma month_start_less: "m < k \<Longrightarrow> month_start m + month_len m \<le> month_start k"
  using month_start_mono [of "Suc m" k] by simp

lemma month_at_start: "month_at d m = (k, e) \<Longrightarrow> month_start k + e = month_start m + d \<and> e < month_len k"
proof (induction d m rule: month_at.induct)
  case (1 d m)
  show ?case
  proof (cases "d < month_len m")
    case False
    then have "month_at (d - month_len m) (Suc m) = (k, e)" using "1.prems" by (simp add: month_at.simps [of d])
    then show ?thesis using "1.IH" [OF False] False by simp
  qed (use "1.prems" in \<open>simp add: month_at.simps [of d]\<close>)
qed

lemma month_at_unique:
  assumes "month_start k + e = d" and "e < month_len k"
  shows "month_at d 0 = (k, e)"
proof -
  obtain k' e' where at: "month_at d 0 = (k', e')" by fastforce
  then have d: "month_start k' + e' = d" "e' < month_len k'" using month_at_start by fastforce+
  have "k = k'"
  proof (rule linorder_cases)
    show "k < k' \<Longrightarrow> k = k'" using month_start_less [of k k'] d assms by simp
    show "k' < k \<Longrightarrow> k = k'" using month_start_less [of k' k] d assms by simp
  qed
  then show ?thesis using at d assms by simp
qed

lemma at_time_split:
  assumes "0 \<le> hour" "hour < 24" "0 \<le> minute" "minute < 60"
  shows "at_time d hour minute div DAY = int d" "at_time d hour minute mod DAY = hour * 3600000 + minute * 60000"
proof -
  let ?t = "hour * 3600000 + minute * 60000"
  have t: "0 \<le> ?t" "?t < DAY" using assms by (simp_all add: DAY_def)
  have eq: "at_time d hour minute = ?t + int d * DAY" by (simp add: at_time_def)
  have "DAY \<noteq> 0" by (simp add: DAY_def)
  then show "at_time d hour minute div DAY = int d" using t unfolding eq by (subst div_mult_self1) simp_all
  show "at_time d hour minute mod DAY = ?t" using t unfolding eq by (subst mod_mult_self1) simp
qed

lemma time_of_day:
  assumes "0 \<le> l" and "l mod DAY = hour * 3600000 + minute * 60000"
  shows "l = at_time (local_day l) hour minute"
proof -
  have "0 \<le> l div DAY" using assms(1) by (simp add: DAY_def pos_imp_zdiv_nonneg_iff)
  then show ?thesis using div_mult_mod_eq [of l DAY] assms(2) by (simp add: at_time_def local_day_def)
qed

lemma at_time_mono: "at_time d h m \<le> at_time k h m \<longleftrightarrow> d \<le> k"
  by (simp add: at_time_def DAY_def)

lemma day_before: 
  assumes "0 \<le> l" and "at_time d h m > l" and "0 \<le> h" "h < 24" "0 \<le> m" "m < 60"
  shows "local_day l \<le> d"
proof -
  have "l div DAY \<le> at_time d h m div DAY" using assms(2) by (intro zdiv_mono1) (simp_all add: DAY_def)
  then show ?thesis using assms by (simp add: at_time_split local_day_def)
qed

end
