(* ===== verification/SystemTasks.thy ===== *)
theory SystemTasks
  imports Calendar FileSystem AuthRoutes
begin

text \<open>
  Maintenance the server runs to a schedule: when a schedule comes round and the table of
  tasks (\<open>db/system-tasks.ts\<close>), the runner (\<open>system/task-runner.ts\<close>) and the routes of
  \<open>admin/routes.ts\<close>.  \<open>off\<close> is the offset of local time.
\<close>

subsection \<open>When a schedule comes round\<close>

record schedule =
  sd_frequency :: frequency
  sd_hour :: int
  sd_minute :: int
  sd_weekday :: int
  sd_day_of_month :: int

definition weekly_delta :: "schedule \<Rightarrow> nat \<Rightarrow> nat" where
  "weekly_delta s d = (nat (sd_weekday s mod 7) + 7 - week_day d) mod 7"

definition monthly_day :: "schedule \<Rightarrow> nat" where
  "monthly_day s = nat (min (max 1 (sd_day_of_month s)) 31)"

text \<open>\<open>place\<close>: the day of month \<open>m\<close>, clamped to its length.\<close>

definition place :: "schedule \<Rightarrow> nat \<Rightarrow> nat" where
  "place s m = month_start m + min (monthly_day s) (month_len m) - 1"

definition nextRun :: "int \<Rightarrow> schedule \<Rightarrow> millis \<Rightarrow> millis" where
  "nextRun off s from' =
     (let l = from' + off; d = local_day l; at = (\<lambda>k. at_time k (sd_hour s) (sd_minute s)) in
      (case sd_frequency s of
         Daily \<Rightarrow> (if at d \<le> l then at (d + 1) else at d)
       | Weekly \<Rightarrow>
           (let delta = weekly_delta s d; delta' = (if delta = 0 \<and> at d \<le> l then 7 else delta) in at (d + delta'))
       | Monthly \<Rightarrow>
           (let m = fst (month_at d 0)
            in if at (place s m) \<le> l then at (place s (Suc m)) else at (place s m))) - off)"

subsection \<open>The table\<close>

record system_task =
  stt_id :: string
  stt_name :: string
  stt_kind :: string
  stt_target :: string
  stt_schedule :: schedule
  stt_enabled :: bool
  stt_next_run_at :: millis
  stt_last_run_at :: "millis option"
  stt_last_status :: "string option"
  stt_last_output :: "string option"
  stt_created_at :: millis

definition TASK_KINDS :: "string list" where
  "TASK_KINDS = [''config-backup'', ''scrub'', ''trim'', ''smart-test'']"

definition MAX_TASKS :: nat where "MAX_TASKS = 20"
definition MAX_OUTPUT_CHARS :: nat where "MAX_OUTPUT_CHARS = 4000"

definition row_schedule :: "system_task_row \<Rightarrow> schedule" where
  "row_schedule r = \<lparr>sd_frequency = stk_frequency r, sd_hour = stk_hour r, sd_minute = stk_minute r,
     sd_weekday = stk_weekday r, sd_day_of_month = stk_day_of_month r\<rparr>"

definition toSystemTask :: "system_task_row \<Rightarrow> system_task" where
  "toSystemTask r = \<lparr>stt_id = stk_id r, stt_name = stk_name r, stt_kind = stk_kind r, stt_target = stk_target r,
     stt_schedule = row_schedule r, stt_enabled = stk_enabled r, stt_next_run_at = stk_next_run_at r,
     stt_last_run_at = stk_last_run_at r, stt_last_status = stk_last_status r, stt_last_output = stk_last_output r,
     stt_created_at = stk_created_at r\<rparr>"

definition systemTaskRow :: "db \<Rightarrow> string \<Rightarrow> system_task_row option" where
  "systemTaskRow d i = sql_get (\<lambda>r. stk_id r = i) (db_system_tasks d)"

definition listSystemTasks :: "db \<Rightarrow> system_task list" where
  "listSystemTasks d = map toSystemTask (order_asc stk_created_at (db_system_tasks d))"

definition getSystemTask :: "db \<Rightarrow> string \<Rightarrow> system_task option" where
  "getSystemTask d i = map_option toSystemTask (systemTaskRow d i)"

definition countSystemTasks :: "db \<Rightarrow> nat" where
  "countSystemTasks d = length (db_system_tasks d)"

record create_task_input =
  cti_name :: string
  cti_kind :: string
  cti_target :: string
  cti_schedule :: schedule
  cti_enabled :: bool

definition new_system_task :: "int \<Rightarrow> string \<Rightarrow> millis \<Rightarrow> create_task_input \<Rightarrow> system_task_row" where
  "new_system_task off i now inp =
     (let s = cti_schedule inp in
      \<lparr>stk_id = i, stk_name = cti_name inp, stk_kind = cti_kind inp, stk_target = cti_target inp,
       stk_frequency = sd_frequency s, stk_hour = sd_hour s, stk_minute = sd_minute s, stk_weekday = sd_weekday s,
       stk_day_of_month = sd_day_of_month s, stk_enabled = cti_enabled inp, stk_next_run_at = nextRun off s now,
       stk_last_run_at = None, stk_last_status = None, stk_last_output = None, stk_created_at = now\<rparr>)"

definition createSystemTask :: "int \<Rightarrow> string \<Rightarrow> millis \<Rightarrow> create_task_input \<Rightarrow> db \<Rightarrow> sql_error + (system_task \<times> db)" where
  "createSystemTask off i now inp d =
     (let row = new_system_task off i now inp in
      bind_ok (sql_insert stk_id row (db_system_tasks d))
        (\<lambda>t. Inr (toSystemTask row, d\<lparr>db_system_tasks := t\<rparr>)))"

record update_task_input =
  uti_name :: "string option"
  uti_target :: "string option"
  uti_frequency :: "frequency option"
  uti_hour :: "int option"
  uti_minute :: "int option"
  uti_weekday :: "int option"
  uti_day_of_month :: "int option"
  uti_enabled :: "bool option"

definition given :: "'a option \<Rightarrow> 'a \<Rightarrow> 'a" where
  "given x y = (case x of None \<Rightarrow> y | Some v \<Rightarrow> v)"

definition changed_schedule :: "update_task_input \<Rightarrow> schedule \<Rightarrow> schedule" where
  "changed_schedule f s = \<lparr>sd_frequency = given (uti_frequency f) (sd_frequency s), sd_hour = given (uti_hour f) (sd_hour s),
     sd_minute = given (uti_minute f) (sd_minute s), sd_weekday = given (uti_weekday f) (sd_weekday s),
     sd_day_of_month = given (uti_day_of_month f) (sd_day_of_month s)\<rparr>"

definition changed_task :: "int \<Rightarrow> millis \<Rightarrow> update_task_input \<Rightarrow> system_task_row \<Rightarrow> system_task_row" where
  "changed_task off now f r =
     (let s = changed_schedule f (row_schedule r);
          reArm = (s \<noteq> row_schedule r \<or> (uti_enabled f = Some True \<and> \<not> stk_enabled r))
      in r\<lparr>stk_name := given (uti_name f) (stk_name r), stk_target := given (uti_target f) (stk_target r),
           stk_frequency := sd_frequency s, stk_hour := sd_hour s, stk_minute := sd_minute s, stk_weekday := sd_weekday s,
           stk_day_of_month := sd_day_of_month s, stk_enabled := given (uti_enabled f) (stk_enabled r),
           stk_next_run_at := (if reArm then nextRun off s now else stk_next_run_at r)\<rparr>)"

definition updateSystemTask :: "int \<Rightarrow> millis \<Rightarrow> string \<Rightarrow> update_task_input \<Rightarrow> db \<Rightarrow> system_task option \<times> db" where
  "updateSystemTask off now i f d =
     (case systemTaskRow d i of
        None \<Rightarrow> (None, d)
      | Some r \<Rightarrow>
          (let d1 = d\<lparr>db_system_tasks := sql_update (\<lambda>r. stk_id r = i) (changed_task off now f) (db_system_tasks d)\<rparr>
           in (getSystemTask d1 i, d1)))"

definition deleteSystemTask :: "string \<Rightarrow> db \<Rightarrow> bool \<times> db" where
  "deleteSystemTask i d =
     (sql_count (\<lambda>r. stk_id r = i) (db_system_tasks d) > 0,
      d\<lparr>db_system_tasks := sql_delete (\<lambda>r. stk_id r = i) (db_system_tasks d)\<rparr>)"

definition dueSystemTasks :: "millis \<Rightarrow> db \<Rightarrow> system_task list" where
  "dueSystemTasks now d =
     map toSystemTask (order_asc stk_next_run_at (filter (\<lambda>r. stk_enabled r \<and> stk_next_run_at r \<le> now) (db_system_tasks d)))"

definition started_task :: "int \<Rightarrow> millis \<Rightarrow> system_task_row \<Rightarrow> system_task_row" where
  "started_task off now r = r\<lparr>stk_last_run_at := Some now, stk_last_status := Some ''running'', stk_last_output := None,
     stk_next_run_at := nextRun off (row_schedule r) now\<rparr>"

definition markTaskStarted :: "int \<Rightarrow> millis \<Rightarrow> string \<Rightarrow> db \<Rightarrow> db" where
  "markTaskStarted off now i d =
     d\<lparr>db_system_tasks := sql_update (\<lambda>r. stk_id r = i) (started_task off now) (db_system_tasks d)\<rparr>"

definition markTaskFinished :: "string \<Rightarrow> string \<Rightarrow> string \<Rightarrow> db \<Rightarrow> db" where
  "markTaskFinished i status output d =
     d\<lparr>db_system_tasks := sql_update (\<lambda>r. stk_id r = i)
         (\<lambda>r. r\<lparr>stk_last_status := Some status, stk_last_output := Some (take MAX_OUTPUT_CHARS output)\<rparr>) (db_system_tasks d)\<rparr>"

definition clearInterruptedTasks :: "db \<Rightarrow> nat \<times> db" where
  "clearInterruptedTasks d =
     (sql_count (\<lambda>r. stk_last_status r = Some ''running'') (db_system_tasks d),
      d\<lparr>db_system_tasks := sql_update (\<lambda>r. stk_last_status r = Some ''running'')
          (\<lambda>r. r\<lparr>stk_last_status := Some ''error'',
                 stk_last_output := Some ''Interrupted - OpenNAS restarted while this was running.''\<rparr>) (db_system_tasks d)\<rparr>)"

subsection \<open>The runner\<close>

text \<open>
  What the runner meets outside: the root helper, which answers a command with its output
  or fails, the text of the configuration backup, the message of a failed file operation
  and how a number is shown.
\<close>

record exec_failure =
  xf_killed :: bool
  xf_stderr :: string
  xf_stdout :: string
  xf_message :: string

record task_env =
  te_off :: int
  te_exec :: "string list \<Rightarrow> exec_failure + string"
  te_export :: "db \<Rightarrow> string"
  te_data_dir :: string
  te_io_message :: string
  te_locale :: "nat \<Rightarrow> string"

definition thrown :: "string \<Rightarrow> exec_failure" where
  "thrown m = \<lparr>xf_killed = False, xf_stderr = '''', xf_stdout = '''', xf_message = m\<rparr>"

definition KEEP_BACKUPS :: nat where "KEEP_BACKUPS = 14"

definition label_char :: "char \<Rightarrow> bool" where
  "label_char c \<longleftrightarrow> is_alnum c \<or> c = CHR ''_'' \<or> c = CHR ''-''"

definition task_label_ok :: "string \<Rightarrow> bool" where
  "task_label_ok t \<longleftrightarrow> 1 \<le> length t \<and> length t \<le> 64 \<and> list_all label_char t"

definition task_disk_ok :: "string \<Rightarrow> bool" where
  "task_disk_ok t \<longleftrightarrow> starts_with t ''/dev/'' \<and>
     (let r = drop 5 t in 1 \<le> length r \<and> length r \<le> 64 \<and> list_all (\<lambda>c. label_char c \<or> c = CHR ''/'') r)"

definition backup_name :: "millis \<Rightarrow> string" where
  "backup_name now = ''opennas-config-'' @ map (\<lambda>c. if c = CHR '':'' \<or> c = CHR ''.'' then CHR ''-'' else c) (iso_string now) @ ''.json''"

definition is_backup :: "string \<Rightarrow> bool" where
  "is_backup n \<longleftrightarrow> starts_with n ''opennas-config-'' \<and> ends_with n ''.json''"

definition backup_dir :: "task_env \<Rightarrow> string" where
  "backup_dir e = path_join (te_data_dir e) ''backups''"

definition backups_in :: "task_env \<Rightarrow> fs \<Rightarrow> string list" where
  "backups_in e f = order_asc (\<lambda>n. n) (filter is_backup (fs_children f (segs_of (backup_dir e))))"

text \<open>\<open>rm(..., { force: true })\<close> takes away a file, or nothing where there is none, and fails on a directory.\<close>

definition rm_file :: "string \<Rightarrow> fs \<Rightarrow> fs option" where
  "rm_file real f = (if lstat f real = Some DirNode then None else Some (rm_recursive real f))"

fun prune_backups :: "task_env \<Rightarrow> string list \<Rightarrow> fs \<Rightarrow> bool \<times> fs" where
  "prune_backups e [] f = (True, f)"
| "prune_backups e (old # olds) f =
     (case rm_file (path_join (backup_dir e) old) f of None \<Rightarrow> (False, f) | Some g \<Rightarrow> prune_backups e olds g)"

definition runConfigBackup :: "task_env \<Rightarrow> millis \<Rightarrow> db \<Rightarrow> fs \<Rightarrow> (exec_failure + string) \<times> fs" where
  "runConfigBackup e now d f =
     (case mkdir_recursive (backup_dir e) f of
        None \<Rightarrow> (Inl (thrown (te_io_message e)), f)
      | Some g \<Rightarrow>
          (let name = backup_name now; body = te_export e d in
           case writeFile (path_join (backup_dir e) name) body g of
             None \<Rightarrow> (Inl (thrown (te_io_message e)), g)
           | Some h \<Rightarrow>
               (let existing = backups_in e h; old = take (length existing - KEEP_BACKUPS) existing; pruned = length old
                in case prune_backups e old h of
                     (False, k) \<Rightarrow> (Inl (thrown (te_io_message e)), k)
                   | (True, k) \<Rightarrow>
                       (Inr (''Saved '' @ name @ '' ('' @ te_locale e (length body) @ '' bytes).'' @
                          (if pruned > 0 then '' Pruned '' @ js_nat pruned @ '' older backup'' @ (if pruned = 1 then '''' else ''s'') @ ''.''
                           else '''')), k))))"

definition STORAGE_HELPER :: "string list" where
  "STORAGE_HELPER = [''doas'', ''/usr/lib/opennas/opennas-storage'']"

text \<open>The outcome, the tree and the commands given to the helper.\<close>

definition SMART_NOTE :: string where
  "SMART_NOTE = [CHR 0x0A, CHR 0x0A] @ ''The drive runs this itself in the background. Check its SMART health in Storage once it has had time to finish.''"

definition helper_run :: "task_env \<Rightarrow> string list \<Rightarrow> (string \<Rightarrow> string) \<Rightarrow> (exec_failure + string) \<times> string list list" where
  "helper_run e args g =
     (case te_exec e (STORAGE_HELPER @ args) of Inl x \<Rightarrow> Inl x | Inr out \<Rightarrow> Inr (g out), [STORAGE_HELPER @ args])"

definition performTask ::
  "task_env \<Rightarrow> millis \<Rightarrow> system_task \<Rightarrow> db \<Rightarrow> fs \<Rightarrow> (exec_failure + string) \<times> fs \<times> string list list" where
  "performTask e now t d f =
     (let target = stt_target t in
      if stt_kind t = ''config-backup'' then (case runConfigBackup e now d f of (r, g) \<Rightarrow> (r, g, []))
      else if stt_kind t = ''scrub'' \<or> stt_kind t = ''trim'' then
        (if \<not> task_label_ok target then (Inl (thrown (''That volume name isn'' @ CHR 0x27 # ''t valid.'')), f, [])
         else (case helper_run e [stt_kind t, target] js_trim of (r, cs) \<Rightarrow> (r, f, cs)))
      else if stt_kind t = ''smart-test'' then
        (if \<not> task_disk_ok target then (Inl (thrown (''That disk path isn'' @ CHR 0x27 # ''t valid.'')), f, [])
         else (case helper_run e [''smart-test'', target, ''long''] (\<lambda>out. js_trim out @ SMART_NOTE) of (r, cs) \<Rightarrow> (r, f, cs)))
      else (Inl (thrown ''Unknown task kind.''), f, []))"

definition failure_text :: "exec_failure \<Rightarrow> string" where
  "failure_text x =
     (if xf_killed x then ''Gave up waiting after six hours.''
      else if js_trim (xf_stderr x) \<noteq> '''' then js_trim (xf_stderr x)
      else if js_trim (xf_stdout x) \<noteq> '''' then js_trim (xf_stdout x)
      else if xf_message x \<noteq> '''' then xf_message x else ''Failed.'')"

definition record_outcome :: "string \<Rightarrow> exec_failure + string \<Rightarrow> db \<Rightarrow> db" where
  "record_outcome i r d =
     (case r of Inr out \<Rightarrow> markTaskFinished i ''ok'' (if out = '''' then ''Completed.'' else out) d
              | Inl x \<Rightarrow> markTaskFinished i ''error'' (failure_text x) d)"

definition runTask :: "task_env \<Rightarrow> millis \<Rightarrow> system_task \<Rightarrow> db \<Rightarrow> fs \<Rightarrow> db \<times> fs \<times> string list list" where
  "runTask e now t d f = (case performTask e now t d f of (r, g, cs) \<Rightarrow> (record_outcome (stt_id t) r d, g, cs))"

text \<open>\<open>savedAt\<close>: after the tenth character every dash becomes a colon.\<close>

definition saved_at :: "string \<Rightarrow> string" where
  "saved_at name =
     (let s = take (length name - 20) (drop 15 name)
      in map (\<lambda>(i, c). if c = CHR ''-'' \<and> i > 9 then CHR '':'' else c) (zip [0..<length s] s))"

definition listConfigBackups :: "task_env \<Rightarrow> fs \<Rightarrow> (string \<times> string) list" where
  "listConfigBackups e f = map (\<lambda>n. (n, saved_at n)) (rev (backups_in e f))"

subsection \<open>Ticks\<close>

text \<open>
  The set \<open>running\<close> of the timer and the runs in flight, each with whether the timer started
  it.  A run ends whenever its work ends, with whatever came out of it.
\<close>

record task_server =
  tv_db :: db
  tv_running :: "string list"
  tv_active :: "(string \<times> bool) list"

definition start_due :: "int \<Rightarrow> millis \<Rightarrow> system_task \<Rightarrow> task_server \<Rightarrow> task_server" where
  "start_due off now t s =
     (if stt_id t \<in> set (tv_running s) then s
      else s\<lparr>tv_db := markTaskStarted off now (stt_id t) (tv_db s), tv_running := stt_id t # tv_running s,
             tv_active := (stt_id t, True) # tv_active s\<rparr>)"

definition tick :: "int \<Rightarrow> millis \<Rightarrow> task_server \<Rightarrow> task_server" where
  "tick off now s = fold (start_due off now) (dueSystemTasks now (tv_db s)) s"

definition run_ends :: "string \<times> bool \<Rightarrow> exec_failure + string \<Rightarrow> task_server \<Rightarrow> task_server" where
  "run_ends x r s =
     s\<lparr>tv_db := record_outcome (fst x) r (tv_db s), tv_active := remove1 x (tv_active s),
       tv_running := (if snd x then filter (\<lambda>i. i \<noteq> fst x) (tv_running s) else tv_running s)\<rparr>"

definition startTaskRunner :: "db \<Rightarrow> task_server" where
  "startTaskRunner d = \<lparr>tv_db = snd (clearInterruptedTasks d), tv_running = [], tv_active = []\<rparr>"

subsection \<open>The routes\<close>

definition badTarget :: "string \<Rightarrow> string \<Rightarrow> bool" where
  "badTarget kind target \<longleftrightarrow>
     (if kind = ''config-backup'' then False
      else if kind = ''smart-test'' then \<not> task_disk_ok target else \<not> task_label_ok target)"

definition schedule_ok :: "schedule \<Rightarrow> bool" where
  "schedule_ok s \<longleftrightarrow> 0 \<le> sd_hour s \<and> sd_hour s \<le> 23 \<and> 0 \<le> sd_minute s \<and> sd_minute s \<le> 59 \<and>
     0 \<le> sd_weekday s \<and> sd_weekday s \<le> 6 \<and> 1 \<le> sd_day_of_month s \<and> sd_day_of_month s \<le> 31"

definition postTask :: "int \<Rightarrow> string \<Rightarrow> millis \<Rightarrow> create_task_input \<Rightarrow> db \<Rightarrow> system_task reply \<times> db" where
  "postTask off newId now b d =
     (let target = js_trim (cti_target b) in
      if \<not> trimmed_between 1 64 (cti_name b) \<or> cti_kind b \<notin> set TASK_KINDS \<or> length target > 128 \<or> \<not> schedule_ok (cti_schedule b)
      then (Refused 400 ''invalid'', d)
      else if badTarget (cti_kind b) target then (Refused 400 ''bad_target'', d)
      else if countSystemTasks d \<ge> MAX_TASKS then (Refused 409 ''too_many'', d)
      else
        (case createSystemTask off newId now (b\<lparr>cti_name := js_trim (cti_name b), cti_target := target\<rparr>) d of
           Inl x \<Rightarrow> (Refused 500 ''internal'', d)
         | Inr (t, d1) \<Rightarrow> (Sent t, d1)))"

definition within :: "int \<Rightarrow> int \<Rightarrow> int option \<Rightarrow> bool" where
  "within lo hi x \<longleftrightarrow> (case x of None \<Rightarrow> True | Some v \<Rightarrow> lo \<le> v \<and> v \<le> hi)"

definition task_changes_ok :: "update_task_input \<Rightarrow> bool" where
  "task_changes_ok f \<longleftrightarrow> (case uti_name f of None \<Rightarrow> True | Some n \<Rightarrow> trimmed_between 1 64 n) \<and>
     (case uti_target f of None \<Rightarrow> True | Some t \<Rightarrow> length (js_trim t) \<le> 128) \<and>
     within 0 23 (uti_hour f) \<and> within 0 59 (uti_minute f) \<and> within 0 6 (uti_weekday f) \<and> within 1 31 (uti_day_of_month f)"

definition patchTask :: "int \<Rightarrow> millis \<Rightarrow> string \<Rightarrow> update_task_input \<Rightarrow> db \<Rightarrow> system_task option reply \<times> db" where
  "patchTask off now i f d =
     (case getSystemTask d i of
        None \<Rightarrow> (Refused 404 ''not_found'', d)
      | Some existing \<Rightarrow>
          if \<not> task_changes_ok f then (Refused 400 ''invalid'', d)
          else
            (let g = f\<lparr>uti_name := map_option js_trim (uti_name f), uti_target := map_option js_trim (uti_target f)\<rparr> in
             if (case uti_target g of None \<Rightarrow> False | Some t \<Rightarrow> badTarget (stt_kind existing) t) then (Refused 400 ''bad_target'', d)
             else (case updateSystemTask off now i g d of (t, d1) \<Rightarrow> (Sent t, d1))))"

definition deleteTaskRoute :: "string \<Rightarrow> db \<Rightarrow> unit reply \<times> db" where
  "deleteTaskRoute i d =
     (if getSystemTask d i = None then (Refused 404 ''not_found'', d) else (Sent (), snd (deleteSystemTask i d)))"

text \<open>A run by hand is started, not awaited, and the timer does not learn of it.\<close>

definition runTaskRoute :: "int \<Rightarrow> millis \<Rightarrow> string \<Rightarrow> task_server \<Rightarrow> unit reply \<times> task_server" where
  "runTaskRoute off now i s =
     (case getSystemTask (tv_db s) i of
        None \<Rightarrow> (Refused 404 ''not_found'', s)
      | Some t \<Rightarrow>
          if stt_last_status t = Some ''running'' then (Refused 409 ''busy'', s)
          else (Sent (), s\<lparr>tv_db := markTaskStarted off now i (tv_db s), tv_active := (i, False) # tv_active s\<rparr>))"

end
