(* ===== verification/TaskProps.thy ===== *)
theory TaskProps
  imports SystemTasks Samples
begin

text \<open>
  What the schedules guarantee: the computed time is the next one that matches, a tick leaves
  nothing overdue, the timer never runs a task twice at a time, and every stored task asks
  the root helper for something it accepts.
\<close>

subsection \<open>The next time a schedule comes round\<close>

text \<open>Whether a schedule comes round at an instant of local time.\<close>

definition comes_round :: "schedule \<Rightarrow> int \<Rightarrow> bool" where
  "comes_round s l \<longleftrightarrow> l mod DAY = sd_hour s * 3600000 + sd_minute s * 60000 \<and>
     (case sd_frequency s of
        Daily \<Rightarrow> True
      | Weekly \<Rightarrow> int (week_day (local_day l)) = sd_weekday s
      | Monthly \<Rightarrow> (case month_at (local_day l) 0 of (m, e) \<Rightarrow> int (e + 1) = min (sd_day_of_month s) (int (month_len m))))"

definition on_day :: "schedule \<Rightarrow> nat \<Rightarrow> bool" where
  "on_day s d \<longleftrightarrow>
     (case sd_frequency s of
        Daily \<Rightarrow> True
      | Weekly \<Rightarrow> int (week_day d) = sd_weekday s
      | Monthly \<Rightarrow> (case month_at d 0 of (m, e) \<Rightarrow> int (e + 1) = min (sd_day_of_month s) (int (month_len m))))"

lemma comes_round_at:
  assumes "schedule_ok s"
  shows "comes_round s (at_time d (sd_hour s) (sd_minute s)) \<longleftrightarrow> on_day s d"
proof -
  have at: "at_time d (sd_hour s) (sd_minute s) div DAY = int d"
    "at_time d (sd_hour s) (sd_minute s) mod DAY = sd_hour s * 3600000 + sd_minute s * 60000"
    using at_time_split [of "sd_hour s" "sd_minute s" d] assms by (simp_all add: schedule_ok_def)
  then have "local_day (at_time d (sd_hour s) (sd_minute s)) = d" by (simp add: local_day_def)
  then show ?thesis by (cases "sd_frequency s") (simp_all add: comes_round_def on_day_def at)
qed

lemma comes_round_day:
  assumes "schedule_ok s" and "0 \<le> l" and "comes_round s l"
  shows "l = at_time (local_day l) (sd_hour s) (sd_minute s) \<and> on_day s (local_day l)"
  using time_of_day [OF assms(2), of "sd_hour s" "sd_minute s"] assms(3)
  by (simp add: comes_round_def on_day_def)

text \<open>A day is right when it is scheduled, not over, and no earlier such day is left.\<close>

definition right_day :: "schedule \<Rightarrow> int \<Rightarrow> nat \<Rightarrow> bool" where
  "right_day s l d \<longleftrightarrow> on_day s d \<and> l < at_time d (sd_hour s) (sd_minute s) \<and>
     (\<forall>k. on_day s k \<longrightarrow> l < at_time k (sd_hour s) (sd_minute s) \<longrightarrow> d \<le> k)"

lemma right_day_exact:
  assumes "schedule_ok s" and "0 \<le> l" and "right_day s l d"
  shows "l < at_time d (sd_hour s) (sd_minute s)" "comes_round s (at_time d (sd_hour s) (sd_minute s))"
    "\<And>t. l < t \<Longrightarrow> comes_round s t \<Longrightarrow> at_time d (sd_hour s) (sd_minute s) \<le> t"
proof -
  show "l < at_time d (sd_hour s) (sd_minute s)" "comes_round s (at_time d (sd_hour s) (sd_minute s))"
    using assms by (simp_all add: right_day_def comes_round_at)
  fix t
  assume t: "l < t" "comes_round s t"
  then have "t = at_time (local_day t) (sd_hour s) (sd_minute s) \<and> on_day s (local_day t)"
    using comes_round_day [OF assms(1), of t] assms(2) by simp
  then show "at_time d (sd_hour s) (sd_minute s) \<le> t"
    using assms(3) t(1) at_time_mono unfolding right_day_def by metis
qed

lemma local_day_le:
  assumes "0 \<le> l" and "schedule_ok s" and "l < at_time k (sd_hour s) (sd_minute s)"
  shows "local_day l \<le> k"
  using day_before [OF assms(1,3)] assms(2) by (simp add: schedule_ok_def)

lemma later_day:
  assumes "0 \<le> l" and "schedule_ok s" and "local_day l < k"
  shows "l < at_time k (sd_hour s) (sd_minute s)"
proof -
  have "0 \<le> l div DAY" using assms(1) by (simp add: DAY_def pos_imp_zdiv_nonneg_iff)
  then have "l div DAY + 1 \<le> int k" using assms(3) by (simp add: local_day_def)
  then have "(l div DAY + 1) * DAY \<le> int k * DAY" by (intro mult_right_mono) (simp_all add: DAY_def)
  also have "\<dots> \<le> at_time k (sd_hour s) (sd_minute s)" using assms(2) by (simp add: at_time_def schedule_ok_def)
  finally have "(l div DAY + 1) * DAY \<le> at_time k (sd_hour s) (sd_minute s)" .
  moreover have "l < (l div DAY + 1) * DAY" by (simp add: DAY_def)
  ultimately show ?thesis by simp
qed

lemma right_daily:
  assumes ok: "schedule_ok s" "0 \<le> l" and daily: "sd_frequency s = Daily"
  shows "right_day s l (if at_time (local_day l) (sd_hour s) (sd_minute s) \<le> l then local_day l + 1 else local_day l)"
proof (cases "at_time (local_day l) (sd_hour s) (sd_minute s) \<le> l")
  case True
  have "local_day l + 1 \<le> k" if "l < at_time k (sd_hour s) (sd_minute s)" for k
  proof -
    have "k \<noteq> local_day l" using True that by auto
    then show ?thesis using local_day_le [OF ok(2,1) that] by simp
  qed
  then show ?thesis using True later_day [OF ok(2,1), of "local_day l + 1"] by (simp add: right_day_def on_day_def daily)
next
  case False
  then show ?thesis using local_day_le [OF ok(2,1)] by (simp add: right_day_def on_day_def daily not_le)
qed

lemma mod7_add: "a < 7 \<Longrightarrow> r < 7 \<Longrightarrow> (a + r) mod 7 = (if a + r < 7 then a + r else a + r - 7)" for a r :: nat
  by (auto simp: mod_if)

lemma week_day_add: "week_day (d + j) = (week_day d + j) mod 7"
proof -
  have "d + j + 4 = (d + 4) + j" by simp
  then show ?thesis by (simp only: week_day_def mod_add_left_eq)
qed

lemma week_days:
  assumes "week_day (d + j) = w"
  shows "(w + 7 - week_day d) mod 7 = j mod 7"
proof -
  define a r where "a = week_day d" and "r = j mod 7"
  have bounds: "a < 7" "r < 7" by (simp_all add: a_def r_def week_day_def)
  have "(a + r) mod 7 = w" using assms by (simp add: a_def r_def week_day_add mod_add_right_eq)
  then have "w = (if a + r < 7 then a + r else a + r - 7)" using mod7_add [OF bounds] by simp
  then have "(w + 7 - a) mod 7 = r" using bounds by (auto split: if_splits)
  then show ?thesis by (simp add: a_def r_def)
qed

lemma same_week_day: "w < 7 \<Longrightarrow> week_day (d + (w + 7 - week_day d) mod 7) = w"
proof -
  assume w: "w < 7"
  define a where "a = week_day d"
  have a: "a < 7" by (simp add: a_def week_day_def)
  have "week_day (d + (w + 7 - a) mod 7) = (a + (w + 7 - a)) mod 7" by (simp add: week_day_add a_def mod_add_right_eq)
  also have "\<dots> = w" using w a by simp
  finally show ?thesis by (simp add: a_def)
qed

lemma right_weekly:
  assumes ok: "schedule_ok s" "0 \<le> l" and weekly: "sd_frequency s = Weekly"
  defines "d \<equiv> local_day l" and "delta \<equiv> weekly_delta s (local_day l)"
  defines "delta' \<equiv> (if delta = 0 \<and> at_time d (sd_hour s) (sd_minute s) \<le> l then 7 else delta)"
  shows "right_day s l (d + delta')"
proof -
  define w where "w = nat (sd_weekday s)"
  have w: "w < 7" "int w = sd_weekday s" "nat (sd_weekday s mod 7) = w" using ok(1) by (auto simp: schedule_ok_def w_def)
  have delta: "delta = (w + 7 - week_day d) mod 7" by (simp add: delta_def weekly_delta_def d_def w)
  have day: "on_day s k \<longleftrightarrow> week_day k = w" for k using w(2) by (auto simp: on_day_def weekly)
  have "week_day (d + delta) = w" using same_week_day [OF w(1)] delta by simp
  moreover have "week_day (d + 7) = week_day d" by (simp only: week_day_add mod_add_self2) (simp add: week_day_def)
  ultimately have "on_day s (d + delta')" by (auto simp: day delta'_def)
  moreover have "l < at_time (d + delta') (sd_hour s) (sd_minute s)"
    using later_day [OF ok(2,1), of "d + delta'"] by (cases "delta = 0") (auto simp: delta'_def d_def not_le)
  moreover have "d + delta' \<le> k" if k: "on_day s k" "l < at_time k (sd_hour s) (sd_minute s)" for k
  proof -
    obtain j where j: "k = d + j" using local_day_le [OF ok(2,1) k(2)] le_Suc_ex d_def by blast
    then have mod: "delta = j mod 7" using week_days [of d j w] k(1) delta by (auto simp: day)
    show ?thesis
    proof (cases "delta = 0 \<and> at_time d (sd_hour s) (sd_minute s) \<le> l")
      case True
      then have "j \<noteq> 0" using j k(2) True by (cases j) auto
      then have "7 \<le> j" using True mod by auto
      then show ?thesis using True j by (simp add: delta'_def)
    next
      case False
      have "delta \<le> j" using mod by simp
      then show ?thesis using False j by (auto simp: delta'_def)
    qed
  qed
  ultimately show ?thesis by (simp add: right_day_def)
qed

lemma monthly_one: "schedule_ok s \<Longrightarrow> 1 \<le> min (monthly_day s) (month_len m)"
  using month_len_bounds(1) [of m] by (auto simp: monthly_day_def schedule_ok_def le_nat_iff)

lemma place_in_month:
  assumes "schedule_ok s"
  shows "month_at (place s m) 0 = (m, min (monthly_day s) (month_len m) - 1)" and "month_start m \<le> place s m"
    "place s m < month_start (Suc m)"
proof -
  note one = monthly_one [OF assms, of m]
  then show "month_at (place s m) 0 = (m, min (monthly_day s) (month_len m) - 1)"
    using month_len_bounds(1) [of m] by (intro month_at_unique) (auto simp: place_def)
  show "month_start m \<le> place s m" "place s m < month_start (Suc m)"
    using one month_len_bounds(1) [of m] by (auto simp: place_def)
qed

lemma placed:
  assumes "schedule_ok s" and "sd_frequency s = Monthly"
  shows "on_day s d \<longleftrightarrow> (\<exists>m. d = place s m)"
proof
  have days: "int (monthly_day s) = sd_day_of_month s" using assms(1) by (simp add: monthly_day_def schedule_ok_def)
  obtain m e where at: "month_at d 0 = (m, e)" by fastforce
  assume "on_day s d"
  then have "int (e + 1) = min (sd_day_of_month s) (int (month_len m))" using at assms(2) by (simp add: on_day_def)
  then have "e + 1 = min (monthly_day s) (month_len m)" using days by linarith
  then show "\<exists>m. d = place s m" using month_at_start [OF at] unfolding place_def
    by (metis add.assoc add_0 add_diff_cancel_right' month_start.simps(1))
next
  have days: "int (monthly_day s) = sd_day_of_month s" using assms(1) by (simp add: monthly_day_def schedule_ok_def)
  assume "\<exists>m. d = place s m"
  then obtain m where m: "d = place s m" by blast
  have "1 \<le> min (monthly_day s) (month_len m)" by (rule monthly_one [OF assms(1)])
  then show "on_day s d" using place_in_month(1) [OF assms(1), of m] days by (simp add: on_day_def assms(2) m)
qed

lemma right_monthly:
  assumes ok: "schedule_ok s" "0 \<le> l" and monthly: "sd_frequency s = Monthly"
  defines "m \<equiv> fst (month_at (local_day l) 0)"
  shows "right_day s l (if at_time (place s m) (sd_hour s) (sd_minute s) \<le> l then place s (Suc m) else place s m)"
proof -
  obtain e where "month_at (local_day l) 0 = (m, e)" by (metis m_def prod.collapse)
  then have day: "month_start m \<le> local_day l" "local_day l < month_start (Suc m)" using month_at_start by fastforce+
  note spot = place_in_month(2,3) [OF ok(1)]
  have next_month: "l < at_time (place s (Suc m)) (sd_hour s) (sd_minute s)"
    using later_day [OF ok(2,1)] day(2) spot(1) [of "Suc m"] by simp
  have least: "place s m \<le> k \<and> (k = place s m \<or> place s (Suc m) \<le> k)"
    if k: "on_day s k" "l < at_time k (sd_hour s) (sd_minute s)" for k
  proof -
    obtain j where j: "k = place s j" using placed [OF ok(1) monthly] k(1) by blast
    have "local_day l \<le> k" using local_day_le [OF ok(2,1) k(2)] .
    then have "month_start m < month_start (Suc j)" using day(1) spot(2) [of j] j by simp
    then have "m \<le> j" using month_start_mono [of "Suc j" m] by (meson leD not_less_eq_eq)
    then consider "j = m" | "j = Suc m" | "Suc (Suc m) \<le> j" by linarith
    then show ?thesis
    proof cases
      case 3
      then have "month_start (Suc (Suc m)) \<le> k" using month_start_mono spot(1) [of j] j by (metis le_trans)
      then show ?thesis using spot(2) [of "Suc m"] spot(2) [of m] spot(1) [of "Suc m"] by simp
    qed (use j spot(2) [of m] spot(1) [of "Suc m"] in simp_all)
  qed
  show ?thesis
  proof (cases "at_time (place s m) (sd_hour s) (sd_minute s) \<le> l")
    case True
    then show ?thesis using next_month least placed [OF ok(1) monthly] by (fastforce simp: right_day_def)
  next
    case False
    then show ?thesis using least placed [OF ok(1) monthly] by (auto simp: right_day_def not_le)
  qed
qed

lemma next_run_day:
  assumes "schedule_ok s" and "0 \<le> from' + off"
  obtains d where "right_day s (from' + off) d" and "nextRun off s from' = at_time d (sd_hour s) (sd_minute s) - off"
proof (cases "sd_frequency s")
  case Daily
  then show thesis using that [OF right_daily [OF assms]] by (simp add: nextRun_def Let_def split: if_splits)
next
  case Weekly
  then show thesis using that [OF right_weekly [OF assms]] by (simp add: nextRun_def Let_def)
next
  case Monthly
  then show thesis using that [OF right_monthly [OF assms]] by (simp add: nextRun_def Let_def split: if_splits)
qed

lemma next_run_later: "schedule_ok s \<Longrightarrow> 0 \<le> now + off \<Longrightarrow> now < nextRun off s now"
  by (rule next_run_day [of s now off]) (auto simp: right_day_def)

text \<open>
  C29. The stored time of the next run is exact: it lies strictly after the given instant, it
  is a time at which the schedule comes round (in a month too short for its day, on the
  last day), and no such time lies before it.
\<close>

theorem next_run_exact:
  assumes "schedule_ok s" and "0 \<le> from' + off"
  shows "from' < nextRun off s from' \<and> comes_round s (nextRun off s from' + off) \<and>
    (\<forall>t > from'. comes_round s (t + off) \<longrightarrow> nextRun off s from' \<le> t)"
proof -
  obtain d where right: "right_day s (from' + off) d" and run: "nextRun off s from' = at_time d (sd_hour s) (sd_minute s) - off"
    by (rule next_run_day [OF assms])
  note exact = right_day_exact [OF assms right]
  show ?thesis
  proof (intro conjI allI impI)
    show "from' < nextRun off s from'" using exact(1) by (simp add: run)
    show "comes_round s (nextRun off s from' + off)" using exact(2) by (simp add: run)
    fix t
    assume "from' < t" "comes_round s (t + off)"
    then show "nextRun off s from' \<le> t" using exact(3) [of "t + off"] by (simp add: run)
  qed
qed

definition month_end :: schedule where
  "month_end = \<lparr>sd_frequency = Monthly, sd_hour = 3, sd_minute = 30, sd_weekday = 0, sd_day_of_month = 31\<rparr>"

text \<open>From noon on the last day of January 1970 to half past three on 28 February, in a zone an hour ahead.\<close>

lemma month_at_0: "month_at 30 0 = (0, 30)" "month_at 58 0 = (1, 27)"
  by (rule month_at_unique; simp add: month_len_def Let_def leap_year_def)+

theorem next_run_exact_witness:
  "nextRun 3600000 month_end 2631600000 = 5020200000 \<and> 2631600000 < nextRun 3600000 month_end 2631600000"
proof -
  have "schedule_ok month_end" by code_simp
  moreover have "nextRun 3600000 month_end 2631600000 = 5020200000"
    by (simp add: nextRun_def month_end_def local_day_def DAY_def month_at_0 at_time_def place_def monthly_day_def month_len_def
        leap_year_def Let_def)
  ultimately show ?thesis using next_run_exact [of month_end 2631600000 3600000] by simp
qed

subsection \<open>A tick leaves nothing overdue\<close>

definition tasks_wf :: "db \<Rightarrow> bool" where
  "tasks_wf d \<longleftrightarrow> keyed stk_id (db_system_tasks d) \<and> length (db_system_tasks d) \<le> MAX_TASKS \<and>
     (\<forall>r \<in> set (db_system_tasks d). schedule_ok (row_schedule r) \<and> stk_kind r \<in> set TASK_KINDS \<and>
        \<not> badTarget (stk_kind r) (stk_target r))"

lemma started_task_sel [simp]:
  "stk_id (started_task off now r) = stk_id r" "row_schedule (started_task off now r) = row_schedule r"
  "stk_kind (started_task off now r) = stk_kind r" "stk_target (started_task off now r) = stk_target r"
  "stk_enabled (started_task off now r) = stk_enabled r" "stk_last_status (started_task off now r) = Some ''running''"
  "stk_next_run_at (started_task off now r) = nextRun off (row_schedule r) now"
  by (simp_all add: started_task_def row_schedule_def)

lemma wf_rows:
  assumes "tasks_wf d" and "db_system_tasks d' = sql_update P f (db_system_tasks d)"
    and "\<And>r. r \<in> set (db_system_tasks d) \<Longrightarrow> P r \<Longrightarrow> stk_id (f r) = stk_id r \<and> schedule_ok (row_schedule (f r)) \<and>
      stk_kind (f r) = stk_kind r \<and> \<not> badTarget (stk_kind r) (stk_target (f r))"
  shows "tasks_wf d'"
proof -
  have ids: "map stk_id (sql_update P f (db_system_tasks d)) = map stk_id (db_system_tasks d)"
    using assms(3) by (auto simp: sql_update_def)
  have "schedule_ok (row_schedule r) \<and> stk_kind r \<in> set TASK_KINDS \<and> \<not> badTarget (stk_kind r) (stk_target r)"
    if "r \<in> set (db_system_tasks d')" for r
  proof -
    obtain q where q: "q \<in> set (db_system_tasks d)" "r = (if P q then f q else q)"
      using \<open>r \<in> set (db_system_tasks d')\<close> by (auto simp: assms(2) sql_update_def)
    then show ?thesis using assms(1,3) unfolding tasks_wf_def by (cases "P q") auto
  qed
  moreover have "length (db_system_tasks d') = length (db_system_tasks d)" by (simp add: assms(2) sql_update_def)
  ultimately show ?thesis using assms(1) ids by (simp add: tasks_wf_def keyed_def assms(2))
qed

lemma wf_started: "tasks_wf d \<Longrightarrow> tasks_wf (markTaskStarted off now i d)"
  by (rule wf_rows [where P = "\<lambda>r. stk_id r = i" and f = "started_task off now"]) (auto simp: markTaskStarted_def tasks_wf_def)

lemma wf_finished: "tasks_wf d \<Longrightarrow> tasks_wf (markTaskFinished i st out d)"
  by (rule wf_rows [where P = "\<lambda>r. stk_id r = i"])
    (auto simp: markTaskFinished_def tasks_wf_def row_schedule_def)

lemma wf_outcome: "tasks_wf d \<Longrightarrow> tasks_wf (record_outcome i r d)"
  by (cases r) (simp_all add: record_outcome_def wf_finished)

lemma wf_cleared: "tasks_wf d \<Longrightarrow> tasks_wf (snd (clearInterruptedTasks d))"
  by (rule wf_rows [where P = "\<lambda>r. stk_last_status r = Some ''running''"])
    (auto simp: clearInterruptedTasks_def tasks_wf_def row_schedule_def)

text \<open>What one start does: it adds to the runs, and its task is no longer due.\<close>

definition overdue :: "millis \<Rightarrow> db \<Rightarrow> string set" where
  "overdue now d = stk_id ` {r \<in> set (db_system_tasks d). stk_enabled r \<and> stk_next_run_at r \<le> now}"

lemma due_ids: "stt_id ` set (dueSystemTasks now d) = overdue now d"
  by (force simp: dueSystemTasks_def overdue_def toSystemTask_def)

lemma start_overdue:
  assumes "tasks_wf (tv_db s)" and "0 \<le> now + off"
  shows "overdue now (tv_db (start_due off now t s)) \<subseteq> overdue now (tv_db s) - ({stt_id t} - set (tv_running s))"
proof (cases "stt_id t \<in> set (tv_running s)")
  case False
  have "overdue now (markTaskStarted off now (stt_id t) (tv_db s)) \<subseteq> overdue now (tv_db s) - {stt_id t}"
  proof
    fix i
    assume "i \<in> overdue now (markTaskStarted off now (stt_id t) (tv_db s))"
    then obtain q where q: "q \<in> set (db_system_tasks (tv_db s))" "stk_id q = i" "stk_enabled q"
      "(if stk_id q = stt_id t then nextRun off (row_schedule q) now else stk_next_run_at q) \<le> now"
      by (auto simp: overdue_def markTaskStarted_def sql_update_def split: if_splits)
    have "now < nextRun off (row_schedule q) now"
      using q(1) assms by (intro next_run_later) (auto simp: tasks_wf_def)
    then show "i \<in> overdue now (tv_db s) - {stt_id t}" using q by (auto simp: overdue_def split: if_splits)
  qed
  then show ?thesis using False by (auto simp: start_due_def)
qed (auto simp: start_due_def)

lemma start_frame:
  "tasks_wf (tv_db s) \<Longrightarrow> tasks_wf (tv_db (start_due off now t s))"
  "set (tv_running (start_due off now t s)) = insert (stt_id t) (set (tv_running s))"
  by (auto simp: start_due_def wf_started)

lemma starts_overdue:
  assumes "tasks_wf (tv_db s)" and "0 \<le> now + off"
  shows "overdue now (tv_db (fold (start_due off now) ts s)) \<subseteq> overdue now (tv_db s) - (stt_id ` set ts - set (tv_running s))"
  using assms(1)
proof (induction ts arbitrary: s)
  case (Cons t ts)
  note wf = start_frame(1) [OF Cons.prems, of off now t]
  show ?case using Cons.IH [OF wf] start_overdue [OF Cons.prems assms(2), of t]
    by (auto simp: start_frame(2))
qed simp

text \<open>
  C32. After a tick no enabled task is overdue that was not already running: each task whose
  time has come is started by the tick and its next run lies in the future, so no tick that
  finds it running skips it for good and no task waits for ever.
\<close>

theorem tick_leaves_nothing_overdue:
  assumes "tasks_wf (tv_db s)" and "0 \<le> now + off"
  shows "stt_id ` set (dueSystemTasks now (tv_db (tick off now s))) \<subseteq> set (tv_running s)"
  using starts_overdue [OF assms, of "dueSystemTasks now (tv_db s)"] unfolding tick_def due_ids by blast

subsection \<open>Runs and requests, in any order\<close>

text \<open>
  One step of the server: a tick, the end of a run in flight, or a request; runs by hand only
  where \<open>byhand\<close> allows them.
\<close>

inductive task_step :: "int \<Rightarrow> bool \<Rightarrow> task_server \<Rightarrow> task_server \<Rightarrow> bool" for off byhand where
  ticks: "task_step off byhand s (tick off now s)"
| ends: "x \<in> set (tv_active s) \<Longrightarrow> task_step off byhand s (run_ends x r s)"
| posted: "postTask off newId now b (tv_db s) = (reply', d) \<Longrightarrow> task_step off byhand s (s\<lparr>tv_db := d\<rparr>)"
| patched: "patchTask off now i f (tv_db s) = (reply', d) \<Longrightarrow> task_step off byhand s (s\<lparr>tv_db := d\<rparr>)"
| deleted: "deleteTaskRoute i (tv_db s) = (reply', d) \<Longrightarrow> task_step off byhand s (s\<lparr>tv_db := d\<rparr>)"
| ran: "byhand \<Longrightarrow> runTaskRoute off now i s = (reply', t) \<Longrightarrow> task_step off byhand s t"

inductive task_reach :: "int \<Rightarrow> bool \<Rightarrow> db \<Rightarrow> task_server \<Rightarrow> bool" for off byhand d where
  start: "task_reach off byhand d (startTaskRunner d)"
| step: "task_reach off byhand d s \<Longrightarrow> task_step off byhand s t \<Longrightarrow> task_reach off byhand d t"

inductive_cases task_stepE: "task_step off byhand s t"

lemma wf_tick:
  assumes "tasks_wf (tv_db s)"
  shows "tasks_wf (tv_db (tick off now s))"
proof -
  have "tasks_wf (tv_db s) \<Longrightarrow> tasks_wf (tv_db (fold (start_due off now) ts s))" for ts
    by (induction ts arbitrary: s) (simp_all add: start_frame)
  then show ?thesis using assms by (simp add: tick_def)
qed

lemma wf_posted:
  assumes "postTask off newId now b d = (r, d')" and "tasks_wf d"
  shows "tasks_wf d'"
proof (cases r)
  case (Sent t)
  let ?row = "new_system_task off newId now (b\<lparr>cti_name := js_trim (cti_name b), cti_target := js_trim (cti_target b)\<rparr>)"
  have d': "d' = d\<lparr>db_system_tasks := db_system_tasks d @ [?row]\<rparr>" and fresh: "keyed stk_id (db_system_tasks d @ [?row])"
    and guards: "cti_kind b \<in> set TASK_KINDS" "schedule_ok (cti_schedule b)" "\<not> badTarget (cti_kind b) (js_trim (cti_target b))"
      "length (db_system_tasks d) < MAX_TASKS"
    using assms Sent
    by (auto simp: postTask_def createSystemTask_def sql_insert_def Let_def bind_ok_def countSystemTasks_def tasks_wf_def keyed_def
        sql_exists_iff image_iff split: if_splits)
  have "row_schedule ?row = cti_schedule b" by (simp add: row_schedule_def new_system_task_def Let_def)
  then show ?thesis using assms(2) fresh guards by (auto simp: d' tasks_wf_def new_system_task_def Let_def)
qed (use assms in \<open>auto simp: postTask_def Let_def split: if_splits sum.splits\<close>)

lemma changed_schedule_ok: "task_changes_ok f \<Longrightarrow> schedule_ok s \<Longrightarrow> schedule_ok (changed_schedule f s)"
  by (cases "uti_hour f"; cases "uti_minute f"; cases "uti_weekday f"; cases "uti_day_of_month f")
    (simp_all add: task_changes_ok_def schedule_ok_def changed_schedule_def given_def within_def)

lemma changed_task_sel [simp]:
  "stk_id (changed_task off now f r) = stk_id r" "stk_kind (changed_task off now f r) = stk_kind r"
  "stk_target (changed_task off now f r) = given (uti_target f) (stk_target r)"
  "row_schedule (changed_task off now f r) = changed_schedule f (row_schedule r)"
  by (simp_all add: changed_task_def Let_def row_schedule_def)

lemma wf_patched:
  assumes "patchTask off now i f d = (r, d')" and "tasks_wf d"
  shows "tasks_wf d'"
proof (cases r)
  case (Sent t)
  let ?g = "f\<lparr>uti_name := map_option js_trim (uti_name f), uti_target := map_option js_trim (uti_target f)\<rparr>"
  obtain q where q: "systemTaskRow d i = Some q" "task_changes_ok f"
    "\<not> (case uti_target ?g of None \<Rightarrow> False | Some t \<Rightarrow> badTarget (stk_kind q) t)"
    "d' = d\<lparr>db_system_tasks := sql_update (\<lambda>r. stk_id r = i) (changed_task off now ?g) (db_system_tasks d)\<rparr>"
    using assms(1) Sent
    by (auto simp: patchTask_def updateSystemTask_def getSystemTask_def toSystemTask_def Let_def split: option.splits if_splits)
  have same: "changed_schedule ?g = changed_schedule f" by (simp add: changed_schedule_def fun_eq_iff)
  have only: "r = q" if "r \<in> set (db_system_tasks d)" "stk_id r = i" for r
    using assms(2) that q(1) sql_get_keyed [of stk_id "db_system_tasks d" r] by (auto simp: systemTaskRow_def tasks_wf_def)
  show ?thesis
  proof (rule wf_rows [OF assms(2)])
    show "db_system_tasks d' = sql_update (\<lambda>r. stk_id r = i) (changed_task off now ?g) (db_system_tasks d)" by (simp add: q(4))
    fix r
    assume r: "r \<in> set (db_system_tasks d)" "stk_id r = i"
    have "\<not> badTarget (stk_kind r) (given (uti_target ?g) (stk_target r))"
      using q(3) only [OF r] assms(2) r(1) by (auto simp: given_def tasks_wf_def split: option.splits)
    moreover have "schedule_ok (changed_schedule f (row_schedule r))"
      using changed_schedule_ok [OF q(2)] assms(2) r(1) by (simp add: tasks_wf_def)
    ultimately show "stk_id (changed_task off now ?g r) = stk_id r \<and> schedule_ok (row_schedule (changed_task off now ?g r)) \<and>
        stk_kind (changed_task off now ?g r) = stk_kind r \<and> \<not> badTarget (stk_kind r) (stk_target (changed_task off now ?g r))"
      by (simp add: same)
  qed
qed (use assms in \<open>auto simp: patchTask_def Let_def split: option.splits if_splits prod.splits\<close>)

lemma length_sql_delete: "length (sql_delete P t) \<le> length t"
  by (simp add: sql_delete_def)

lemma wf_deleted: "deleteTaskRoute i d = (r, d') \<Longrightarrow> tasks_wf d \<Longrightarrow> tasks_wf d'"
  by (auto simp: deleteTaskRoute_def deleteSystemTask_def tasks_wf_def keyed_delete set_sql_delete
      intro: le_trans [OF length_sql_delete] split: if_splits)

lemma wf_ran: "runTaskRoute off now i s = (r, t) \<Longrightarrow> tasks_wf (tv_db s) \<Longrightarrow> tasks_wf (tv_db t)"
  by (auto simp: runTaskRoute_def wf_started split: option.splits if_splits)

lemma wf_step: "task_step off byhand s t \<Longrightarrow> tasks_wf (tv_db s) \<Longrightarrow> tasks_wf (tv_db t)"
  by (induction rule: task_step.induct)
    (auto simp: wf_tick run_ends_def wf_outcome intro: wf_posted wf_patched wf_deleted wf_ran)

text \<open>The commands the root helper accepts.\<close>

definition safe_command :: "string list \<Rightarrow> bool" where
  "safe_command c \<longleftrightarrow> (\<exists>t. task_label_ok t \<and> (c = STORAGE_HELPER @ [''scrub'', t] \<or> c = STORAGE_HELPER @ [''trim'', t])) \<or>
     (\<exists>t. task_disk_ok t \<and> c = STORAGE_HELPER @ [''smart-test'', t, ''long''])"

text \<open>
  C30. Whatever happens, in whatever order - requests, ticks, runs that end or fail - every
  stored task keeps a schedule in range, a kind of the catalogue and a target that fits it,
  and there are at most twenty; so a run of a stored task is never turned away for its
  target, and the root helper is only ever given a plain volume label or a disk.
\<close>

theorem tasks_stay_runnable:
  assumes "tasks_wf d" and "task_reach off byhand d s"
  shows "tasks_wf (tv_db s) \<and> (\<forall>r \<in> set (db_system_tasks (tv_db s)). \<forall>e now f.
     list_all safe_command (snd (snd (performTask e now (toSystemTask r) (tv_db s) f))) \<and>
     (stk_kind r \<noteq> ''config-backup'' \<longrightarrow> length (snd (snd (performTask e now (toSystemTask r) (tv_db s) f))) = 1))"
proof
  show wf: "tasks_wf (tv_db s)" using assms(2)
    by (induction rule: task_reach.induct) (use assms(1) in \<open>auto simp: startTaskRunner_def wf_cleared intro: wf_step\<close>)
  show "\<forall>r \<in> set (db_system_tasks (tv_db s)). \<forall>e now f.
     list_all safe_command (snd (snd (performTask e now (toSystemTask r) (tv_db s) f))) \<and>
     (stk_kind r \<noteq> ''config-backup'' \<longrightarrow> length (snd (snd (performTask e now (toSystemTask r) (tv_db s) f))) = 1)"
  proof (intro ballI allI)
    fix r e now f
    assume "r \<in> set (db_system_tasks (tv_db s))"
    then have "stk_kind r \<in> set TASK_KINDS" "\<not> badTarget (stk_kind r) (stk_target r)" using wf by (auto simp: tasks_wf_def)
    then show "list_all safe_command (snd (snd (performTask e now (toSystemTask r) (tv_db s) f))) \<and>
     (stk_kind r \<noteq> ''config-backup'' \<longrightarrow> length (snd (snd (performTask e now (toSystemTask r) (tv_db s) f))) = 1)"
      by (auto simp: performTask_def TASK_KINDS_def badTarget_def helper_run_def toSystemTask_def safe_command_def Let_def split: prod.splits)
  qed
qed

definition sample_task_row :: system_task_row where
  "sample_task_row = \<lparr>stk_id = ''t1'', stk_name = ''Night'', stk_kind = ''scrub'', stk_target = ''tank'', stk_frequency = Daily,
     stk_hour = 0, stk_minute = 1, stk_weekday = 0, stk_day_of_month = 1, stk_enabled = True, stk_next_run_at = 60000,
     stk_last_run_at = None, stk_last_status = None, stk_last_output = None, stk_created_at = 0\<rparr>"

definition sample_task_db :: db where
  "sample_task_db = empty_db\<lparr>db_system_tasks := [sample_task_row]\<rparr>"

lemma sample_task_wf: "tasks_wf sample_task_db"
  by (simp add: tasks_wf_def sample_task_db_def sample_task_row_def empty_db_def keyed_def MAX_TASKS_def TASK_KINDS_def badTarget_def
      schedule_ok_def row_schedule_def) code_simp

lemma sample_next: "nextRun 0 (row_schedule sample_task_row) 60000 = 86460000" "nextRun 0 (row_schedule sample_task_row) 30000 = 60000"
  by (simp_all add: nextRun_def row_schedule_def sample_task_row_def local_day_def DAY_def at_time_def Let_def)

lemma sample_started: "startTaskRunner sample_task_db = \<lparr>tv_db = sample_task_db, tv_running = [], tv_active = []\<rparr>"
  by (simp add: startTaskRunner_def clearInterruptedTasks_def sample_task_db_def sample_task_row_def empty_db_def)

lemma tasks_stay_runnable_witness:
  "tasks_wf (tv_db (tick 0 60000 (startTaskRunner sample_task_db)))"
  using tasks_stay_runnable [OF sample_task_wf task_reach.step [OF task_reach.start task_step.ticks [of 0 False _ 60000]]] by blast

theorem tick_leaves_nothing_overdue_witness:
  "dueSystemTasks 60000 (tv_db (startTaskRunner sample_task_db)) \<noteq> [] \<and>
   stt_id ` set (dueSystemTasks 60000 (tv_db (tick 0 60000 (startTaskRunner sample_task_db)))) = {}"
proof
  show "dueSystemTasks 60000 (tv_db (startTaskRunner sample_task_db)) \<noteq> []"
    unfolding sample_started by (simp add: dueSystemTasks_def sample_task_db_def empty_db_def sample_task_row_def order_asc_def)
  show "stt_id ` set (dueSystemTasks 60000 (tv_db (tick 0 60000 (startTaskRunner sample_task_db)))) = {}"
    using tick_leaves_nothing_overdue [of "startTaskRunner sample_task_db" 60000 0] sample_task_wf
    by (simp add: sample_started)
qed

subsection \<open>Overlapping runs\<close>

definition timer_inv :: "task_server \<Rightarrow> bool" where
  "timer_inv s \<longleftrightarrow> distinct (tv_running s) \<and> distinct (tv_active s) \<and> (\<forall>i b. (i, b) \<in> set (tv_active s) \<longleftrightarrow> b \<and> i \<in> set (tv_running s))"

lemma timer_inv_start: "timer_inv s \<Longrightarrow> timer_inv (start_due off now t s)"
  by (auto simp: timer_inv_def start_due_def)

lemma timer_inv_tick: "timer_inv s \<Longrightarrow> timer_inv (tick off now s)"
proof -
  have "timer_inv s \<Longrightarrow> timer_inv (fold (start_due off now) ts s)" for ts
    by (induction ts arbitrary: s) (simp_all add: timer_inv_start)
  then show "timer_inv s \<Longrightarrow> timer_inv (tick off now s)" by (simp add: tick_def)
qed

lemma timer_inv_step: "task_step off False s t \<Longrightarrow> timer_inv s \<Longrightarrow> timer_inv t"
proof (induction rule: task_step.induct)
  case (ticks s now)
  then show ?case by (simp add: timer_inv_tick)
next
  case (ends x s r)
  obtain i b where x: "x = (i, b)" by fastforce
  then show ?case using ends by (auto simp: timer_inv_def run_ends_def)
qed (auto simp: timer_inv_def)

text \<open>
  C31. The timer never runs a task twice at a time: as long as nobody starts a run by hand, no
  task has two runs in flight, however long its runs take and whatever is changed or deleted
  meanwhile.
\<close>

theorem timer_never_overlaps:
  assumes "task_reach off False d s"
  shows "distinct (map fst (tv_active s))"
proof -
  have inv: "timer_inv s" using assms
    by (induction rule: task_reach.induct) (auto simp: startTaskRunner_def timer_inv_def [of "\<lparr>tv_db = d, tv_running = r, tv_active = a\<rparr>" for d r a]
        intro: timer_inv_step)
  then have "inj_on fst (set (tv_active s))" by (auto simp: timer_inv_def inj_on_def)
  then show ?thesis using inv by (simp add: timer_inv_def distinct_map)
qed

theorem timer_never_overlaps_witness: "distinct (map fst (tv_active (tick 0 60000 (startTaskRunner sample_task_db))))"
  by (rule timer_never_overlaps [OF task_reach.step [OF task_reach.start task_step.ticks [of 0 False _ 60000]]])

text \<open>
  A run by hand is unknown to the timer: a task started by hand that is still running when
  its time comes is started a second time, against the promise that a slow run is not
  started again.
\<close>

theorem manual_run_overlaps:
  "\<exists>s. task_reach 0 True sample_task_db s \<and> tv_active s = [(''t1'', True), (''t1'', False)]"
proof -
  let ?s = "\<lparr>tv_db = markTaskStarted 0 30000 ''t1'' sample_task_db, tv_running = [], tv_active = [(''t1'', False)]\<rparr>"
  have row: "markTaskStarted 0 30000 ''t1'' sample_task_db = sample_task_db\<lparr>db_system_tasks := [started_task 0 30000 sample_task_row]\<rparr>"
    by (simp add: markTaskStarted_def sample_task_db_def empty_db_def sample_task_row_def)
  have "runTaskRoute 0 30000 ''t1'' (startTaskRunner sample_task_db) = (Sent (), ?s)"
    unfolding sample_started
    by (simp add: runTaskRoute_def getSystemTask_def systemTaskRow_def) (simp add: sample_task_db_def sample_task_row_def toSystemTask_def)
  then have reach: "task_reach 0 True sample_task_db ?s" by (rule task_reach.step [OF task_reach.start task_step.ran [OF TrueI]])
  have "tv_active (tick 0 60000 ?s) = [(''t1'', True), (''t1'', False)]"
    using sample_next(2)
    by (simp add: tick_def dueSystemTasks_def row start_due_def toSystemTask_def order_asc_def)
      (simp add: sample_task_row_def)
  then show ?thesis using task_reach.step [OF reach task_step.ticks] by blast
qed

end
