(* ===== verification/Firewall.thy ===== *)
theory Firewall
  imports Attempts AuthGate AuthRoutes
begin

text \<open>
  The firewall of the host: its settings and the nftables ruleset made of them
  (\<open>system/firewall.ts\<close>), the decoy paths (\<open>system/honeypot.ts\<close>) and the routes of
  \<open>admin/routes.ts\<close> that apply a change, wait for its confirmation and put the old rules back.
\<close>

subsection \<open>Settings\<close>

record firewall_service =
  fsv_id :: string
  fsv_name :: string
  fsv_ports :: "(string \<times> nat) list"
  fsv_always_on :: bool

definition FIREWALL_SERVICES :: "firewall_service list" where
  "FIREWALL_SERVICES =
     [\<lparr>fsv_id = ''web'', fsv_name = ''Web interface'', fsv_ports = [(''tcp'', 80), (''tcp'', 443)], fsv_always_on = True\<rparr>,
      \<lparr>fsv_id = ''ssh'', fsv_name = ''SSH'', fsv_ports = [(''tcp'', 22)], fsv_always_on = False\<rparr>,
      \<lparr>fsv_id = ''smb'', fsv_name = ''SMB / CIFS'', fsv_ports = [(''tcp'', 445), (''tcp'', 139)], fsv_always_on = False\<rparr>,
      \<lparr>fsv_id = ''nfs'', fsv_name = ''NFS'', fsv_ports = [(''tcp'', 2049), (''udp'', 2049), (''tcp'', 111), (''udp'', 111)],
       fsv_always_on = False\<rparr>,
      \<lparr>fsv_id = ''afp'', fsv_name = ''AFP'', fsv_ports = [(''tcp'', 548)], fsv_always_on = False\<rparr>,
      \<lparr>fsv_id = ''discovery'', fsv_name = ''Network discovery'',
       fsv_ports = [(''udp'', 5353), (''udp'', 3702), (''tcp'', 5357)], fsv_always_on = False\<rparr>]"

record firewall_config =
  fwc_enabled :: bool
  fwc_allowed :: "string list"
  fwc_trusted :: "string list"
  fwc_restrict :: bool

definition DEFAULT_FIREWALL :: firewall_config where
  "DEFAULT_FIREWALL = \<lparr>fwc_enabled = False, fwc_allowed = [''web'', ''ssh'', ''smb'', ''nfs'', ''afp'', ''discovery''],
     fwc_trusted = [], fwc_restrict = False\<rparr>"

text \<open>
  Reading a parsed value; \<open>null\<close> throws, and so does a network that is not a text, since
  \<open>isValidCidr\<close> trims it.  Both end in the default.
\<close>

definition text_of :: "json \<Rightarrow> string option" where
  "text_of j = (case j of JStr s \<Rightarrow> Some s | _ \<Rightarrow> None)"

definition firewall_of_json :: "json \<Rightarrow> firewall_config" where
  "firewall_of_json j =
     (let allowed = (case jget j ''allowed'' of
            Some (JArr js) \<Rightarrow> filter (\<lambda>i. list_ex (\<lambda>s. fsv_id s = i) FIREWALL_SERVICES) (List.map_filter text_of js)
          | _ \<Rightarrow> fwc_allowed DEFAULT_FIREWALL);
          networks = (case jget j ''trustedNetworks'' of Some (JArr js) \<Rightarrow> js | _ \<Rightarrow> [])
      in if j = JNull \<or> list_ex (\<lambda>n. text_of n = None) networks then DEFAULT_FIREWALL
         else \<lparr>fwc_enabled = (jget j ''enabled'' = Some (JBool True)), fwc_allowed = allowed,
               fwc_trusted = filter isValidCidr (List.map_filter text_of networks),
               fwc_restrict = (jget j ''restrictToTrusted'' = Some (JBool True))\<rparr>)"

definition getFirewallConfig :: "crypto \<Rightarrow> db \<Rightarrow> firewall_config" where
  "getFirewallConfig cr d =
     (case json_parse (getSettingOr cr d ''firewall'' '''') of None \<Rightarrow> DEFAULT_FIREWALL | Some j \<Rightarrow> firewall_of_json j)"

definition firewall_json :: "firewall_config \<Rightarrow> json" where
  "firewall_json c = JObj [(''enabled'', JBool (fwc_enabled c)), (''allowed'', JArr (map JStr (fwc_allowed c))),
     (''trustedNetworks'', JArr (map JStr (fwc_trusted c))), (''restrictToTrusted'', JBool (fwc_restrict c))]"

definition setFirewallConfig :: "crypto \<Rightarrow> firewall_config \<Rightarrow> db \<Rightarrow> db" where
  "setFirewallConfig cr c d = setSetting cr '''' '''' ''firewall'' (stringify (firewall_json c)) d"

subsection \<open>The ruleset\<close>

definition is_v6 :: "string \<Rightarrow> bool" where
  "is_v6 cidr \<longleftrightarrow> CHR '':'' \<in> set cidr"

definition enabled_services :: "firewall_config \<Rightarrow> firewall_service list" where
  "enabled_services c = filter (\<lambda>s. fsv_always_on s \<or> fsv_id s \<in> set (fwc_allowed c)) FIREWALL_SERVICES"

definition trusted4 :: "firewall_config \<Rightarrow> string list" where
  "trusted4 c = filter (\<lambda>n. \<not> is_v6 n) (fwc_trusted c)"

definition trusted6 :: "firewall_config \<Rightarrow> string list" where
  "trusted6 c = filter is_v6 (fwc_trusted c)"

definition ruleset_head :: "string list" where
  "ruleset_head =
     [''#!/usr/sbin/nft -f'', ''# Generated by OpenNAS - do not edit by hand.'', '''',
      ''# Replace only *our* table, atomically. `flush ruleset` would be simpler and'',
      ''# would also delete the tables Docker and libvirt install for container and'',
      ''# VM networking - applying a firewall would silently break both. The bare'',
      ''# `table` line creates it when absent so the delete can'' @ CHR 0x27 # ''t fail on first run.'',
      ''table inet opennas'', ''delete table inet opennas'', '''', ''table inet opennas {'']"

definition set_lines :: "string \<Rightarrow> string \<Rightarrow> string list \<Rightarrow> string list" where
  "set_lines name type networks =
     (if networks = [] then []
      else [''  set '' @ name @ '' {'', ''    type '' @ type, ''    flags interval'',
            ''    elements = { '' @ join '', '' networks @ '' }'', ''  }''])"

definition trusted_lines :: "firewall_config \<Rightarrow> string list" where
  "trusted_lines c =
     (if fwc_trusted c = [] then []
      else set_lines ''trusted4'' ''ipv4_addr'' (trusted4 c) @ set_lines ''trusted6'' ''ipv6_addr'' (trusted6 c) @ [''''])"

definition banned_lines :: "string list" where
  "banned_lines =
     [''  set banned4 {'', ''    type ipv4_addr'', ''    flags dynamic,timeout'', ''  }'', '''',
      ''  set banned6 {'', ''    type ipv6_addr'', ''    flags dynamic,timeout'', ''  }'', '''']"

definition input_head :: "string list" where
  "input_head =
     [''  chain input {'', ''    type filter hook input priority filter; policy drop;'', '''',
      ''    # Anything the box started itself, and its own loopback.'',
      ''    ct state established,related accept'', ''    ct state invalid drop'', ''    iif lo accept'', '''',
      ''    # Banned for repeated failed sign-ins. Placed after the loopback and'',
      ''    # established-connection rules so a ban can never cut the box off from'',
      ''    # itself or kill a connection that was already accepted, and before'',
      ''    # every accept below so it actually takes effect.'',
      ''    ip saddr @banned4 drop'', ''    ip6 saddr @banned6 drop'', '''',
      ''    # ICMP, including the bits IPv6 stops working without.'',
      ''    ip protocol icmp accept'', ''    meta l4proto ipv6-icmp accept'', '''',
      ''    # DHCP replies, or the box loses its lease and disappears.'',
      ''    udp sport 67 udp dport 68 accept'', ''    udp sport 547 udp dport 546 accept'', '''']"

definition service_lines :: "string list \<Rightarrow> firewall_service \<Rightarrow> string list" where
  "service_lines guards s =
     (''    # '' @ fsv_name s) #
     concat (map (\<lambda>(proto, port). map (\<lambda>g. ''    '' @ g @ proto @ '' dport '' @ js_nat port @ '' accept'') guards) (fsv_ports s))"

definition service_rules :: "firewall_config \<Rightarrow> string list" where
  "service_rules c =
     (if fwc_restrict c \<and> fwc_trusted c \<noteq> [] then
        ''    # Everything below is limited to the trusted networks.'' #
        concat (map (service_lines ((if trusted4 c \<noteq> [] then [''ip saddr @trusted4 ''] else []) @
                                    (if trusted6 c \<noteq> [] then [''ip6 saddr @trusted6 ''] else []))) (enabled_services c))
      else
        (if fwc_trusted c = [] then []
         else [''    # Trusted networks reach everything, whatever is toggled below.''] @
              (if trusted4 c \<noteq> [] then [''    ip saddr @trusted4 accept''] else []) @
              (if trusted6 c \<noteq> [] then [''    ip6 saddr @trusted6 accept''] else []) @ ['''']) @
        concat (map (service_lines ['''']) (enabled_services c)))"

definition ruleset_tail :: "string list" where
  "ruleset_tail =
     [''  }'', '''', ''  # Containers and VMs do their own forwarding; leave that alone rather than'',
      ''  # breaking Docker'' @ CHR 0x27 # ''s and libvirt'' @ CHR 0x27 # ''s chains, which live in other tables.'',
      ''  chain forward {'', ''    type filter hook forward priority filter; policy accept;'', ''  }'', '''',
      ''  chain output {'', ''    type filter hook output priority filter; policy accept;'', ''  }'', ''}'', '''']"

definition generateRuleset :: "firewall_config \<Rightarrow> string" where
  "generateRuleset c =
     join [CHR 0x0A] (ruleset_head @ trusted_lines c @ banned_lines @ input_head @ service_rules c @ ruleset_tail)"

subsection \<open>Bans in the kernel\<close>

text \<open>\<open>parseDuration\<close>: every number followed by a unit counts; milliseconds are dropped.\<close>

function parseDuration :: "string \<Rightarrow> nat" where
  "parseDuration t =
     (case dropWhile (\<lambda>c. \<not> is_digit c) t of
        [] \<Rightarrow> 0
      | c # s \<Rightarrow>
          (let n = decimal (takeWhile is_digit (c # s)); r = dropWhile is_digit s in
           if starts_with r ''ms'' then parseDuration (drop 2 r)
           else (case r of
                   [] \<Rightarrow> 0
                 | u # r' \<Rightarrow> (if u = CHR ''d'' then n * 86400 else if u = CHR ''h'' then n * 3600
                             else if u = CHR ''m'' then n * 60 else if u = CHR ''s'' then n else 0) + parseDuration r')))"
  by pat_completeness auto
termination
proof (relation "measure length", goal_cases)
  case (2 t c s n r)
  then show ?case using length_dropWhile_le [of "\<lambda>c. \<not> is_digit c" t] length_dropWhile_le [of is_digit s] by auto
next
  case (3 t c s n r u r')
  then show ?case using length_dropWhile_le [of "\<lambda>c. \<not> is_digit c" t] length_dropWhile_le [of is_digit s] by (auto simp: dest: arg_cong [where f = length])
qed simp

declare parseDuration.simps [simp del]

subsection \<open>The host\<close>

text \<open>
  The privileged helper (\<open>packaging/opennas-firewall\<close>) and what it works on: the loaded table
  with its ban sets, the ruleset kept for the next boot and the file the server writes for
  it.  Open to the outside: whether this is the appliance, whether \<open>doas\<close> lets the server run
  the helper, whether the server could change the kernel's tables itself, what \<open>nft\<close> accepts,
  whether files can be written, and how \<open>nft\<close> prints its sets.
\<close>

record fw_env =
  fe_linux :: bool
  fe_doas :: bool
  fe_root :: bool
  fe_nft :: bool
  fe_accepts :: "string \<Rightarrow> bool"
  fe_element :: "string \<Rightarrow> bool"
  fe_persists :: bool
  fe_writes :: bool
  fe_listing :: "(string \<times> millis) list \<Rightarrow> string"

record fw_host =
  fh_table :: "string option"
  fh_banned :: "(string \<times> millis) list"
  fh_saved :: "string option"
  fh_file :: "string option"

datatype fw_status = FwActive | FwInactive | FwUnavailable

definition helper_apply :: "fw_env \<Rightarrow> fw_host \<Rightarrow> bool \<times> fw_host" where
  "helper_apply e h =
     (case fh_file h of
        None \<Rightarrow> (False, h)
      | Some text \<Rightarrow>
          if \<not> fe_nft e \<or> \<not> fe_accepts e text then (False, h)
          else
            (let h1 = h\<lparr>fh_table := Some text, fh_banned := []\<rparr>
             in if fe_persists e then (True, h1\<lparr>fh_saved := Some text\<rparr>) else (False, h1)))"

definition helper_disable :: "fw_env \<Rightarrow> fw_host \<Rightarrow> bool \<times> fw_host" where
  "helper_disable e h = (True, if fe_nft e then h\<lparr>fh_table := None, fh_banned := [], fh_saved := None\<rparr> else h)"

definition ban_chars :: "string \<Rightarrow> bool" where
  "ban_chars ip \<longleftrightarrow>
     (if CHR '':'' \<in> set ip then list_all (\<lambda>c. is_hex c \<or> c = CHR '':'' \<or> c = CHR ''.'') ip
      else list_all (\<lambda>c. is_digit c \<or> c = CHR ''.'') ip)"

text \<open>An address that is in a set already stays there as it is.\<close>

definition helper_ban :: "fw_env \<Rightarrow> string \<Rightarrow> int \<Rightarrow> millis \<Rightarrow> fw_host \<Rightarrow> bool \<times> fw_host" where
  "helper_ban e ip seconds now h =
     (if ip = '''' \<or> \<not> fe_nft e \<or> \<not> (1 \<le> seconds \<and> seconds \<le> 604800) \<or> \<not> ban_chars ip then (False, h)
      else if \<not> fe_root e \<or> fh_table h = None \<or> \<not> fe_element e ip then (False, h)
      else (True, h\<lparr>fh_banned := (let live = filter (\<lambda>(a, t). now < t) (fh_banned h) in
              if ip \<in> fst ` set live then live else live @ [(ip, now + seconds * 1000)])\<rparr>))"

definition helper_unban :: "fw_env \<Rightarrow> string \<Rightarrow> fw_host \<Rightarrow> fw_host" where
  "helper_unban e ip h =
     (if ip = '''' \<or> \<not> fe_nft e \<or> \<not> ban_chars ip \<or> \<not> fe_root e then h
      else h\<lparr>fh_banned := filter (\<lambda>(a, t). a \<noteq> ip) (fh_banned h)\<rparr>)"

definition helper_bans :: "fw_env \<Rightarrow> millis \<Rightarrow> fw_host \<Rightarrow> string" where
  "helper_bans e now h =
     (if \<not> fe_nft e \<or> \<not> fe_root e \<or> fh_table h = None then '''' else fe_listing e (filter (\<lambda>(a, t). now < t) (fh_banned h)))"

text \<open>
  What \<open>system/integration.ts\<close> makes of it: the status and changes to the rules go through
  \<open>doas\<close>.  \<open>banAddress\<close>, \<open>unbanAddress\<close> and \<open>activeBans\<close> of \<open>system/firewall.ts\<close> run the helper
  directly.
\<close>

definition firewallStatus :: "fw_env \<Rightarrow> fw_host \<Rightarrow> fw_status" where
  "firewallStatus e h =
     (if \<not> fe_linux e \<or> \<not> fe_doas e \<or> \<not> fe_nft e then FwUnavailable
      else if fh_table h \<noteq> None then FwActive else FwInactive)"

definition with_doas :: "fw_env \<Rightarrow> (fw_env \<Rightarrow> fw_host \<Rightarrow> bool \<times> fw_host) \<Rightarrow> fw_host \<Rightarrow> bool \<times> fw_host" where
  "with_doas e f h = (if fe_linux e \<and> fe_doas e then f e h else (False, h))"

definition banAddress :: "fw_env \<Rightarrow> millis \<Rightarrow> string \<Rightarrow> int \<Rightarrow> fw_host \<Rightarrow> bool \<times> fw_host" where
  "banAddress e now address seconds h = helper_ban e address seconds now h"

definition unbanAddress :: "fw_env \<Rightarrow> string \<Rightarrow> fw_host \<Rightarrow> fw_host" where
  "unbanAddress e address h = helper_unban e address h"

text \<open>The first match of \<open>/expires ([0-9hmsd]+)/\<close> in a line.\<close>

fun expires_in :: "string \<Rightarrow> string option" where
  "expires_in [] = None"
| "expires_in (c # s) =
     (let v = takeWhile (\<lambda>x. is_digit x \<or> x \<in> set ''hmsd'') (drop 8 (c # s))
      in if starts_with (c # s) ''expires '' \<and> v \<noteq> '''' then Some v else expires_in s)"

definition ban_line :: "string \<Rightarrow> (string \<times> nat) option" where
  "ban_line line =
     (let t = js_trim line; address = takeWhile (\<lambda>c. \<not> js_space c) t in
      if t = '''' then None
      else Some (js_lower address, case expires_in t of None \<Rightarrow> 0 | Some x \<Rightarrow> parseDuration x))"

text \<open>A \<open>Map\<close>: an address that comes again keeps its place and takes the new value.\<close>

definition map_put :: "'a \<times> 'b \<Rightarrow> ('a \<times> 'b) list \<Rightarrow> ('a \<times> 'b) list" where
  "map_put e m = sql_upsert (\<lambda>x. fst x = fst e) (\<lambda>_. e) e m"

definition activeBans :: "fw_env \<Rightarrow> millis \<Rightarrow> fw_host \<Rightarrow> (string \<times> nat) list" where
  "activeBans e now h = fold map_put (List.map_filter ban_line (split_on (CHR 0x0A) (helper_bans e now h))) []"

subsection \<open>Decoy paths\<close>

definition DECOY_BAN_SECONDS :: int where "DECOY_BAN_SECONDS = 60 * 60"

definition DECOY_PATHS :: "string list" where
  "DECOY_PATHS =
     [''/wp-login.php'', ''/wp-admin'', ''/wp-admin/'', ''/wp-admin/setup-config.php'', ''/wp-config.php'', ''/xmlrpc.php'',
      ''/.env'', ''/.env.local'', ''/.env.production'', ''/.aws/credentials'', ''/.ssh/id_rsa'', ''/.htpasswd'', ''/config.php'',
      ''/configuration.php'', ''/phpmyadmin'', ''/phpmyadmin/'', ''/pma'', ''/myadmin'', ''/admin.php'', ''/administrator/'',
      ''/manager/html'', ''/solr/'', ''/jenkins/login'', ''/boaform/admin/formlogin'', ''/hnap1/'', ''/shell'', ''/console'']"

definition DECOY_PREFIXES :: "string list" where
  "DECOY_PREFIXES =
     [''/cgi-bin/'', ''/.git/'', ''/wp-admin/'', ''/wp-includes/'', ''/wp-content/'', ''/phpmyadmin/'', ''/administrator/'',
      ''/vendor/phpunit/'']"

definition isDecoyPath :: "string \<Rightarrow> bool" where
  "isDecoyPath rawPath \<longleftrightarrow>
     (let path = js_lower (hd (split_on (CHR ''#'') (hd (split_on (CHR ''?'') rawPath)))) in
      path \<noteq> '''' \<and> (path \<in> set DECOY_PATHS \<or> list_ex (starts_with path) DECOY_PREFIXES))"

definition NEVER_TRAPPED :: "string list" where
  "NEVER_TRAPPED = [''10.0.0.0/8'', ''172.16.0.0/12'', ''192.168.0.0/16'', ''169.254.0.0/16'', ''100.64.0.0/10'']"

definition isExemptFromTrap :: "string \<Rightarrow> string list \<Rightarrow> bool" where
  "isExemptFromTrap address trustedNetworks \<longleftrightarrow>
     (if \<not> isBannable address trustedNetworks then True
      else if list_ex (addressInCidr address) NEVER_TRAPPED then True
      else (let a = map ascii_lower_char (js_trim address)
            in starts_with a ''fe80:'' \<or> starts_with a ''fc'' \<or> starts_with a ''fd''))"

definition honeypotEnabled :: "crypto \<Rightarrow> db \<Rightarrow> bool" where
  "honeypotEnabled cr d \<longleftrightarrow> getSettingOr cr d ''honeypot_enabled'' ''true'' = ''true''"

definition setHoneypotEnabled :: "crypto \<Rightarrow> bool \<Rightarrow> db \<Rightarrow> db" where
  "setHoneypotEnabled cr on d = setSetting cr '''' '''' ''honeypot_enabled'' (if on then ''true'' else ''false'') d"

record honeypot_config =
  hpc_enabled :: bool
  hpc_ban_seconds :: int
  hpc_examples :: "string list"

definition honeypotConfig :: "crypto \<Rightarrow> db \<Rightarrow> honeypot_config" where
  "honeypotConfig cr d = \<lparr>hpc_enabled = honeypotEnabled cr d, hpc_ban_seconds = DECOY_BAN_SECONDS,
     hpc_examples = [''/wp-login.php'', ''/.env'', ''/.git/config'', ''/phpmyadmin'', ''/cgi-bin/luci'']\<rparr>"

definition describePath :: "string \<Rightarrow> string" where
  "describePath path = take 120 (filter (\<lambda>c. \<not> (of_char c < (32 :: nat)) \<and> c \<noteq> CHR 0x7F) path)"

text \<open>Logging is not modelled; the outer \<open>try\<close> only guards against a failing database.\<close>

definition noteDecoyHit :: "crypto \<Rightarrow> fw_env \<Rightarrow> millis \<Rightarrow> string \<Rightarrow> string \<Rightarrow> db \<times> fw_host \<Rightarrow> db \<times> fw_host" where
  "noteDecoyHit cr e now address path dh =
     (let (d, h) = dh in
      if \<not> honeypotEnabled cr d then (d, h)
      else if isExemptFromTrap address (fwc_trusted (getFirewallConfig cr d)) then (d, h)
      else
        (let h1 = snd (banAddress e now address DECOY_BAN_SECONDS h);
             reason = ''Requested '' @ describePath path @ '', which only a scanner asks for.''
         in (snd (recordBan address reason 1 DECOY_BAN_SECONDS now d), h1)))"

text \<open>The hook of \<open>server.ts\<close> in front of every route; \<open>None\<close> lets the request on.\<close>

definition decoyHook :: "crypto \<Rightarrow> fw_env \<Rightarrow> millis \<Rightarrow> string \<Rightarrow> string \<Rightarrow> db \<times> fw_host \<Rightarrow> (nat \<times> string) option \<times> db \<times> fw_host" where
  "decoyHook cr e now ip url dh =
     (if \<not> isDecoyPath url then (None, dh) else (Some (404, ''Not Found''), noteDecoyHit cr e now ip url dh))"

record ip_bans_reply =
  ibr_bans :: "ip_ban list"
  ibr_enforced :: bool
  ibr_honeypot :: honeypot_config

definition bansResponse :: "crypto \<Rightarrow> fw_env \<Rightarrow> millis \<Rightarrow> db \<times> fw_host \<Rightarrow> ip_bans_reply \<times> db" where
  "bansResponse cr e now dh =
     (let (d, h) = dh; live = activeBans e now h;
          (bans, d1) = currentBans (map (\<lambda>(a, n). (a, int n)) live) now d
      in (\<lparr>ibr_bans = bans, ibr_enforced = (live \<noteq> [] \<or> fwc_enabled (getFirewallConfig cr d1)),
           ibr_honeypot = honeypotConfig cr d1\<rparr>, d1))"

subsection \<open>The routes\<close>

text \<open>
  The server waits for a confirmation of the last change: \<open>pendingRevert\<close>, and the timers that
  have been set and not cleared.  A timer is known by the token it was set with.
\<close>

record pending_revert =
  pv_token :: string
  pv_previous :: firewall_config

record fw_server =
  fws_db :: db
  fws_host :: fw_host
  fws_pending :: "pending_revert option"
  fws_timers :: "pending_revert list"

text \<open>Loaded, refused with a message, or an exception: writing the file failed.\<close>

datatype load_outcome = Loaded | LoadError | LoadThrew

definition loadRuleset :: "fw_env \<Rightarrow> firewall_config \<Rightarrow> fw_host \<Rightarrow> load_outcome \<times> fw_host" where
  "loadRuleset e fw h =
     (if firewallStatus e h = FwUnavailable then (Loaded, h)
      else if \<not> fwc_enabled fw then
        (case with_doas e helper_disable h of (ok, h1) \<Rightarrow> (if ok then Loaded else LoadError, h1))
      else if \<not> fe_writes e then (LoadThrew, h)
      else
        (case with_doas e helper_apply (h\<lparr>fh_file := Some (generateRuleset fw)\<rparr>) of
           (ok, h1) \<Rightarrow> (if ok then Loaded else LoadError, h1)))"

definition cancelPendingRevert :: "fw_server \<Rightarrow> fw_server" where
  "cancelPendingRevert s =
     (case fws_pending s of
        None \<Rightarrow> s
      | Some p \<Rightarrow> s\<lparr>fws_timers := filter (\<lambda>q. pv_token q \<noteq> pv_token p) (fws_timers s), fws_pending := None\<rparr>)"

definition firewall_body_ok :: "firewall_config \<Rightarrow> bool" where
  "firewall_body_ok b \<longleftrightarrow>
     list_all (\<lambda>i. i \<in> set (map fsv_id FIREWALL_SERVICES)) (fwc_allowed b) \<and> length (fwc_allowed b) \<le> 16 \<and>
     list_all (trimmed_between 1 64) (fwc_trusted b) \<and> length (fwc_trusted b) \<le> 32"

definition trim_networks :: "firewall_config \<Rightarrow> firewall_config" where
  "trim_networks b = b\<lparr>fwc_trusted := map js_trim (fwc_trusted b)\<rparr>"

record firewall_reply =
  fwr_config :: firewall_config
  fwr_pending :: "(string \<times> int) option"
  fwr_preview :: string

definition putFirewall ::
  "crypto \<Rightarrow> fw_env \<Rightarrow> int \<Rightarrow> string \<Rightarrow> firewall_config \<Rightarrow> fw_server \<Rightarrow> firewall_reply reply \<times> fw_server" where
  "putFirewall cr e revertSeconds token b s =
     (if \<not> firewall_body_ok b then (Refused 400 ''invalid'', s)
      else
        (let fw = trim_networks b in
         if \<not> list_all isValidCidr (fwc_trusted fw) then (Refused 400 ''bad_network'', s)
         else if fwc_restrict fw \<and> fwc_trusted fw = [] then (Refused 400 ''no_networks'', s)
         else
           (let previous = getFirewallConfig cr (fws_db s); s1 = cancelPendingRevert s; (r, h) = loadRuleset e fw (fws_host s1);
                s2 = s1\<lparr>fws_host := h\<rparr>
            in case r of
                 LoadThrew \<Rightarrow> (Refused 500 ''internal'', s2)
               | LoadError \<Rightarrow> (Refused 500 ''apply_failed'', s2)
               | Loaded \<Rightarrow>
                   (let s3 = s2\<lparr>fws_db := setFirewallConfig cr fw (fws_db s2)\<rparr> in
                    if \<not> fwc_enabled fw \<or> firewallStatus e h = FwUnavailable then
                      (Sent \<lparr>fwr_config = fw, fwr_pending = None, fwr_preview = generateRuleset fw\<rparr>, s3)
                    else
                      (let p = \<lparr>pv_token = token, pv_previous = previous\<rparr>
                       in (Sent \<lparr>fwr_config = fw, fwr_pending = Some (token, revertSeconds), fwr_preview = generateRuleset fw\<rparr>,
                           s3\<lparr>fws_pending := Some p, fws_timers := fws_timers s3 @ [p]\<rparr>))))))"

definition confirmFirewall :: "crypto \<Rightarrow> string \<Rightarrow> fw_server \<Rightarrow> firewall_config reply \<times> fw_server" where
  "confirmFirewall cr token s =
     (if token = '''' then (Refused 400 ''invalid'', s)
      else if map_option pv_token (fws_pending s) \<noteq> Some token then (Refused 409 ''no_pending'', s)
      else (Sent (getFirewallConfig cr (fws_db s)), cancelPendingRevert s))"

definition revertFirewall :: "crypto \<Rightarrow> fw_env \<Rightarrow> fw_server \<Rightarrow> firewall_config reply \<times> fw_server" where
  "revertFirewall cr e s =
     (case fws_pending s of
        None \<Rightarrow> (Refused 409 ''no_pending'', s)
      | Some p \<Rightarrow>
          (let s1 = cancelPendingRevert s; (r, h) = loadRuleset e (pv_previous p) (fws_host s1); s2 = s1\<lparr>fws_host := h\<rparr>
           in if r = LoadThrew then (Refused 500 ''internal'', s2)
              else (Sent (pv_previous p), s2\<lparr>fws_db := setFirewallConfig cr (pv_previous p) (fws_db s2)\<rparr>)))"

text \<open>
  A timer that fires loads the old ruleset and, when that is done, stores the old settings; a
  request can come in between.  An exception in it ends the process.
\<close>

definition timer_loads :: "fw_env \<Rightarrow> pending_revert \<Rightarrow> fw_server \<Rightarrow> load_outcome \<times> fw_server" where
  "timer_loads e p s =
     (let (r, h) = loadRuleset e (pv_previous p) (fws_host s)
      in (r, s\<lparr>fws_host := h, fws_timers := filter (\<lambda>q. pv_token q \<noteq> pv_token p) (fws_timers s)\<rparr>))"

definition timer_stores :: "crypto \<Rightarrow> pending_revert \<Rightarrow> fw_server \<Rightarrow> fw_server" where
  "timer_stores cr p s = s\<lparr>fws_db := setFirewallConfig cr (pv_previous p) (fws_db s), fws_pending := None\<rparr>"

definition restarted :: "fw_server \<Rightarrow> fw_server" where
  "restarted s = s\<lparr>fws_pending := None, fws_timers := []\<rparr>"

definition timer_fires :: "crypto \<Rightarrow> fw_env \<Rightarrow> pending_revert \<Rightarrow> fw_server \<Rightarrow> fw_server" where
  "timer_fires cr e p s =
     (case timer_loads e p s of (r, s1) \<Rightarrow> if r = LoadThrew then restarted s1 else timer_stores cr p s1)"

text \<open>The host boots: the init script loads the saved ruleset.\<close>

definition rebooted :: "fw_env \<Rightarrow> fw_server \<Rightarrow> fw_server" where
  "rebooted e s =
     (let h = fws_host s; table = (case fh_saved h of None \<Rightarrow> None | Some text \<Rightarrow> if fe_nft e \<and> fe_accepts e text then Some text else None)
      in restarted s\<lparr>fws_host := h\<lparr>fh_table := table, fh_banned := []\<rparr>\<rparr>)"

record firewall_overview =
  fwo_config :: firewall_config
  fwo_services :: "firewall_service list"
  fwo_available :: bool
  fwo_preview :: string

definition getFirewall :: "crypto \<Rightarrow> fw_env \<Rightarrow> fw_server \<Rightarrow> firewall_overview" where
  "getFirewall cr e s =
     (let c = getFirewallConfig cr (fws_db s) in
      \<lparr>fwo_config = c, fwo_services = FIREWALL_SERVICES, fwo_available = (firewallStatus e (fws_host s) \<noteq> FwUnavailable),
       fwo_preview = generateRuleset c\<rparr>)"

definition getBans :: "crypto \<Rightarrow> fw_env \<Rightarrow> millis \<Rightarrow> fw_server \<Rightarrow> ip_bans_reply \<times> fw_server" where
  "getBans cr e now s = (case bansResponse cr e now (fws_db s, fws_host s) of (r, d) \<Rightarrow> (r, s\<lparr>fws_db := d\<rparr>))"

text \<open>\<open>address\<close> is the decoded parameter, \<open>None\<close> where \<open>decodeURIComponent\<close> throws.\<close>

definition deleteBan :: "crypto \<Rightarrow> fw_env \<Rightarrow> millis \<Rightarrow> string option \<Rightarrow> fw_server \<Rightarrow> ip_bans_reply reply \<times> fw_server" where
  "deleteBan cr e now address s =
     (case address of
        None \<Rightarrow> (Refused 500 ''internal'', s)
      | Some a \<Rightarrow>
          if \<not> (2 \<le> length a \<and> length a \<le> 45 \<and> list_all (\<lambda>c. is_hex c \<or> c = CHR '':'' \<or> c = CHR ''.'') a)
          then (Refused 400 ''invalid'', s)
          else
            (let (d, h) = liftBan (unbanAddress e) a (fws_db s, fws_host s); (r, s1) = getBans cr e now (s\<lparr>fws_db := d, fws_host := h\<rparr>)
             in (Sent r, s1)))"

text \<open>\<open>body\<close> is the switch, \<open>None\<close> where the body has no boolean of that name.\<close>

definition putHoneypot :: "crypto \<Rightarrow> fw_env \<Rightarrow> millis \<Rightarrow> bool option \<Rightarrow> fw_server \<Rightarrow> ip_bans_reply reply \<times> fw_server" where
  "putHoneypot cr e now body s =
     (case body of
        None \<Rightarrow> (Refused 400 ''invalid'', s)
      | Some on \<Rightarrow> (let (r, s1) = getBans cr e now (s\<lparr>fws_db := setHoneypotEnabled cr on (fws_db s)\<rparr>) in (Sent r, s1)))"

end
