(* ===== verification/FirewallProps.thy ===== *)
theory FirewallProps
  imports Firewall Samples
begin

text \<open>
  What the firewall guarantees: the generated ruleset, read back and run as \<open>nft\<close> runs it, is the
  policy the settings stand for; what waits for confirmation is undone; the kernel
  follows the settings; and whom the decoy trap spares.
\<close>

subsection \<open>Reading a ruleset\<close>

text \<open>
  The part of the language of \<open>nft\<close> the generator uses: blocks, sets with elements or filled at
  run time, and rules that end in a verdict; the first rule that matches decides.
\<close>

datatype nft_match =
    CtState "string list"
  | OnLoopback
  | SourceIn bool string
  | Ipv4Protocol string
  | L4Proto string
  | Sport string nat
  | Dport string nat

fun read_rule :: "string list \<Rightarrow> (nft_match list \<times> bool) option" where
  "read_rule [v] = (if v = ''accept'' then Some ([], True) else if v = ''drop'' then Some ([], False) else None)"
| "read_rule (a # b # c # r) =
     (if a = ''iif'' \<and> b = ''lo'' then map_option (apfst (Cons OnLoopback)) (read_rule (c # r))
      else if a = ''ct'' \<and> b = ''state'' then map_option (apfst (Cons (CtState (split_on (CHR '','') c)))) (read_rule r)
      else if (a = ''ip'' \<or> a = ''ip6'') \<and> b = ''saddr'' \<and> starts_with c ''@'' then
        map_option (apfst (Cons (SourceIn (a = ''ip6'') (tl c)))) (read_rule r)
      else if a = ''ip'' \<and> b = ''protocol'' then map_option (apfst (Cons (Ipv4Protocol c))) (read_rule r)
      else if a = ''meta'' \<and> b = ''l4proto'' then map_option (apfst (Cons (L4Proto c))) (read_rule r)
      else if (a = ''tcp'' \<or> a = ''udp'') \<and> b = ''sport'' then map_option (apfst (Cons (Sport a (decimal c)))) (read_rule r)
      else if (a = ''tcp'' \<or> a = ''udp'') \<and> b = ''dport'' then map_option (apfst (Cons (Dport a (decimal c)))) (read_rule r)
      else None)"
| "read_rule _ = None"

definition opens_block :: "string \<Rightarrow> bool" where
  "opens_block l \<longleftrightarrow> ends_with l '' {'' \<and> \<not> starts_with l ''table''"

fun read_blocks :: "(string \<times> string list) option \<Rightarrow> string list \<Rightarrow> (string \<times> string list) list" where
  "read_blocks b [] = []"
| "read_blocks None (l # ls) =
     (if opens_block l then read_blocks (Some (take (length l - 2) l, [])) ls else read_blocks None ls)"
| "read_blocks (Some (h, body)) (l # ls) =
     (if l = ''}'' then (h, body) # read_blocks None ls else read_blocks (Some (h, body @ [l])) ls)"

definition unindent :: "string \<Rightarrow> string" where
  "unindent = dropWhile (\<lambda>c. c = CHR '' '')"

definition nft_blocks :: "string \<Rightarrow> (string \<times> string list) list" where
  "nft_blocks text = read_blocks None (map unindent (split_on (CHR 0x0A) text))"

text \<open>The elements written into a set; a set of that name that is filled at run time has none.\<close>

definition set_elements :: "(string \<times> string list) list \<Rightarrow> string \<Rightarrow> string list" where
  "set_elements bs name =
     (case List.find (\<lambda>l. starts_with l ''elements = { '') (case map_of bs (''set '' @ name) of None \<Rightarrow> [] | Some b \<Rightarrow> b) of
        None \<Rightarrow> []
      | Some l \<Rightarrow> map unindent (split_on (CHR '','') (drop 13 (take (length l - 2) l))))"

definition runtime_set :: "(string \<times> string list) list \<Rightarrow> string \<Rightarrow> bool" where
  "runtime_set bs name \<longleftrightarrow> (case map_of bs (''set '' @ name) of None \<Rightarrow> False | Some b \<Rightarrow> ''flags dynamic,timeout'' \<in> set b)"

definition rule_line :: "string \<Rightarrow> bool" where
  "rule_line l \<longleftrightarrow> l \<noteq> '''' \<and> \<not> starts_with l ''#'' \<and> \<not> starts_with l ''type ''"

definition input_rules :: "(string \<times> string list) list \<Rightarrow> (nft_match list \<times> bool) list option" where
  "input_rules bs =
     (case map_of bs ''chain input'' of
        None \<Rightarrow> None
      | Some b \<Rightarrow>
          if ''type filter hook input priority filter; policy drop;'' \<in> set b
          then those (map (\<lambda>l. read_rule (split_on (CHR '' '') l)) (filter rule_line b)) else None)"

record packet =
  pk_state :: string
  pk_loopback :: bool
  pk_v6 :: bool
  pk_source :: string
  pk_proto :: string
  pk_sport :: nat
  pk_dport :: nat

text \<open>\<open>inside\<close> says whether an address lies in a network, \<open>banned\<close> is what the run-time sets hold.\<close>

fun nft_matches ::
  "(string \<Rightarrow> string \<Rightarrow> bool) \<Rightarrow> string list \<Rightarrow> (string \<times> string list) list \<Rightarrow> packet \<Rightarrow> nft_match \<Rightarrow> bool" where
  "nft_matches inside banned bs p (CtState ss) \<longleftrightarrow> pk_state p \<in> set ss"
| "nft_matches inside banned bs p OnLoopback \<longleftrightarrow> pk_loopback p"
| "nft_matches inside banned bs p (SourceIn v6 name) \<longleftrightarrow>
     pk_v6 p = v6 \<and> ((\<exists>n \<in> set (set_elements bs name). inside (pk_source p) n) \<or> runtime_set bs name \<and> pk_source p \<in> set banned)"
| "nft_matches inside banned bs p (Ipv4Protocol t) \<longleftrightarrow> \<not> pk_v6 p \<and> pk_proto p = t"
| "nft_matches inside banned bs p (L4Proto t) \<longleftrightarrow> pk_proto p = t"
| "nft_matches inside banned bs p (Sport t n) \<longleftrightarrow> pk_proto p = t \<and> pk_sport p = n"
| "nft_matches inside banned bs p (Dport t n) \<longleftrightarrow> pk_proto p = t \<and> pk_dport p = n"

fun first_match :: "(nft_match \<Rightarrow> bool) \<Rightarrow> (nft_match list \<times> bool) list \<Rightarrow> bool" where
  "first_match m [] = False"
| "first_match m ((ms, verdict) # rs) = (if list_all m ms then verdict else first_match m rs)"

definition nft_accepts :: "(string \<Rightarrow> string \<Rightarrow> bool) \<Rightarrow> string list \<Rightarrow> string \<Rightarrow> packet \<Rightarrow> bool option" where
  "nft_accepts inside banned text p =
     (let bs = nft_blocks text in map_option (first_match (nft_matches inside banned bs p)) (input_rules bs))"

subsection \<open>The policy\<close>

definition firewall_policy :: "(string \<Rightarrow> string \<Rightarrow> bool) \<Rightarrow> string list \<Rightarrow> firewall_config \<Rightarrow> packet \<Rightarrow> bool" where
  "firewall_policy inside banned c p \<longleftrightarrow>
     (let trusted = (\<exists>n \<in> set (fwc_trusted c). is_v6 n = pk_v6 p \<and> inside (pk_source p) n);
          served = (\<exists>s \<in> set FIREWALL_SERVICES. (fsv_always_on s \<or> fsv_id s \<in> set (fwc_allowed c)) \<and>
             (pk_proto p, pk_dport p) \<in> set (fsv_ports s));
          upkeep = (\<not> pk_v6 p \<and> pk_proto p = ''icmp'' \<or> pk_proto p = ''ipv6-icmp'' \<or>
             pk_proto p = ''udp'' \<and> (pk_sport p, pk_dport p) \<in> {(67, 68), (547, 546)})
      in pk_state p \<in> {''established'', ''related''} \<or>
         pk_state p \<noteq> ''invalid'' \<and>
           (pk_loopback p \<or>
            pk_source p \<notin> set banned \<and>
              (upkeep \<or> (if fwc_restrict c \<and> fwc_trusted c \<noteq> [] then trusted \<and> served else trusted \<or> served))))"

text \<open>Networks as \<open>putFirewall\<close> stores them.\<close>

definition networks_ok :: "firewall_config \<Rightarrow> bool" where
  "networks_ok c \<longleftrightarrow> list_all (\<lambda>n. isValidCidr n \<and> js_trim n = n) (fwc_trusted c)"

subsection \<open>The text read back\<close>

definition network_char :: "char \<Rightarrow> bool" where
  "network_char c \<longleftrightarrow> is_hex c \<or> c \<in> set ''.:/''"

lemma split_chars: "c \<in> set s \<Longrightarrow> c = d \<or> (\<exists>w \<in> set (split_on d s). c \<in> set w)"
proof (induction s)
  case (Cons a s)
  show ?case
  proof (cases "c \<in> set s")
    case True
    then show ?thesis using Cons.IH by (auto split: list.splits)
  qed (use Cons.prems in \<open>auto split: list.splits\<close>)
qed simp

lemma digit_hex: "is_digit c \<Longrightarrow> is_hex c"
  by (simp add: is_digit_def is_hex_def Let_def)

lemma prefix_chars: "digits_between lo hi s \<Longrightarrow> c \<in> set s \<Longrightarrow> network_char c"
  by (auto simp: digits_between_def list_all_iff network_char_def digit_hex)

lemma cidr_chars:
  assumes "isValidCidr n" and "c \<in> set (js_trim n)"
  shows "network_char c"
proof -
  define parts where "parts = split_on (CHR ''/'') (js_trim n)"
  obtain addr ps where parts: "parts = addr # ps" by (cases parts) (simp_all add: parts_def)
  have valid: "length ps \<le> 1" "\<not> dotted_quad addr \<Longrightarrow> list_all (\<lambda>c. is_hex c \<or> c = CHR '':'') addr"
    "\<And>p. ps = [p] \<Longrightarrow> digits_between 1 2 p \<or> digits_between 1 3 p"
    using assms(1) unfolding isValidCidr_def Let_def parts_def [symmetric] parts by (auto split: if_splits)
  have addr: "network_char c" if c: "c \<in> set addr" for c
  proof (cases "dotted_quad addr")
    case True
    then have "\<forall>w \<in> set (split_on (CHR ''.'') addr). digits_between 1 3 w" by (simp add: dotted_quad_def Let_def list_all_iff)
    then show ?thesis using split_chars [OF c, of "CHR ''.''"] prefix_chars by (fastforce simp: network_char_def)
  next
    case False
    then show ?thesis using valid(2) c by (auto simp: network_char_def list_all_iff)
  qed
  have bits: "network_char c" if "p \<in> set ps" "c \<in> set p" for p c
  proof -
    have "ps = [p]" using valid(1) that(1) by (cases ps) auto
    then show ?thesis using valid(3) that(2) prefix_chars by blast
  qed
  have "c = CHR ''/'' \<or> (\<exists>w \<in> set (addr # ps). c \<in> set w)"
    using split_chars [OF assms(2), of "CHR ''/''"] unfolding parts_def [symmetric] parts .
  then show ?thesis
  proof (elim disjE bexE)
    fix w
    assume "w \<in> set (addr # ps)" "c \<in> set w"
    then show ?thesis using addr bits by (cases "w = addr") auto
  qed (simp add: network_char_def)
qed

lemma network_chars: "networks_ok c \<Longrightarrow> n \<in> set (fwc_trusted c) \<Longrightarrow> x \<in> set n \<Longrightarrow> network_char x"
  using cidr_chars [of n x] by (simp add: networks_ok_def list_all_iff)

lemma network_not_empty: "isValidCidr n \<Longrightarrow> js_trim n = n \<Longrightarrow> n \<noteq> ''''"
  by (auto simp: isValidCidr_def)

lemma not_network: "\<not> network_char (CHR 0x0A)" "\<not> network_char (CHR '','')" "\<not> network_char (CHR '' '')"
  by code_simp+

text \<open>Blocks.\<close>

lemma read_skip: "list_all (\<lambda>l. \<not> opens_block l) ls \<Longrightarrow> read_blocks None (ls @ r) = read_blocks None r"
  by (induction ls) simp_all

lemma read_body: "''}'' \<notin> set b \<Longrightarrow> read_blocks (Some (h, a)) (b @ ''}'' # r) = (h, a @ b) # read_blocks None r"
  by (induction b arbitrary: a) auto

lemma read_block:
  "opens_block l \<Longrightarrow> ''}'' \<notin> set b \<Longrightarrow>
   read_blocks None (l # b @ ''}'' # r) = (take (length l - 2) l, b) # read_blocks None r"
  using read_body [of b "take (length l - 2) l" "[]" r] by simp

lemma unindent_simps [simp]:
  "unindent [] = []" "unindent (c # s) = (if c = CHR '' '' then unindent s else c # s)"
  by (simp_all add: unindent_def)

lemma unindent_network: "\<forall>x \<in> set n. network_char x \<Longrightarrow> unindent n = n"
  using not_network(3) by (cases n) (auto simp: unindent_def)

text \<open>The lines of the generated text.\<close>

definition ruleset_lines :: "firewall_config \<Rightarrow> string list" where
  "ruleset_lines c = ruleset_head @ trusted_lines c @ banned_lines @ input_head @ service_rules c @ ruleset_tail"

definition clean_lines :: "string list \<Rightarrow> bool" where
  "clean_lines ls \<longleftrightarrow> list_all (\<lambda>l. CHR 0x0A \<notin> set l) ls"

lemma clean_append [simp]: "clean_lines (a @ b) \<longleftrightarrow> clean_lines a \<and> clean_lines b"
  by (simp add: clean_lines_def)

lemma clean_fixed: "clean_lines ruleset_head" "clean_lines banned_lines" "clean_lines input_head" "clean_lines ruleset_tail"
  by code_simp+

lemma clean_trusted: "networks_ok c \<Longrightarrow> clean_lines (trusted_lines c)"
proof -
  assume ok: "networks_ok c"
  have "CHR 0x0A \<notin> set (join '', '' ns)" if "set ns \<subseteq> set (fwc_trusted c)" for ns
  proof -
    have "\<forall>n \<in> set ns. CHR 0x0A \<notin> set n" using that network_chars [OF ok] not_network(1) by blast
    then show ?thesis by (induction "'', ''" ns rule: join.induct) auto
  qed
  then show ?thesis
    by (auto simp: trusted_lines_def set_lines_def clean_lines_def trusted4_def trusted6_def)
qed

definition guard_texts :: "(string \<times> nft_match list) list" where
  "guard_texts = [('''', []), (''ip saddr @trusted4 '', [SourceIn False ''trusted4'']), (''ip6 saddr @trusted6 '', [SourceIn True ''trusted6''])]"

definition service_line_ok :: "string \<Rightarrow> nat \<Rightarrow> string \<times> nft_match list \<Rightarrow> bool" where
  "service_line_ok proto port g \<longleftrightarrow>
     (let l = ''    '' @ fst g @ proto @ '' dport '' @ js_nat port @ '' accept''; u = unindent l in
      CHR 0x0A \<notin> set l \<and> u \<noteq> ''}'' \<and> rule_line u \<and>
      read_rule (split_on (CHR '' '') u) = Some (snd g @ [Dport proto port], True))"

lemma port_words: "split_on (CHR '' '') (js_nat n @ '' accept'') = [js_nat n, ''accept'']"
proof -
  have "CHR '' '' \<notin> set (js_nat n)" using js_nat_digits [of n] by (auto simp: list_all_iff is_digit_def code_unit_def)
  then show ?thesis using split_on_append [of "CHR '' ''" "js_nat n" "''accept''"] by (simp add: split_on_plain)
qed

lemma port_no_line_feed: "CHR 0x0A \<notin> set (js_nat n)"
  using js_nat_digits [of n] by (auto simp: list_all_iff is_digit_def code_unit_def)

lemma service_line_ok: "proto \<in> {''tcp'', ''udp''} \<Longrightarrow> g \<in> set guard_texts \<Longrightarrow> service_line_ok proto port g"
  by (auto simp: service_line_ok_def guard_texts_def rule_line_def starts_with_def port_words port_no_line_feed)

lemma services_plain:
  "list_all (\<lambda>s. CHR 0x0A \<notin> set (fsv_name s) \<and> list_all (\<lambda>(proto, port). proto \<in> {''tcp'', ''udp''}) (fsv_ports s)) FIREWALL_SERVICES"
  by code_simp

text \<open>What a run of lines of the chain says.\<close>

definition reads :: "string list \<Rightarrow> (nft_match list \<times> bool) list \<Rightarrow> bool" where
  "reads ls rs \<longleftrightarrow> clean_lines ls \<and> ''}'' \<notin> set (map unindent ls) \<and>
     those (map (\<lambda>l. read_rule (split_on (CHR '' '') l)) (filter rule_line (map unindent ls))) = Some rs"

lemma those_append: "those (xs @ ys) = (case those xs of None \<Rightarrow> None | Some a \<Rightarrow> map_option (append a) (those ys))"
  by (induction xs; cases "those ys") (auto split: option.splits)

lemma reads_append: "reads a x \<Longrightarrow> reads b y \<Longrightarrow> reads (a @ b) (x @ y)"
  by (auto simp: reads_def those_append)

lemma reads_Nil: "reads [] []"
  by (simp add: reads_def clean_lines_def)

lemma reads_concat: "(\<And>x. x \<in> set xs \<Longrightarrow> reads (f x) (g x)) \<Longrightarrow> reads (concat (map f xs)) (concat (map g xs))"
  by (induction xs) (simp_all add: reads_Nil reads_append)

lemma concat_single: "concat (map (\<lambda>g. [F g]) gs) = map F gs"
  by (induction gs) simp_all

definition service_rule_list :: "nft_match list list \<Rightarrow> firewall_service \<Rightarrow> (nft_match list \<times> bool) list" where
  "service_rule_list gs s = concat (map (\<lambda>(proto, port). map (\<lambda>g. (g @ [Dport proto port], True)) gs) (fsv_ports s))"

lemma reads_service_line: "service_line_ok proto port g \<Longrightarrow>
   reads [''    '' @ fst g @ proto @ '' dport '' @ js_nat port @ '' accept''] [(snd g @ [Dport proto port], True)]"
  by (auto simp: service_line_ok_def reads_def clean_lines_def Let_def)

lemma reads_service:
  assumes "s \<in> set FIREWALL_SERVICES" and "set gs \<subseteq> set guard_texts"
  shows "reads (service_lines (map fst gs) s) (service_rule_list (map snd gs) s)"
proof -
  have plain: "CHR 0x0A \<notin> set (fsv_name s)" "\<And>q. q \<in> set (fsv_ports s) \<Longrightarrow> fst q \<in> {''tcp'', ''udp''}"
    using services_plain assms(1) by (fastforce simp: list_all_iff)+
  have comment: "reads [''    # '' @ fsv_name s] []"
    using plain(1) by (simp add: reads_def clean_lines_def rule_line_def starts_with_def)
  have rule: "reads (concat (map (\<lambda>g. [''    '' @ fst g @ fst q @ '' dport '' @ js_nat (snd q) @ '' accept'']) gs))
     (concat (map (\<lambda>g. [(snd g @ [Dport (fst q) (snd q)], True)]) gs))" if q: "q \<in> set (fsv_ports s)" for q
  proof (rule reads_concat)
    fix g
    assume "g \<in> set gs"
    then show "reads [''    '' @ fst g @ fst q @ '' dport '' @ js_nat (snd q) @ '' accept''] [(snd g @ [Dport (fst q) (snd q)], True)]"
      using reads_service_line service_line_ok plain(2) [OF q] assms(2) by blast
  qed
  have "reads (concat (map (\<lambda>q. concat (map (\<lambda>g. [''    '' @ fst g @ fst q @ '' dport '' @ js_nat (snd q) @ '' accept'']) gs)) (fsv_ports s)))
     (concat (map (\<lambda>q. concat (map (\<lambda>g. [(snd g @ [Dport (fst q) (snd q)], True)]) gs)) (fsv_ports s)))"
    by (rule reads_concat) (rule rule)
  then show ?thesis using reads_append [OF comment]
    by (simp add: service_lines_def service_rule_list_def concat_single split_def o_def)
qed

definition guards :: "firewall_config \<Rightarrow> (string \<times> nft_match list) list" where
  "guards c = (if trusted4 c \<noteq> [] then [(''ip saddr @trusted4 '', [SourceIn False ''trusted4''])] else []) @
     (if trusted6 c \<noteq> [] then [(''ip6 saddr @trusted6 '', [SourceIn True ''trusted6''])] else [])"

definition head_rules :: "(nft_match list \<times> bool) list" where
  "head_rules = [([CtState [''established'', ''related'']], True), ([CtState [''invalid'']], False), ([OnLoopback], True),
     ([SourceIn False ''banned4''], False), ([SourceIn True ''banned6''], False), ([Ipv4Protocol ''icmp''], True),
     ([L4Proto ''ipv6-icmp''], True), ([Sport ''udp'' 67, Dport ''udp'' 68], True), ([Sport ''udp'' 547, Dport ''udp'' 546], True)]"

definition tail_rules :: "firewall_config \<Rightarrow> (nft_match list \<times> bool) list" where
  "tail_rules c =
     (if fwc_restrict c \<and> fwc_trusted c \<noteq> [] then concat (map (service_rule_list (map snd (guards c))) (enabled_services c))
      else map (\<lambda>g. (snd g, True)) (guards c) @ concat (map (service_rule_list [[]]) (enabled_services c)))"

lemma reads_head: "reads (tl input_head) head_rules"
  by (simp add: reads_def) code_simp

lemma reads_enabled:
  assumes "set gs \<subseteq> set guard_texts"
  shows "reads (concat (map (service_lines (map fst gs)) (enabled_services c)))
     (concat (map (service_rule_list (map snd gs)) (enabled_services c)))"
  by (rule reads_concat) (use reads_service assms in \<open>auto simp: enabled_services_def\<close>)

lemma reads_fixed:
  "reads [''    # Everything below is limited to the trusted networks.''] []"
  "reads [''    # Trusted networks reach everything, whatever is toggled below.''] []" "reads [''''] []"
  "reads [''    ip saddr @trusted4 accept''] [([SourceIn False ''trusted4''], True)]"
  "reads [''    ip6 saddr @trusted6 accept''] [([SourceIn True ''trusted6''], True)]"
  by (simp_all add: reads_def clean_lines_def rule_line_def starts_with_def)

lemma guards_subset: "set (guards c) \<subseteq> set guard_texts"
  by (auto simp: guards_def guard_texts_def)

lemma reads_services: "reads (service_rules c) (tail_rules c)"
proof (cases "fwc_restrict c \<and> fwc_trusted c \<noteq> []")
  case True
  have "map fst (guards c) = (if trusted4 c \<noteq> [] then [''ip saddr @trusted4 ''] else []) @ (if trusted6 c \<noteq> [] then [''ip6 saddr @trusted6 ''] else [])"
    by (simp add: guards_def)
  then show ?thesis using True reads_append [OF reads_fixed(1) reads_enabled [OF guards_subset [of c], of c]]
    by (simp add: service_rules_def tail_rules_def)
next
  case False
  have open': "reads (concat (map (service_lines ['''']) (enabled_services c))) (concat (map (service_rule_list [[]]) (enabled_services c)))"
    using reads_enabled [of "[('''', [])]" c] by (simp add: guard_texts_def)
  have nets: "fwc_trusted c = [] \<longleftrightarrow> trusted4 c = [] \<and> trusted6 c = []"
    by (auto simp: trusted4_def trusted6_def filter_empty_conv)
  let ?four = "if trusted4 c \<noteq> [] then [''    ip saddr @trusted4 accept''] else []"
  let ?six = "if trusted6 c \<noteq> [] then [''    ip6 saddr @trusted6 accept''] else []"
  have sources: "reads (?four @ ?six) (map (\<lambda>g. (snd g, True)) (guards c))"
    using reads_append [OF reads_fixed(4,5)] reads_fixed(4,5) reads_Nil by (simp add: guards_def)
  note announced = reads_append [OF reads_append [OF reads_fixed(2) reads_append [OF sources reads_fixed(3)]] open']
  show ?thesis
  proof (cases "fwc_trusted c = []")
    case True
    then show ?thesis using open' nets by (simp add: service_rules_def tail_rules_def guards_def)
  next
    case trusted: False
    then show ?thesis using False announced by (simp add: service_rules_def tail_rules_def)
  qed
qed

lemma reads_input: "reads (tl input_head @ service_rules c) (head_rules @ tail_rules c)"
  by (rule reads_append [OF reads_head reads_services])

text \<open>The blocks of the generated text.\<close>

definition set_block :: "string \<Rightarrow> string \<Rightarrow> string list \<Rightarrow> (string \<times> string list) list" where
  "set_block name type networks =
     (if networks = [] then []
      else [(''set '' @ name, [''type '' @ type, ''flags interval'', ''elements = { '' @ join '', '' networks @ '' }''])])"

definition fixed_blocks :: "(string \<times> string list) list" where
  "fixed_blocks = [(''set banned4'', [''type ipv4_addr'', ''flags dynamic,timeout'']),
     (''set banned6'', [''type ipv6_addr'', ''flags dynamic,timeout''])]"

definition ruleset_blocks :: "firewall_config \<Rightarrow> (string \<times> string list) list" where
  "ruleset_blocks c =
     set_block ''trusted4'' ''ipv4_addr'' (trusted4 c) @ set_block ''trusted6'' ''ipv6_addr'' (trusted6 c) @ fixed_blocks @
     (''chain input'', map unindent (tl input_head @ service_rules c)) # read_blocks None (map unindent (tl ruleset_tail))"

lemma read_head: "read_blocks None (map unindent ruleset_head @ r) = read_blocks None r"
proof (rule read_skip)
  show "list_all (\<lambda>l. \<not> opens_block l) (map unindent ruleset_head)" by code_simp
qed

lemma set_header: "opens_block ''set trusted4 {''" "opens_block ''set trusted6 {''" "opens_block ''set banned4 {''"
  "opens_block ''set banned6 {''" "opens_block ''chain input {''" "\<not> opens_block ''''"
  by code_simp+

lemma read_set:
  assumes "opens_block (''set '' @ name @ '' {'')"
  shows "read_blocks None (map unindent (set_lines name type ns) @ r) = set_block name type ns @ read_blocks None r"
  using assms read_block [of "''set '' @ name @ '' {''" "[''type '' @ type, ''flags interval'', ''elements = { '' @ join '', '' ns @ '' }'']" r]
  by (simp add: set_lines_def set_block_def)

lemma read_trusted:
  "read_blocks None (map unindent (trusted_lines c) @ r) =
     set_block ''trusted4'' ''ipv4_addr'' (trusted4 c) @ set_block ''trusted6'' ''ipv6_addr'' (trusted6 c) @ read_blocks None r"
proof (cases "fwc_trusted c = []")
  case False
  then show ?thesis using read_set [of "''trusted4''"] read_set [of "''trusted6''"] set_header
    by (simp add: trusted_lines_def)
qed (simp add: trusted_lines_def set_block_def trusted4_def trusted6_def)

lemma read_banned: "read_blocks None (map unindent banned_lines @ r) = fixed_blocks @ read_blocks None r"
  using set_header by (simp add: banned_lines_def fixed_blocks_def)

lemma read_input:
  "read_blocks None (map unindent (input_head @ service_rules c) @ map unindent ruleset_tail) =
     (''chain input'', map unindent (tl input_head @ service_rules c)) # read_blocks None (map unindent (tl ruleset_tail))"
proof -
  have head: "map unindent input_head = ''chain input {'' # map unindent (tl input_head)" by (simp add: input_head_def)
  have tail: "map unindent ruleset_tail = ''}'' # map unindent (tl ruleset_tail)" by (simp add: ruleset_tail_def)
  have "''}'' \<notin> set (map unindent (tl input_head @ service_rules c))" using reads_input [of c] by (simp add: reads_def)
  from read_block [OF set_header(5) this, of "map unindent (tl ruleset_tail)"] show ?thesis
    by (simp only: map_append head tail append.simps append_assoc) simp
qed

lemma generated_blocks:
  assumes "networks_ok c"
  shows "nft_blocks (generateRuleset c) = ruleset_blocks c"
proof -
  have "clean_lines (service_rules c)" using reads_services by (simp add: reads_def)
  then have "clean_lines (ruleset_lines c)" using clean_fixed clean_trusted [OF assms] by (simp add: ruleset_lines_def)
  moreover have "ruleset_lines c \<noteq> []" by (simp add: ruleset_lines_def ruleset_head_def)
  ultimately have "split_on (CHR 0x0A) (generateRuleset c) = ruleset_lines c"
    using split_on_join [of "ruleset_lines c" "CHR 0x0A"]
    by (simp add: generateRuleset_def ruleset_lines_def [symmetric] clean_lines_def list_all_iff)
  then show ?thesis using read_input
    by (simp add: nft_blocks_def ruleset_lines_def read_head read_trusted read_banned ruleset_blocks_def)
qed

lemma split_elements:
  "ns \<noteq> [] \<Longrightarrow> \<forall>n \<in> set ns. CHR '','' \<notin> set n \<Longrightarrow>
   split_on (CHR '','') (join '', '' ns) = hd ns # map (\<lambda>n. '' '' @ n) (tl ns)"
proof (induction ns)
  case (Cons n ns)
  show ?case
  proof (cases "ns = []")
    case True
    then show ?thesis using Cons.prems by (simp add: split_on_plain)
  next
    case False
    have "split_on (CHR '','') (n @ CHR '','' # ('' '' @ join '', '' ns)) =
        split_on (CHR '','') n @ split_on (CHR '','') ('' '' @ join '', '' ns)" by (rule split_on_append)
    also have "\<dots> = n # ('' '' @ hd ns) # map (\<lambda>n. '' '' @ n) (tl ns)"
      using Cons False by (simp add: split_on_plain)
    finally have "split_on (CHR '','') (n @ CHR '','' # ('' '' @ join '', '' ns)) = n # map (\<lambda>n. '' '' @ n) ns"
      using False by (cases ns) simp_all
    then show ?thesis using False by (simp add: join_Cons)
  qed
qed simp

lemma elements_back:
  assumes "ns \<noteq> []" and "\<forall>n \<in> set ns. \<forall>x \<in> set n. network_char x"
  shows "map unindent (split_on (CHR '','') (join '', '' ns)) = ns"
proof -
  have "\<forall>n \<in> set ns. CHR '','' \<notin> set n" using assms(2) not_network(2) by blast
  then have "map unindent (split_on (CHR '','') (join '', '' ns)) = unindent (hd ns) # map unindent (tl ns)"
    using split_elements [OF assms(1)] by simp
  also have "\<dots> = map unindent ns" using assms(1) by (cases ns) simp_all
  also have "\<dots> = ns" using assms(2) unindent_network by (simp add: map_idI)
  finally show ?thesis .
qed

lemma find_elements:
  "List.find (\<lambda>l. starts_with l ''elements = { '') [''type '' @ type, ''flags interval'', ''elements = { '' @ s @ '' }''] =
     Some (''elements = { '' @ s @ '' }'')"
  by (simp add: starts_with_def)

lemma tail_blocks: "map_of (read_blocks None (map unindent (tl ruleset_tail))) ''set trusted4'' = None"
  "map_of (read_blocks None (map unindent (tl ruleset_tail))) ''set trusted6'' = None"
  by code_simp+

lemma generated_sets:
  assumes "networks_ok c"
  shows "set_elements (ruleset_blocks c) ''trusted4'' = trusted4 c" "set_elements (ruleset_blocks c) ''trusted6'' = trusted6 c"
    "set_elements (ruleset_blocks c) ''banned4'' = []" "set_elements (ruleset_blocks c) ''banned6'' = []"
    "\<not> runtime_set (ruleset_blocks c) ''trusted4''" "\<not> runtime_set (ruleset_blocks c) ''trusted6''"
    "runtime_set (ruleset_blocks c) ''banned4''" "runtime_set (ruleset_blocks c) ''banned6''"
proof -
  have chars: "\<forall>n \<in> set (trusted4 c). \<forall>x \<in> set n. network_char x" "\<forall>n \<in> set (trusted6 c). \<forall>x \<in> set n. network_char x"
    using network_chars [OF assms] by (auto simp: trusted4_def trusted6_def)
  note again = elements_back [OF _ chars(1)] elements_back [OF _ chars(2)]
  have find4: "map_of (ruleset_blocks c) ''set trusted4'' =
      (if trusted4 c = [] then None else Some (snd (hd (set_block ''trusted4'' ''ipv4_addr'' (trusted4 c)))))"
    using tail_blocks by (simp add: ruleset_blocks_def set_block_def fixed_blocks_def)
  have find6: "map_of (ruleset_blocks c) ''set trusted6'' =
      (if trusted6 c = [] then None else Some (snd (hd (set_block ''trusted6'' ''ipv6_addr'' (trusted6 c)))))"
    using tail_blocks by (simp add: ruleset_blocks_def set_block_def fixed_blocks_def)
  have findb: "map_of (ruleset_blocks c) ''set banned4'' = Some [''type ipv4_addr'', ''flags dynamic,timeout'']"
    "map_of (ruleset_blocks c) ''set banned6'' = Some [''type ipv6_addr'', ''flags dynamic,timeout'']"
    by (simp_all add: ruleset_blocks_def set_block_def fixed_blocks_def)
  show "set_elements (ruleset_blocks c) ''trusted4'' = trusted4 c" "set_elements (ruleset_blocks c) ''trusted6'' = trusted6 c"
    using find4 find6 again by (auto simp: set_elements_def set_block_def starts_with_def)
  show "set_elements (ruleset_blocks c) ''banned4'' = []" "set_elements (ruleset_blocks c) ''banned6'' = []"
    using findb by (simp_all add: set_elements_def starts_with_def)
  show "\<not> runtime_set (ruleset_blocks c) ''trusted4''" "\<not> runtime_set (ruleset_blocks c) ''trusted6''"
    using find4 find6 by (auto simp: runtime_set_def set_block_def)
  show "runtime_set (ruleset_blocks c) ''banned4''" "runtime_set (ruleset_blocks c) ''banned6''"
    using findb by (simp_all add: runtime_set_def)
qed

lemma generated_rules: "input_rules (ruleset_blocks c) = Some (head_rules @ tail_rules c)"
proof -
  have "map_of (ruleset_blocks c) ''chain input'' = Some (map unindent (tl input_head @ service_rules c))"
    by (simp add: ruleset_blocks_def set_block_def fixed_blocks_def)
  moreover have "''type filter hook input priority filter; policy drop;'' \<in> set (map unindent (tl input_head))"
    by (simp add: input_head_def)
  ultimately show ?thesis using reads_input [of c] by (simp add: input_rules_def reads_def)
qed

lemma first_match_accepts: "\<forall>r \<in> set rs. snd r \<Longrightarrow> first_match m rs \<longleftrightarrow> (\<exists>r \<in> set rs. list_all m (fst r))"
  by (induction rs) auto

lemma services_decide:
  "first_match m (concat (map (service_rule_list gs) ss)) \<longleftrightarrow>
     (\<exists>s \<in> set ss. \<exists>q \<in> set (fsv_ports s). \<exists>g \<in> set gs. list_all m g \<and> m (Dport (fst q) (snd q)))"
proof -
  have "\<forall>r \<in> set (concat (map (service_rule_list gs) ss)). snd r" by (auto simp: service_rule_list_def)
  from first_match_accepts [OF this] show ?thesis by (simp add: service_rule_list_def split_def image_iff)
qed

lemma sources_decide:
  "first_match m (map (\<lambda>g. (snd g, True)) gs @ rs) \<longleftrightarrow> (\<exists>g \<in> set gs. list_all m (snd g)) \<or> first_match m rs"
  by (induction gs) auto

lemma guards_trusted:
  assumes "networks_ok c"
  shows "(\<exists>g \<in> set (guards c). list_all (nft_matches inside banned (ruleset_blocks c) p) (snd g)) \<longleftrightarrow>
     (\<exists>n \<in> set (fwc_trusted c). is_v6 n = pk_v6 p \<and> inside (pk_source p) n)"
proof -
  note sets = generated_sets [OF assms]
  have "(\<exists>g \<in> set (guards c). list_all (nft_matches inside banned (ruleset_blocks c) p) (snd g)) \<longleftrightarrow>
     \<not> pk_v6 p \<and> (\<exists>n \<in> set (trusted4 c). inside (pk_source p) n) \<or> pk_v6 p \<and> (\<exists>n \<in> set (trusted6 c). inside (pk_source p) n)"
    by (cases "trusted4 c = []"; cases "trusted6 c = []") (simp_all add: guards_def sets)
  then show ?thesis by (auto simp: trusted4_def trusted6_def)
qed

text \<open>
  C33. The generated text, read back and run as \<open>nft\<close> does - sets with their elements, the first
  rule of the input chain that matches, dropping by default - accepts a packet exactly
  when the settings say so: what belongs to an accepted connection, the loopback, no banned
  source, the protocols the box lives on, and then the services switched on, for
  everybody or for the trusted networks only, or anything from a trusted network.
\<close>

theorem ruleset_enforces_policy:
  assumes "networks_ok c"
  shows "nft_accepts inside banned (generateRuleset c) p = Some (firewall_policy inside banned c p)"
proof -
  let ?m = "nft_matches inside banned (ruleset_blocks c) p"
  note sets = generated_sets [OF assms]
  have served: "(\<exists>s \<in> set (enabled_services c). \<exists>q \<in> set (fsv_ports s). pk_proto p = fst q \<and> pk_dport p = snd q) \<longleftrightarrow>
      (\<exists>s \<in> set FIREWALL_SERVICES. (fsv_always_on s \<or> fsv_id s \<in> set (fwc_allowed c)) \<and> (pk_proto p, pk_dport p) \<in> set (fsv_ports s))"
    by (force simp: enabled_services_def)
  have tail: "first_match ?m (tail_rules c) \<longleftrightarrow>
      (let trusted = (\<exists>n \<in> set (fwc_trusted c). is_v6 n = pk_v6 p \<and> inside (pk_source p) n);
           served = (\<exists>s \<in> set FIREWALL_SERVICES. (fsv_always_on s \<or> fsv_id s \<in> set (fwc_allowed c)) \<and>
             (pk_proto p, pk_dport p) \<in> set (fsv_ports s))
       in if fwc_restrict c \<and> fwc_trusted c \<noteq> [] then trusted \<and> served else trusted \<or> served)"
    unfolding Let_def guards_trusted [OF assms, of inside banned p, symmetric] served [symmetric]
    by (auto simp: tail_rules_def services_decide sources_decide)
  have head: "first_match ?m (head_rules @ r) \<longleftrightarrow> pk_state p \<in> {''established'', ''related''} \<or> pk_state p \<noteq> ''invalid'' \<and>
      (pk_loopback p \<or> pk_source p \<notin> set banned \<and>
        (\<not> pk_v6 p \<and> pk_proto p = ''icmp'' \<or> pk_proto p = ''ipv6-icmp'' \<or>
         pk_proto p = ''udp'' \<and> (pk_sport p, pk_dport p) \<in> {(67, 68), (547, 546)} \<or> first_match ?m r))" for r
    by (cases "pk_v6 p"; cases "pk_source p \<in> set banned"; simp add: head_rules_def sets; (blast)?)
  have "first_match ?m (head_rules @ tail_rules c) \<longleftrightarrow> firewall_policy inside banned c p"
    unfolding head tail firewall_policy_def Let_def by blast
  then show ?thesis by (simp add: nft_accepts_def generated_blocks [OF assms] generated_rules)
qed

definition sample_firewall :: firewall_config where
  "sample_firewall = \<lparr>fwc_enabled = True, fwc_allowed = [''smb''], fwc_trusted = [''192.168.1.0/24'', ''fd00::/8''], fwc_restrict = True\<rparr>"

theorem ruleset_enforces_policy_witness:
  "nft_accepts (\<lambda>a n. a = ''192.168.1.7'' \<and> n = ''192.168.1.0/24'') [''203.0.113.9''] (generateRuleset sample_firewall)
     \<lparr>pk_state = ''new'', pk_loopback = False, pk_v6 = False, pk_source = ''192.168.1.7'', pk_proto = ''tcp'', pk_sport = 50000, pk_dport = 445\<rparr>
   = Some True"
proof -
  have "networks_ok sample_firewall" by code_simp
  from ruleset_enforces_policy [OF this] show ?thesis
    by (simp add: firewall_policy_def sample_firewall_def FIREWALL_SERVICES_def is_v6_def)
qed

end
