(* ===== verification/FirewallStates.thy ===== *)
theory FirewallStates
  imports FirewallProps
begin

text \<open>
  The firewall as a machine: requests, the timer that undoes a change nobody confirmed, bans,
  restarts and reboots, in any order.
\<close>

subsection \<open>Stored settings\<close>

lemma plain_setting:
  assumes "k \<notin> set SECRET_SETTINGS"
  shows "getSettingOr cr (setSetting cr a b k v d) j fb = (if j = k then v else getSettingOr cr d j fb)"
  using assms by (simp add: getSettingOr_def getSetting_def settingRow_setSetting)

lemma firewall_keys: "''firewall'' \<notin> set SECRET_SETTINGS" "''honeypot_enabled'' \<notin> set SECRET_SETTINGS"
  by (simp_all add: SECRET_SETTINGS_def)

definition settings_valid :: "firewall_config \<Rightarrow> bool" where
  "settings_valid c \<longleftrightarrow> list_all (\<lambda>i. list_ex (\<lambda>s. fsv_id s = i) FIREWALL_SERVICES) (fwc_allowed c) \<and> list_all isValidCidr (fwc_trusted c)"

lemma texts_back: "List.map_filter text_of (map JStr xs) = xs"
  by (induction xs) (simp_all add: List.map_filter_simps text_of_def)

lemma json_settings: "settings_valid c \<Longrightarrow> firewall_of_json (firewall_json c) = c"
  by (cases c) (auto simp: firewall_of_json_def firewall_json_def jget_def texts_back settings_valid_def Let_def list_all_iff
      list_ex_iff text_of_def filter_id_conv)

lemma stored_settings: "settings_valid c \<Longrightarrow> getFirewallConfig cr (setFirewallConfig cr c d) = c"
  by (simp add: getFirewallConfig_def setFirewallConfig_def plain_setting firewall_keys json_roundtrip json_settings)

lemma default_valid: "settings_valid DEFAULT_FIREWALL"
  by (simp add: settings_valid_def DEFAULT_FIREWALL_def FIREWALL_SERVICES_def)

lemma read_valid: "settings_valid (getFirewallConfig cr d)"
proof -
  have "settings_valid (firewall_of_json j)" for j
    using default_valid by (auto simp: firewall_of_json_def settings_valid_def Let_def list_all_iff split: option.splits json.splits)
  then show ?thesis using default_valid by (simp add: getFirewallConfig_def split: option.splits)
qed

lemma config_cong: "db_settings d = db_settings d' \<Longrightarrow> getFirewallConfig cr d = getFirewallConfig cr d'"
  by (simp add: getFirewallConfig_def getSettingOr_def getSetting_def settingRow_def)

lemma config_honeypot: "getFirewallConfig cr (setHoneypotEnabled cr on d) = getFirewallConfig cr d"
  by (simp add: getFirewallConfig_def setHoneypotEnabled_def plain_setting firewall_keys)

subsection \<open>Events\<close>

datatype fw_event =
    PutFw string firewall_config
  | ConfirmFw string
  | RevertFw
  | TimerFw string
  | RestartFw
  | RebootFw
  | DecoyFw millis string string
  | FailFw millis string string
  | BansFw millis
  | UnbanFw millis "string option"
  | TrapFw millis "bool option"

fun fw_step :: "crypto \<Rightarrow> fw_env \<Rightarrow> fw_event \<Rightarrow> fw_server \<Rightarrow> fw_server" where
  "fw_step cr e (PutFw token b) s = snd (putFirewall cr e 90 token b s)"
| "fw_step cr e (ConfirmFw token) s = snd (confirmFirewall cr token s)"
| "fw_step cr e RevertFw s = snd (revertFirewall cr e s)"
| "fw_step cr e (TimerFw token) s =
     (case List.find (\<lambda>p. pv_token p = token) (fws_timers s) of None \<Rightarrow> s | Some p \<Rightarrow> timer_fires cr e p s)"
| "fw_step cr e RestartFw s = restarted s"
| "fw_step cr e RebootFw s = rebooted e s"
| "fw_step cr e (DecoyFw now ip url) s =
     (case decoyHook cr e now ip url (fws_db s, fws_host s) of (r, d, h) \<Rightarrow> s\<lparr>fws_db := d, fws_host := h\<rparr>)"
| "fw_step cr e (FailFw now ip reason) s =
     (case noteFailedAttempt (banAddress e now) (fwc_trusted (getFirewallConfig cr (fws_db s))) ip reason now (fws_db s, fws_host s)
      of (d, h) \<Rightarrow> s\<lparr>fws_db := d, fws_host := h\<rparr>)"
| "fw_step cr e (BansFw now) s = snd (getBans cr e now s)"
| "fw_step cr e (UnbanFw now a) s = snd (deleteBan cr e now a s)"
| "fw_step cr e (TrapFw now on) s = snd (putHoneypot cr e now on s)"

definition fw_run :: "crypto \<Rightarrow> fw_env \<Rightarrow> fw_event list \<Rightarrow> fw_server \<Rightarrow> fw_server" where
  "fw_run cr e evs s = fold (fw_step cr e) evs s"

definition stored :: "crypto \<Rightarrow> fw_server \<Rightarrow> firewall_config" where
  "stored cr s = getFirewallConfig cr (fws_db s)"

definition ruleset_of :: "firewall_config \<Rightarrow> string option" where
  "ruleset_of c = (if fwc_enabled c then Some (generateRuleset c) else None)"

text \<open>What the bans and the trap leave alone.\<close>

definition same_rules :: "fw_server \<Rightarrow> fw_server \<Rightarrow> bool" where
  "same_rules s t \<longleftrightarrow> fh_table (fws_host t) = fh_table (fws_host s) \<and> fh_saved (fws_host t) = fh_saved (fws_host s) \<and>
     fws_pending t = fws_pending s \<and> fws_timers t = fws_timers s"

lemma ban_frame:
  "fh_table (snd (helper_ban e a n now h)) = fh_table h" "fh_saved (snd (helper_ban e a n now h)) = fh_saved h"
  "fh_table (helper_unban e a h) = fh_table h" "fh_saved (helper_unban e a h) = fh_saved h"
  by (simp_all add: helper_ban_def helper_unban_def Let_def)

lemma ban_settings:
  "db_settings (snd (recordBan a r n secs now d)) = db_settings d" "db_settings (snd (recordIpFailure a now d)) = db_settings d"
  "db_settings (snd (removeBan a d)) = db_settings d" "db_settings (snd (listRecordedBans now d)) = db_settings d"
  by (simp_all add: recordBan_def clearIpFailures_def recordIpFailure_def removeBan_def listRecordedBans_def Let_def)

lemma note_frame:
  "fh_table (snd (noteFailedAttempt (banAddress e now) ns a r now (d, h))) = fh_table h"
  "fh_saved (snd (noteFailedAttempt (banAddress e now) ns a r now (d, h))) = fh_saved h"
  "db_settings (fst (noteFailedAttempt (banAddress e now) ns a r now (d, h))) = db_settings d"
  by (cases rule: noteFailedAttempt_cases [of a ns "banAddress e now" r now d h];
      simp add: banAddress_def ban_frame ban_settings)+

lemma decoy_frame:
  "fh_table (snd (snd (decoyHook cr e now ip url (d, h)))) = fh_table h"
  "fh_saved (snd (snd (decoyHook cr e now ip url (d, h)))) = fh_saved h"
  "db_settings (fst (snd (decoyHook cr e now ip url (d, h)))) = db_settings d"
  by (simp_all add: decoyHook_def noteDecoyHit_def banAddress_def ban_frame ban_settings Let_def)

lemma bans_frame:
  "fws_host (snd (getBans cr e now s)) = fws_host s" "fws_pending (snd (getBans cr e now s)) = fws_pending s"
  "fws_timers (snd (getBans cr e now s)) = fws_timers s" "stored cr (snd (getBans cr e now s)) = stored cr s"
proof -
  have "snd (getBans cr e now s) = s\<lparr>fws_db := snd (listRecordedBans now (fws_db s))\<rparr>"
    by (simp add: getBans_def bansResponse_def currentBans_def Let_def split_def)
  then show "fws_host (snd (getBans cr e now s)) = fws_host s" "fws_pending (snd (getBans cr e now s)) = fws_pending s"
    "fws_timers (snd (getBans cr e now s)) = fws_timers s" "stored cr (snd (getBans cr e now s)) = stored cr s"
    by (simp_all add: stored_def config_cong [OF ban_settings(4)])
qed

text \<open>The events that do not touch the settings of the firewall.\<close>

fun quiet :: "fw_event \<Rightarrow> bool" where
  "quiet (DecoyFw now ip url) = True"
| "quiet (FailFw now ip r) = True"
| "quiet (BansFw now) = True"
| "quiet (UnbanFw now a) = True"
| "quiet (TrapFw now on) = True"
| "quiet _ = False"

lemma after_bans:
  "same_rules s t \<Longrightarrow> stored cr t = stored cr s \<Longrightarrow> same_rules s (snd (getBans cr e now t)) \<and> stored cr (snd (getBans cr e now t)) = stored cr s"
  by (simp add: same_rules_def bans_frame)

lemma quiet_frame: "quiet ev \<Longrightarrow> same_rules s (fw_step cr e ev s) \<and> stored cr (fw_step cr e ev s) = stored cr s"
proof (cases ev)
  case (DecoyFw now ip url)
  obtain r d h where hook: "decoyHook cr e now ip url (fws_db s, fws_host s) = (r, d, h)" by (metis prod_cases3)
  then have "db_settings d = db_settings (fws_db s)" "fh_table h = fh_table (fws_host s)" "fh_saved h = fh_saved (fws_host s)"
    using decoy_frame [of cr e now ip url "fws_db s" "fws_host s"] by simp_all
  then show ?thesis using hook config_cong [of d "fws_db s" cr] by (simp add: DecoyFw same_rules_def stored_def)
next
  case (FailFw now ip r)
  let ?ns = "fwc_trusted (getFirewallConfig cr (fws_db s))"
  obtain d h where noted: "noteFailedAttempt (banAddress e now) ?ns ip r now (fws_db s, fws_host s) = (d, h)" by fastforce
  then have "db_settings d = db_settings (fws_db s)" "fh_table h = fh_table (fws_host s)" "fh_saved h = fh_saved (fws_host s)"
    using note_frame [of e now ?ns ip r "fws_db s" "fws_host s"] by simp_all
  then show ?thesis using noted config_cong [of d "fws_db s" cr] by (simp add: FailFw same_rules_def stored_def)
next
  case (BansFw now)
  then show ?thesis by (simp add: same_rules_def bans_frame)
next
  case (UnbanFw now a)
  have upd: "same_rules s (s\<lparr>fws_db := snd (removeBan x (fws_db s)), fws_host := helper_unban e x (fws_host s)\<rparr>)"
    "stored cr (s\<lparr>fws_db := snd (removeBan x (fws_db s)), fws_host := helper_unban e x (fws_host s)\<rparr>) = stored cr s" for x
    by (simp_all add: same_rules_def stored_def ban_frame config_cong [OF ban_settings(3)])
  show ?thesis
  proof (cases a)
    case None
    then show ?thesis by (simp add: UnbanFw deleteBan_def same_rules_def)
  next
    case (Some x)
    then show ?thesis using after_bans [OF upd(1) [of x] upd(2) [of x], of e now] unfolding UnbanFw fw_step.simps
      by (simp add: deleteBan_def liftBan_def unbanAddress_def Let_def split_def same_rules_def)
  qed
next
  case (TrapFw now on)
  have upd: "same_rules s (s\<lparr>fws_db := setHoneypotEnabled cr x (fws_db s)\<rparr>)"
    "stored cr (s\<lparr>fws_db := setHoneypotEnabled cr x (fws_db s)\<rparr>) = stored cr s" for x
    by (simp_all add: same_rules_def stored_def config_honeypot)
  show ?thesis
  proof (cases on)
    case None
    then show ?thesis by (simp add: TrapFw putHoneypot_def same_rules_def)
  next
    case (Some x)
    then show ?thesis using after_bans [OF upd(1) [of x] upd(2) [of x], of e now] unfolding TrapFw fw_step.simps
      by (simp add: putHoneypot_def Let_def split_def)
  qed
qed simp_all

subsection \<open>The kernel follows the settings\<close>

text \<open>An appliance on which the helper can do its work; which rulesets \<open>nft\<close> accepts is left open.\<close>

definition works :: "fw_env \<Rightarrow> bool" where
  "works e \<longleftrightarrow> fe_linux e \<and> fe_doas e \<and> fe_nft e \<and> fe_writes e \<and> fe_persists e"

definition loadable :: "fw_env \<Rightarrow> firewall_config \<Rightarrow> bool" where
  "loadable e c \<longleftrightarrow> (fwc_enabled c \<longrightarrow> fe_accepts e (generateRuleset c))"

lemma load_works:
  assumes "works e" and "loadRuleset e c h = (r, h')"
  shows "loadable e c \<Longrightarrow> r = Loaded \<and> fh_table h' = ruleset_of c \<and> fh_saved h' = ruleset_of c"
    and "\<not> loadable e c \<Longrightarrow> r = LoadError \<and> fh_table h' = fh_table h \<and> fh_saved h' = fh_saved h"
  using assms
  by (auto simp: works_def loadRuleset_def firewallStatus_def with_doas_def helper_apply_def helper_disable_def loadable_def
      ruleset_of_def Let_def split: if_splits)

definition kernel_ok :: "crypto \<Rightarrow> fw_env \<Rightarrow> fw_server \<Rightarrow> bool" where
  "kernel_ok cr e s \<longleftrightarrow> fh_table (fws_host s) = ruleset_of (stored cr s) \<and> fh_saved (fws_host s) = ruleset_of (stored cr s) \<and>
     loadable e (stored cr s) \<and> fws_timers s = (case fws_pending s of None \<Rightarrow> [] | Some p \<Rightarrow> [p]) \<and>
     (case fws_pending s of None \<Rightarrow> True | Some p \<Rightarrow> settings_valid (pv_previous p) \<and> loadable e (pv_previous p))"

lemma cancelled:
  assumes "fws_timers s = (case fws_pending s of None \<Rightarrow> [] | Some p \<Rightarrow> [p])"
  shows "cancelPendingRevert s = s\<lparr>fws_pending := None, fws_timers := []\<rparr>"
  using assms by (cases s) (auto simp: cancelPendingRevert_def split: option.splits)

lemma body_valid: "firewall_body_ok b \<Longrightarrow> list_all isValidCidr (fwc_trusted (trim_networks b)) \<Longrightarrow> settings_valid (trim_networks b)"
  by (auto simp: firewall_body_ok_def settings_valid_def trim_networks_def list_all_iff list_ex_iff)

lemma kernel_cancelled: "kernel_ok cr e s \<Longrightarrow> kernel_ok cr e (s\<lparr>fws_pending := None, fws_timers := []\<rparr>)"
  by (simp add: kernel_ok_def stored_def)

text \<open>Loading a configuration and storing it.\<close>

lemma kernel_loaded:
  assumes "works e" and "settings_valid c" and "loadable e c" and "loadRuleset e c h = (r, h')"
  shows "kernel_ok cr e \<lparr>fws_db = setFirewallConfig cr c d, fws_host = h', fws_pending = None, fws_timers = []\<rparr>"
  using load_works(1) [OF assms(1,4,3)] assms(2,3) by (simp add: kernel_ok_def stored_def stored_settings)

lemma kernel_not_loaded:
  assumes "works e" and "\<not> loadable e c" and "loadRuleset e c (fws_host s) = (r, h)" and "kernel_ok cr e s"
  shows "kernel_ok cr e (s\<lparr>fws_host := h\<rparr>)"
  using load_works(2) [OF assms(1,3,2)] assms(4) by (simp add: kernel_ok_def stored_def)

lemma kernel_put:
  assumes "works e" and "kernel_ok cr e s"
  shows "kernel_ok cr e (snd (putFirewall cr e n token b s))"
proof -
  let ?fw = "trim_networks b" and ?s1 = "s\<lparr>fws_pending := None, fws_timers := []\<rparr>"
  obtain r h where load: "loadRuleset e ?fw (fws_host s) = (r, h)" by fastforce
  have cancel: "cancelPendingRevert s = ?s1" using assms(2) by (simp add: kernel_ok_def cancelled)
  show ?thesis
  proof (cases "firewall_body_ok b \<and> list_all isValidCidr (fwc_trusted ?fw) \<and> \<not> (fwc_restrict ?fw \<and> fwc_trusted ?fw = [])")
    case False
    then show ?thesis using assms(2) by (auto simp: putFirewall_def Let_def)
  next
    case ok: True
    show ?thesis
    proof (cases "loadable e ?fw")
      case True
      have valid: "settings_valid ?fw" using ok body_valid by simp
      have r: "r = Loaded" using load_works(1) [OF assms(1) load True] by simp
      note new = kernel_loaded [OF assms(1) valid True load, of cr "fws_db s"]
      have pending: "kernel_ok cr e \<lparr>fws_db = setFirewallConfig cr ?fw (fws_db s), fws_host = h, fws_pending = Some p, fws_timers = [p]\<rparr>"
        if "pv_previous p = getFirewallConfig cr (fws_db s)" for p
        using new assms(2) read_valid that by (simp add: kernel_ok_def stored_def)
      show ?thesis using ok cancel load r new pending by (cases s) (auto simp: putFirewall_def Let_def)
    next
      case False
      then have "r = LoadError" using load_works(2) [OF assms(1) load] by simp
      moreover have "kernel_ok cr e (?s1\<lparr>fws_host := h\<rparr>)"
        using kernel_not_loaded [OF assms(1) False _ kernel_cancelled [OF assms(2)]] load by simp
      ultimately show ?thesis using ok cancel load by (cases s) (auto simp: putFirewall_def Let_def)
    qed
  qed
qed

lemma kernel_undone:
  assumes "works e" and "kernel_ok cr e s" and "fws_pending s = Some p"
  shows "snd (revertFirewall cr e s) = timer_fires cr e p s" and "kernel_ok cr e (timer_fires cr e p s)"
    and "stored cr (timer_fires cr e p s) = pv_previous p" and "fws_pending (timer_fires cr e p s) = None"
proof -
  obtain r h where load: "loadRuleset e (pv_previous p) (fws_host s) = (r, h)" by fastforce
  have p: "settings_valid (pv_previous p)" "loadable e (pv_previous p)" "fws_timers s = [p]"
    using assms(2,3) by (simp_all add: kernel_ok_def)
  have r: "r = Loaded" using load_works(1) [OF assms(1) load p(2)] by simp
  have cancel: "cancelPendingRevert s = s\<lparr>fws_pending := None, fws_timers := []\<rparr>" using assms(2) by (simp add: kernel_ok_def cancelled)
  have fires: "timer_fires cr e p s =
      \<lparr>fws_db = setFirewallConfig cr (pv_previous p) (fws_db s), fws_host = h, fws_pending = None, fws_timers = []\<rparr>"
    using load r p(3) by (cases s) (simp add: timer_fires_def timer_loads_def timer_stores_def)
  show "snd (revertFirewall cr e s) = timer_fires cr e p s"
    unfolding fires using assms(3) cancel load r by (cases s) (simp add: revertFirewall_def Let_def)
  show "kernel_ok cr e (timer_fires cr e p s)" unfolding fires by (rule kernel_loaded [OF assms(1) p(1,2) load])
  show "stored cr (timer_fires cr e p s) = pv_previous p" "fws_pending (timer_fires cr e p s) = None"
    unfolding fires using stored_settings [OF p(1)] by (simp_all add: stored_def)
qed

lemma kernel_step:
  assumes "works e" and "kernel_ok cr e s"
  shows "kernel_ok cr e (fw_step cr e ev s)"
proof (cases "quiet ev")
  case True
  then show ?thesis using quiet_frame [OF True, of s cr e] assms(2) by (simp add: same_rules_def kernel_ok_def)
next
  case False
  note gone = kernel_cancelled [OF assms(2)]
  have cancel: "cancelPendingRevert s = s\<lparr>fws_pending := None, fws_timers := []\<rparr>" using assms(2) by (simp add: kernel_ok_def cancelled)
  show ?thesis
  proof (cases ev)
    case (PutFw token b)
    then show ?thesis using kernel_put [OF assms] by simp
  next
    case RevertFw
    then show ?thesis using kernel_undone(1,2) [OF assms] assms(2) by (cases "fws_pending s") (simp_all add: revertFirewall_def)
  next
    case (TimerFw token)
    have "p \<in> set (fws_timers s) \<Longrightarrow> fws_pending s = Some p" for p
      using assms(2) by (auto simp: kernel_ok_def split: option.splits)
    then show ?thesis using TimerFw kernel_undone(2) [OF assms] assms(2)
      by (auto simp: find_Some_iff split: option.splits)
  next
    case RebootFw
    have "loadable e (stored cr s)" "fh_saved (fws_host s) = ruleset_of (stored cr s)" using assms(2) by (simp_all add: kernel_ok_def)
    then show ?thesis using gone assms(1) RebootFw
      by (auto simp: rebooted_def restarted_def kernel_ok_def stored_def loadable_def works_def ruleset_of_def Let_def)
  qed (use False gone assms(2) cancel in \<open>simp_all add: confirmFirewall_def restarted_def\<close>)
qed


subsection \<open>What waits for a confirmation\<close>

fun unconfirmed :: "string \<Rightarrow> fw_event \<Rightarrow> bool" where
  "unconfirmed token (ConfirmFw t) = (t \<noteq> token)"
| "unconfirmed token ev = quiet ev"

lemma put_pending:
  assumes "putFirewall cr e n token b s = (Sent r, s1)" and "fwr_pending r \<noteq> None"
  shows "fws_pending s1 = Some \<lparr>pv_token = token, pv_previous = stored cr s\<rparr>"
  using assms by (auto simp: putFirewall_def stored_def Let_def split: if_splits load_outcome.splits prod.splits)

lemma unconfirmed_step:
  assumes "unconfirmed (pv_token p) ev" and "fws_pending s = Some p"
  shows "fws_pending (fw_step cr e ev s) = Some p"
proof (cases "quiet ev")
  case True
  then show ?thesis using quiet_frame [OF True, of s cr e] assms(2) by (simp add: same_rules_def)
next
  case False
  then obtain t where "ev = ConfirmFw t" "t \<noteq> pv_token p" using assms(1) by (cases ev) auto
  then show ?thesis using assms(2) by (simp add: confirmFirewall_def)
qed

text \<open>
  C35. A change that asks for a confirmation and does not get it is undone: whatever else is
  done meanwhile - bans, the trap, confirmations with another token - when its time is up
  the settings and the loaded rules are the ones from before the change, and nothing is
  pending any more.
\<close>

theorem unconfirmed_change_is_undone:
  assumes "works e" and "kernel_ok cr e s" and "putFirewall cr e n token b s = (Sent r, s1)" and "fwr_pending r \<noteq> None"
    and "list_all (unconfirmed token) evs"
  shows "let t = fw_step cr e (TimerFw token) (fw_run cr e evs s1) in
     getFirewallConfig cr (fws_db t) = getFirewallConfig cr (fws_db s) \<and>
     fh_table (fws_host t) = fh_table (fws_host s) \<and> fws_pending t = None \<and> fws_timers t = []"
proof -
  let ?p = "\<lparr>pv_token = token, pv_previous = stored cr s\<rparr>" and ?t = "fw_run cr e evs s1"
  have start: "kernel_ok cr e s1" "fws_pending s1 = Some ?p"
    using kernel_put [OF assms(1,2), of n token b] put_pending [OF assms(3,4)] assms(3) by simp_all
  have "kernel_ok cr e ?t \<and> fws_pending ?t = Some ?p" using assms(5) start
    by (induction evs arbitrary: s1) (simp_all add: fw_run_def kernel_step [OF assms(1)] unconfirmed_step [of ?p, simplified])
  then have t: "kernel_ok cr e ?t" "fws_pending ?t = Some ?p" by simp_all
  note undone = kernel_undone [OF assms(1) t]
  have "fws_timers ?t = [?p]" using t by (simp add: kernel_ok_def)
  then have "fw_step cr e (TimerFw token) ?t = timer_fires cr e ?p ?t" by simp
  moreover have "fws_timers (timer_fires cr e ?p ?t) = []" using undone(2,4) by (simp add: kernel_ok_def)
  moreover have "fh_table (fws_host (timer_fires cr e ?p ?t)) = fh_table (fws_host s)"
    using undone(2,3) assms(2) by (simp add: kernel_ok_def)
  ultimately show ?thesis using undone(3,4) by (simp add: stored_def Let_def)
qed

text \<open>
  C37. A second change that \<open>nft\<close> refuses gives the first one its confirmation: the pending one is
  given up before the new rules are tried, so after the refusal nothing is left that would
  undo it, and the settings nobody confirmed stay, across everything but another change.
\<close>

theorem refused_change_confirms_the_last:
  assumes "works e" and "kernel_ok cr e s" and "fws_pending s = Some p"
    and "putFirewall cr e n token b s = (Refused status ''apply_failed'', s1)" and "list_all quiet evs"
  shows "fws_pending (fw_run cr e evs s1) = None \<and> fws_timers (fw_run cr e evs s1) = [] \<and>
     getFirewallConfig cr (fws_db (fw_run cr e evs s1)) = getFirewallConfig cr (fws_db s) \<and>
     fh_table (fws_host (fw_run cr e evs s1)) = fh_table (fws_host s)"
proof -
  let ?s = "s\<lparr>fws_pending := None, fws_timers := []\<rparr>"
  have cancel: "cancelPendingRevert s = ?s" using assms(2) by (simp add: kernel_ok_def cancelled)
  obtain r h where load: "loadRuleset e (trim_networks b) (fws_host s) = (r, h)" by fastforce
  have s1: "s1 = ?s\<lparr>fws_host := h\<rparr>" "r = LoadError"
    using assms(4) load cancel by (auto simp: putFirewall_def Let_def split: if_splits load_outcome.splits)
  then have "\<not> loadable e (trim_networks b)" using load_works(1) [OF assms(1) load] by auto
  then have "fh_table h = fh_table (fws_host s)" using load_works(2) [OF assms(1) load] by simp
  then have start: "same_rules ?s s1" "stored cr s1 = stored cr s" using s1 load_works(2) [OF assms(1) load] \<open>\<not> loadable e (trim_networks b)\<close>
    by (simp_all add: same_rules_def stored_def)
  have "same_rules ?s (fw_run cr e evs s1) \<and> stored cr (fw_run cr e evs s1) = stored cr s" using assms(5) start
  proof (induction evs arbitrary: s1)
    case (Cons ev evs)
    have "same_rules ?s (fw_step cr e ev s1)" "stored cr (fw_step cr e ev s1) = stored cr s"
      using quiet_frame [of ev s1 cr e] Cons.prems by (simp_all add: same_rules_def)
    then show ?case using Cons.IH [of "fw_step cr e ev s1"] Cons.prems(1) by (simp add: fw_run_def)
  qed (simp add: fw_run_def)
  then show ?thesis by (simp add: same_rules_def stored_def)
qed

subsection \<open>Bans of a server without privileges\<close>

text \<open>
  C38. Bans that nothing enforces: the server runs the helper for bans itself, not through
  \<open>doas\<close> as for everything else; as long as it may not change the kernel's tables, no failed
  sign-in and no decoy hit changes anything on the host, on a working appliance too, while
  the ban is recorded.
\<close>

theorem unprivileged_bans_do_nothing:
  assumes "\<not> fe_root e"
  shows "snd (noteFailedAttempt (banAddress e now) ns a reason now (d, h)) = h \<and>
    snd (noteDecoyHit cr e now a path (d, h)) = h \<and> activeBans e now h = []"
proof (intro conjI)
  have ban: "snd (banAddress e now a n h) = h" for n using assms by (simp add: banAddress_def helper_ban_def)
  then show "snd (noteFailedAttempt (banAddress e now) ns a reason now (d, h)) = h"
    by (cases rule: noteFailedAttempt_cases [of a ns "banAddress e now" reason now d h]) simp_all
  show "snd (noteDecoyHit cr e now a path (d, h)) = h" using ban by (simp add: noteDecoyHit_def Let_def)
  show "activeBans e now h = []" using assms
    by (simp add: activeBans_def helper_bans_def ban_line_def List.map_filter_simps)
qed

text \<open>Loading a ruleset empties the ban sets: any change of the firewall's settings lifts every ban.\<close>

lemma reload_lifts_bans: "works e \<Longrightarrow> loadRuleset e c h = (Loaded, h') \<Longrightarrow> fh_banned h' = []"
  by (auto simp: works_def loadRuleset_def firewallStatus_def with_doas_def helper_apply_def helper_disable_def Let_def
      split: if_splits)

subsection \<open>Whom the trap spares\<close>

definition quad :: "nat \<Rightarrow> nat \<Rightarrow> nat \<Rightarrow> nat \<Rightarrow> string" where
  "quad a b c d = join ''.'' [js_nat a, js_nat b, js_nat c, js_nat d]"

lemma quad_split: "split_on (CHR ''.'') (quad a b c d) = [js_nat a, js_nat b, js_nat c, js_nat d]"
proof -
  have "CHR ''.'' \<notin> set (js_nat n)" for n using js_nat_digits [of n] by (auto simp: list_all_iff is_digit_def code_unit_def)
  then show ?thesis unfolding quad_def by (intro split_on_join) auto
qed

lemma quad_dotted: "a < 256 \<Longrightarrow> b < 256 \<Longrightarrow> c < 256 \<Longrightarrow> d < 256 \<Longrightarrow> dotted_quad (quad a b c d)"
  using length_js_nat [of _ 2] js_nat_digits
  by (simp add: dotted_quad_def quad_split digits_between_def Suc_le_eq)

lemma quad_value:
  assumes "a < 256" "b < 256" "c < 256" "d < 256"
  shows "unat (ip_to_word (quad a b c d)) = a * 16777216 + b * 65536 + c * 256 + d"
proof -
  define n where "n = ((a * 256 + b) * 256 + c) * 256 + d"
  have "push_bit 8 (w :: 32 word) = w * 256" for w by (simp add: push_bit_eq_mult)
  then have "ip_to_word (quad a b c d) = of_nat n"
    by (simp add: ip_to_word_def quad_split octet_word_def n_def)
  moreover have "n < 2 ^ LENGTH(32)" using assms by (simp add: n_def)
  ultimately have "unat (ip_to_word (quad a b c d)) = n" by (simp only: unsigned_of_nat of_nat_id take_bit_nat_eq_self)
  then show ?thesis by (simp add: n_def)
qed

lemma quad_chars: "x \<in> set (quad a b c d) \<Longrightarrow> is_digit x \<or> x = CHR ''.''"
  using js_nat_digits by (auto simp: quad_def list_all_iff)

lemma quad_plain: "js_trim (quad a b c d) = quad a b c d" "js_lower (quad a b c d) = quad a b c d"
  "map ascii_lower_char (quad a b c d) = quad a b c d" "CHR '':'' \<notin> set (quad a b c d)" "quad a b c d \<noteq> ''''"
proof -
  have chars: "\<not> js_space x \<and> lower_char x = x \<and> ascii_lower_char x = x \<and> x \<noteq> CHR '':''" if "x \<in> set (quad a b c d)" for x
    using quad_chars [OF that] by (auto simp: is_digit_def js_space_def lower_char_def ascii_lower_char_def Let_def code_unit_def)
  show "js_trim (quad a b c d) = quad a b c d" using chars by (intro js_trim_no_space) simp
  show "js_lower (quad a b c d) = quad a b c d" "map ascii_lower_char (quad a b c d) = quad a b c d" using chars by (simp_all add: js_lower_def map_idI)
  show "CHR '':'' \<notin> set (quad a b c d)" using chars by blast
  show "quad a b c d \<noteq> ''''" by (simp add: quad_def)
qed

lemma quad_starts: "starts_with (quad a b c d) ''127.'' \<longleftrightarrow> a = 127"
proof
  assume "starts_with (quad a b c d) ''127.''"
  then obtain r where "quad a b c d = ''127.'' @ r" by (auto simp: starts_with_iff)
  moreover have "split_on (CHR ''.'') (''127.'' @ r) = ''127'' # split_on (CHR ''.'') r"
    using split_on_append [of "CHR ''.''" "''127''" r] by simp
  ultimately have "js_nat a = ''127''" using quad_split [of a b c d] by simp
  moreover have "decimal ''127'' = 127" by code_simp
  ultimately show "a = 127" using decimal_js_nat [of a] by simp
next
  assume "a = 127"
  moreover have "js_nat 127 = ''127''" by code_simp
  ultimately show "starts_with (quad a b c d) ''127.''" by (simp add: quad_def starts_with_def)
qed

lemma quad_in:
  assumes "a < 256" "b < 256" "c < 256" "d < 256" and "dotted_quad net" and "CHR ''/'' \<notin> set net" and "CHR ''/'' \<notin> set bits"
    and "p = clamp_prefix (js_number (Some bits))"
  shows "addressInCidr (quad a b c d) (net @ ''/'' @ bits) \<longleftrightarrow>
    (a * 16777216 + b * 65536 + c * 256 + d) div 2 ^ (32 - p) = unat (ip_to_word net) div 2 ^ (32 - p)"
  using addressInCidr_v4 [OF quad_dotted [OF assms(1-4)] assms(5-8)] by (simp add: quad_value [OF assms(1-4)])

lemma leading_8: "b < 256 \<Longrightarrow> c < 256 \<Longrightarrow> d < 256 \<Longrightarrow> (a * 16777216 + b * 65536 + c * 256 + d) div 16777216 = a" for a b c d :: nat
  by (rule div_nat_eqI) simp_all

lemma leading_16: "c < 256 \<Longrightarrow> d < 256 \<Longrightarrow> (a * 16777216 + b * 65536 + c * 256 + d) div 65536 = a * 256 + b" for a b c d :: nat
  by (rule div_nat_eqI) simp_all

lemma leading_bits:
  fixes a b c d :: nat
  assumes "c < 256" "d < 256"
  shows "(a * 16777216 + b * 65536 + c * 256 + d) div 1048576 = (a * 256 + b) div 16"
    and "(a * 16777216 + b * 65536 + c * 256 + d) div 4194304 = (a * 256 + b) div 64"
proof -
  have "(a * 16777216 + b * 65536 + c * 256 + d) div 65536 div 16 = (a * 256 + b) div 16" by (simp add: leading_16 [OF assms])
  then show "(a * 16777216 + b * 65536 + c * 256 + d) div 1048576 = (a * 256 + b) div 16" by (simp add: div_mult2_eq [symmetric])
  have "(a * 16777216 + b * 65536 + c * 256 + d) div 65536 div 64 = (a * 256 + b) div 64" by (simp add: leading_16 [OF assms])
  then show "(a * 16777216 + b * 65536 + c * 256 + d) div 4194304 = (a * 256 + b) div 64" by (simp add: div_mult2_eq [symmetric])
qed

lemma two_octets:
  fixes a b :: nat
  assumes "b < 256"
  shows "a * 256 + b = n \<longleftrightarrow> a = n div 256 \<and> b = n mod 256"
proof
  assume "a * 256 + b = n"
  then have "n div 256 = (b + a * 256) div 256" "n mod 256 = (b + a * 256) mod 256" by (simp_all add: add.commute)
  then show "a = n div 256 \<and> b = n mod 256" using assms by (simp add: div_mult_self1)
qed simp

definition home_quad :: "nat \<Rightarrow> nat \<Rightarrow> bool" where
  "home_quad a b \<longleftrightarrow> a = 127 \<or> a = 10 \<or> a = 172 \<and> 16 \<le> b \<and> b \<le> 31 \<or> a = 192 \<and> b = 168 \<or> a = 169 \<and> b = 254 \<or>
     a = 100 \<and> 64 \<le> b \<and> b \<le> 127"

lemma never_trapped:
  assumes "a < 256" "b < 256" "c < 256" "d < 256"
  shows "list_ex (addressInCidr (quad a b c d)) NEVER_TRAPPED \<longleftrightarrow> a \<noteq> 127 \<and> home_quad a b"
proof -
  note range = quad_in [OF assms]
  have nets: "dotted_quad ''10.0.0.0''" "dotted_quad ''172.16.0.0''" "dotted_quad ''192.168.0.0''" "dotted_quad ''169.254.0.0''"
    "dotted_quad ''100.64.0.0''" by code_simp+
  have "''10.0.0.0'' = quad 10 0 0 0" "''172.16.0.0'' = quad 172 16 0 0" "''192.168.0.0'' = quad 192 168 0 0"
    "''169.254.0.0'' = quad 169 254 0 0" "''100.64.0.0'' = quad 100 64 0 0" by code_simp+
  then have words: "unat (ip_to_word ''10.0.0.0'') = 167772160" "unat (ip_to_word ''172.16.0.0'') = 2886729728"
    "unat (ip_to_word ''192.168.0.0'') = 3232235520" "unat (ip_to_word ''169.254.0.0'') = 2851995648"
    "unat (ip_to_word ''100.64.0.0'') = 1681915904" by (simp_all only: quad_value)
  have bits: "clamp_prefix (js_number (Some ''8'')) = 8" "clamp_prefix (js_number (Some ''12'')) = 12"
    "clamp_prefix (js_number (Some ''16'')) = 16" "clamp_prefix (js_number (Some ''10'')) = 10" by code_simp+
  have mid: "a * 16 + q = 2753 \<longleftrightarrow> a = 172 \<and> q = 1" if "q < 16" for q using that by presburger
  have high: "a * 4 + q = 401 \<longleftrightarrow> a = 100 \<and> q = 1" if "q < 4" for q using that by presburger
  have parts: "(a * 256 + b) div 16 = a * 16 + b div 16" "(a * 256 + b) div 64 = a * 4 + b div 64"
    using div_mult_self1 [of 16 b "a * 16"] div_mult_self1 [of 64 b "a * 4"] by (simp_all add: mult.assoc add.commute)
  have small: "b div 16 < 16" "b div 64 < 4" using assms(2) by (simp_all add: div_less_iff_less_mult)
  have ones: "b div 16 = 1 \<longleftrightarrow> 16 \<le> b \<and> b \<le> 31" "b div 64 = 1 \<longleftrightarrow> 64 \<le> b \<and> b \<le> 127" by linarith+
  have i1: "addressInCidr (quad a b c d) ''10.0.0.0/8'' \<longleftrightarrow> a = 10"
    using range [OF nets(1) _ _ bits(1) [symmetric]] assms by (simp add: words leading_8)
  have "addressInCidr (quad a b c d) ''172.16.0.0/12'' \<longleftrightarrow> (a * 256 + b) div 16 = 2753"
    using range [OF nets(2) _ _ bits(2) [symmetric]] assms by (simp add: words leading_bits)
  then have i2: "addressInCidr (quad a b c d) ''172.16.0.0/12'' \<longleftrightarrow> a = 172 \<and> 16 \<le> b \<and> b \<le> 31"
    by (simp only: parts mid [OF small(1)] ones)
  have "addressInCidr (quad a b c d) ''192.168.0.0/16'' \<longleftrightarrow> a * 256 + b = 49320"
    using range [OF nets(3) _ _ bits(3) [symmetric]] assms by (simp add: words leading_16)
  then have i3: "addressInCidr (quad a b c d) ''192.168.0.0/16'' \<longleftrightarrow> a = 192 \<and> b = 168" by (simp add: two_octets [OF assms(2)])
  have "addressInCidr (quad a b c d) ''169.254.0.0/16'' \<longleftrightarrow> a * 256 + b = 43518"
    using range [OF nets(4) _ _ bits(3) [symmetric]] assms by (simp add: words leading_16)
  then have i4: "addressInCidr (quad a b c d) ''169.254.0.0/16'' \<longleftrightarrow> a = 169 \<and> b = 254" by (simp add: two_octets [OF assms(2)])
  have "addressInCidr (quad a b c d) ''100.64.0.0/10'' \<longleftrightarrow> (a * 256 + b) div 64 = 401"
    using range [OF nets(5) _ _ bits(4) [symmetric]] assms by (simp add: words leading_bits)
  then have i5: "addressInCidr (quad a b c d) ''100.64.0.0/10'' \<longleftrightarrow> a = 100 \<and> 64 \<le> b \<and> b \<le> 127"
    by (simp only: parts high [OF small(2)] ones)
  show ?thesis by (auto simp: NEVER_TRAPPED_def i1 i2 i3 i4 i5 home_quad_def)
qed

text \<open>
  C36. Whom the trap spares among the IPv4 addresses: exactly the loopback, the private,
  link-local and carrier-grade ranges and the trusted networks - a ban for a single
  request can only hit an address outside them.
\<close>

theorem trap_spares_home:
  assumes "a < 256" "b < 256" "c < 256" "d < 256"
  shows "isExemptFromTrap (quad a b c d) trusted \<longleftrightarrow> home_quad a b \<or> list_ex (addressInCidr (quad a b c d)) trusted"
proof -
  have first: "hd (quad a b c d) = hd (js_nat a)" by (simp add: quad_def)
  have "is_digit (hd (js_nat a))" using js_nat_digits [of a] by (cases "js_nat a") simp_all
  moreover have not_digit: "\<not> is_digit (CHR ''f'')" by code_simp
  ultimately have letters: "\<not> starts_with (quad a b c d) ''fe80:''" "\<not> starts_with (quad a b c d) ''fc''" "\<not> starts_with (quad a b c d) ''fd''"
    using first not_digit by (auto simp: starts_with_iff)
  have loops: "quad a b c d \<noteq> ''::1''" "\<not> starts_with (quad a b c d) ''::ffff:127.''"
    using quad_plain(4) [of a b c d] by (auto simp: starts_with_iff)
  have local: "quad a b c d = ''127.0.0.1'' \<Longrightarrow> a = 127" using quad_starts [of a b c d] by (simp add: starts_with_def)
  show ?thesis unfolding isExemptFromTrap_def isBannable_def Let_def never_trapped [OF assms]
    using letters loops local quad_plain [of a b c d] quad_starts [of a b c d] by (auto simp: home_quad_def)
qed

text \<open>The mapped spelling of a private address, as a listener for both families reports it, is not spared.\<close>

lemma mapped_private_trapped: "\<not> isExemptFromTrap ''::ffff:192.168.1.5'' []" "isExemptFromTrap ''192.168.1.5'' []"
  by code_simp+

text \<open>IPv6 networks are compared as text, which also narrows them: an address of the network need not start like it.\<close>

lemma v6_network_narrows: "\<not> addressInCidr ''fd12:3456::5'' ''fd00::/8''" "isValidCidr ''fd00::/8''"
  by code_simp+

subsection \<open>Instances\<close>

definition sample_fw_env :: fw_env where
  "sample_fw_env = \<lparr>fe_linux = True, fe_doas = True, fe_root = False, fe_nft = True,
     fe_accepts = (\<lambda>t. t = generateRuleset sample_firewall), fe_element = (\<lambda>a. True), fe_persists = True, fe_writes = True,
     fe_listing = (\<lambda>bans. '''')\<rparr>"

definition sample_fw_server :: fw_server where
  "sample_fw_server = \<lparr>fws_db = empty_db, fws_host = \<lparr>fh_table = None, fh_banned = [], fh_saved = None, fh_file = None\<rparr>,
     fws_pending = None, fws_timers = []\<rparr>"

lemma sample_fw_works: "works sample_fw_env"
  by (simp add: works_def sample_fw_env_def)

lemma sample_fw_default: "getFirewallConfig cr empty_db = DEFAULT_FIREWALL"
proof -
  have "json_parse '''' = None" by code_simp
  then show ?thesis by (simp add: getFirewallConfig_def getSettingOr_def getSetting_def settingRow_def empty_db_def)
qed

lemma sample_fw_start: "kernel_ok cr sample_fw_env sample_fw_server"
  by (simp add: kernel_ok_def sample_fw_server_def stored_def sample_fw_default ruleset_of_def loadable_def)
    (simp add: DEFAULT_FIREWALL_def)

lemma sample_body: "firewall_body_ok sample_firewall" "trim_networks sample_firewall = sample_firewall"
    "list_all isValidCidr (fwc_trusted sample_firewall)" "fwc_enabled sample_firewall" "fwc_trusted sample_firewall \<noteq> []"
  by code_simp+

definition pending_fw_server :: "crypto \<Rightarrow> fw_server" where
  "pending_fw_server cr = snd (putFirewall cr sample_fw_env 90 ''t1'' sample_firewall sample_fw_server)"

lemma sample_put:
  "putFirewall cr sample_fw_env 90 ''t1'' sample_firewall sample_fw_server =
     (Sent \<lparr>fwr_config = sample_firewall, fwr_pending = Some (''t1'', 90), fwr_preview = generateRuleset sample_firewall\<rparr>,
      pending_fw_server cr)"
proof -
  obtain r h where load: "loadRuleset sample_fw_env sample_firewall (fws_host sample_fw_server) = (r, h)" by fastforce
  have "loadable sample_fw_env sample_firewall" by (simp add: loadable_def sample_fw_env_def)
  then have "r = Loaded" using load_works(1) [OF sample_fw_works load] by simp
  moreover have "firewallStatus sample_fw_env h \<noteq> FwUnavailable" by (simp add: firewallStatus_def sample_fw_env_def)
  moreover have "cancelPendingRevert sample_fw_server = sample_fw_server" by (simp add: cancelPendingRevert_def sample_fw_server_def)
  ultimately have "fst (putFirewall cr sample_fw_env 90 ''t1'' sample_firewall sample_fw_server) =
      Sent \<lparr>fwr_config = sample_firewall, fwr_pending = Some (''t1'', 90), fwr_preview = generateRuleset sample_firewall\<rparr>"
    using load sample_body by (simp add: putFirewall_def Let_def)
  then show ?thesis by (simp add: pending_fw_server_def prod_eq_iff)
qed


theorem unconfirmed_change_is_undone_witness:
  "getFirewallConfig sample_crypto (fws_db (fw_step sample_crypto sample_fw_env (TimerFw ''t1'')
     (fw_run sample_crypto sample_fw_env [ConfirmFw ''t0'', BansFw 5] (pending_fw_server sample_crypto)))) = DEFAULT_FIREWALL"
proof -
  have "list_all (unconfirmed ''t1'') [ConfirmFw ''t0'', BansFw 5]" by simp
  from unconfirmed_change_is_undone [OF sample_fw_works sample_fw_start sample_put _ this] show ?thesis
    by (simp add: Let_def sample_fw_server_def sample_fw_default)
qed

definition refused_firewall :: firewall_config where
  "refused_firewall = sample_firewall\<lparr>fwc_trusted := [''192.168.1.0/24'', ''192.168.1.128/25'']\<rparr>"

lemma pending_state: "kernel_ok cr sample_fw_env (pending_fw_server cr)"
    "fws_pending (pending_fw_server cr) = Some \<lparr>pv_token = ''t1'', pv_previous = DEFAULT_FIREWALL\<rparr>"
    "getFirewallConfig cr (fws_db (pending_fw_server cr)) = sample_firewall"
  subgoal
    using kernel_put [OF sample_fw_works sample_fw_start, of cr 90 "''t1''" sample_firewall] by (simp add: pending_fw_server_def)
  subgoal
    using put_pending [OF sample_put] by (simp add: stored_def sample_fw_server_def sample_fw_default)
  subgoal
    using sample_put [of cr] sample_body body_valid [OF sample_body(1)]
    by (auto simp: putFirewall_def Let_def stored_settings split: prod.splits if_splits load_outcome.splits dest: sym [of _ "pending_fw_server cr"])
  done

lemma refused_text: "generateRuleset refused_firewall \<noteq> generateRuleset sample_firewall"
proof
  assume same: "generateRuleset refused_firewall = generateRuleset sample_firewall"
  have "networks_ok refused_firewall" "networks_ok sample_firewall" by code_simp+
  then have "trusted4 refused_firewall = trusted4 sample_firewall"
    using generated_blocks generated_sets(1) same by metis
  moreover have "trusted4 refused_firewall \<noteq> trusted4 sample_firewall" by code_simp
  ultimately show False by simp
qed

lemma refused_body: "firewall_body_ok refused_firewall" "trim_networks refused_firewall = refused_firewall"
    "list_all isValidCidr (fwc_trusted refused_firewall)" "fwc_enabled refused_firewall" "fwc_trusted refused_firewall \<noteq> []"
  by code_simp+

text \<open>Overlapping networks, which \<open>nft\<close> does not accept in a set of intervals.\<close>

lemma sample_refused:
  "fst (putFirewall cr sample_fw_env 90 ''t2'' refused_firewall (pending_fw_server cr)) = Refused 500 ''apply_failed''"
proof -
  obtain r h where load: "loadRuleset sample_fw_env refused_firewall (fws_host (cancelPendingRevert (pending_fw_server cr))) = (r, h)"
    by fastforce
  have "\<not> loadable sample_fw_env refused_firewall"
    using refused_text refused_body(4) by (simp add: loadable_def sample_fw_env_def)
  then have "r = LoadError" using load_works(2) [OF sample_fw_works load] by simp
  then show ?thesis using load refused_body by (simp add: putFirewall_def Let_def)
qed

theorem refused_change_confirms_the_last_witness:
  "fws_pending (snd (putFirewall sample_crypto sample_fw_env 90 ''t2'' refused_firewall (pending_fw_server sample_crypto))) = None \<and>
   getFirewallConfig sample_crypto
     (fws_db (snd (putFirewall sample_crypto sample_fw_env 90 ''t2'' refused_firewall (pending_fw_server sample_crypto)))) = sample_firewall"
proof -
  let ?put = "putFirewall sample_crypto sample_fw_env 90 ''t2'' refused_firewall (pending_fw_server sample_crypto)"
  have "?put = (Refused 500 ''apply_failed'', snd ?put)" using sample_refused [of sample_crypto] by (simp add: prod_eq_iff)
  from refused_change_confirms_the_last [OF sample_fw_works pending_state(1,2) this, of "[]"] show ?thesis
    by (simp add: fw_run_def pending_state(3))
qed

theorem unprivileged_bans_do_nothing_witness:
  "works sample_fw_env \<and> (\<forall>h. snd (noteDecoyHit sample_crypto sample_fw_env 0 ''203.0.113.9'' ''/.env'' (empty_db, h)) = h)"
proof -
  have "snd (noteDecoyHit sample_crypto sample_fw_env 0 ''203.0.113.9'' ''/.env'' (empty_db, h)) = h" for h
    using unprivileged_bans_do_nothing [of sample_fw_env 0 "[]" "''203.0.113.9''" "''''" empty_db h sample_crypto "''/.env''"]
    by (simp add: sample_fw_env_def)
  then show ?thesis using sample_fw_works by blast
qed

theorem trap_spares_home_witness:
  "isExemptFromTrap (quad 192 168 1 5) [] \<and> \<not> isExemptFromTrap (quad 203 0 113 9) []"
  using trap_spares_home [of 192 168 1 5 "[]"] trap_spares_home [of 203 0 113 9 "[]"] by (simp add: home_quad_def)

text \<open>
  A change that comes while the timer undoes the last one: the old ruleset is loaded, then the
  new one, then the old settings are stored; the kernel runs rules that are not the stored
  ones, and the confirmation the new change asked for finds nothing pending.
\<close>

lemma change_during_undoing:
  assumes "works e" and "kernel_ok cr e s" and "fws_pending s = Some p" and "timer_loads e p s = (Loaded, s1)"
    and "putFirewall cr e n token b s1 = (Sent r, s2)"
  shows "fh_table (fws_host (timer_stores cr p s2)) = ruleset_of (trim_networks b) \<and>
     stored cr (timer_stores cr p s2) = pv_previous p \<and> fws_pending (timer_stores cr p s2) = None"
proof -
  obtain r0 h where load: "loadRuleset e (trim_networks b) (fws_host (cancelPendingRevert s1)) = (r0, h)" by fastforce
  have p: "settings_valid (pv_previous p)" using assms(2,3) by (simp add: kernel_ok_def)
  have s2: "r0 = Loaded" "fws_host s2 = h" using assms(5) load
    by (auto simp: putFirewall_def Let_def split: if_splits load_outcome.splits)
  then have "loadable e (trim_networks b)" using load_works(2) [OF assms(1) load] by auto
  then have "fh_table (fws_host s2) = ruleset_of (trim_networks b)" using load_works(1) [OF assms(1) load] s2(2) by simp
  then show ?thesis using stored_settings [OF p] by (simp add: timer_stores_def stored_def)
qed

end
