(* ===== verification/Spec2Isabelle.thy ===== *)
theory Spec2Isabelle
  imports AuthProps AccountProps OidcProvider NfsRules TrashLinks FileSearch InstallProps ShareProps TaskProps FirewallStates
begin

text \<open>
  OpenNAS, the web desktop of a storage server: a model of its API (\<open>apps/api/src\<close>).

  The program.  A Fastify server keeps its state in one SQLite database and in a tree of
  files.  A request first meets the hook that turns a cookie into a session
  (\<open>auth/plugin.ts\<close>) and the gate of pending duties (\<open>auth/pending.ts\<close>); the handler then asks
  who may do what: the role for administration, \<open>files/access.ts\<close> for every path, the list
  of allowed apps and the manifest for everything done through an app.  Shares are
  folders with grants for users and groups (\<open>db/shares.ts\<close>), narrowed by rules on folders
  below them (\<open>db/acls.ts\<close>); a virtual path is resolved inside the folder of its share
  (\<open>files/paths.ts\<close>).  Apps reach files only through \<open>db/app-grants.ts\<close>, which asks
  \<open>files/access.ts\<close> again, and the network only through \<open>apps/fetch-proxy.ts\<close>; what they schedule
  is checked again when it runs (\<open>apps/scheduler.ts\<close>).

  Conventions.  A table is a list of records in row order (theory Schema), all tables
  together are the record \<open>db\<close>, and a query is a filter, a lookup or an update on such a list
  (Prelude).  A handler takes the state and returns its answer, \<open>Sent\<close> or \<open>Refused\<close> with the
  status, together with the new state; an exception is a value of a sum.  Time is the
  argument \<open>now\<close> in milliseconds, a drawn identifier an argument with freshness as a hypothesis
  where it matters.  Strings are character lists; SQLite's, JavaScript's and node:path's
  operations on them are in JsText, JSON in Json.  The tree of files is a list of paths
  and nodes (FileSystem).  Words appear where the code uses bit operations: networks and
  addresses (Cidr, FetchProxy), one-time codes (Totp), base32 (Base32).

  Theories.
  \<^item> Prelude, JsText, Json, Schema, Samples: shared lemmas, strings, JSON values, the tables,
    and a concrete instance of the parameters for the witnesses.
  \<^item> Contracts: the locales \<open>owned_rows\<close>, \<open>single_use\<close> and \<open>failure_counter\<close> that state what one part promises to
    another; each is interpreted on the model's own operations.
  \<^item> Users, UserGroups: accounts and groups (\<open>db/users.ts\<close>, \<open>db/groups.ts\<close>).
  \<^item> Secrets, Sessions, Attempts, Cidr, Base32, Totp, Tokens: sealing and password hashing,
    sessions, lockouts and bans, two-factor codes, challenges, single sign-on states and
    passkeys (\<open>db/secrets.ts\<close>, \<open>db/sessions.ts\<close>, \<open>db/login-attempts.ts\<close>, \<open>db/ip-bans.ts\<close>,
    \<open>auth/totp.ts\<close>, \<open>db/challenges.ts\<close>, \<open>db/oidc.ts\<close>, \<open>db/credentials.ts\<close>).
  \<^item> AuthGate, AuthRoutes, AuthProps, AccountProps: the request hook, the sign-in routes
    (\<open>auth/routes.ts\<close>) and what they guarantee; the refinement of sessions to a map.
  \<^item> OidcProvider: OpenNAS as an identity provider (\<open>oidc/\<close>).
  \<^item> Shares, Acls, NfsRules: shares and grants, folder rules, export rules.
  \<^item> FilePaths, FileAccess, FileSystem, FileRoutes, FileProps: virtual paths, the access
    decision, the tree, the file routes (\<open>files/routes.ts\<close>, \<open>files/archive.ts\<close>) and what they change.
  \<^item> TrashLinks, FileSearch: the recycle bin, share links and the public endpoint, search.
  \<^item> FetchProxy, Apps, AppGrants, AppSettings, Notifications, Scheduler, AppRoutes, AppFiles,
    AppProps, AppSamples: apps, their storage, grants, settings, outbound requests, tasks
    and routes (\<open>apps/\<close>, \<open>notifications/\<close>).
  \<^item> Packages, Staging, Repos, Updates, InstallProps: the checks of a package and its signature
    (\<open>apps/framework.ts\<close>), consent and the administrator's app routes (\<open>apps/staging.ts\<close>,
    \<open>apps/routes.ts\<close>), repositories, catalogues and updates (\<open>apps/repos.ts\<close>, \<open>apps/repo.ts\<close>).
  \<^item> AdminUsers, AdminProps, AdminShares, ShareProps: the administrator's routes for accounts,
    policies, shares, quotas, rules and groups (\<open>admin/routes.ts\<close>, \<open>auth/hibp.ts\<close>).
  \<^item> Services, ServiceProps: the settings of the file services and the generated \<open>smb.conf\<close>,
    \<open>exports\<close> and Avahi record (\<open>services/services.ts\<close>).
  \<^item> Calendar, SystemTasks, TaskProps: schedules in local time, the table of maintenance tasks,
    their runner and routes (\<open>db/system-tasks.ts\<close>, \<open>system/task-runner.ts\<close>).
  \<^item> Firewall, FirewallProps, FirewallStates: settings, ruleset, host helper, bans, decoy paths
    (\<open>system/firewall.ts\<close>, \<open>system/honeypot.ts\<close>, \<open>packaging/opennas-firewall\<close>) and the routes with
    the change that waits for a confirmation.

  What is proved.  Sign-in: what a session required, uniform failures, no replay of codes,
  lockout.  Files: paths stay in granted shares, writes need write access, an archive cannot
  leave its folder, the tree stays a tree, deleting and restoring is the identity, searches
  are sound and complete.  Sharing: the effective level, the deciding folder rule, what the
  public endpoint requires.  Apps: nothing beyond what the user granted and may do,
  private folders, bounded grants and histories, connections only to listed public hosts,
  a forbidden app looks like an absent one.  Installing: no permission without consent,
  packages unpack into their own folder only, a signature covers every file, removal leaves
  nothing.  Administration: an enabled administrator remains, a disabled account is signed out,
  creating a share is all or nothing, Samba and NFS are told what the web allows and the files
  of the daemons follow the tables.  Maintenance: the next run is exact, the timer leaves
  nothing overdue and never overlaps runs of its own, and the root helper is only given
  what it accepts.  Firewall: the ruleset read back is the policy, the kernel follows the
  settings, a change nobody confirms is undone, the decoy trap spares exactly the home
  networks.  Theorems of kind error state behaviour that
  differs from what the code or its comments promise.

  Bounds.  Loops that count down in the code are structural recursions: at most three
  redirects, twenty-five app tasks a tick, forty hits and four thousand folders a search.
  The search for a free name tries one name more than the tree has entries, which always
  suffices (\<open>uniqueDir_free\<close>).  The JSON parser's fuel is the length of the text.

  Parameters.  \<open>crypto\<close> stands for Node's hashes, AES-GCM and scrypt (\<open>sound_gcm\<close> and \<open>sound_scrypt\<close>
  say what is assumed of them); \<open>package_env\<close> and \<open>repo_env\<close> for unzipping, decoding,
  the signature check and what a repository answers; \<open>host_env\<close> and \<open>services_env\<close> for the
  breach service and the root helper of accounts and shares, \<open>task_env\<close> for that of maintenance, \<open>fw_env\<close> for what \<open>nft\<close> accepts and prints;
  local time is UTC moved by a fixed offset, after 1970; \<open>collate\<close> for \<open>localeCompare\<close>; the zip codec, the signer of cookies,
  the URL parser, the resolver and remote servers (\<open>world\<close>), the WebAuthn and OpenID
  libraries and the firewall are arguments of the definitions that use them.

  Not modelled.  The web client under \<open>apps/web\<close> (components, stores, translations), the
  integration with the host under \<open>system/\<close> (disks, ZFS, RAID, network, power, updates), virtual
  machines and containers, the administration routes that only wrap those (accounts, shares,
  groups, services, maintenance and the firewall are modelled), system packages and
  themes, thumbnails, the audit log, notes and preferences, and the start-up
  code: they call external programs or draw, and decide little.
\<close>

end
